(* ===== verification/Prelude.thy ===== *)
theory Prelude
  imports Main "HOL-Library.Word" "HOL-Library.Monad_Syntax" "HOL-Library.Multiset"
begin

text \<open>
  Shared vocabulary of the development: the machine integers of the C++ sources, arrays with
  checked access, bounded \<open>for\<close> loops, and the lemma collections the component theories use.

  The value \<^const>\<open>None\<close> of a result type \<open>'a option\<close> stands for undefined behaviour of the C++ program:
  an array index out of range, a null \<open>shared_ptr\<close> dereferenced, a division by zero. A model
  function that cannot fault returns its result directly. A read of an indeterminate value
  (a member that the constructor leaves out) is not a fault here: such values are arguments
  of the definitions that create them, so every theorem holds for whatever was in memory.

  C++ \<open>uint8_t\<close>, \<open>uint16_t\<close> and \<open>uint32_t\<close> are words of that width; \<open>int\<close> is \<^typ>\<open>int\<close>, with the
  conversion back into 32 bits written out (\<open>to_i32\<close>) wherever a value can leave the range.
\<close>

section \<open>Machine integers\<close>

unbundle bit_operations_syntax

type_synonym u8 = "8 word"
type_synonym u16 = "16 word"
type_synonym u32 = "32 word"

text \<open>The conversion of an arbitrary value to \<open>int32_t\<close> (modulo \<open>2 ^ 32\<close>, two's complement).\<close>

definition to_i32 :: "int \<Rightarrow> int" where
  "to_i32 k = signed_take_bit 31 k"

definition to_i16 :: "int \<Rightarrow> int" where
  "to_i16 k = signed_take_bit 15 k"

lemma to_i32_id: "- (2 ^ 31) \<le> k \<Longrightarrow> k < 2 ^ 31 \<Longrightarrow> to_i32 k = k"
  by (simp add: to_i32_def signed_take_bit_int_eq_self)

lemma to_i16_id: "- (2 ^ 15) \<le> k \<Longrightarrow> k < 2 ^ 15 \<Longrightarrow> to_i16 k = k"
  by (simp add: to_i16_def signed_take_bit_int_eq_self)

section \<open>Lemma collections\<close>

named_theorems arr_simps \<open>reads and writes of arrays of known dimensions\<close>
named_theorems wf_intros \<open>operations preserve the well-formedness of their component\<close>
named_theorems frame_simps \<open>fields an operation leaves alone\<close>

section \<open>Arrays with checked access\<close>

definition aget :: "'a list \<Rightarrow> nat \<Rightarrow> 'a option" where
  "aget xs i = (if i < length xs then Some (xs ! i) else None)"

definition aset :: "'a list \<Rightarrow> nat \<Rightarrow> 'a \<Rightarrow> 'a list option" where
  "aset xs i v = (if i < length xs then Some (xs[i := v]) else None)"

definition aget2 :: "'a list list \<Rightarrow> nat \<Rightarrow> nat \<Rightarrow> 'a option" where
  "aget2 xss i j = do { row \<leftarrow> aget xss i; aget row j }"

definition aset2 :: "'a list list \<Rightarrow> nat \<Rightarrow> nat \<Rightarrow> 'a \<Rightarrow> 'a list list option" where
  "aset2 xss i j v = do { row \<leftarrow> aget xss i; row' \<leftarrow> aset row j v; aset xss i row' }"

definition aget3 :: "'a list list list \<Rightarrow> nat \<Rightarrow> nat \<Rightarrow> nat \<Rightarrow> 'a option" where
  "aget3 a i j k = do { m \<leftarrow> aget a i; aget2 m j k }"

definition aset3 :: "'a list list list \<Rightarrow> nat \<Rightarrow> nat \<Rightarrow> nat \<Rightarrow> 'a \<Rightarrow> 'a list list list option" where
  "aset3 a i j k v = do { m \<leftarrow> aget a i; m' \<leftarrow> aset2 m j k v; aset a i m' }"

definition dim2 :: "nat \<Rightarrow> nat \<Rightarrow> 'a list list \<Rightarrow> bool" where
  "dim2 n m xss \<longleftrightarrow> length xss = n \<and> list_all (\<lambda>row. length row = m) xss"

definition dim3 :: "nat \<Rightarrow> nat \<Rightarrow> nat \<Rightarrow> 'a list list list \<Rightarrow> bool" where
  "dim3 n m l a \<longleftrightarrow> length a = n \<and> list_all (dim2 m l) a"

lemma dim2_length: "dim2 n m xss \<Longrightarrow> length xss = n"
  by (simp add: dim2_def)

lemma dim2_row: "dim2 n m xss \<Longrightarrow> i < n \<Longrightarrow> length (xss ! i) = m"
  by (simp add: dim2_def list_all_length)

lemma dim2_update: "dim2 n m xss \<Longrightarrow> length row = m \<Longrightarrow> dim2 n m (xss[i := row])"
  by (cases "i < length xss") (auto simp: dim2_def list_all_length nth_list_update list_update_beyond)

lemma dim2_replicate [simp]: "dim2 n m (replicate n (replicate m x))"
  by (simp add: dim2_def list_all_length)

lemma dim3_replicate [simp]: "dim3 n m l (replicate n (replicate m (replicate l x)))"
  by (simp add: dim3_def list_all_length)

lemma dim3_length: "dim3 n m l a \<Longrightarrow> length a = n"
  by (simp add: dim3_def)

lemma dim3_plane: "dim3 n m l a \<Longrightarrow> i < n \<Longrightarrow> dim2 m l (a ! i)"
  by (simp add: dim3_def list_all_length)

lemma dim3_update: "dim3 n m l a \<Longrightarrow> dim2 m l p \<Longrightarrow> dim3 n m l (a[i := p])"
  by (cases "i < length a") (auto simp: dim3_def list_all_length nth_list_update list_update_beyond)

text \<open>
  Reads and writes as conditionals over the lengths on the way. A component proves the lengths of
  its own arrays from its well-formedness, and the two together decide every access.
\<close>

lemma aget_if [arr_simps]: "aget xs i = (if i < length xs then Some (xs ! i) else None)"
  by (simp add: aget_def)

lemma aset_if [arr_simps]: "aset xs i v = (if i < length xs then Some (xs[i := v]) else None)"
  by (simp add: aset_def)

lemma aget2_if [arr_simps]:
  "aget2 xss i j =
     (if i < length xss \<and> j < length (xss ! i) then Some (xss ! i ! j) else None)"
  by (simp add: aget2_def aget_def)

lemma aset2_if [arr_simps]:
  "aset2 xss i j v =
     (if i < length xss \<and> j < length (xss ! i) then Some (xss[i := (xss ! i)[j := v]]) else None)"
  by (simp add: aset2_def aget_def aset_def)

lemma aget3_if [arr_simps]:
  "aget3 a i j k =
     (if i < length a \<and> j < length (a ! i) \<and> k < length (a ! i ! j)
      then Some (a ! i ! j ! k) else None)"
  by (simp add: aget3_def aget_def aget2_if)

lemma aset3_if [arr_simps]:
  "aset3 a i j k v =
     (if i < length a \<and> j < length (a ! i) \<and> k < length (a ! i ! j)
      then Some (a[i := (a ! i)[j := (a ! i ! j)[k := v]]]) else None)"
  by (simp add: aset3_def aget_def aset_def aset2_if)

lemma aget_eq_Some: "aget xs i = Some v \<longleftrightarrow> i < length xs \<and> xs ! i = v"
  by (simp add: aget_def)

lemma aset_eq_Some: "aset xs i v = Some ys \<longleftrightarrow> i < length xs \<and> ys = xs[i := v]"
  by (auto simp: aset_def)

lemma aget2_eq_Some:
  "aget2 xss i j = Some v \<longleftrightarrow> i < length xss \<and> j < length (xss ! i) \<and> xss ! i ! j = v"
  by (auto simp: aget2_if)

lemma aset2_eq_Some:
  "aset2 xss i j v = Some yss \<longleftrightarrow>
   i < length xss \<and> j < length (xss ! i) \<and> yss = xss[i := (xss ! i)[j := v]]"
  by (auto simp: aset2_if)

lemma aget3_eq_Some:
  "aget3 a i j k = Some v \<longleftrightarrow>
   i < length a \<and> j < length (a ! i) \<and> k < length (a ! i ! j) \<and> a ! i ! j ! k = v"
  by (auto simp: aget3_if)

lemma aset3_eq_Some:
  "aset3 a i j k v = Some b \<longleftrightarrow>
   i < length a \<and> j < length (a ! i) \<and> k < length (a ! i ! j) \<and>
   b = a[i := (a ! i)[j := (a ! i ! j)[k := v]]]"
  by (auto simp: aset3_if)

lemmas access_iffs = aget_eq_Some aset_eq_Some aget2_eq_Some aset2_eq_Some aget3_eq_Some aset3_eq_Some

lemma dim3_row: "dim3 n m l a \<Longrightarrow> i < n \<Longrightarrow> length (a ! i) = m"
  by (rule dim2_length [OF dim3_plane])

lemma dim3_cell: "dim3 n m l a \<Longrightarrow> i < n \<Longrightarrow> j < m \<Longrightarrow> length (a ! i ! j) = l"
  by (rule dim2_row [OF dim3_plane])

lemmas dim_lengths = dim2_length dim2_row dim3_length dim3_row dim3_cell

lemma dim2_write: "dim2 n m xss \<Longrightarrow> dim2 n m (xss[i := (xss ! i)[j := v]])"
  by (cases "i < n") (simp_all add: dim2_update dim2_row dim2_length list_update_beyond)

lemma dim3_write:
  "dim3 n m l a \<Longrightarrow> dim3 n m l (a[i := (a ! i)[j := (a ! i ! j)[k := v]]])"
proof (cases "i < n")
  case True
  assume a: "dim3 n m l a"
  show ?thesis by (rule dim3_update [OF a dim2_write [OF dim3_plane [OF a True]]])
qed (simp add: dim3_length list_update_beyond)

lemma aset2_dim: "aset2 a i j v = Some b \<Longrightarrow> dim2 n m a \<Longrightarrow> dim2 n m b"
  by (auto simp: access_iffs intro: dim2_write)

lemma aset3_dim: "aset3 a i j k v = Some b \<Longrightarrow> dim3 n m l a \<Longrightarrow> dim3 n m l b"
  by (auto simp: access_iffs intro: dim3_write)

lemmas dim_intros = dim2_write dim3_write aset2_dim aset3_dim

section \<open>For loops over a list, with faults\<close>

fun foldo :: "('s \<Rightarrow> 'a \<Rightarrow> 's option) \<Rightarrow> 's \<Rightarrow> 'a list \<Rightarrow> 's option" where
  "foldo f s [] = Some s"
| "foldo f s (x # xs) = do { s' \<leftarrow> f s x; foldo f s' xs }"

lemma foldo_append: "foldo f s (xs @ ys) = do { s' \<leftarrow> foldo f s xs; foldo f s' ys }"
  by (induction xs arbitrary: s) (auto split: Option.bind_split)

text \<open>Partial correctness: an invariant of the body is an invariant of the loop.\<close>

lemma foldo_invariant:
  assumes "foldo f s xs = Some s'" and "I s"
    and "\<And>s x s'. x \<in> set xs \<Longrightarrow> I s \<Longrightarrow> f s x = Some s' \<Longrightarrow> I s'"
  shows "I s'"
  using assms
proof (induction xs arbitrary: s)
  case Nil
  then show ?case by simp
next
  case (Cons x xs)
  from Cons.prems(1) obtain t where t: "f s x = Some t" "foldo f t xs = Some s'"
    by (auto split: Option.bind_splits)
  have "I t"
    using Cons.prems(3) [of x s t] Cons.prems(2) t(1) by simp
  with t(2) Cons.prems(3) show ?case
    by (intro Cons.IH) auto
qed

text \<open>Total correctness: no iteration faults while the invariant holds.\<close>

lemma foldo_total:
  assumes "I s" and "\<And>s x. x \<in> set xs \<Longrightarrow> I s \<Longrightarrow> \<exists>s'. f s x = Some s' \<and> I s'"
  shows "\<exists>s'. foldo f s xs = Some s' \<and> I s'"
  using assms
proof (induction xs arbitrary: s)
  case Nil
  then show ?case by simp
next
  case (Cons x xs)
  then obtain t where "f s x = Some t" "I t" by (meson list.set_intros(1))
  with Cons show ?case by force
qed

text \<open>A loop faults when one of its iterations does, whatever state it starts from.\<close>

lemma foldo_fault:
  assumes "x \<in> set xs" and "I s" and "\<And>s. I s \<Longrightarrow> f s x = None"
    and "\<And>s y s'. I s \<Longrightarrow> f s y = Some s' \<Longrightarrow> I s'"
  shows "foldo f s xs = None"
  using assms(1,2)
proof (induction xs arbitrary: s)
  case Nil
  then show ?case by simp
next
  case (Cons y ys)
  show ?case
  proof (cases "f s y")
    case (Some t)
    then have "y \<noteq> x" using assms(3) [OF Cons.prems(2)] by auto
    then have "foldo f t ys = None"
      using Cons.prems assms(4) [OF Cons.prems(2) Some] by (intro Cons.IH) auto
    with Some show ?thesis by simp
  qed simp
qed

text \<open>
  A condition of each iteration on the state the iterations before it left. It holds of every loop that
  returns if the body needs it to return; a loop whose body needs nothing else returns exactly when it holds.
\<close>

fun along :: "('s \<Rightarrow> 'a \<Rightarrow> bool) \<Rightarrow> ('s \<Rightarrow> 'a \<Rightarrow> 's option) \<Rightarrow> 's \<Rightarrow> 'a list \<Rightarrow> bool" where
  "along P f s [] \<longleftrightarrow> True"
| "along P f s (x # xs) \<longleftrightarrow> P s x \<and> (case f s x of None \<Rightarrow> True | Some s' \<Rightarrow> along P f s' xs)"

lemma foldo_invariant_along:
  assumes "foldo f s xs = Some s'" and "along P f s xs" and "I s"
    and "\<And>s x s'. x \<in> set xs \<Longrightarrow> I s \<Longrightarrow> P s x \<Longrightarrow> f s x = Some s' \<Longrightarrow> I s'"
  shows "I s'"
  using assms
proof (induction xs arbitrary: s)
  case (Cons x xs)
  obtain t where t: "f s x = Some t" "foldo f t xs = Some s'" "P s x" "along P f t xs"
    using Cons.prems(1,2) by (auto simp: Option.bind_eq_Some_conv)
  show ?case
  proof (rule Cons.IH [OF t(2,4)])
    show "I t" by (rule Cons.prems(4) [OF list.set_intros(1) Cons.prems(3) t(3,1)])
    show "I v" if "y \<in> set xs" "I u" "P u y" "f u y = Some v" for u y v
      using Cons.prems(4) [of y u v] that by simp
  qed
qed simp

lemma foldo_along:
  assumes "I s"
    and "\<And>s x. x \<in> set xs \<Longrightarrow> I s \<Longrightarrow> f s x = None \<longleftrightarrow> \<not> P s x"
    and "\<And>s x s'. x \<in> set xs \<Longrightarrow> I s \<Longrightarrow> f s x = Some s' \<Longrightarrow> I s'"
  shows "foldo f s xs = None \<longleftrightarrow> \<not> along P f s xs"
  using assms
proof (induction xs arbitrary: s)
  case (Cons x xs)
  note here = Cons.prems(2) [OF list.set_intros(1) Cons.prems(1)]
  show ?case
  proof (cases "f s x")
    case None
    then show ?thesis using here by simp
  next
    case (Some t)
    have "foldo f t xs = None \<longleftrightarrow> \<not> along P f t xs"
    proof (rule Cons.IH)
      show "I t" by (rule Cons.prems(3) [OF list.set_intros(1) Cons.prems(1) Some])
      show "f u y = None \<longleftrightarrow> \<not> P u y" if "y \<in> set xs" "I u" for u y
        using Cons.prems(2) [of y u] that by simp
      show "I v" if "y \<in> set xs" "I u" "f u y = Some v" for u y v
        using Cons.prems(3) [of y u v] that by simp
    qed
    then show ?thesis using here Some by simp
  qed
qed simp

text \<open>If an iteration leaves the conditions of the others alone, they can all be read off the first state.\<close>

lemma foldo_local:
  assumes "I s" and "distinct xs"
    and "\<And>s x. x \<in> set xs \<Longrightarrow> I s \<Longrightarrow> f s x = None \<longleftrightarrow> \<not> P s x"
    and "\<And>s x s'. x \<in> set xs \<Longrightarrow> I s \<Longrightarrow> f s x = Some s' \<Longrightarrow> I s' \<and> (\<forall>y. y \<noteq> x \<longrightarrow> P s' y = P s y)"
  shows "foldo f s xs = None \<longleftrightarrow> \<not> list_all (P s) xs"
  using assms
proof (induction xs arbitrary: s)
  case (Cons x xs)
  note here = Cons.prems(3) [OF list.set_intros(1) Cons.prems(1)]
  show ?case
  proof (cases "f s x")
    case None
    then show ?thesis using here by simp
  next
    case (Some t)
    note t = Cons.prems(4) [OF list.set_intros(1) Cons.prems(1) Some]
    have "foldo f t xs = None \<longleftrightarrow> \<not> list_all (P t) xs"
    proof (rule Cons.IH)
      show "I t" using t by simp
      show "distinct xs" using Cons.prems(2) by simp
      show "f u y = None \<longleftrightarrow> \<not> P u y" if "y \<in> set xs" "I u" for u y
        using Cons.prems(3) [of y u] that by simp
      show "I v \<and> (\<forall>z. z \<noteq> y \<longrightarrow> P v z = P u z)" if "y \<in> set xs" "I u" "f u y = Some v" for u y v
        using Cons.prems(4) [of y u v] that by simp
    qed
    moreover have "list_all (P t) xs \<longleftrightarrow> list_all (P s) xs"
      using t Cons.prems(2) by (auto simp: list_all_iff)
    ultimately show ?thesis using here Some by simp
  qed
qed simp

text \<open>A loop whose invariant grows with the elements it has seen.\<close>

lemma foldo_accum:
  assumes "P R s" and "\<And>R s x. x \<in> set xs \<Longrightarrow> P R s \<Longrightarrow> \<exists>s'. f s x = Some s' \<and> P (R \<union> g x) s'"
  shows "\<exists>s'. foldo f s xs = Some s' \<and> P (R \<union> \<Union> (g ` set xs)) s'"
  using assms
proof (induction xs arbitrary: R s)
  case Nil
  then show ?case by simp
next
  case (Cons x xs)
  obtain t where t: "f s x = Some t" "P (R \<union> g x) t" using Cons.prems by (meson list.set_intros(1))
  obtain u where "foldo f t xs = Some u" "P (R \<union> g x \<union> \<Union> (g ` set xs)) u"
    using Cons.IH [OF t(2)] Cons.prems(2) by (meson list.set_intros(2))
  with t(1) show ?case by (simp add: Un_assoc)
qed

text \<open>A read after a write.\<close>

lemma aget_aset: "aset xs i v = Some ys \<Longrightarrow> aget ys j = (if j = i then Some v else aget xs j)"
  by (auto simp: aset_def aget_def split: if_splits)

lemma aget2_aset2:
  "aset2 xss i j v = Some yss \<Longrightarrow> aget2 yss k l = (if k = i \<and> l = j then Some v else aget2 xss k l)"
  by (auto simp: aset2_def aget2_def aget_def aset_def Option.bind_eq_Some_conv nth_list_update split: if_splits)

lemma aget3_aset3:
  assumes "aset3 a i j k v = Some b"
  shows "aget3 b x y z = (if x = i \<and> y = j \<and> z = k then Some v else aget3 a x y z)"
proof -
  obtain m m' where m: "aget a i = Some m" "aset2 m j k v = Some m'" "aset a i m' = Some b"
    using assms by (auto simp: aset3_def Option.bind_eq_Some_conv)
  show ?thesis
    using aget_aset [OF m(3), of x] aget2_aset2 [OF m(2), of y z] m(1)
    by (auto simp: aget3_def)
qed

section \<open>Small facts on lists\<close>

text \<open>\<open>RepeatedPtrField::DeleteSubrange(i, 1)\<close>: the element is removed, the rest moves up.\<close>

definition delete_at :: "nat \<Rightarrow> 'a list \<Rightarrow> 'a list" where
  "delete_at i xs = take i xs @ drop (Suc i) xs"

lemma length_delete_at: "i < length xs \<Longrightarrow> length (delete_at i xs) = length xs - 1"
  by (simp add: delete_at_def)

lemma delete_at_append: "delete_at (length xs) (xs @ y # ys) = xs @ ys"
  by (simp add: delete_at_def)

lemma set_delete_at: "set (delete_at i xs) \<subseteq> set xs"
  by (auto simp: delete_at_def dest: in_set_takeD in_set_dropD)

lemma split_at: "i < length xs \<Longrightarrow> xs = take i xs @ xs ! i # drop (Suc i) xs"
  by (simp add: id_take_nth_drop)

lemma distinct_delete_at:
  assumes "distinct (map f xs)" and "i < length xs"
  shows "set (map f (delete_at i xs)) = set (map f xs) - {f (xs ! i)}"
    and "distinct (map f (delete_at i xs))"
proof -
  have xs: "map f xs = map f (take i xs) @ f (xs ! i) # map f (drop (Suc i) xs)"
    using split_at [OF assms(2)] by (metis list.simps(9) map_append)
  have d: "distinct (map f (take i xs) @ f (xs ! i) # map f (drop (Suc i) xs))"
    using assms(1) xs by simp
  have m: "map f (delete_at i xs) = map f (take i xs) @ map f (drop (Suc i) xs)"
    by (simp add: delete_at_def)
  show "set (map f (delete_at i xs)) = set (map f xs) - {f (xs ! i)}"
    unfolding m xs using d by auto
  show "distinct (map f (delete_at i xs))"
    unfolding m using d by auto
qed


lemma delete_at_filter:
  assumes "distinct (map f xs)" and "i < length xs"
  shows "delete_at i xs = filter (\<lambda>x. f x \<noteq> f (xs ! i)) xs"
proof -
  let ?P = "\<lambda>x. f x \<noteq> f (xs ! i)"
  have xs: "xs = take i xs @ xs ! i # drop (Suc i) xs" by (rule split_at [OF assms(2)])
  have "distinct (map f (take i xs @ xs ! i # drop (Suc i) xs))" using assms(1) xs by simp
  then have no: "f (xs ! i) \<notin> f ` set (take i xs)" "f (xs ! i) \<notin> f ` set (drop (Suc i) xs)"
    by auto
  have t: "filter ?P (take i xs) = take i xs"
    using no(1) by (intro filter_True ballI) (metis imageI)
  have d: "filter ?P (drop (Suc i) xs) = drop (Suc i) xs"
    using no(2) by (intro filter_True ballI) (metis imageI)
  have "filter ?P xs = filter ?P (take i xs) @ filter ?P (xs ! i # drop (Suc i) xs)"
    by (subst (1) xs) (rule filter_append)
  then show ?thesis using t d by (simp add: delete_at_def)
qed

end
