(* ===== verification/RibCommon.thy ===== *)
theory RibCommon
  imports TbsTable
begin

text \<open>
  \<open>src/rib/rib_common.{h,cc}\<close>: the array bounds, the CQI tables and the packing of a radio frame
  number and a subframe number into one 16-bit \<open>sfn_sf\<close> value. \<open>RibCommon\<close> also names the types
  \<open>frame_t\<close>, \<open>subframe_t\<close> and \<open>rnti_t\<close>. The transport block table is in \<open>TbsTable\<close>.
\<close>

type_synonym frame_t = u16
type_synonym subframe_t = u16
type_synonym rnti_t = u32

abbreviation (input) MAX_NUM_HARQ :: nat where "MAX_NUM_HARQ \<equiv> 8"
abbreviation (input) MAX_NUM_TB :: nat where "MAX_NUM_TB \<equiv> 2"
abbreviation (input) MAX_NUM_CC :: nat where "MAX_NUM_CC \<equiv> 2"
abbreviation (input) MAX_NUM_LC :: nat where "MAX_NUM_LC \<equiv> 11"
abbreviation (input) MAX_NUM_UE :: nat where "MAX_NUM_UE \<equiv> 1024"
abbreviation (input) N_RBG_MAX :: nat where "N_RBG_MAX \<equiv> 25"

text \<open>
  Members and locals the sources leave uninitialised, as one record of arbitrary values: what
  fresh memory held. It is an argument of every definition that creates such an object.
\<close>

record junk =
  jk_tpc :: u8
  jk_frame :: "int \<Rightarrow> frame_t"
  jk_subframe :: "int \<Rightarrow> subframe_t"
  jk_last_frame :: "int \<Rightarrow> frame_t"
  jk_last_subframe :: "int \<Rightarrow> subframe_t"
  jk_mcs :: int

text \<open>Memory that held zeros, for the concrete instances.\<close>

definition zero_junk :: junk where
  "zero_junk = \<lparr>jk_tpc = 0, jk_frame = (\<lambda>_. 0), jk_subframe = (\<lambda>_. 0),
     jk_last_frame = (\<lambda>_. 0), jk_last_subframe = (\<lambda>_. 0), jk_mcs = 0\<rparr>"

section \<open>Tables\<close>

definition cqi_to_mcs :: "int list" where
  "cqi_to_mcs = [0, 0, 1, 2, 4, 6, 8, 11, 13, 16, 18, 20, 23, 25, 27, 28]"

text \<open>The aggregation tables have 16 rows; the initialiser gives four, the others are zero.\<close>

definition cqi2fmt0_agg :: "u8 list list" where
  "cqi2fmt0_agg =
     [[3, 3, 3, 2, 2, 1, 1, 1, 1, 0, 0, 0, 0, 0, 0, 0],
      [3, 3, 3, 3, 2, 2, 1, 1, 1, 1, 0, 0, 0, 0, 0, 0],
      [3, 3, 3, 3, 2, 2, 2, 1, 1, 1, 1, 0, 0, 0, 0, 0],
      [3, 3, 3, 3, 2, 2, 2, 2, 1, 1, 1, 1, 0, 0, 0, 0]] @ replicate 12 (replicate 16 0)"

definition cqi2fmt1x_agg :: "u8 list list" where
  "cqi2fmt1x_agg =
     [[3, 3, 3, 2, 2, 1, 1, 1, 1, 0, 0, 0, 0, 0, 0, 0],
      [3, 3, 3, 3, 2, 2, 1, 1, 1, 1, 0, 0, 0, 0, 0, 0],
      [3, 3, 3, 3, 2, 2, 2, 1, 1, 1, 1, 0, 0, 0, 0, 0],
      [3, 3, 3, 3, 2, 2, 2, 2, 1, 1, 1, 1, 0, 0, 0, 0]] @ replicate 12 (replicate 16 0)"

definition cqi2fmt2x_agg :: "u8 list list" where
  "cqi2fmt2x_agg =
     [[3, 3, 3, 2, 2, 1, 1, 1, 1, 0, 0, 0, 0, 0, 0, 0],
      [3, 3, 3, 3, 2, 2, 1, 1, 1, 1, 0, 0, 0, 0, 0, 0],
      [3, 3, 3, 3, 2, 2, 2, 1, 1, 1, 1, 0, 0, 0, 0, 0],
      [3, 3, 3, 3, 3, 2, 2, 2, 2, 2, 1, 1, 1, 1, 0, 0]] @ replicate 12 (replicate 16 0)"

lemma dim2_agg_tables:
  "dim2 16 16 cqi2fmt0_agg" "dim2 16 16 cqi2fmt1x_agg" "dim2 16 16 cqi2fmt2x_agg"
  by (simp_all add: dim2_def list_all_iff cqi2fmt0_agg_def cqi2fmt1x_agg_def cqi2fmt2x_agg_def)

lemma length_cqi_to_mcs [arr_simps]: "length cqi_to_mcs = 16"
  by (simp add: cqi_to_mcs_def)

lemma cqi_to_mcs_range: "aget cqi_to_mcs i = Some m \<Longrightarrow> 0 \<le> m \<and> m \<le> 28"
proof -
  assume "aget cqi_to_mcs i = Some m"
  then have "m \<in> set cqi_to_mcs" by (auto simp: access_iffs)
  then show ?thesis by (auto simp: cqi_to_mcs_def)
qed

lemma agg_values: "x \<in> set (concat cqi2fmt1x_agg) \<Longrightarrow> x \<le> 3"
  by (auto simp: cqi2fmt1x_agg_def)

lemma agg_values2: "x \<in> set (concat cqi2fmt2x_agg) \<Longrightarrow> x \<le> 3"
  by (auto simp: cqi2fmt2x_agg_def)

section \<open>Frame and subframe packing\<close>

definition get_frame :: "u32 \<Rightarrow> frame_t" where
  "get_frame sfn_sf =
     (let frame_mask = push_bit 12 1 - 1 in ucast (drop_bit 4 (sfn_sf AND push_bit 4 frame_mask)))"

definition get_subframe :: "u32 \<Rightarrow> subframe_t" where
  "get_subframe sfn_sf = (let sf_mask = push_bit 4 1 - 1 in ucast (sfn_sf AND sf_mask))"

definition get_frame_subframe :: "u32 \<Rightarrow> frame_t \<times> subframe_t" where
  "get_frame_subframe sfn_sf =
     (let frame_mask = push_bit 12 1 - 1;
          frame = ucast (drop_bit 4 (sfn_sf AND push_bit 4 frame_mask));
          sf_mask = push_bit 4 1 - 1;
          subframe = ucast (sfn_sf AND sf_mask)
      in (frame, subframe))"

definition get_sfn_sf :: "frame_t \<Rightarrow> subframe_t \<Rightarrow> u16" where
  "get_sfn_sf frame subframe =
     (let frame_mask = push_bit 12 1 - 1; sf_mask = push_bit 4 1 - 1
      in (subframe AND sf_mask) OR push_bit 4 (frame AND frame_mask))"

lemma u32_masks: "push_bit 12 1 - (1::u32) = mask 12" "push_bit 4 1 - (1::u32) = mask 4"
  by (simp_all add: mask_eq_exp_minus_1)

lemma u16_masks: "push_bit 12 1 - (1::u16) = mask 12" "push_bit 4 1 - (1::u16) = mask 4"
  by (simp_all add: mask_eq_exp_minus_1)

lemma get_frame_bit: "bit (get_frame s) n \<longleftrightarrow> n < 12 \<and> bit s (n + 4)"
  unfolding get_frame_def u32_masks Let_def
  by (auto simp: bit_simps ac_simps)

lemma get_subframe_bit: "bit (get_subframe s) n \<longleftrightarrow> n < 4 \<and> bit s n"
  unfolding get_subframe_def u32_masks Let_def
  by (auto simp: bit_simps)

lemma get_sfn_sf_bit:
  "bit (get_sfn_sf f s) n \<longleftrightarrow> (n < 4 \<and> bit s n) \<or> (4 \<le> n \<and> n < 16 \<and> bit f (n - 4))"
  unfolding get_sfn_sf_def u16_masks Let_def
  by (auto simp: bit_simps)

lemma get_frame_subframe_pair: "get_frame_subframe s = (get_frame s, get_subframe s)"
  by (simp add: get_frame_subframe_def get_frame_def get_subframe_def)

lemma high_bits_zero:
  fixes w :: "'a::len word"
  assumes "unat w < 2 ^ k"
  shows "bit w n \<Longrightarrow> n < k"
proof (rule ccontr)
  assume b: "bit w n" and "\<not> n < k"
  then have "2 ^ k \<le> (2::nat) ^ n" by simp
  with assms have "unat w < 2 ^ n" by linarith
  then have "\<not> bit (unat w) n" by (simp add: bit_iff_odd)
  with b show False by (simp add: bit_unsigned_iff)
qed

lemma get_frame_bound: "unat (get_frame s) < 4096"
proof -
  have "get_frame s = take_bit 12 (get_frame s)"
    by (rule bit_word_eqI) (auto simp: bit_simps get_frame_bit)
  then have "unat (get_frame s) = take_bit 12 (unat (get_frame s))"
    by (metis unsigned_take_bit_eq)
  also have "\<dots> < 2 ^ 12" by (rule take_bit_nat_less_exp)
  finally show ?thesis by simp
qed

lemma get_subframe_bound: "unat (get_subframe s) < 16"
proof -
  have "get_subframe s = take_bit 4 (get_subframe s)"
    by (rule bit_word_eqI) (auto simp: bit_simps get_subframe_bit)
  then have "unat (get_subframe s) = take_bit 4 (unat (get_subframe s))"
    by (metis unsigned_take_bit_eq)
  also have "\<dots> < 2 ^ 4" by (rule take_bit_nat_less_exp)
  finally show ?thesis by simp
qed

text \<open>
  Packing a frame number (12 bits) and a subframe number (4 bits) into the 16-bit \<open>sfn_sf\<close> of a
  message and unpacking it on the other side gives both numbers back.
\<close>

theorem sfn_sf_roundtrip:
  assumes "unat f < 4096" and "unat s < 16"
  shows "get_frame_subframe (ucast (get_sfn_sf f s)) = (f, s)"
proof -
  have "get_frame (ucast (get_sfn_sf f s)) = f"
    using high_bits_zero [of f 12] assms(1)
    by (intro bit_word_eqI) (auto simp: get_frame_bit get_sfn_sf_bit bit_simps)
  moreover have "get_subframe (ucast (get_sfn_sf f s)) = s"
    using high_bits_zero [of s 4] assms(2)
    by (intro bit_word_eqI) (auto simp: get_subframe_bit get_sfn_sf_bit bit_simps)
  ultimately show ?thesis by (simp add: get_frame_subframe_pair)
qed

lemma sfn_sf_roundtrip_witness:
  "unat (1023 :: u16) < 4096 \<and> unat (9 :: u16) < 16 \<and>
   get_frame_subframe (ucast (get_sfn_sf 1023 9)) = (1023, 9)"
  using sfn_sf_roundtrip [of 1023 9] by simp

lemma sfn_sf_unpack_pack:
  "get_sfn_sf (get_frame s) (get_subframe s) = ucast s"
  by (rule bit_word_eqI)
     (auto simp: get_sfn_sf_bit get_frame_bit get_subframe_bit bit_simps)

end
