(* ===== verification/Protocol.thy ===== *)
theory Protocol
  imports Prelude
begin

text \<open>
  The messages of \<open>src/MESSAGES/V2/*.proto\<close>, restricted to the fields the controller reads or
  writes. protoc generates C++ classes from these files: a getter of an unset optional field
  returns the type's default (0), so a field the code only reads through its getter is kept by its
  value, and a field whose presence the code tests or sets is an \<open>option\<close>. Enumerations that
  travel in a \<open>uint32\<close> field are named constants; those that are typed as an enum are datatypes.
\<close>

section \<open>Header and directions\<close>

datatype flex_type =
    FLPT_HELLO | FLPT_ECHO_REQUEST | FLPT_ECHO_REPLY
  | FLPT_STATS_REQUEST | FLPT_STATS_REPLY | FLPT_SF_TRIGGER | FLPT_UL_SR_INFO
  | FLPT_GET_ENB_CONFIG_REQUEST | FLPT_GET_ENB_CONFIG_REPLY
  | FLPT_GET_UE_CONFIG_REQUEST | FLPT_GET_UE_CONFIG_REPLY
  | FLPT_GET_LC_CONFIG_REQUEST | FLPT_GET_LC_CONFIG_REPLY
  | FLPT_DL_MAC_CONFIG | FLPT_UE_STATE_CHANGE | FLPT_DELEGATE_CONTROL | FLPT_RECONFIGURE_AGENT

datatype flexran_direction =
  NOT_SET | INITIATING_MESSAGE | SUCCESSFUL_OUTCOME | UNSUCCESSFUL_OUTCOME

record flex_header =
  hdr_version :: "u32 option"
  hdr_type :: "flex_type option"
  hdr_xid :: "u32 option"

definition no_header :: flex_header where
  "no_header = \<lparr>hdr_version = None, hdr_type = None, hdr_xid = None\<rparr>"

text \<open>The getter of an optional \<open>uint32\<close> field.\<close>

definition get_u32 :: "u32 option \<Rightarrow> u32" where
  "get_u32 v = (case v of None \<Rightarrow> 0 | Some x \<Rightarrow> x)"

lemma get_u32_simps [simp]: "get_u32 None = 0" "get_u32 (Some x) = x"
  by (simp_all add: get_u32_def)

section \<open>Configuration messages\<close>

abbreviation (input) FLPR_ONE_SIXTH :: u32 where "FLPR_ONE_SIXTH \<equiv> 0"
abbreviation (input) FLPR_HALF :: u32 where "FLPR_HALF \<equiv> 1"
abbreviation (input) FLPR_ONE :: u32 where "FLPR_ONE \<equiv> 2"
abbreviation (input) FLPR_TWO :: u32 where "FLPR_TWO \<equiv> 3"
abbreviation (input) FLDCPL_NORMAL :: u32 where "FLDCPL_NORMAL \<equiv> 0"
abbreviation (input) FLDCPL_EXTENDED :: u32 where "FLDCPL_EXTENDED \<equiv> 1"
abbreviation (input) FLDM_FDD :: u32 where "FLDM_FDD \<equiv> 1"
abbreviation (input) FLUESC_UPDATED :: u32 where "FLUESC_UPDATED \<equiv> 0"
abbreviation (input) FLUESC_ACTIVATED :: u32 where "FLUESC_ACTIVATED \<equiv> 1"
abbreviation (input) FLUESC_DEACTIVATED :: u32 where "FLUESC_DEACTIVATED \<equiv> 2"
abbreviation (input) FLUESC_MOVED :: u32 where "FLUESC_MOVED \<equiv> 3"

record flex_cell_config =
  cc_cell_id :: u32
  cc_phich_resource :: u32
  cc_dl_bandwidth :: u32
  cc_dl_cyclic_prefix_length :: u32
  cc_duplex_mode :: u32

record flex_ue_config =
  uc_rnti :: u32
  uc_transmission_mode :: u32
  uc_pcell_carrier_index :: u32

definition sample_ue_config :: "u32 \<Rightarrow> flex_ue_config" where
  "sample_ue_config r = \<lparr>uc_rnti = r, uc_transmission_mode = 1, uc_pcell_carrier_index = 0\<rparr>"

record flex_lc_config =
  lc_lcid :: u32
  lc_lcg :: u32

record flex_lc_ue_config =
  lu_rnti :: u32
  lu_lc_config :: "flex_lc_config list"

record flex_enb_config_reply =
  er_header :: flex_header
  er_eNB_id :: u32
  er_cell_config :: "flex_cell_config list"

record flex_ue_config_reply =
  ur_header :: flex_header
  ur_ue_config :: "flex_ue_config list"

record flex_lc_config_reply =
  lr_header :: flex_header
  lr_lc_ue_config :: "flex_lc_ue_config list"

record flex_ue_state_change =
  sc_header :: flex_header
  sc_type :: u32
  sc_config :: flex_ue_config

section \<open>Statistics\<close>

abbreviation (input) FLUST_BSR :: u32 where "FLUST_BSR \<equiv> 1"
abbreviation (input) FLUST_PRH :: u32 where "FLUST_PRH \<equiv> 2"
abbreviation (input) FLUST_RLC_BS :: u32 where "FLUST_RLC_BS \<equiv> 4"
abbreviation (input) FLUST_MAC_CE_BS :: u32 where "FLUST_MAC_CE_BS \<equiv> 8"
abbreviation (input) FLUST_DL_CQI :: u32 where "FLUST_DL_CQI \<equiv> 16"
abbreviation (input) FLUST_PBS :: u32 where "FLUST_PBS \<equiv> 32"
abbreviation (input) FLUST_UL_CQI :: u32 where "FLUST_UL_CQI \<equiv> 64"
abbreviation (input) FLCST_NOISE_INTERFERENCE :: u32 where "FLCST_NOISE_INTERFERENCE \<equiv> 1"
abbreviation (input) FLPCET_TA :: u32 where "FLPCET_TA \<equiv> 1"

record flex_rlc_bsr =
  rb_lc_id :: u32
  rb_tx_queue_size :: "u32 option"
  rb_tx_queue_hol_delay :: "u32 option"

text \<open>
  The \<open>oneof report\<close> of \<open>flex_dl_csi\<close>: the controller only looks at \<open>p10csi()\<close>, whose getter
  yields an all-default message when another member is set.
\<close>

datatype flex_csi_report = P10csi u32 | OtherCsi

record flex_dl_csi =
  cs_serv_cell_index :: u32
  cs_report :: flex_csi_report

fun p10csi_wb_cqi :: "flex_dl_csi \<Rightarrow> u32" where
  "p10csi_wb_cqi c = (case cs_report c of P10csi q \<Rightarrow> q | OtherCsi \<Rightarrow> 0)"

record flex_dl_cqi_report =
  dq_sfn_sn :: u32
  dq_csi_report :: "flex_dl_csi list"

record flex_paging_info =
  pg_paging_index :: u32
  pg_paging_message_size :: u32
  pg_paging_subframe :: u32
  pg_carrier_index :: u32

record flex_ul_cqi =
  uq_type :: u32
  uq_sinr :: "u32 list"
  uq_serv_cell_index :: u32

record flex_pucch_dbm =
  pd_p0_pucch_dbm :: "int option"
  pd_serv_cell_index :: u32
  pd_p0_pucch_updated :: u32

record flex_ul_cqi_report =
  uc_sfn_sn :: u32
  uc_cqi_meas :: "flex_ul_cqi list"
  uc_pucch_dbm :: "flex_pucch_dbm list"

record flex_ue_stats_report =
  us_rnti :: u32
  us_flags :: u32
  us_bsr :: "u32 list"
  us_phr :: u32
  us_rlc_report :: "flex_rlc_bsr list"
  us_pending_mac_ces :: u32
  us_dl_cqi_report :: flex_dl_cqi_report
  us_pbr :: "flex_paging_info list"
  us_ul_cqi_report :: flex_ul_cqi_report

definition empty_ue_stats_report :: flex_ue_stats_report where
  "empty_ue_stats_report =
     \<lparr>us_rnti = 0, us_flags = 0, us_bsr = [], us_phr = 0, us_rlc_report = [],
      us_pending_mac_ces = 0, us_dl_cqi_report = \<lparr>dq_sfn_sn = 0, dq_csi_report = []\<rparr>,
      us_pbr = [],
      us_ul_cqi_report = \<lparr>uc_sfn_sn = 0, uc_cqi_meas = [], uc_pucch_dbm = []\<rparr>\<rparr>"

record flex_noise_interference_report =
  ni_sfn_sf :: u32
  ni_rip :: u32
  ni_tnp :: u32
  ni_p0_nominal_pucch :: int

record flex_cell_stats_report =
  ce_carrier_index :: u32
  ce_flags_field :: u32
  ce_noise_inter_report :: flex_noise_interference_report

definition empty_cell_stats_report :: flex_cell_stats_report where
  "empty_cell_stats_report =
     \<lparr>ce_carrier_index = 0, ce_flags_field = 0,
      ce_noise_inter_report = \<lparr>ni_sfn_sf = 0, ni_rip = 0, ni_tnp = 0, ni_p0_nominal_pucch = 0\<rparr>\<rparr>"

record flex_stats_reply =
  sr_header :: flex_header
  sr_ue_report :: "flex_ue_stats_report list"
  sr_cell_report :: "flex_cell_stats_report list"

record flex_complete_stats_request =
  cr_report_frequency :: u32
  cr_sf :: u32
  cr_cell_report_flags :: u32
  cr_ue_report_flags :: u32

abbreviation (input) FLSRF_PERIODICAL :: u32 where "FLSRF_PERIODICAL \<equiv> 1"
abbreviation (input) FLST_COMPLETE_STATS :: u32 where "FLST_COMPLETE_STATS \<equiv> 0"

record flex_stats_request =
  sq_header :: flex_header
  sq_type :: u32
  sq_complete_stats_request :: flex_complete_stats_request

section \<open>Subframe triggers\<close>

abbreviation (input) FLHS_ACK :: u8 where "FLHS_ACK \<equiv> 0"
abbreviation (input) FLHS_NACK :: u8 where "FLHS_NACK \<equiv> 1"

record flex_dl_info =
  di_rnti :: u32
  di_harq_process_id :: u32
  di_harq_status :: "u32 list"
  di_serv_cell_index :: u32

record flex_ul_info =
  ui_rnti :: u32
  ui_ul_reception :: "u32 list"
  ui_reception_status :: u32
  ui_tpc :: u32
  ui_serv_cell_index :: u32

record flex_sf_trigger =
  st_header :: flex_header
  st_sfn_sf :: u32
  st_dl_info :: "flex_dl_info list"
  st_ul_info :: "flex_ul_info list"

section \<open>Controller commands\<close>

datatype flex_dci_format =
    FLDCIF_1 | FLDCIF_1A | FLDCIF_1B | FLDCIF_1C | FLDCIF_1D
  | FLDCIF_2 | FLDCIF_2A | FLDCIF_2B | FLDCIF_3 | FLDCIF_3A

abbreviation (input) FLVRBF_LOCALIZED :: u32 where "FLVRBF_LOCALIZED \<equiv> 0"

record flex_rlc_pdu_tb =
  tb_logical_channel_id :: u32
  tb_size :: u32

type_synonym flex_rlc_pdu = "flex_rlc_pdu_tb list"

record flex_dl_dci =
  dci_rnti :: u32
  dci_res_alloc :: u32
  dci_rb_bitmap :: u32
  dci_rb_shift :: u32
  dci_tbs_size :: "u32 list"
  dci_mcs :: "u32 list"
  dci_ndi :: "u32 list"
  dci_rv :: "u32 list"
  dci_aggr_level :: u32
  dci_format :: flex_dci_format
  dci_tpc :: u32
  dci_harq_process :: u32
  dci_vrb_format :: u32

record flex_dl_data =
  dd_rnti :: u32
  dd_dl_dci :: "flex_dl_dci option"
  dd_ce_bitmap :: "u32 list"
  dd_rlc_pdu :: "flex_rlc_pdu list"
  dd_serv_cell_index :: u32

definition empty_dl_data :: flex_dl_data where
  "empty_dl_data =
     \<lparr>dd_rnti = 0, dd_dl_dci = None, dd_ce_bitmap = [], dd_rlc_pdu = [], dd_serv_cell_index = 0\<rparr>"

record flex_dl_mac_config =
  dm_header :: flex_header
  dm_sfn_sf :: u32
  dm_dl_ue_data :: "flex_dl_data list"

abbreviation (input) FLCDT_MAC_DL_UE_SCHEDULER :: u32 where "FLCDT_MAC_DL_UE_SCHEDULER \<equiv> 1"

record flex_control_delegation =
  cd_header :: flex_header
  cd_delegation_type :: u32
  cd_payload :: "u8 list"
  cd_name :: string

record flex_agent_reconfiguration =
  ar_header :: flex_header
  ar_policy :: "u8 list"

section \<open>The envelope\<close>

text \<open>The \<open>oneof msg\<close> of \<open>flexran_message\<close>; \<open>NoMsg\<close> when no member is set.\<close>

datatype flexran_body =
    HelloMsg flex_header
  | EchoRequestMsg flex_header
  | EchoReplyMsg flex_header
  | StatsRequestMsg flex_stats_request
  | StatsReplyMsg flex_stats_reply
  | SfTriggerMsg flex_sf_trigger
  | UlSrInfoMsg
  | EnbConfigRequestMsg flex_header
  | EnbConfigReplyMsg flex_enb_config_reply
  | UeConfigRequestMsg flex_header
  | UeConfigReplyMsg flex_ue_config_reply
  | LcConfigRequestMsg flex_header
  | LcConfigReplyMsg flex_lc_config_reply
  | DlMacConfigMsg flex_dl_mac_config
  | UeStateChangeMsg flex_ue_state_change
  | ControlDelegationMsg flex_control_delegation
  | AgentReconfigurationMsg flex_agent_reconfiguration
  | NoMsg

record flexran_message =
  msg_dir :: flexran_direction
  msg_body :: flexran_body

end
