(* ===== verification/SchedPrimitives.thy ===== *)
theory SchedPrimitives
  imports RibCommon Protocol "HOL-Library.Signed_Division"
begin

text \<open>
  The pure functions of \<open>src/app/remote_scheduler_primitives.{h,cc}\<close>: resource block groups, transport
  block sizes, the number of control channel elements, and the encoding of a resource block
  allocation into the bitmap of a DCI. The build does not define \<open>TBS_FIX\<close>.
\<close>

section \<open>Resource block groups\<close>

definition get_min_rb_unit :: "flex_cell_config \<Rightarrow> u16" where
  "get_min_rb_unit c =
     (let bw = cc_dl_bandwidth c
      in if bw = 6 then 1 else if bw = 25 then 2 else if bw = 50 then 3 else if bw = 100 then 4 else 2)"

definition get_nb_rbg :: "flex_cell_config \<Rightarrow> u16" where
  "get_nb_rbg c =
     (let bw = cc_dl_bandwidth c
      in if bw = 100 then 25 else if bw = 75 then 19 else if bw = 50 then 17
         else if bw = 25 then 13 else if bw = 15 then 8 else if bw = 6 then 6 else 0)"

definition get_bw_index :: "int \<Rightarrow> int" where
  "get_bw_index n_rb_dl =
     (if n_rb_dl = 6 then 0 else if n_rb_dl = 25 then 1 else if n_rb_dl = 50 then 2
      else if n_rb_dl = 100 then 3 else 1)"

lemma min_rb_unit_range: "get_min_rb_unit c \<in> {1, 2, 3, 4}"
  by (simp add: get_min_rb_unit_def Let_def)

lemma min_rb_unit_pos: "0 < unat (get_min_rb_unit c)" "unat (get_min_rb_unit c) \<le> 4"
  using min_rb_unit_range [of c] by auto

lemma nb_rbg_le: "unat (get_nb_rbg c) \<le> N_RBG_MAX"
  by (simp add: get_nb_rbg_def Let_def)

section \<open>Transport block sizes\<close>

definition get_I_TBS :: "u8 \<Rightarrow> u8" where
  "get_I_TBS I_MCS =
     (if I_MCS < 10 then I_MCS
      else if I_MCS = 10 then 9
      else if I_MCS < 17 then I_MCS - 1
      else if I_MCS = 17 then 15
      else I_MCS - 2)"

text \<open>The table is indexed by the number of resource blocks, which is not checked against its 110 columns.\<close>

definition get_TBS_DL :: "u8 \<Rightarrow> u16 \<Rightarrow> u32 option" where
  "get_TBS_DL mcs nb_rb =
     (if nb_rb > 0 \<and> mcs < 29
      then do { TBS \<leftarrow> aget2 TBStable (unat (get_I_TBS mcs)) (unat (nb_rb - 1));
                Some (drop_bit 3 (of_nat TBS)) }
      else Some 0)"

lemma I_TBS_range: "mcs < 29 \<Longrightarrow> unat (get_I_TBS mcs) < 27"
proof -
  assume "mcs < 29"
  then have m: "unat mcs < 29" by (simp add: word_less_nat_alt)
  show ?thesis
    using m by (auto simp: get_I_TBS_def word_less_nat_alt unat_sub_if_size word_size)
qed

lemma TBS_entry: "i < 27 \<Longrightarrow> j < 110 \<Longrightarrow> aget2 TBStable i j = Some (TBStable ! i ! j)"
  using dim2_TBStable by (simp add: aget2_if dim2_def list_all_length)

lemma get_TBS_DL_value:
  assumes "0 < unat nb_rb" and "unat nb_rb \<le> 110" and "mcs < 29"
  shows "get_TBS_DL mcs nb_rb =
     Some (of_nat (TBStable ! unat (get_I_TBS mcs) ! (unat nb_rb - 1) div 8))"
proof -
  let ?t = "TBStable ! unat (get_I_TBS mcs) ! (unat nb_rb - 1)"
  have i: "unat (get_I_TBS mcs) < 27" by (rule I_TBS_range [OF assms(3)])
  have j: "unat (nb_rb - 1) = unat nb_rb - 1" "unat nb_rb - 1 < 110"
    using assms(1,2) by (auto simp: unat_sub_if_size word_size)
  have "?t \<le> 75376" using TBStable_bound [OF i j(2)] .
  then have "drop_bit 3 (of_nat ?t :: u32) = of_nat (?t div 8)"
    by (simp add: word_unat_eq_iff drop_bit_eq_div unat_div_distrib unsigned_of_nat take_bit_nat_eq_self
        div_le_mono order.strict_trans1 [OF div_le_dividend])
  then show ?thesis
    using assms i j by (simp add: get_TBS_DL_def TBS_entry word_less_nat_alt)
qed

lemma get_TBS_DL_fault_iff: "get_TBS_DL mcs nb_rb = None \<longleftrightarrow> mcs < 29 \<and> 110 < unat nb_rb"
proof (cases "mcs < 29 \<and> 0 < unat nb_rb")
  case True
  show ?thesis
  proof (cases "unat nb_rb \<le> 110")
    case False
    then have "\<not> unat (nb_rb - 1) < 110" by (auto simp: unat_sub_if_size word_size)
    then show ?thesis
      using True False dim2_TBStable I_TBS_range [of mcs]
      by (auto simp: get_TBS_DL_def aget2_if dim2_def list_all_length word_less_nat_alt)
  qed (use True get_TBS_DL_value in auto)
next
  case False
  then show ?thesis by (auto simp: get_TBS_DL_def word_less_nat_alt)
qed

lemma get_TBS_DL_bounds:
  assumes "get_TBS_DL mcs nb_rb = Some t"
  shows "unat t \<le> 9422" and "0 < unat nb_rb \<Longrightarrow> mcs < 29 \<Longrightarrow> 2 \<le> unat t"
proof -
  have "unat t \<le> 9422 \<and> (0 < unat nb_rb \<longrightarrow> mcs < 29 \<longrightarrow> 2 \<le> unat t)"
  proof (cases "mcs < 29 \<and> 0 < unat nb_rb")
    case True
    let ?e = "TBStable ! unat (get_I_TBS mcs) ! (unat nb_rb - 1)"
    have le: "unat nb_rb \<le> 110" using assms True get_TBS_DL_fault_iff [of mcs nb_rb] by auto
    then have t: "t = of_nat (?e div 8)" using assms True get_TBS_DL_value by auto
    have "unat (get_I_TBS mcs) < 27" "unat nb_rb - 1 < 110" using True I_TBS_range le by auto
    then have "?e \<le> 75376" "16 \<le> ?e" using TBStable_bound TBStable_positive by auto
    then have "?e div 8 \<le> 9422" "2 \<le> ?e div 8" by (auto simp: div_le_mono)
    then show ?thesis unfolding t by (simp add: unsigned_of_nat take_bit_nat_eq_self)
  next
    case False
    then have "t = 0" using assms by (auto simp: get_TBS_DL_def word_less_nat_alt)
    then show ?thesis using False by auto
  qed
  then show "unat t \<le> 9422" and "0 < unat nb_rb \<Longrightarrow> mcs < 29 \<Longrightarrow> 2 \<le> unat t" by auto
qed

section \<open>Control channel elements\<close>

definition get_mi :: "flex_cell_config \<Rightarrow> subframe_t \<Rightarrow> u8" where
  "get_mi c subframe = (if cc_duplex_mode c = FLDM_FDD then 1 else 1)"

definition get_phich_resource :: "flex_cell_config \<Rightarrow> u8" where
  "get_phich_resource c =
     (let r = cc_phich_resource c
      in if r = FLPR_ONE_SIXTH then 1 else if r = FLPR_HALF then 3 else if r = FLPR_ONE then 6
         else if r = FLPR_TWO then 12 else 0)"

definition n_group_PHICH :: "flex_cell_config \<Rightarrow> u8 \<Rightarrow> u8" where
  "n_group_PHICH c mi =
     (let product = ucast (get_phich_resource c) * cc_dl_bandwidth c;
          n = ucast (product div 48) :: u8;
          n = (if product mod 48 > 0 then n + 1 else n);
          n = (if cc_dl_cyclic_prefix_length c = FLDCPL_EXTENDED then push_bit 1 n else n)
      in n * mi)"

text \<open>With no PDCCH symbol \<open>n_reg\<close> stays 0 and the subtraction wraps around in 16 bits.\<close>

definition get_nquad :: "u8 \<Rightarrow> flex_cell_config \<Rightarrow> u8 \<Rightarrow> u16" where
  "get_nquad num_pdcch_symbols c mi =
     (let k = ucast num_pdcch_symbols - 1 :: u16;
          bw = cc_dl_bandwidth c;
          result = (\<lambda>n_reg :: u16. n_reg - 4 - 3 * ucast (n_group_PHICH c mi))
      in if num_pdcch_symbols > 0 \<and> num_pdcch_symbols < 4
         then if bw = 6 then result (12 + k * 18)
              else if bw = 25 then result (50 + k * 75)
              else if bw = 50 then result (100 + k * 150)
              else if bw = 100 then result (200 + k * 300)
              else 0
         else result 0)"

definition get_nCCE_max :: "u8 \<Rightarrow> flex_cell_config \<Rightarrow> subframe_t \<Rightarrow> u16" where
  "get_nCCE_max num_pdcch_symbols c subframe =
     (let mi = get_mi c subframe in get_nquad num_pdcch_symbols c mi div 9)"

text \<open>\<open>Yk\<close> after the recurrence over the subframes 0 to \<open>subframe\<close>.\<close>

definition Yk_hash :: "rnti_t \<Rightarrow> subframe_t \<Rightarrow> u32" where
  "Yk_hash rnti subframe = ((\<lambda>Yk. (Yk * 39827) mod 65537) ^^ Suc (unat subframe)) rnti"

definition nb_candidates :: "u8 \<Rightarrow> nat" where
  "nb_candidates aggregation =
     (if aggregation = 1 \<or> aggregation = 2 then 6 else if aggregation = 4 \<or> aggregation = 8 then 2 else 0)"

text \<open>
  The search over the candidates: the inner loop that would test whether the space is free is empty in
  the source, so the first candidate is taken. A division by zero is \<open>None\<close>.
\<close>

definition get_nCCE_offset :: "u8 \<Rightarrow> int \<Rightarrow> int \<Rightarrow> rnti_t \<Rightarrow> subframe_t \<Rightarrow> int option" where
  "get_nCCE_offset aggregation nCCE common_dci rnti subframe =
     (if common_dci = 1 then Some (- 1)
      else if aggregation = 0 then None
      else let slots = word_of_int (nCCE sdiv uint aggregation) :: u32
           in if slots = 0 then None
              else let Yk = Yk_hash rnti subframe mod slots
                   in if 0 < nb_candidates aggregation
                      then let m = 0 in Some (sint (((Yk + m) mod slots) * ucast aggregation))
                      else Some (- 1))"

section \<open>The resource block bitmap of a DCI\<close>

text \<open>How many blocks a group takes off \<open>nb_rb\<close>; for other bandwidths the source subtracts nothing.\<close>

definition rbg_size :: "flex_cell_config \<Rightarrow> nat \<Rightarrow> int" where
  "rbg_size c check =
     (let bw = cc_dl_bandwidth c; last_group = (int check = uint (get_nb_rbg c) - 1)
      in if bw = 6 then 1
         else if bw = 25 then (if last_group then 1 else 2)
         else if bw = 50 then (if last_group then 2 else 3)
         else if bw = 100 then 4
         else 0)"

function prbs_loop :: "flex_cell_config \<Rightarrow> u8 list \<Rightarrow> int \<Rightarrow> nat \<Rightarrow> u32 \<Rightarrow> u32 option" where
  "prbs_loop c rballoc nb_rb check rballoc_dci =
     (if nb_rb > 0 \<and> check < unat (get_nb_rbg c)
      then do {
        v \<leftarrow> aget rballoc check;
        if v = 1
        then prbs_loop c rballoc (nb_rb - rbg_size c check) (Suc check)
               (rballoc_dci OR push_bit (unat (get_nb_rbg c) - 1 - check) 1)
        else prbs_loop c rballoc nb_rb (Suc check) rballoc_dci }
      else Some rballoc_dci)"
  by pat_completeness auto
termination
  by (relation "measure (\<lambda>(c, r, n, check, d). unat (get_nb_rbg c) - check)") auto

declare prbs_loop.simps [simp del]

definition allocate_prbs_sub :: "int \<Rightarrow> u8 list \<Rightarrow> flex_cell_config \<Rightarrow> u32 option" where
  "allocate_prbs_sub nb_rb rballoc c = prbs_loop c rballoc nb_rb 0 0"

section \<open>Aggregation levels\<close>

definition get_aggregation :: "u8 \<Rightarrow> u8 \<Rightarrow> flex_dci_format \<Rightarrow> u8 option" where
  "get_aggregation bw_index cqi dci_fmt =
     (case dci_fmt of
        FLDCIF_1 \<Rightarrow> aget2 cqi2fmt1x_agg (unat bw_index) (unat cqi)
      | FLDCIF_1A \<Rightarrow> aget2 cqi2fmt1x_agg (unat bw_index) (unat cqi)
      | FLDCIF_1B \<Rightarrow> aget2 cqi2fmt1x_agg (unat bw_index) (unat cqi)
      | FLDCIF_1D \<Rightarrow> aget2 cqi2fmt1x_agg (unat bw_index) (unat cqi)
      | FLDCIF_2 \<Rightarrow> aget2 cqi2fmt2x_agg (unat bw_index) (unat cqi)
      | FLDCIF_2A \<Rightarrow> aget2 cqi2fmt2x_agg (unat bw_index) (unat cqi)
      | FLDCIF_2B \<Rightarrow> aget2 cqi2fmt2x_agg (unat bw_index) (unat cqi)
      | FLDCIF_1C \<Rightarrow> Some 3
      | FLDCIF_3 \<Rightarrow> Some 3
      | FLDCIF_3A \<Rightarrow> Some 3)"

section \<open>Lemmas: allocations\<close>

text \<open>The number of blocks in the allocated groups below \<open>k\<close>.\<close>

definition covered :: "flex_cell_config \<Rightarrow> u8 list \<Rightarrow> nat \<Rightarrow> int" where
  "covered c rballoc k = sum_list (map (rbg_size c) (filter (\<lambda>i. rballoc ! i = 1) [0..<k]))"

lemma covered_simps [simp]:
  "covered c rb 0 = 0"
  "covered c rb (Suc k) = covered c rb k + (if rb ! k = 1 then rbg_size c k else 0)"
  by (simp_all add: covered_def)

text \<open>\<open>bitmap_of c rb k w\<close>: the bits of \<open>w\<close> are the allocated groups below \<open>k\<close>, the first group highest.\<close>

definition bitmap_of :: "flex_cell_config \<Rightarrow> u8 list \<Rightarrow> nat \<Rightarrow> u32 \<Rightarrow> bool" where
  "bitmap_of c rb k w \<longleftrightarrow>
     (\<forall>b. bit w b \<longleftrightarrow> b < unat (get_nb_rbg c) \<and> unat (get_nb_rbg c) - 1 - b < k \<and>
                rb ! (unat (get_nb_rbg c) - 1 - b) = 1)"

lemma bitmap_of_0: "bitmap_of c rb 0 0"
  by (simp add: bitmap_of_def)

lemma bitmap_of_skip: "bitmap_of c rb k w \<Longrightarrow> rb ! k \<noteq> 1 \<Longrightarrow> bitmap_of c rb (Suc k) w"
  by (auto simp: bitmap_of_def less_Suc_eq)

lemma bitmap_of_set:
  assumes "bitmap_of c rb k w" and "rb ! k = 1" and "k < unat (get_nb_rbg c)"
  shows "bitmap_of c rb (Suc k) (w OR push_bit (unat (get_nb_rbg c) - 1 - k) 1)"
proof -
  let ?n = "unat (get_nb_rbg c)"
  have "?n - 1 - k < 32" using nb_rbg_le [of c] assms(3) by linarith
  then have new: "bit (push_bit (?n - 1 - k) 1 :: u32) b \<longleftrightarrow> b = ?n - 1 - k" for b
    by (auto simp: bit_simps)
  have "b = ?n - 1 - k \<longleftrightarrow> b < ?n \<and> ?n - 1 - b = k" for b using assms(3) by auto
  then show ?thesis
    using assms(1,2) unfolding bitmap_of_def bit_or_iff new by (auto simp: less_Suc_eq)
qed

lemma prbs_loop_spec:
  assumes "unat (get_nb_rbg c) \<le> length rb" and "check \<le> unat (get_nb_rbg c)"
    and "bitmap_of c rb check d" and "\<forall>j < check. covered c rb j < nb0"
    and "nb = nb0 - covered c rb check"
  shows "\<exists>w k. prbs_loop c rb nb check d = Some w \<and> k \<le> unat (get_nb_rbg c) \<and> bitmap_of c rb k w \<and>
     (k < unat (get_nb_rbg c) \<longrightarrow> nb0 \<le> covered c rb k) \<and> (\<forall>j < k. covered c rb j < nb0)"
  using assms(2-5)
proof (induction "unat (get_nb_rbg c) - check" arbitrary: check nb d)
  case 0
  then show ?case by (subst prbs_loop.simps) (intro exI [of _ d] exI [of _ check]; simp)
next
  case (Suc m)
  then have lt: "check < unat (get_nb_rbg c)" and m: "m = unat (get_nb_rbg c) - Suc check" by linarith+
  show ?case
  proof (cases "nb > 0")
    case False
    then show ?thesis
      using Suc.prems lt by (subst prbs_loop.simps) (intro exI [of _ d] exI [of _ check]; simp)
  next
    case True
    have more: "\<forall>j < Suc check. covered c rb j < nb0" using Suc.prems True by (auto simp: less_Suc_eq)
    have get: "aget rb check = Some (rb ! check)" using assms(1) lt by (simp add: aget_if)
    show ?thesis
    proof (cases "rb ! check = 1")
      case True
      then show ?thesis
        using Suc.hyps(1) [OF m _ bitmap_of_set [OF Suc.prems(2) True lt] more, of "nb - rbg_size c check"]
          lt Suc.prems(4) get \<open>nb > 0\<close>
        by (subst prbs_loop.simps) simp
    next
      case False
      then show ?thesis
        using Suc.hyps(1) [OF m _ bitmap_of_skip [OF Suc.prems(2) False] more, of nb] lt Suc.prems(4) get \<open>nb > 0\<close>
        by (subst prbs_loop.simps) simp
    qed
  qed
qed

lemma allocate_prbs_sub_spec:
  assumes "unat (get_nb_rbg c) \<le> length rb"
  shows "\<exists>w k. allocate_prbs_sub nb_rb rb c = Some w \<and> k \<le> unat (get_nb_rbg c) \<and> bitmap_of c rb k w \<and>
     (k < unat (get_nb_rbg c) \<longrightarrow> nb_rb \<le> covered c rb k) \<and> (\<forall>j < k. covered c rb j < nb_rb)"
  unfolding allocate_prbs_sub_def
  by (rule prbs_loop_spec) (use assms bitmap_of_0 in auto)

text \<open>
  C30: the bitmap put into a DCI names exactly the first allocated groups that cover the requested number
  of blocks: it names an initial segment of the allocation, no smaller segment would do, and it
  falls short only when the whole allocation does. It never names a group that is not allocated.
\<close>

theorem allocate_prbs_sub_shortest:
  assumes "unat (get_nb_rbg c) \<le> length rballoc"
  shows "\<exists>w k. allocate_prbs_sub nb_rb rballoc c = Some w \<and> k \<le> unat (get_nb_rbg c) \<and>
     (\<forall>b. bit w b \<longleftrightarrow> b < unat (get_nb_rbg c) \<and> unat (get_nb_rbg c) - 1 - b < k \<and>
                rballoc ! (unat (get_nb_rbg c) - 1 - b) = 1) \<and>
     (k < unat (get_nb_rbg c) \<longrightarrow> nb_rb \<le> covered c rballoc k) \<and> (\<forall>j < k. covered c rballoc j < nb_rb)"
  using allocate_prbs_sub_spec [OF assms(1), of nb_rb] unfolding bitmap_of_def .

definition sample_cell :: flex_cell_config where
  "sample_cell = \<lparr>cc_cell_id = 0, cc_phich_resource = FLPR_ONE, cc_dl_bandwidth = 25,
     cc_dl_cyclic_prefix_length = FLDCPL_NORMAL, cc_duplex_mode = FLDM_FDD\<rparr>"

lemma allocate_prbs_sub_witness:
  "\<exists>w k. allocate_prbs_sub 3 [1, 0, 1, 1, 0, 0, 0, 0, 0, 0, 0, 0, 1] sample_cell = Some w \<and> w = 5120 \<and>
     k \<le> 13 \<and> 3 \<le> covered sample_cell [1, 0, 1, 1, 0, 0, 0, 0, 0, 0, 0, 0, 1] k"
proof -
  let ?rb = "[1, 0, 1, 1, 0, 0, 0, 0, 0, 0, 0, 0, 1] :: u8 list"
  have n: "unat (get_nb_rbg sample_cell) = 13" by (simp add: get_nb_rbg_def sample_cell_def)
  have run: "allocate_prbs_sub 3 ?rb sample_cell = Some 5120"
    by (simp add: allocate_prbs_sub_def prbs_loop.simps n aget_def rbg_size_def sample_cell_def)
       (simp add: get_nb_rbg_def)
  have all: "3 \<le> covered sample_cell ?rb 13"
    by (simp add: covered_def upt_rec rbg_size_def sample_cell_def get_nb_rbg_def)
  obtain w k where "allocate_prbs_sub 3 ?rb sample_cell = Some w" "k \<le> 13" "k < 13 \<longrightarrow> 3 \<le> covered sample_cell ?rb k"
    using allocate_prbs_sub_shortest [of sample_cell ?rb 3] unfolding n by auto
  then show ?thesis using run all by (intro exI [of _ w] exI [of _ k]) (cases "k < 13", auto)
qed

section \<open>Lemmas: control channel elements\<close>

text \<open>Without a PDCCH symbol the count wraps to thousands of elements, so no request is too large.\<close>

lemma nCCE_max_no_symbol: "7000 \<le> unat (get_nCCE_max 0 c subframe)"
proof -
  have g: "unat (n_group_PHICH c mi) \<le> 255" for mi using unsigned_less [of "n_group_PHICH c mi", where ?'a = nat] by simp
  let ?n = "n_group_PHICH c (get_mi c subframe)"
  have "unat (0 - 4 - 3 * ucast ?n :: u16) = 2 ^ 16 - (4 + 3 * unat ?n)"
    using g [of "get_mi c subframe"]
    by (simp add: unat_sub_if_size word_size unat_word_ariths unsigned_ucast_eq take_bit_nat_eq_self)
  then have "(2 ^ 16 - 769) div 9 \<le> unat (get_nCCE_max 0 c subframe)"
    using g [of "get_mi c subframe"]
    by (simp add: get_nCCE_max_def get_nquad_def Let_def unat_div_distrib div_le_mono)
  then show ?thesis by simp
qed

text \<open>A candidate is a whole number of aggregation units and lies within the elements of the cell.\<close>

lemma nCCE_offset_in_range:
  assumes "aggregation \<in> {1, 2, 4, 8}" and "uint aggregation \<le> nCCE" and "nCCE < 2 ^ 16"
  shows "\<exists>p. get_nCCE_offset aggregation nCCE 0 rnti subframe = Some (int p * uint aggregation) \<and>
     int p * uint aggregation + uint aggregation \<le> nCCE"
proof -
  define a where "a = unat aggregation"
  define n where "n = nat nCCE div a"
  define s where "s = (of_nat n :: u32)"
  have a: "a \<in> {1, 2, 4, 8}" and ua: "uint aggregation = int a" using assms(1) by (auto simp: a_def)
  have le: "a \<le> nat nCCE" "nat nCCE < 2 ^ 16" and nC: "nCCE = int (nat nCCE)"
    using assms(2,3) ua by auto
  have n: "0 < n" "n < 2 ^ 16" "n * a \<le> nat nCCE"
    using a le unfolding n_def by (auto simp: div_greater_zero_iff intro: order.strict_trans1 [OF div_le_dividend])
  have sl: "word_of_int (nCCE sdiv uint aggregation) = s"
  proof -
    have "nCCE sdiv int a = int n"
      unfolding n_def zdiv_int by (subst nC) (use a in \<open>auto simp: signed_divide_int_def sgn_if\<close>)
    then show ?thesis by (simp add: s_def ua)
  qed
  have us: "unat s = n" using n(2) by (simp add: s_def unsigned_of_nat take_bit_nat_eq_self)
  define y where "y = Yk_hash rnti subframe mod s mod s"
  have y: "unat y < n" using n(1) us by (simp add: y_def unat_mod_distrib)
  have small: "unat y * a < 2 ^ 19" using y n(2) a by auto
  have ua32: "unat (ucast aggregation :: u32) = a"
    using a by (auto simp: unsigned_ucast_eq take_bit_nat_eq_self a_def)
  have "unat (y * ucast aggregation) = unat y * a"
    using small by (simp add: unat_word_ariths ua32)
  then have "uint (y * ucast aggregation) = int (unat y * a)" by (simp only: uint_nat)
  then have res: "sint (y * ucast aggregation) = int (unat y * a)"
    using small by (simp only: sint_uint) (simp add: signed_take_bit_int_eq_self flip: of_nat_mult)
  have "get_nCCE_offset aggregation nCCE 0 rnti subframe = Some (int (unat y) * uint aggregation)"
    using assms(1) n(1) us res unfolding get_nCCE_offset_def sl
    by (auto simp: Let_def nb_candidates_def y_def ua)
  moreover have "unat y * a + a \<le> nat nCCE"
    using y n(3) by (metis add.commute le_trans mult_Suc mult_le_mono1 Suc_leI)
  then have "int (unat y) * uint aggregation + uint aggregation \<le> nCCE"
    unfolding ua by (subst nC) (metis of_nat_add of_nat_le_iff of_nat_mult)
  ultimately show ?thesis by blast
qed

end
