(* ===== verification/StdMap.thy ===== *)
theory StdMap
  imports Prelude
begin

text \<open>
  \<open>std::map\<close> with its ordered iteration. The contract the clients rely on is the locale
  \<open>std_map\<close>; the implementation the model computes with is an association list kept
  strictly ascending by key, and the interpretation \<open>sm\<close> at the end discharges the contract.
  Two ways to store are kept apart, because the sources use both: \<open>insert\<close> (a member function
  of \<open>std::map\<close>, which leaves an existing entry alone) and \<open>put\<close> (a write through the
  iterator or the \<open>shared_ptr\<close> the map holds, which replaces it).
\<close>

section \<open>The contract\<close>

locale std_map =
  fixes empty :: "'m"
    and find :: "'m \<Rightarrow> 'k::linorder \<Rightarrow> 'v option"
    and insert :: "'k \<Rightarrow> 'v \<Rightarrow> 'm \<Rightarrow> 'm"
    and put :: "'k \<Rightarrow> 'v \<Rightarrow> 'm \<Rightarrow> 'm"
    and erase :: "'k \<Rightarrow> 'm \<Rightarrow> 'm"
    and keys :: "'m \<Rightarrow> 'k list"
    and inv :: "'m \<Rightarrow> bool"
  assumes find_empty: "find empty = (\<lambda>_. None)"
    and find_insert: "inv m \<Longrightarrow> find (insert k v m) =
          (if k \<in> dom (find m) then find m else (find m)(k \<mapsto> v))"
    and find_put: "inv m \<Longrightarrow> find (put k v m) = (find m)(k \<mapsto> v)"
    and find_erase: "inv m \<Longrightarrow> find (erase k m) = (find m)(k := None)"
    and keys_sorted: "inv m \<Longrightarrow> sorted (keys m) \<and> distinct (keys m)"
    and set_keys: "inv m \<Longrightarrow> set (keys m) = dom (find m)"
    and inv_empty: "inv empty"
    and inv_insert: "inv m \<Longrightarrow> inv (insert k v m)"
    and inv_put: "inv m \<Longrightarrow> inv (put k v m)"
    and inv_erase: "inv m \<Longrightarrow> inv (erase k m)"
begin

lemmas invs = inv_empty inv_insert inv_put inv_erase

lemma insert_keeps: "inv m \<Longrightarrow> find m k = Some v \<Longrightarrow> find (insert j w m) k = Some v"
  by (auto simp: find_insert)

lemma dom_insert: "inv m \<Longrightarrow> dom (find (insert k v m)) = Set.insert k (dom (find m))"
  by (auto simp: find_insert)

lemma dom_put: "inv m \<Longrightarrow> dom (find (put k v m)) = Set.insert k (dom (find m))"
  by (auto simp: find_put)

lemma dom_erase: "inv m \<Longrightarrow> dom (find (erase k m)) = dom (find m) - {k}"
  by (auto simp: find_erase)

text \<open>Updating a key that is present does not change the set of keys.\<close>

lemma keys_put: "inv m \<Longrightarrow> k \<in> dom (find m) \<Longrightarrow> keys (put k v m) = keys m"
  by (rule sorted_distinct_set_unique)
     (use keys_sorted inv_put set_keys dom_put in \<open>auto simp: insert_absorb\<close>)

text \<open>Creating the entries a list of keys asks for: nothing that was there changes.\<close>

lemma fold_insert:
  assumes "inv m"
  shows "inv (fold (\<lambda>k. insert k (f k)) ks m) \<and>
         dom (find (fold (\<lambda>k. insert k (f k)) ks m)) = dom (find m) \<union> set ks \<and>
         (\<forall>k v. find m k = Some v \<longrightarrow> find (fold (\<lambda>k. insert k (f k)) ks m) k = Some v) \<and>
         (\<forall>k. k \<notin> dom (find m) \<longrightarrow> k \<in> set ks \<longrightarrow>
              find (fold (\<lambda>k. insert k (f k)) ks m) k = Some (f k))"
  using assms
proof (induction ks arbitrary: m)
  case Nil
  then show ?case by simp
next
  case (Cons j ks)
  have iv: "inv (insert j (f j) m)" using Cons.prems by (rule inv_insert)
  note IH = Cons.IH [OF iv]
  have keeps: "find m k = Some v \<Longrightarrow> find (insert j (f j) m) k = Some v" for k v
    using Cons.prems by (rule insert_keeps)
  have new: "k \<notin> dom (find m) \<Longrightarrow> k \<in> set (j # ks) \<Longrightarrow>
      find (fold (\<lambda>k. insert k (f k)) ks (insert j (f j) m)) k = Some (f k)" for k
    using IH Cons.prems by (cases "k = j") (simp_all add: dom_insert find_insert)
  show ?case
    using IH keeps new Cons.prems by (simp add: dom_insert)
qed

end

section \<open>The implementation: an association list in ascending key order\<close>

definition sm_find :: "('k \<times> 'v) list \<Rightarrow> 'k \<Rightarrow> 'v option" where
  "sm_find m k = map_of m k"

fun sm_insert :: "'k::linorder \<Rightarrow> 'v \<Rightarrow> ('k \<times> 'v) list \<Rightarrow> ('k \<times> 'v) list" where
  "sm_insert k v [] = [(k, v)]"
| "sm_insert k v (e # m) =
     (if fst e < k then e # sm_insert k v m else if fst e = k then e # m else (k, v) # e # m)"

fun sm_put :: "'k::linorder \<Rightarrow> 'v \<Rightarrow> ('k \<times> 'v) list \<Rightarrow> ('k \<times> 'v) list" where
  "sm_put k v [] = [(k, v)]"
| "sm_put k v (e # m) =
     (if fst e < k then e # sm_put k v m else if fst e = k then (k, v) # m else (k, v) # e # m)"

definition sm_erase :: "'k \<Rightarrow> ('k \<times> 'v) list \<Rightarrow> ('k \<times> 'v) list" where
  "sm_erase k m = filter (\<lambda>e. fst e \<noteq> k) m"

definition sm_keys :: "('k \<times> 'v) list \<Rightarrow> 'k list" where
  "sm_keys m = map fst m"

definition sm_inv :: "('k::linorder \<times> 'v) list \<Rightarrow> bool" where
  "sm_inv m \<longleftrightarrow> sorted_wrt (<) (map fst m)"

lemma sm_insert_keys: "fst ` set (sm_insert k v m) = insert k (fst ` set m)"
  by (induction m) auto

lemma sm_put_keys: "fst ` set (sm_put k v m) = insert k (fst ` set m)"
  by (induction m) auto

lemma sm_inv_Cons: "sm_inv (e # m) \<longleftrightarrow> (\<forall>x \<in> fst ` set m. fst e < x) \<and> sm_inv m"
  by (auto simp: sm_inv_def)

lemma sm_find_above: "(\<forall>x \<in> fst ` set m. (k::'k::linorder) < x) \<Longrightarrow> map_of m k = None"
  by (auto simp: map_of_eq_None_iff)

lemma sm_inv_insert: "sm_inv m \<Longrightarrow> sm_inv (sm_insert k v m)"
  by (induction m) (auto simp: sm_inv_Cons sm_insert_keys sm_inv_def [of "[]"] simp del: image_iff)

lemma sm_inv_put: "sm_inv m \<Longrightarrow> sm_inv (sm_put k v m)"
  by (induction m) (auto simp: sm_inv_Cons sm_put_keys sm_inv_def [of "[]"] simp del: image_iff)

lemma sm_find_insert:
  "sm_inv m \<Longrightarrow> sm_find (sm_insert k v m) =
     (if k \<in> dom (sm_find m) then sm_find m else (sm_find m)(k \<mapsto> v))"
proof (induction m)
  case Nil
  then show ?case by (auto simp: sm_find_def fun_eq_iff)
next
  case (Cons e m)
  obtain a b where e: "e = (a, b)" by fastforce
  from Cons have IH: "sm_find (sm_insert k v m) =
      (if k \<in> dom (sm_find m) then sm_find m else (sm_find m)(k \<mapsto> v))"
    by (simp add: sm_inv_Cons)
  have above: "\<not> a < k \<Longrightarrow> a \<noteq> k \<Longrightarrow> map_of m k = None"
    using Cons.prems e by (intro sm_find_above) (auto simp: sm_inv_Cons)
  show ?case
    using IH above unfolding e sm_find_def fun_eq_iff by (auto simp: dom_def)
qed

lemma sm_find_put: "sm_inv m \<Longrightarrow> sm_find (sm_put k v m) = (sm_find m)(k \<mapsto> v)"
  by (induction m) (auto simp: sm_inv_Cons sm_find_def fun_eq_iff)

interpretation sm: std_map "[]" sm_find sm_insert sm_put sm_erase sm_keys sm_inv
proof unfold_locales
  show "sm_find [] = (\<lambda>_. None)" by (simp add: sm_find_def fun_eq_iff)
next
  fix m :: "('a \<times> 'b) list" and k v
  assume m: "sm_inv m"
  show "sm_find (sm_insert k v m) = (if k \<in> dom (sm_find m) then sm_find m else (sm_find m)(k \<mapsto> v))"
    by (rule sm_find_insert [OF m])
  show "sm_find (sm_put k v m) = (sm_find m)(k \<mapsto> v)"
    by (rule sm_find_put [OF m])
  show "sm_find (sm_erase k m) = (sm_find m)(k := None)"
    by (induction m) (auto simp: sm_find_def sm_erase_def fun_eq_iff)
  show "sorted (sm_keys m) \<and> distinct (sm_keys m)"
    using m by (simp add: sm_inv_def sm_keys_def strict_sorted_iff)
  show "set (sm_keys m) = dom (sm_find m)"
    by (simp add: sm_keys_def sm_find_def [abs_def] dom_map_of_conv_image_fst)
  show "sm_inv (sm_insert k v m)" by (rule sm_inv_insert [OF m])
  show "sm_inv (sm_put k v m)" by (rule sm_inv_put [OF m])
  show "sm_inv (sm_erase k m)"
    using m unfolding sm_inv_def sm_erase_def
    by (induction m) auto
next
  show "sm_inv []" by (simp add: sm_inv_def)
qed

lemmas sm_invs [wf_intros] = sm.invs

end
