(* ===== verification/SchedInfo.thy ===== *)
theory SchedInfo
  imports SchedPrimitives StdMap
begin

text \<open>
  What a scheduler remembers: \<open>src/app/ue_scheduling_info.{h,cc}\<close> (one record per UE) and
  \<open>src/app/enb_scheduling_info.{h,cc}\<close> (one per eNB: the resource map, the PDCCH symbols and the free
  control channel elements of each cell). The getters and setters index C arrays without a check.
\<close>

section \<open>ue_scheduling_info\<close>

record ue_scheduling_info =
  si_ta_timer :: int
  si_rnti :: rnti_t
  si_ndi :: "u8 list list"
  si_tpc :: "u8 list list"
  si_nb_scheduled_rbs :: "u16 list list"
  si_mcs :: "u16 list list"
  si_rballoc_sub_scheduled :: "u8 list list list"
  si_dl_pow_off :: "u16 list"
  si_nb_rbs_required :: "u16 list"
  si_harq_round :: "u8 list list list"
  si_rballoc_sub :: "u8 list list"
  si_nb_rbs_required_remaining :: "u16 list"
  si_nb_rbs_required_remaining_1 :: "u16 list"
  si_pre_nb_rbs_available :: "u16 list"
  si_pucch_tpc_tx_frame :: frame_t
  si_pucch_tpc_tx_subframe :: subframe_t
  si_high_priority :: bool

text \<open>The initialiser \<open>dl_pow_off_{2}\<close> sets the first carrier only.\<close>

definition new_ue_scheduling_info :: "rnti_t \<Rightarrow> ue_scheduling_info" where
  "new_ue_scheduling_info rnti =
     \<lparr>si_ta_timer = 20, si_rnti = rnti,
      si_ndi = replicate MAX_NUM_CC (replicate MAX_NUM_HARQ 0),
      si_tpc = replicate MAX_NUM_CC (replicate MAX_NUM_HARQ 0),
      si_nb_scheduled_rbs = replicate MAX_NUM_CC (replicate MAX_NUM_HARQ 0),
      si_mcs = replicate MAX_NUM_CC (replicate MAX_NUM_HARQ 0),
      si_rballoc_sub_scheduled = replicate MAX_NUM_CC (replicate MAX_NUM_HARQ (replicate N_RBG_MAX 0)),
      si_dl_pow_off = [2, 0],
      si_nb_rbs_required = replicate MAX_NUM_CC 0,
      si_harq_round = replicate MAX_NUM_CC (replicate MAX_NUM_HARQ (replicate MAX_NUM_TB 0)),
      si_rballoc_sub = replicate MAX_NUM_CC (replicate N_RBG_MAX 0),
      si_nb_rbs_required_remaining = replicate MAX_NUM_CC 0,
      si_nb_rbs_required_remaining_1 = replicate MAX_NUM_CC 0,
      si_pre_nb_rbs_available = replicate MAX_NUM_CC 0,
      si_pucch_tpc_tx_frame = 0, si_pucch_tpc_tx_subframe = 0, si_high_priority = True\<rparr>"

definition ue_start_new_scheduling_round :: "ue_scheduling_info \<Rightarrow> ue_scheduling_info" where
  "ue_start_new_scheduling_round s =
     s\<lparr>si_rballoc_sub := replicate MAX_NUM_CC (replicate N_RBG_MAX 0),
       si_nb_rbs_required := replicate MAX_NUM_CC 0,
       si_nb_rbs_required_remaining := replicate MAX_NUM_CC 0,
       si_nb_rbs_required_remaining_1 := replicate MAX_NUM_CC 0,
       si_pre_nb_rbs_available := replicate MAX_NUM_CC 0,
       si_rballoc_sub_scheduled := replicate MAX_NUM_CC (replicate MAX_NUM_HARQ (replicate N_RBG_MAX 0))\<rparr>"

definition decr_ta_timer :: "ue_scheduling_info \<Rightarrow> ue_scheduling_info" where
  "decr_ta_timer s = s\<lparr>si_ta_timer := si_ta_timer s - 1\<rparr>"

definition set_ta_timer :: "int \<Rightarrow> ue_scheduling_info \<Rightarrow> ue_scheduling_info" where
  "set_ta_timer v s = s\<lparr>si_ta_timer := v\<rparr>"

definition is_high_priority_set :: "bool \<Rightarrow> ue_scheduling_info \<Rightarrow> ue_scheduling_info" where
  "is_high_priority_set flag s = s\<lparr>si_high_priority := flag\<rparr>"

definition get_harq_round :: "ue_scheduling_info \<Rightarrow> u16 \<Rightarrow> int \<Rightarrow> int option" where
  "get_harq_round s cell_id harq_pid =
     (if unat cell_id < MAX_NUM_CC \<and> harq_pid < int MAX_NUM_HARQ
      then if harq_pid < 0 then None
           else map_option uint (aget3 (si_harq_round s) (unat cell_id) (nat harq_pid) 0)
      else Some (- 1))"

definition set_harq_round :: "u16 \<Rightarrow> nat \<Rightarrow> u8 \<Rightarrow> ue_scheduling_info \<Rightarrow> ue_scheduling_info option" where
  "set_harq_round cell_id harq_pid round s = do {
     a \<leftarrow> aset3 (si_harq_round s) (unat cell_id) harq_pid 0 round;
     Some (s\<lparr>si_harq_round := a\<rparr>) }"

definition set_nb_rbs_required :: "u16 \<Rightarrow> u16 \<Rightarrow> ue_scheduling_info \<Rightarrow> ue_scheduling_info option" where
  "set_nb_rbs_required cell_id nb_rbs s = do {
     a \<leftarrow> aset (si_nb_rbs_required s) (unat cell_id) nb_rbs;
     Some (s\<lparr>si_nb_rbs_required := a\<rparr>) }"

definition get_nb_rbs_required :: "ue_scheduling_info \<Rightarrow> u16 \<Rightarrow> u16 option" where
  "get_nb_rbs_required s cell_id = aget (si_nb_rbs_required s) (unat cell_id)"

definition set_nb_rbs_required_remaining :: "u16 \<Rightarrow> u16 \<Rightarrow> ue_scheduling_info \<Rightarrow> ue_scheduling_info option" where
  "set_nb_rbs_required_remaining cell_id nb_rbs s = do {
     a \<leftarrow> aset (si_nb_rbs_required_remaining s) (unat cell_id) nb_rbs;
     Some (s\<lparr>si_nb_rbs_required_remaining := a\<rparr>) }"

definition get_nb_rbs_required_remaining :: "ue_scheduling_info \<Rightarrow> u16 \<Rightarrow> u16 option" where
  "get_nb_rbs_required_remaining s cell_id = aget (si_nb_rbs_required_remaining s) (unat cell_id)"

definition set_nb_rbs_required_remaining1 :: "u16 \<Rightarrow> u16 \<Rightarrow> ue_scheduling_info \<Rightarrow> ue_scheduling_info option" where
  "set_nb_rbs_required_remaining1 cell_id nb_rbs s = do {
     a \<leftarrow> aset (si_nb_rbs_required_remaining_1 s) (unat cell_id) nb_rbs;
     Some (s\<lparr>si_nb_rbs_required_remaining_1 := a\<rparr>) }"

definition get_nb_rbs_required_remaining1 :: "ue_scheduling_info \<Rightarrow> u16 \<Rightarrow> u16 option" where
  "get_nb_rbs_required_remaining1 s cell_id = aget (si_nb_rbs_required_remaining_1 s) (unat cell_id)"

definition set_rballoc_sub :: "u16 \<Rightarrow> nat \<Rightarrow> u8 \<Rightarrow> ue_scheduling_info \<Rightarrow> ue_scheduling_info option" where
  "set_rballoc_sub cell_id rbg val s = do {
     a \<leftarrow> aset2 (si_rballoc_sub s) (unat cell_id) rbg val;
     Some (s\<lparr>si_rballoc_sub := a\<rparr>) }"

definition get_rballoc_sub :: "ue_scheduling_info \<Rightarrow> u16 \<Rightarrow> nat \<Rightarrow> u8 option" where
  "get_rballoc_sub s cell_id rbg = aget2 (si_rballoc_sub s) (unat cell_id) rbg"

definition set_nb_scheduled_rbs :: "u16 \<Rightarrow> u8 \<Rightarrow> u16 \<Rightarrow> ue_scheduling_info \<Rightarrow> ue_scheduling_info option" where
  "set_nb_scheduled_rbs cell_id harq_pid nb_rbs s = do {
     a \<leftarrow> aset2 (si_nb_scheduled_rbs s) (unat cell_id) (unat harq_pid) nb_rbs;
     Some (s\<lparr>si_nb_scheduled_rbs := a\<rparr>) }"

definition get_nb_scheduled_rbs :: "ue_scheduling_info \<Rightarrow> u16 \<Rightarrow> u8 \<Rightarrow> u16 option" where
  "get_nb_scheduled_rbs s cell_id harq_pid = aget2 (si_nb_scheduled_rbs s) (unat cell_id) (unat harq_pid)"

definition get_pre_nb_rbs_available :: "ue_scheduling_info \<Rightarrow> u16 \<Rightarrow> u16 option" where
  "get_pre_nb_rbs_available s cell_id = aget (si_pre_nb_rbs_available s) (unat cell_id)"

definition set_pre_nb_rbs_available :: "u16 \<Rightarrow> u16 \<Rightarrow> ue_scheduling_info \<Rightarrow> ue_scheduling_info option" where
  "set_pre_nb_rbs_available cell_id nb_rbs s = do {
     a \<leftarrow> aset (si_pre_nb_rbs_available s) (unat cell_id) nb_rbs;
     Some (s\<lparr>si_pre_nb_rbs_available := a\<rparr>) }"

definition set_rballoc_sub_scheduled :: "u16 \<Rightarrow> u8 \<Rightarrow> nat \<Rightarrow> u8 \<Rightarrow> ue_scheduling_info \<Rightarrow> ue_scheduling_info option" where
  "set_rballoc_sub_scheduled cell_id harq_pid rbg val s = do {
     a \<leftarrow> aset3 (si_rballoc_sub_scheduled s) (unat cell_id) (unat harq_pid) rbg val;
     Some (s\<lparr>si_rballoc_sub_scheduled := a\<rparr>) }"

definition get_rballoc_sub_scheduled :: "ue_scheduling_info \<Rightarrow> u16 \<Rightarrow> u8 \<Rightarrow> u8 list option" where
  "get_rballoc_sub_scheduled s cell_id harq_pid =
     aget2 (si_rballoc_sub_scheduled s) (unat cell_id) (unat harq_pid)"

definition set_mcs :: "u16 \<Rightarrow> u8 \<Rightarrow> int \<Rightarrow> ue_scheduling_info \<Rightarrow> ue_scheduling_info option" where
  "set_mcs cell_id harq_pid mcs s = do {
     a \<leftarrow> aset2 (si_mcs s) (unat cell_id) (unat harq_pid) (word_of_int mcs);
     Some (s\<lparr>si_mcs := a\<rparr>) }"

definition get_mcs :: "ue_scheduling_info \<Rightarrow> u16 \<Rightarrow> u8 \<Rightarrow> int option" where
  "get_mcs s cell_id harq_pid = map_option uint (aget2 (si_mcs s) (unat cell_id) (unat harq_pid))"

definition get_ndi :: "ue_scheduling_info \<Rightarrow> u16 \<Rightarrow> u8 \<Rightarrow> u8 option" where
  "get_ndi s cell_id harq_pid = aget2 (si_ndi s) (unat cell_id) (unat harq_pid)"

definition toggle_ndi :: "u16 \<Rightarrow> u8 \<Rightarrow> ue_scheduling_info \<Rightarrow> ue_scheduling_info option" where
  "toggle_ndi cell_id harq_pid s = do {
     v \<leftarrow> get_ndi s cell_id harq_pid;
     a \<leftarrow> aset2 (si_ndi s) (unat cell_id) (unat harq_pid) (1 - v);
     Some (s\<lparr>si_ndi := a\<rparr>) }"

definition get_tpc :: "ue_scheduling_info \<Rightarrow> u16 \<Rightarrow> u8 \<Rightarrow> u8 option" where
  "get_tpc s cell_id harq_pid = aget2 (si_tpc s) (unat cell_id) (unat harq_pid)"

definition set_tpc :: "u16 \<Rightarrow> u8 \<Rightarrow> u8 \<Rightarrow> ue_scheduling_info \<Rightarrow> ue_scheduling_info option" where
  "set_tpc cell_id harq_pid tpc s = do {
     a \<leftarrow> aset2 (si_tpc s) (unat cell_id) (unat harq_pid) tpc;
     Some (s\<lparr>si_tpc := a\<rparr>) }"

definition set_dl_power_offset :: "u16 \<Rightarrow> int \<Rightarrow> ue_scheduling_info \<Rightarrow> ue_scheduling_info option" where
  "set_dl_power_offset cell_id val s = do {
     a \<leftarrow> aset (si_dl_pow_off s) (unat cell_id) (word_of_int val);
     Some (s\<lparr>si_dl_pow_off := a\<rparr>) }"

definition get_dl_power_offset :: "ue_scheduling_info \<Rightarrow> u16 \<Rightarrow> u16 option" where
  "get_dl_power_offset s cell_id = aget (si_dl_pow_off s) (unat cell_id)"

definition set_pucch_tpc_tx :: "frame_t \<Rightarrow> subframe_t \<Rightarrow> ue_scheduling_info \<Rightarrow> ue_scheduling_info" where
  "set_pucch_tpc_tx frame subframe s =
     s\<lparr>si_pucch_tpc_tx_frame := frame, si_pucch_tpc_tx_subframe := subframe\<rparr>"

section \<open>enb_scheduling_info\<close>

record enb_scheduling_info =
  es_last_checked_frame :: frame_t
  es_last_checked_subframe :: subframe_t
  es_scheduling_info :: "(rnti_t \<times> ue_scheduling_info) list"
  es_vrb_map :: "u8 list list"
  es_num_pdcch_symbols :: "u8 list"
  es_nCCE_rem :: "u32 list"

text \<open>The frame and subframe of the last check are not initialised.\<close>

definition new_enb_scheduling_info :: "junk \<Rightarrow> int \<Rightarrow> enb_scheduling_info" where
  "new_enb_scheduling_info jk agent_id =
     \<lparr>es_last_checked_frame = jk_last_frame jk agent_id,
      es_last_checked_subframe = jk_last_subframe jk agent_id,
      es_scheduling_info = [],
      es_vrb_map = replicate MAX_NUM_CC (replicate N_RBG_MAX 0),
      es_num_pdcch_symbols = replicate MAX_NUM_CC 0,
      es_nCCE_rem = replicate MAX_NUM_CC 0\<rparr>"

definition get_ue_scheduling_info :: "enb_scheduling_info \<Rightarrow> rnti_t \<Rightarrow> ue_scheduling_info option" where
  "get_ue_scheduling_info e rnti = sm_find (es_scheduling_info e) rnti"

definition create_ue_scheduling_info :: "rnti_t \<Rightarrow> enb_scheduling_info \<Rightarrow> enb_scheduling_info" where
  "create_ue_scheduling_info rnti e =
     e\<lparr>es_scheduling_info := sm_insert rnti (new_ue_scheduling_info rnti) (es_scheduling_info e)\<rparr>"

text \<open>A write through the \<open>shared_ptr\<close> of a UE's record.\<close>

definition put_ue_sched :: "rnti_t \<Rightarrow> ue_scheduling_info \<Rightarrow> enb_scheduling_info \<Rightarrow> enb_scheduling_info" where
  "put_ue_sched rnti s e = e\<lparr>es_scheduling_info := sm_put rnti s (es_scheduling_info e)\<rparr>"

definition get_vrb_map :: "enb_scheduling_info \<Rightarrow> u16 \<Rightarrow> nat \<Rightarrow> u8 option" where
  "get_vrb_map e cell_id i = aget2 (es_vrb_map e) (unat cell_id) i"

definition toggle_vrb_map :: "u16 \<Rightarrow> nat \<Rightarrow> enb_scheduling_info \<Rightarrow> enb_scheduling_info option" where
  "toggle_vrb_map cell_id i e = do {
     a \<leftarrow> aset2 (es_vrb_map e) (unat cell_id) i 1;
     Some (e\<lparr>es_vrb_map := a\<rparr>) }"

definition get_num_pdcch_symbols :: "enb_scheduling_info \<Rightarrow> u16 \<Rightarrow> u8 option" where
  "get_num_pdcch_symbols e cell_id = aget (es_num_pdcch_symbols e) (unat cell_id)"

definition get_nCCE_rem :: "enb_scheduling_info \<Rightarrow> u16 \<Rightarrow> u32 option" where
  "get_nCCE_rem e cell_id = aget (es_nCCE_rem e) (unat cell_id)"

definition assign_CCE :: "u16 \<Rightarrow> int \<Rightarrow> enb_scheduling_info \<Rightarrow> enb_scheduling_info option" where
  "assign_CCE cell_id nCCE e = do {
     v \<leftarrow> aget (es_nCCE_rem e) (unat cell_id);
     a \<leftarrow> aset (es_nCCE_rem e) (unat cell_id) (v - word_of_int nCCE);
     Some (e\<lparr>es_nCCE_rem := a\<rparr>) }"

definition remove_CCE :: "u16 \<Rightarrow> int \<Rightarrow> enb_scheduling_info \<Rightarrow> enb_scheduling_info option" where
  "remove_CCE cell_id nCCE e = do {
     v \<leftarrow> aget (es_nCCE_rem e) (unat cell_id);
     a \<leftarrow> aset (es_nCCE_rem e) (unat cell_id) (v + word_of_int nCCE);
     Some (e\<lparr>es_nCCE_rem := a\<rparr>) }"

text \<open>A cell id as an array index: \<open>int cell_id\<close>, whose negative values are out of range too.\<close>

definition increase_num_pdcch_symbols ::
    "flex_cell_config \<Rightarrow> subframe_t \<Rightarrow> enb_scheduling_info \<Rightarrow> enb_scheduling_info option" where
  "increase_num_pdcch_symbols c subframe e =
     (let cell_id = unat (cc_cell_id c)
      in do {
        n \<leftarrow> aget (es_num_pdcch_symbols e) cell_id;
        let prev_nCCE_max = (ucast (get_nCCE_max n c subframe) :: u32);
        ns \<leftarrow> aset (es_num_pdcch_symbols e) cell_id (n + 1);
        let nCCE_max = (ucast (get_nCCE_max (n + 1) c subframe) :: u32);
        rem \<leftarrow> aget (es_nCCE_rem e) cell_id;
        rs \<leftarrow> aset (es_nCCE_rem e) cell_id (nCCE_max - (prev_nCCE_max - rem));
        Some (e\<lparr>es_num_pdcch_symbols := ns, es_nCCE_rem := rs\<rparr>) })"

definition set_vrb :: "nat \<Rightarrow> enb_scheduling_info \<Rightarrow> nat \<Rightarrow> enb_scheduling_info option" where
  "set_vrb cell_id e i = do {
     a \<leftarrow> aset2 (es_vrb_map e) cell_id i 1;
     Some (e\<lparr>es_vrb_map := a\<rparr>) }"

definition si_index :: "int \<Rightarrow> nat" where
  "si_index n_rb_dl =
     (if n_rb_dl = 6 then 0 else if n_rb_dl = 15 then 6 else if n_rb_dl = 25 then 11
      else if n_rb_dl = 50 then 23 else if n_rb_dl = 100 then 48 else 0)"

definition enb_start_new_scheduling_round ::
    "subframe_t \<Rightarrow> flex_cell_config \<Rightarrow> enb_scheduling_info \<Rightarrow> enb_scheduling_info option" where
  "enb_start_new_scheduling_round subframe c e =
     (let cell_id = unat (cc_cell_id c)
      in do {
        vs \<leftarrow> aset (es_vrb_map e) cell_id (replicate N_RBG_MAX 0);
        ns \<leftarrow> aset (es_num_pdcch_symbols e) cell_id 0;
        rs \<leftarrow> aset (es_nCCE_rem e) cell_id (ucast (get_nCCE_max 0 c subframe));
        let e = e\<lparr>es_vrb_map := vs, es_num_pdcch_symbols := ns, es_nCCE_rem := rs\<rparr>;
        e \<leftarrow> (if subframe = 0 \<or> subframe = 5
             then do {
               ns \<leftarrow> aset (es_num_pdcch_symbols e) cell_id 3;
               foldo (set_vrb cell_id) (e\<lparr>es_num_pdcch_symbols := ns\<rparr>) [0, 1, 2, 3] }
             else Some e);
        if subframe = 5
        then let k = si_index (uint (cc_dl_bandwidth c))
             in foldo (set_vrb cell_id) e [k, k + 1, k + 2, k + 3]
        else Some e })"

definition needs_scheduling :: "enb_scheduling_info \<Rightarrow> frame_t \<Rightarrow> subframe_t \<Rightarrow> bool" where
  "needs_scheduling e curr_frame curr_subframe \<longleftrightarrow>
     \<not> (es_last_checked_frame e = curr_frame \<and> es_last_checked_subframe e = curr_subframe)"

section \<open>Well-formedness\<close>

definition ue_sched_wf :: "ue_scheduling_info \<Rightarrow> bool" where
  "ue_sched_wf s \<longleftrightarrow>
     dim2 MAX_NUM_CC MAX_NUM_HARQ (si_ndi s) \<and> dim2 MAX_NUM_CC MAX_NUM_HARQ (si_tpc s) \<and>
     dim2 MAX_NUM_CC MAX_NUM_HARQ (si_nb_scheduled_rbs s) \<and> dim2 MAX_NUM_CC MAX_NUM_HARQ (si_mcs s) \<and>
     dim3 MAX_NUM_CC MAX_NUM_HARQ N_RBG_MAX (si_rballoc_sub_scheduled s) \<and>
     length (si_dl_pow_off s) = MAX_NUM_CC \<and> length (si_nb_rbs_required s) = MAX_NUM_CC \<and>
     dim3 MAX_NUM_CC MAX_NUM_HARQ MAX_NUM_TB (si_harq_round s) \<and>
     dim2 MAX_NUM_CC N_RBG_MAX (si_rballoc_sub s) \<and>
     length (si_nb_rbs_required_remaining s) = MAX_NUM_CC \<and>
     length (si_nb_rbs_required_remaining_1 s) = MAX_NUM_CC \<and>
     length (si_pre_nb_rbs_available s) = MAX_NUM_CC"

definition enb_sched_wf :: "enb_scheduling_info \<Rightarrow> bool" where
  "enb_sched_wf e \<longleftrightarrow>
     sm_inv (es_scheduling_info e) \<and>
     (\<forall>r s. get_ue_scheduling_info e r = Some s \<longrightarrow> ue_sched_wf s) \<and>
     dim2 MAX_NUM_CC N_RBG_MAX (es_vrb_map e) \<and>
     length (es_num_pdcch_symbols e) = MAX_NUM_CC \<and> length (es_nCCE_rem e) = MAX_NUM_CC"

lemma ue_sched_wf_new [wf_intros]: "ue_sched_wf (new_ue_scheduling_info r)"
  by (simp add: ue_sched_wf_def new_ue_scheduling_info_def)

lemma ue_sched_wf_round [wf_intros]: "ue_sched_wf s \<Longrightarrow> ue_sched_wf (ue_start_new_scheduling_round s)"
  by (simp add: ue_sched_wf_def ue_start_new_scheduling_round_def)

lemma enb_sched_wf_new [wf_intros]: "enb_sched_wf (new_enb_scheduling_info jk a)"
  by (simp add: enb_sched_wf_def new_enb_scheduling_info_def get_ue_scheduling_info_def sm.inv_empty sm.find_empty)

lemma ue_sched_dims [arr_simps]:
  assumes "ue_sched_wf s"
  shows "length (si_ndi s) = 2" "c < 2 \<Longrightarrow> length (si_ndi s ! c) = 8"
    and "length (si_tpc s) = 2" "c < 2 \<Longrightarrow> length (si_tpc s ! c) = 8"
    and "length (si_nb_scheduled_rbs s) = 2" "c < 2 \<Longrightarrow> length (si_nb_scheduled_rbs s ! c) = 8"
    and "length (si_mcs s) = 2" "c < 2 \<Longrightarrow> length (si_mcs s ! c) = 8"
    and "length (si_rballoc_sub_scheduled s) = 2" "c < 2 \<Longrightarrow> length (si_rballoc_sub_scheduled s ! c) = 8"
    and "c < 2 \<Longrightarrow> h < 8 \<Longrightarrow> length (si_rballoc_sub_scheduled s ! c ! h) = 25"
    and "length (si_dl_pow_off s) = 2" "length (si_nb_rbs_required s) = 2"
    and "length (si_harq_round s) = 2" "c < 2 \<Longrightarrow> length (si_harq_round s ! c) = 8"
    and "c < 2 \<Longrightarrow> h < 8 \<Longrightarrow> length (si_harq_round s ! c ! h) = 2"
    and "length (si_rballoc_sub s) = 2" "c < 2 \<Longrightarrow> length (si_rballoc_sub s ! c) = 25"
    and "length (si_nb_rbs_required_remaining s) = 2" "length (si_nb_rbs_required_remaining_1 s) = 2"
    and "length (si_pre_nb_rbs_available s) = 2"
  using assms unfolding ue_sched_wf_def by (auto simp: dim_lengths)

lemma enb_sched_dims [arr_simps]:
  assumes "enb_sched_wf e"
  shows "length (es_vrb_map e) = 2" "c < 2 \<Longrightarrow> length (es_vrb_map e ! c) = 25"
    and "length (es_num_pdcch_symbols e) = 2" "length (es_nCCE_rem e) = 2"
  using assms unfolding enb_sched_wf_def by (auto simp: dim_lengths)

lemma ue_sched_wf_simple [wf_intros]:
  "ue_sched_wf s \<Longrightarrow> ue_sched_wf (decr_ta_timer s)"
  "ue_sched_wf s \<Longrightarrow> ue_sched_wf (set_ta_timer v s)"
  "ue_sched_wf s \<Longrightarrow> ue_sched_wf (is_high_priority_set b s)"
  "ue_sched_wf s \<Longrightarrow> ue_sched_wf (set_pucch_tpc_tx f sf s)"
  by (simp_all add: ue_sched_wf_def decr_ta_timer_def set_ta_timer_def is_high_priority_set_def set_pucch_tpc_tx_def)

lemmas ue_setter_defs =
  set_harq_round_def set_nb_rbs_required_def set_nb_rbs_required_remaining_def
  set_nb_rbs_required_remaining1_def set_rballoc_sub_def set_nb_scheduled_rbs_def
  set_pre_nb_rbs_available_def set_rballoc_sub_scheduled_def set_mcs_def toggle_ndi_def set_tpc_def
  set_dl_power_offset_def

lemmas ue_getter_defs =
  get_nb_rbs_required_def get_nb_rbs_required_remaining_def get_nb_rbs_required_remaining1_def
  get_rballoc_sub_def get_nb_scheduled_rbs_def get_pre_nb_rbs_available_def get_rballoc_sub_scheduled_def
  get_mcs_def get_ndi_def get_tpc_def get_dl_power_offset_def

lemma ue_sched_wf_set [wf_intros]:
  "set_harq_round c h r s = Some s' \<Longrightarrow> ue_sched_wf s \<Longrightarrow> ue_sched_wf s'"
  "set_nb_rbs_required c n s = Some s' \<Longrightarrow> ue_sched_wf s \<Longrightarrow> ue_sched_wf s'"
  "set_nb_rbs_required_remaining c n s = Some s' \<Longrightarrow> ue_sched_wf s \<Longrightarrow> ue_sched_wf s'"
  "set_nb_rbs_required_remaining1 c n s = Some s' \<Longrightarrow> ue_sched_wf s \<Longrightarrow> ue_sched_wf s'"
  "set_rballoc_sub c i v s = Some s' \<Longrightarrow> ue_sched_wf s \<Longrightarrow> ue_sched_wf s'"
  "set_nb_scheduled_rbs c p n s = Some s' \<Longrightarrow> ue_sched_wf s \<Longrightarrow> ue_sched_wf s'"
  "set_pre_nb_rbs_available c n s = Some s' \<Longrightarrow> ue_sched_wf s \<Longrightarrow> ue_sched_wf s'"
  "set_rballoc_sub_scheduled c p i v s = Some s' \<Longrightarrow> ue_sched_wf s \<Longrightarrow> ue_sched_wf s'"
  "set_mcs c p m s = Some s' \<Longrightarrow> ue_sched_wf s \<Longrightarrow> ue_sched_wf s'"
  "toggle_ndi c p s = Some s' \<Longrightarrow> ue_sched_wf s \<Longrightarrow> ue_sched_wf s'"
  "set_tpc c p t s = Some s' \<Longrightarrow> ue_sched_wf s \<Longrightarrow> ue_sched_wf s'"
  "set_dl_power_offset c k s = Some s' \<Longrightarrow> ue_sched_wf s \<Longrightarrow> ue_sched_wf s'"
  by (auto simp: ue_setter_defs ue_sched_wf_def Option.bind_eq_Some_conv aset_eq_Some
      intro: aset2_dim aset3_dim)

text \<open>For a carrier and a process that exist, every access succeeds.\<close>

lemma ue_access_total:
  assumes "ue_sched_wf s" and "unat c < MAX_NUM_CC"
  shows "\<exists>s'. set_nb_rbs_required c n s = Some s'"
    and "\<exists>s'. set_nb_rbs_required_remaining c n s = Some s'"
    and "\<exists>s'. set_nb_rbs_required_remaining1 c n s = Some s'"
    and "\<exists>s'. set_pre_nb_rbs_available c n s = Some s'"
    and "i < N_RBG_MAX \<Longrightarrow> \<exists>s'. set_rballoc_sub c i v s = Some s'"
    and "h < MAX_NUM_HARQ \<Longrightarrow> \<exists>s'. set_harq_round c h r s = Some s'"
    and "unat p < MAX_NUM_HARQ \<Longrightarrow> \<exists>s'. set_nb_scheduled_rbs c p n s = Some s'"
    and "unat p < MAX_NUM_HARQ \<Longrightarrow> i < N_RBG_MAX \<Longrightarrow> \<exists>s'. set_rballoc_sub_scheduled c p i v s = Some s'"
    and "unat p < MAX_NUM_HARQ \<Longrightarrow> \<exists>s'. set_mcs c p m s = Some s'"
    and "unat p < MAX_NUM_HARQ \<Longrightarrow> \<exists>s'. set_tpc c p t s = Some s'"
    and "unat p < MAX_NUM_HARQ \<Longrightarrow> \<exists>s'. toggle_ndi c p s = Some s'"
  using assms by (simp_all add: ue_setter_defs get_ndi_def arr_simps)

lemma ue_read_total:
  assumes "ue_sched_wf s" and "unat c < MAX_NUM_CC"
  shows "get_nb_rbs_required s c = Some (si_nb_rbs_required s ! unat c)"
    and "get_nb_rbs_required_remaining s c = Some (si_nb_rbs_required_remaining s ! unat c)"
    and "get_nb_rbs_required_remaining1 s c = Some (si_nb_rbs_required_remaining_1 s ! unat c)"
    and "get_pre_nb_rbs_available s c = Some (si_pre_nb_rbs_available s ! unat c)"
    and "i < N_RBG_MAX \<Longrightarrow> get_rballoc_sub s c i = Some (si_rballoc_sub s ! unat c ! i)"
    and "unat p < MAX_NUM_HARQ \<Longrightarrow> get_nb_scheduled_rbs s c p = Some (si_nb_scheduled_rbs s ! unat c ! unat p)"
  using assms by (simp_all add: ue_getter_defs arr_simps)

section \<open>New-data indicators\<close>

lemma get_ndi_toggle:
  assumes "toggle_ndi c p s = Some s'" and "get_ndi s c p = Some v"
  shows "get_ndi s' c' p' = (if c' = c \<and> p' = p then Some (1 - v) else get_ndi s c' p')"
proof -
  obtain a where "aset2 (si_ndi s) (unat c) (unat p) (1 - v) = Some a" and "s' = s\<lparr>si_ndi := a\<rparr>"
    using assms by (auto simp: toggle_ndi_def Option.bind_eq_Some_conv)
  then show ?thesis
    using aget2_aset2 [of "si_ndi s" "unat c" "unat p" "1 - v" a]
    by (simp add: get_ndi_def word_unat_eq_iff [of c'] word_unat_eq_iff [of p'])
qed

text \<open>
  The new-data indicator of a HARQ process alternates: starting from 0 or 1, one toggle gives the
  other value, two toggles give the first one back, and the indicators of all other processes stay.
\<close>

theorem ndi_alternates:
  assumes "ue_sched_wf s" and "unat c < MAX_NUM_CC" and "unat p < MAX_NUM_HARQ"
    and "get_ndi s c p = Some v" and "v \<le> 1"
  shows "\<exists>s1 s2. toggle_ndi c p s = Some s1 \<and> get_ndi s1 c p = Some (1 - v) \<and> 1 - v \<noteq> v \<and>
     toggle_ndi c p s1 = Some s2 \<and> get_ndi s2 c p = Some v \<and>
     (\<forall>c' p'. (c', p') \<noteq> (c, p) \<longrightarrow> get_ndi s1 c' p' = get_ndi s c' p')"
proof -
  obtain s1 where s1: "toggle_ndi c p s = Some s1"
    using ue_access_total(11) [OF assms(1-3)] by blast
  note r1 = get_ndi_toggle [OF s1 assms(4)]
  obtain s2 where s2: "toggle_ndi c p s1 = Some s2"
    using ue_access_total(11) [OF ue_sched_wf_set(10) [OF s1 assms(1)] assms(2,3)] by blast
  have "get_ndi s2 c p = Some (1 - (1 - v))" using get_ndi_toggle [OF s2] r1 by simp
  moreover have "v = 0 \<or> v = 1" using assms(5) by (auto simp: word_le_nat_alt word_unat_eq_iff)
  ultimately show ?thesis using s1 s2 r1 by auto
qed

lemma ndi_alternates_witness:
  "\<exists>s1 s2. toggle_ndi 1 3 (new_ue_scheduling_info 7) = Some s1 \<and> get_ndi s1 1 3 = Some 1 \<and>
     toggle_ndi 1 3 s1 = Some s2 \<and> get_ndi s2 1 3 = Some 0"
proof -
  have "get_ndi (new_ue_scheduling_info 7) 1 3 = Some 0"
    by (simp add: get_ndi_def new_ue_scheduling_info_def aget2_if)
  from ndi_alternates [OF ue_sched_wf_new _ _ this] show ?thesis by auto
qed

end
