(* ===== verification/CceAlloc.thy ===== *)
theory CceAlloc
  imports SchedInfo
begin

text \<open>
  \<open>CCE_allocation_infeasible\<close> of \<open>src/app/remote_scheduler_primitives.cc\<close>: the loop that adds PDCCH
  symbols until a DCI of the wanted aggregation fits into the control region of the cell.
\<close>

section \<open>The loop\<close>

text \<open>
  \<open>nCCE_rem\<close> is the local of that name: it is read again only where the source reads it. The result is
  the returned flag (infeasible) with the updated record of the eNB. The statements after the loop that
  would reserve the elements are unreachable: the loop is left by a \<open>return\<close> or with the flag set to 0.
\<close>

partial_function (option) cce_loop :: "flex_cell_config \<Rightarrow> rnti_t \<Rightarrow> u8 \<Rightarrow> subframe_t \<Rightarrow> int \<Rightarrow> enb_scheduling_info \<Rightarrow>
    (bool \<times> enb_scheduling_info) option" where
  "cce_loop c rnti aggregation subframe nCCE_rem e =
     (let cell_id = ucast (cc_cell_id c) :: u16; units = 2 ^ unat aggregation :: int
      in do {
        symbols \<leftarrow> get_num_pdcch_symbols e cell_id;
        if units > nCCE_rem
        then if symbols = 3 then Some (True, e)
             else do {
               e' \<leftarrow> increase_num_pdcch_symbols c subframe e;
               rem \<leftarrow> get_nCCE_rem e' cell_id;
               cce_loop c rnti aggregation subframe (sint rem) e' }
        else do {
          offset \<leftarrow> get_nCCE_offset (word_of_int units) (uint (get_nCCE_max symbols c subframe)) 0 rnti subframe;
          if offset \<ge> 0 then Some (False, e)
          else if symbols = 3 then Some (True, e)
          else do {
            e' \<leftarrow> increase_num_pdcch_symbols c subframe e;
            cce_loop c rnti aggregation subframe nCCE_rem e' } } })"

declare cce_loop.simps [code]

text \<open>\<open>common_dci\<close> is 0 throughout.\<close>

definition CCE_allocation_infeasible :: "flex_cell_config \<Rightarrow> flex_ue_config \<Rightarrow> u8 \<Rightarrow> subframe_t \<Rightarrow>
    enb_scheduling_info \<Rightarrow> (bool \<times> enb_scheduling_info) option" where
  "CCE_allocation_infeasible c ue aggregation subframe e = do {
     rem \<leftarrow> get_nCCE_rem e (ucast (cc_cell_id c));
     cce_loop c (uc_rnti ue) aggregation subframe (sint rem) e }"

section \<open>Termination\<close>

lemma increase_symbols:
  assumes "increase_num_pdcch_symbols c subframe e = Some e'"
    and "get_num_pdcch_symbols e (ucast (cc_cell_id c)) = Some n"
    and "enb_sched_wf e"
  shows "get_num_pdcch_symbols e' (ucast (cc_cell_id c)) = Some (n + 1)"
  using assms enb_sched_dims(3) [OF assms(3)]
  by (auto simp: increase_num_pdcch_symbols_def get_num_pdcch_symbols_def Let_def Option.bind_eq_Some_conv
      access_iffs unsigned_ucast_eq take_bit_nat_eq_self nth_list_update)

lemma increase_total:
  "enb_sched_wf e \<Longrightarrow> unat (cc_cell_id c) < MAX_NUM_CC \<Longrightarrow> \<exists>e'. increase_num_pdcch_symbols c subframe e = Some e'"
  by (simp add: increase_num_pdcch_symbols_def Let_def arr_simps)

lemma enb_sched_wf_increase [wf_intros]:
  "increase_num_pdcch_symbols c subframe e = Some e' \<Longrightarrow> enb_sched_wf e \<Longrightarrow> enb_sched_wf e'"
  by (auto simp: increase_num_pdcch_symbols_def Let_def Option.bind_eq_Some_conv access_iffs enb_sched_wf_def
      get_ue_scheduling_info_def)

text \<open>What the loop leaves alone: the UEs and the resource map.\<close>

definition same_alloc :: "enb_scheduling_info \<Rightarrow> enb_scheduling_info \<Rightarrow> bool" where
  "same_alloc e e' \<longleftrightarrow> es_scheduling_info e' = es_scheduling_info e \<and> es_vrb_map e' = es_vrb_map e"

lemma same_alloc_increase: "increase_num_pdcch_symbols c subframe e = Some e' \<Longrightarrow> same_alloc e e'"
  by (auto simp: increase_num_pdcch_symbols_def Let_def Option.bind_eq_Some_conv same_alloc_def)

lemma cell_index: "unat (cc_cell_id c) < MAX_NUM_CC \<Longrightarrow> unat (ucast (cc_cell_id c) :: u16) = unat (cc_cell_id c)"
  by (simp add: unsigned_ucast_eq take_bit_nat_eq_self)

lemma units_cases: "aggregation \<le> (3 :: u8) \<Longrightarrow> (word_of_int (2 ^ unat aggregation) :: u8) \<in> {1, 2, 4, 8}
    \<and> uint (word_of_int (2 ^ unat aggregation) :: u8) = 2 ^ unat aggregation"
proof -
  assume "aggregation \<le> 3"
  then have "unat aggregation \<in> {0, 1, 2, 3}" by (auto simp: word_le_nat_alt)
  then show ?thesis by (auto simp: unsigned_of_int)
qed

text \<open>
  The elements in use, as the record has it: the difference between the elements of the control region
  and the free ones, both read as signed numbers. It does not change when a symbol is added, also
  where the unsigned arithmetic of the source wraps around.
\<close>

definition cce_used :: "flex_cell_config \<Rightarrow> subframe_t \<Rightarrow> enb_scheduling_info \<Rightarrow> int \<Rightarrow> bool" where
  "cce_used c subframe e used \<longleftrightarrow> 0 \<le> used \<and> used < 2 ^ 30 \<and>
     (\<exists>n rem. get_num_pdcch_symbols e (ucast (cc_cell_id c)) = Some n \<and>
        get_nCCE_rem e (ucast (cc_cell_id c)) = Some rem \<and>
        sint rem = uint (get_nCCE_max n c subframe) - used)"

lemma sint_of_small: "- (2 ^ 31) \<le> k \<Longrightarrow> k < 2 ^ 31 \<Longrightarrow> sint (word_of_int k :: u32) = k"
  by (simp add: signed_of_int signed_take_bit_int_eq_self)

lemma cce_used_increase:
  assumes "increase_num_pdcch_symbols c subframe e = Some e'" and "enb_sched_wf e"
    and "unat (cc_cell_id c) < MAX_NUM_CC" and "cce_used c subframe e used"
  shows "cce_used c subframe e' used"
proof -
  let ?i = "ucast (cc_cell_id c) :: u16"
  obtain n rem where n: "get_num_pdcch_symbols e ?i = Some n" and rem: "get_nCCE_rem e ?i = Some rem"
    and eq: "sint rem = uint (get_nCCE_max n c subframe) - used" and used: "0 \<le> used" "used < 2 ^ 30"
    using assms(4) by (auto simp: cce_used_def)
  let ?M = "get_nCCE_max n c subframe" and ?M' = "get_nCCE_max (n + 1) c subframe"
  define rem' where "rem' = (ucast ?M' :: u32) - (ucast ?M - rem)"
  have e': "get_nCCE_rem e' ?i = Some rem'"
    using assms(1) n rem
    by (auto simp: increase_num_pdcch_symbols_def Let_def Option.bind_eq_Some_conv access_iffs
        get_num_pdcch_symbols_def get_nCCE_rem_def cell_index [OF assms(3)] rem'_def)
  have bounds: "0 \<le> uint ?M" "uint ?M < 2 ^ 16" "0 \<le> uint ?M'" "uint ?M' < 2 ^ 16"
    using unsigned_less [of ?M, where ?'a = int] unsigned_less [of ?M', where ?'a = int] by (simp_all only: unsigned_greater_eq) simp_all
  have r: "rem = word_of_int (uint ?M - used)" by (simp flip: eq)
  have "rem' = word_of_int (uint ?M' - (uint ?M - (uint ?M - used)))"
    by (simp only: rem'_def r ucast_eq wi_hom_sub)
  then have "rem' = word_of_int (uint ?M' - used)" by simp
  moreover have "- (2 ^ 31) \<le> x - used \<and> x - used < 2 ^ 31" if "0 \<le> x" "x < 2 ^ 16" for x
    using used that by simp
  note this [OF bounds(3,4)]
  ultimately have "sint rem' = uint ?M' - used" by (simp only: sint_of_small)
  then show ?thesis
    using increase_symbols [OF assms(1) n assms(2)] e' used by (auto simp: cce_used_def)
qed

lemma offset_taken:
  assumes "aggregation \<le> (3 :: u8)" and "2 ^ unat aggregation \<le> uint (get_nCCE_max n c subframe)"
  shows "\<exists>off. get_nCCE_offset (word_of_int (2 ^ unat aggregation)) (uint (get_nCCE_max n c subframe)) 0 rnti sf = Some off
     \<and> 0 \<le> off"
  using nCCE_offset_in_range [of "word_of_int (2 ^ unat aggregation)" "uint (get_nCCE_max n c subframe)" rnti sf]
    units_cases [OF assms(1)] assms(2) unsigned_less [of "get_nCCE_max n c subframe", where ?'a = int]
  by auto

lemma cce_loop_terminates:
  assumes "enb_sched_wf e" and "unat (cc_cell_id c) < MAX_NUM_CC" and "aggregation \<le> 3"
    and "cce_used c subframe e used" and "get_nCCE_rem e (ucast (cc_cell_id c)) = Some rem"
  shows "\<exists>b e'. cce_loop c rnti aggregation subframe (sint rem) e = Some (b, e') \<and> enb_sched_wf e' \<and> same_alloc e e' \<and>
     cce_used c subframe e' used \<and>
     (b \<longrightarrow> get_num_pdcch_symbols e' (ucast (cc_cell_id c)) = Some 3 \<and>
            uint (get_nCCE_max 3 c subframe) - used < 2 ^ unat aggregation)"
  using assms(1,4,5)
proof (induction "unat (3 - the (get_num_pdcch_symbols e (ucast (cc_cell_id c))))" arbitrary: e rem rule: less_induct)
  case less
  let ?i = "ucast (cc_cell_id c) :: u16" and ?u = "2 ^ unat aggregation :: int"
  obtain n where n: "get_num_pdcch_symbols e ?i = Some n"
    and eq: "sint rem = uint (get_nCCE_max n c subframe) - used" and used: "0 \<le> used"
    using less.prems(2,3) by (auto simp: cce_used_def)
  show ?case
  proof (cases "?u > sint rem \<and> n \<noteq> 3")
    case False
    show ?thesis
    proof (cases "?u > sint rem")
      case True
      then show ?thesis
        using False less.prems n eq by (subst cce_loop.simps) (auto simp: Let_def same_alloc_def)
    next
      case no: False
      obtain off where "get_nCCE_offset (word_of_int ?u) (uint (get_nCCE_max n c subframe)) 0 rnti subframe = Some off"
        "0 \<le> off"
        using offset_taken [OF assms(3), of n c subframe rnti subframe] no eq used by auto
      then show ?thesis
        using no less.prems n by (subst cce_loop.simps) (auto simp: Let_def same_alloc_def)
    qed
  next
    case True
    obtain e' where e': "increase_num_pdcch_symbols c subframe e = Some e'"
      using increase_total less.prems(1) assms(2) by blast
    note n' = increase_symbols [OF e' n less.prems(1)]
    note wf' = enb_sched_wf_increase [OF e' less.prems(1)]
    note used' = cce_used_increase [OF e' less.prems(1) assms(2) less.prems(2)]
    obtain rem' where rem': "get_nCCE_rem e' ?i = Some rem'"
      using wf' assms(2) by (simp add: get_nCCE_rem_def cell_index arr_simps)
    have "3 - n \<noteq> 0" using True by simp
    then have "unat (3 - n - 1) < unat (3 - n)"
      using unat_minus_one [of "3 - n"] unat_gt_0 [of "3 - n"] by linarith
    then have "unat (3 - the (get_num_pdcch_symbols e' ?i)) < unat (3 - the (get_num_pdcch_symbols e ?i))"
      by (simp add: n n' diff_diff_eq)
    from less.hyps [OF this wf' used' rem'] show ?thesis
      using True n e' rem' same_alloc_increase [OF e'] by (subst cce_loop.simps) (auto simp: Let_def same_alloc_def)
  qed
qed

lemma cce_search:
  assumes "enb_sched_wf e" and "unat (cc_cell_id c) < MAX_NUM_CC" and "aggregation \<le> 3"
    and "cce_used c subframe e used"
  shows "\<exists>b e'. CCE_allocation_infeasible c ue aggregation subframe e = Some (b, e') \<and> enb_sched_wf e' \<and>
     same_alloc e e' \<and> cce_used c subframe e' used \<and>
     (b \<longrightarrow> get_num_pdcch_symbols e' (ucast (cc_cell_id c)) = Some 3 \<and>
            uint (get_nCCE_max 3 c subframe) - used < 2 ^ unat aggregation)"
proof -
  obtain rem where rem: "get_nCCE_rem e (ucast (cc_cell_id c)) = Some rem"
    using assms(1,2) by (simp add: get_nCCE_rem_def cell_index arr_simps)
  show ?thesis using cce_loop_terminates [OF assms rem] by (simp add: CCE_allocation_infeasible_def rem)
qed

text \<open>
  C29: the search for control channel elements ends, whatever number of symbols it starts from (an 8-bit
  counter above 3 first runs around). It answers infeasible exactly when the request does not fit with
  three symbols in use, as far as the search got; the elements in use, the UEs' records and the
  resource map stay as they were, so the search reserves nothing.
\<close>

theorem CCE_allocation_terminates:
  assumes "enb_sched_wf e" and "unat (cc_cell_id c) < MAX_NUM_CC" and "aggregation \<le> 3"
    and "cce_used c subframe e used"
  shows "\<exists>b e'. CCE_allocation_infeasible c ue aggregation subframe e = Some (b, e') \<and> enb_sched_wf e' \<and>
     same_alloc e e' \<and> cce_used c subframe e' used \<and>
     (b \<longrightarrow> get_num_pdcch_symbols e' (ucast (cc_cell_id c)) = Some 3 \<and>
            uint (get_nCCE_max 3 c subframe) - used < 2 ^ unat aggregation)"
  by (rule cce_search [OF assms])

text \<open>
  A cell of 5 MHz in which 17 elements of the 20 that three symbols give are in use: a DCI of four elements
  does not fit, and the search says so.
\<close>

definition busy_cell :: enb_scheduling_info where
  "busy_cell = (new_enb_scheduling_info zero_junk 1)\<lparr>es_num_pdcch_symbols := [2, 0], es_nCCE_rem := [word_of_int (- 5), 0]\<rparr>"

lemma busy_cell_used: "cce_used sample_cell 1 busy_cell 17"
  by (simp add: cce_used_def busy_cell_def sample_cell_def get_num_pdcch_symbols_def get_nCCE_rem_def aget_def
      get_nCCE_max_def get_mi_def get_nquad_def n_group_PHICH_def get_phich_resource_def)

lemma CCE_allocation_witness:
  "\<exists>b e'. CCE_allocation_infeasible sample_cell (sample_ue_config 7) 2 1 busy_cell = Some (b, e') \<and>
     same_alloc busy_cell e'"
proof -
  have "enb_sched_wf busy_cell"
    using enb_sched_wf_new [of zero_junk 1] by (simp add: enb_sched_wf_def busy_cell_def get_ue_scheduling_info_def)
  from CCE_allocation_terminates [OF this _ _ busy_cell_used, of 2 "sample_ue_config 7"] show ?thesis
    by (auto simp: sample_cell_def)
qed

end
