(* ===== verification/MacRib.thy ===== *)
theory MacRib
  imports RibCommon Protocol
begin

text \<open>
  The MAC-level records of the RAN information base: \<open>src/rib/ue_mac_rib_info.{h,cc}\<close> (one per UE:
  last statistics report and the state of the 8 HARQ processes of each of the 2 carriers) and
  \<open>src/rib/cell_mac_rib_info.{h,cc}\<close> (one per carrier). Indices come from agent messages and are
  not checked by the code, so the updates may fault. The last section views the HARQ processes as
  a state machine over the events that touch them.
\<close>

section \<open>State\<close>

record ue_mac_rib_info =
  um_rnti :: rnti_t
  um_mac_stats_report :: flex_ue_stats_report
  um_harq_stats :: "u8 list list list"
  um_active_harq :: "bool list list list"
  um_uplink_reception_stats :: "u8 list"
  um_ul_reception_data :: "u8 list list"
  um_tpc :: u8

text \<open>The constructor. \<open>um_tpc\<close> is not initialised; \<open>junk\<close> is what the memory held.\<close>

definition new_ue_mac_rib_info :: "u8 \<Rightarrow> rnti_t \<Rightarrow> ue_mac_rib_info" where
  "new_ue_mac_rib_info junk rnti =
     \<lparr>um_rnti = rnti,
      um_mac_stats_report = empty_ue_stats_report,
      um_harq_stats = replicate MAX_NUM_CC (replicate MAX_NUM_HARQ (replicate MAX_NUM_TB FLHS_ACK)),
      um_active_harq = replicate MAX_NUM_CC (replicate MAX_NUM_HARQ (replicate MAX_NUM_TB True)),
      um_uplink_reception_stats = replicate MAX_NUM_CC 0,
      um_ul_reception_data = replicate MAX_NUM_CC (replicate MAX_NUM_LC 0),
      um_tpc = junk\<rparr>"

record cell_mac_rib_info =
  cm_cell_stats_report :: flex_cell_stats_report

definition new_cell_mac_rib_info :: cell_mac_rib_info where
  "new_cell_mac_rib_info = \<lparr>cm_cell_stats_report = empty_cell_stats_report\<rparr>"

text \<open>Every array has its declared dimensions.\<close>

definition ue_mac_wf :: "ue_mac_rib_info \<Rightarrow> bool" where
  "ue_mac_wf u \<longleftrightarrow>
     dim3 MAX_NUM_CC MAX_NUM_HARQ MAX_NUM_TB (um_harq_stats u) \<and>
     dim3 MAX_NUM_CC MAX_NUM_HARQ MAX_NUM_TB (um_active_harq u) \<and>
     length (um_uplink_reception_stats u) = MAX_NUM_CC \<and>
     dim2 MAX_NUM_CC MAX_NUM_LC (um_ul_reception_data u)"

section \<open>Updates from the agent\<close>

definition update_dl_sf_info :: "ue_mac_rib_info \<Rightarrow> flex_dl_info \<Rightarrow> ue_mac_rib_info option" where
  "update_dl_sf_info u dl_info =
     (let CC_id = ucast (di_serv_cell_index dl_info) :: u8;
          harq_id = ucast (di_harq_process_id dl_info) :: u8
      in foldo (\<lambda>u i. do {
             hs \<leftarrow> aset3 (um_harq_stats u) (unat CC_id) (unat harq_id) i
                     (ucast (di_harq_status dl_info ! i));
             ah \<leftarrow> aset3 (um_active_harq u) (unat CC_id) (unat harq_id) i True;
             Some (u\<lparr>um_harq_stats := hs, um_active_harq := ah\<rparr>)
           }) u [0..<length (di_harq_status dl_info)])"

definition update_ul_sf_info :: "ue_mac_rib_info \<Rightarrow> flex_ul_info \<Rightarrow> ue_mac_rib_info option" where
  "update_ul_sf_info u ul_info =
     (let CC_id = ucast (ui_serv_cell_index ul_info) :: u8;
          u = u\<lparr>um_tpc := ucast (ui_tpc ul_info)\<rparr>
      in do {
        rs \<leftarrow> aset (um_uplink_reception_stats u) (unat CC_id) (ucast (ui_reception_status ul_info));
        foldo (\<lambda>u i. do {
             rd \<leftarrow> aset2 (um_ul_reception_data u) (unat CC_id) i (ucast (ui_ul_reception ul_info ! i));
             Some (u\<lparr>um_ul_reception_data := rd\<rparr>)
           }) (u\<lparr>um_uplink_reception_stats := rs\<rparr>) [0..<length (ui_ul_reception ul_info)]
      })"

text \<open>One \<open>if\<close> of \<open>update_mac_stats_report\<close>: apply the copy when the flag bit is set.\<close>

definition when_flag :: "u32 \<Rightarrow> u32 \<Rightarrow> ('a \<Rightarrow> 'a) \<Rightarrow> 'a \<Rightarrow> 'a" where
  "when_flag flags bit_mask f x = (if bit_mask AND flags \<noteq> 0 then f x else x)"

definition update_mac_stats_report :: "ue_mac_rib_info \<Rightarrow> flex_ue_stats_report \<Rightarrow> ue_mac_rib_info" where
  "update_mac_stats_report u stats_report =
     (let flags = us_flags stats_report;
          m = um_mac_stats_report u;
          m = when_flag flags FLUST_BSR (us_bsr_update (\<lambda>_. us_bsr stats_report)) m;
          m = when_flag flags FLUST_PRH (us_phr_update (\<lambda>_. us_phr stats_report)) m;
          m = when_flag flags FLUST_RLC_BS (us_rlc_report_update (\<lambda>_. us_rlc_report stats_report)) m;
          m = when_flag flags FLUST_MAC_CE_BS
                (us_pending_mac_ces_update (\<lambda>_. us_pending_mac_ces stats_report)) m;
          m = when_flag flags FLUST_DL_CQI
                (us_dl_cqi_report_update (\<lambda>_. us_dl_cqi_report stats_report)) m;
          m = when_flag flags FLUST_PBS (us_pbr_update (\<lambda>_. us_pbr stats_report)) m;
          m = when_flag flags FLUST_UL_CQI
                (us_ul_cqi_report_update (\<lambda>_. us_ul_cqi_report stats_report)) m
      in u\<lparr>um_mac_stats_report := m\<rparr>)"

definition update_cell_stats_report :: "cell_mac_rib_info \<Rightarrow> flex_cell_stats_report \<Rightarrow> cell_mac_rib_info" where
  "update_cell_stats_report c stats_report =
     (let flags = ce_flags_field stats_report
      in if flags AND FLCST_NOISE_INTERFERENCE \<noteq> 0
         then c\<lparr>cm_cell_stats_report := (cm_cell_stats_report c)
                  \<lparr>ce_noise_inter_report := ce_noise_inter_report stats_report\<rparr>\<rparr>
         else c)"

section \<open>HARQ queries of the schedulers\<close>

definition get_harq_stats :: "ue_mac_rib_info \<Rightarrow> u16 \<Rightarrow> nat \<Rightarrow> u8 option" where
  "get_harq_stats u cell_id harq_pid = aget3 (um_harq_stats u) (unat cell_id) harq_pid 0"

fun find_active :: "ue_mac_rib_info \<Rightarrow> u16 \<Rightarrow> nat list \<Rightarrow> int option" where
  "find_active u cell_id [] = Some (- 1)"
| "find_active u cell_id (i # is) = do {
     a \<leftarrow> aget3 (um_active_harq u) (unat cell_id) i 0;
     if a then Some (int i) else find_active u cell_id is }"

definition get_next_available_harq :: "ue_mac_rib_info \<Rightarrow> u16 \<Rightarrow> int option" where
  "get_next_available_harq u cell_id = find_active u cell_id [0..<MAX_NUM_HARQ]"

fun any_active :: "ue_mac_rib_info \<Rightarrow> u16 \<Rightarrow> nat list \<Rightarrow> bool option" where
  "any_active u cell_id [] = Some False"
| "any_active u cell_id (i # is) = do {
     a \<leftarrow> aget3 (um_active_harq u) (unat cell_id) i 0;
     if a then Some True else any_active u cell_id is }"

definition has_available_harq :: "ue_mac_rib_info \<Rightarrow> u16 \<Rightarrow> bool option" where
  "has_available_harq u cell_id = any_active u cell_id [0..<MAX_NUM_HARQ]"

definition harq_scheduled :: "ue_mac_rib_info \<Rightarrow> u16 \<Rightarrow> u8 \<Rightarrow> ue_mac_rib_info option" where
  "harq_scheduled u cell_id harq_pid = do {
     a \<leftarrow> aset3 (um_active_harq u) (unat cell_id) (unat harq_pid) 0 False;
     b \<leftarrow> aset3 a (unat cell_id) (unat harq_pid) 1 False;
     Some (u\<lparr>um_active_harq := b\<rparr>) }"

section \<open>Well-formedness\<close>

lemma ue_mac_wf_new [wf_intros]: "ue_mac_wf (new_ue_mac_rib_info junk rnti)"
  by (simp add: ue_mac_wf_def new_ue_mac_rib_info_def)

lemma ue_mac_wf_stats [wf_intros]: "ue_mac_wf u \<Longrightarrow> ue_mac_wf (update_mac_stats_report u r)"
  by (simp add: ue_mac_wf_def update_mac_stats_report_def Let_def)

lemma ue_mac_dims [arr_simps]:
  assumes "ue_mac_wf u"
  shows "length (um_harq_stats u) = 2" "length (um_active_harq u) = 2"
    and "c < 2 \<Longrightarrow> length (um_harq_stats u ! c) = 8" "c < 2 \<Longrightarrow> length (um_active_harq u ! c) = 8"
    and "c < 2 \<Longrightarrow> p < 8 \<Longrightarrow> length (um_harq_stats u ! c ! p) = 2"
    and "c < 2 \<Longrightarrow> p < 8 \<Longrightarrow> length (um_active_harq u ! c ! p) = 2"
    and "length (um_uplink_reception_stats u) = 2" "length (um_ul_reception_data u) = 2"
    and "c < 2 \<Longrightarrow> length (um_ul_reception_data u ! c) = 11"
  using assms unfolding ue_mac_wf_def by (auto simp: dim_lengths)

lemma ue_mac_wf_dl [wf_intros]:
  assumes "update_dl_sf_info u i = Some u'" and "ue_mac_wf u"
  shows "ue_mac_wf u'"
  using assms(1) unfolding update_dl_sf_info_def Let_def
  by (rule foldo_invariant [where I = ue_mac_wf])
     (use assms(2) in \<open>auto simp: ue_mac_wf_def Option.bind_eq_Some_conv intro: aset3_dim\<close>)

lemma ue_mac_wf_ul [wf_intros]:
  assumes "update_ul_sf_info u i = Some u'" and "ue_mac_wf u"
  shows "ue_mac_wf u'"
proof -
  let ?cc = "unat (ucast (ui_serv_cell_index i) :: u8)"
  obtain rs where rs: "aset (um_uplink_reception_stats u) ?cc (ucast (ui_reception_status i)) = Some rs"
    and loop: "foldo (\<lambda>u k. do {
             rd \<leftarrow> aset2 (um_ul_reception_data u) ?cc k (ucast (ui_ul_reception i ! k));
             Some (u\<lparr>um_ul_reception_data := rd\<rparr>) })
           (u\<lparr>um_tpc := ucast (ui_tpc i), um_uplink_reception_stats := rs\<rparr>)
           [0..<length (ui_ul_reception i)] = Some u'"
    using assms(1) by (auto simp: update_ul_sf_info_def Let_def Option.bind_eq_Some_conv)
  show ?thesis
    using loop
    by (rule foldo_invariant [where I = ue_mac_wf])
       (use assms(2) rs in \<open>auto simp: ue_mac_wf_def Option.bind_eq_Some_conv aset_eq_Some
          intro: aset2_dim\<close>)
qed

lemma ue_mac_wf_scheduled [wf_intros]:
  "harq_scheduled u c p = Some u' \<Longrightarrow> ue_mac_wf u \<Longrightarrow> ue_mac_wf u'"
  by (auto simp: harq_scheduled_def ue_mac_wf_def Option.bind_eq_Some_conv intro: aset3_dim)

lemma ue_mac_frame [frame_simps]:
  "um_rnti (update_mac_stats_report u r) = um_rnti u"
  "um_harq_stats (update_mac_stats_report u r) = um_harq_stats u"
  "um_active_harq (update_mac_stats_report u r) = um_active_harq u"
  by (simp_all add: update_mac_stats_report_def Let_def)

section \<open>HARQ availability\<close>

abbreviation active :: "ue_mac_rib_info \<Rightarrow> u16 \<Rightarrow> nat \<Rightarrow> bool" where
  "active u c p \<equiv> um_active_harq u ! unat c ! p ! 0"

lemma find_active_wf:
  assumes "ue_mac_wf u" and "unat c < MAX_NUM_CC" and "set is \<subseteq> {..<MAX_NUM_HARQ}"
  shows "find_active u c is =
     Some (case List.find (active u c) is of None \<Rightarrow> - 1 | Some i \<Rightarrow> int i)"
  using assms(3)
proof (induction "is")
  case Nil
  then show ?case by simp
next
  case (Cons i "is")
  have "aget3 (um_active_harq u) (unat c) i 0 = Some (active u c i)"
    using assms(1,2) Cons.prems by (simp add: arr_simps)
  then show ?case using Cons by simp
qed

lemma any_active_wf:
  assumes "ue_mac_wf u" and "unat c < MAX_NUM_CC" and "set is \<subseteq> {..<MAX_NUM_HARQ}"
  shows "any_active u c is = Some (\<exists>i \<in> set is. active u c i)"
  using assms(3)
proof (induction "is")
  case Nil
  then show ?case by simp
next
  case (Cons i "is")
  have "aget3 (um_active_harq u) (unat c) i 0 = Some (active u c i)"
    using assms(1,2) Cons.prems by (simp add: arr_simps)
  then show ?case using Cons by simp
qed

lemma set_harq_range: "set [0..<MAX_NUM_HARQ] = {..<MAX_NUM_HARQ}"
  by (simp add: lessThan_atLeast0)

lemma has_available_harq_iff:
  "ue_mac_wf u \<Longrightarrow> unat c < MAX_NUM_CC \<Longrightarrow>
   has_available_harq u c = Some (\<exists>p < MAX_NUM_HARQ. active u c p)"
  unfolding has_available_harq_def
  by (subst any_active_wf) (auto simp: set_harq_range simp del: upt_conv_Cons)

lemma next_available_harq_wf:
  assumes "ue_mac_wf u" and "unat c < MAX_NUM_CC"
  shows "get_next_available_harq u c =
     Some (case List.find (active u c) [0..<MAX_NUM_HARQ] of None \<Rightarrow> - 1 | Some i \<Rightarrow> int i)"
  unfolding get_next_available_harq_def
  by (rule find_active_wf [OF assms]) auto

text \<open>What the schedulers use: a UE with an available process gets the index of an active one.\<close>

lemma next_available_harq_active:
  assumes "ue_mac_wf u" and "unat c < MAX_NUM_CC" and "has_available_harq u c = Some True"
  obtains p where "get_next_available_harq u c = Some (int p)" and "p < MAX_NUM_HARQ"
    and "active u c p" and "\<And>q. q < p \<Longrightarrow> \<not> active u c q"
proof -
  from assms have "\<exists>p \<in> set [0..<MAX_NUM_HARQ]. active u c p"
    by (auto simp: has_available_harq_iff)
  then obtain p where p: "List.find (active u c) [0..<MAX_NUM_HARQ] = Some p"
    by (cases "List.find (active u c) [0..<MAX_NUM_HARQ]") (auto simp: find_None_iff)
  then obtain i where i: "i < MAX_NUM_HARQ" "active u c i" "p = i" "\<forall>j < i. \<not> active u c ([0..<MAX_NUM_HARQ] ! j)"
    unfolding find_Some_iff by (auto simp del: upt_conv_Cons)
  have first: "\<not> active u c q" if "q < p" for q
    using i(4) i(1,3) that by (simp del: upt_conv_Cons)
  have "get_next_available_harq u c = Some (int p)"
    using next_available_harq_wf [OF assms(1,2)] p by simp
  then show thesis using i first by (intro that [of p]) auto
qed

lemma harq_scheduled_wf:
  assumes "ue_mac_wf u" and "unat c < MAX_NUM_CC" and "unat p < MAX_NUM_HARQ"
  shows "\<exists>u'. harq_scheduled u c p = Some u' \<and> ue_mac_wf u' \<and>
      (\<forall>d q. d < MAX_NUM_CC \<longrightarrow> q < MAX_NUM_HARQ \<longrightarrow>
         um_active_harq u' ! d ! q ! 0 = (um_active_harq u ! d ! q ! 0 \<and> (d, q) \<noteq> (unat c, unat p))) \<and>
      um_harq_stats u' = um_harq_stats u \<and> um_mac_stats_report u' = um_mac_stats_report u"
proof -
  let ?A = "um_active_harq u" and ?c = "unat c" and ?p = "unat p"
  define u' where "u' = u\<lparr>um_active_harq := ?A[?c := (?A ! ?c)[?p := [False, False]]]\<rparr>"
  have two: "\<And>xs::bool list. length xs = 2 \<Longrightarrow> xs[0 := False, Suc 0 := False] = [False, False]"
    by (auto simp: numeral_2_eq_2 length_Suc_conv)
  have run: "harq_scheduled u c p = Some u'"
    using assms by (simp add: harq_scheduled_def u'_def arr_simps two)
  have wf: "ue_mac_wf u'" using ue_mac_wf_scheduled [OF run assms(1)] .
  have "\<forall>d q. d < MAX_NUM_CC \<longrightarrow> q < MAX_NUM_HARQ \<longrightarrow>
      um_active_harq u' ! d ! q ! 0 = (?A ! d ! q ! 0 \<and> (d, q) \<noteq> (?c, ?p))"
    using assms by (auto simp: u'_def nth_list_update arr_simps)
  with run wf show ?thesis by (intro exI [of _ u']) (simp add: u'_def)
qed

section \<open>Feedback\<close>

text \<open>One status of a \<open>flex_dl_info\<close>: the body of the loop of \<open>update_dl_sf_info\<close>.\<close>

definition store_harq_status :: "flex_dl_info \<Rightarrow> ue_mac_rib_info \<Rightarrow> nat \<Rightarrow> ue_mac_rib_info option" where
  "store_harq_status dl u i = do {
     hs \<leftarrow> aset3 (um_harq_stats u) (unat (ucast (di_serv_cell_index dl) :: u8))
             (unat (ucast (di_harq_process_id dl) :: u8)) i (ucast (di_harq_status dl ! i));
     ah \<leftarrow> aset3 (um_active_harq u) (unat (ucast (di_serv_cell_index dl) :: u8))
             (unat (ucast (di_harq_process_id dl) :: u8)) i True;
     Some (u\<lparr>um_harq_stats := hs, um_active_harq := ah\<rparr>) }"

abbreviation (input) dl_cell :: "flex_dl_info \<Rightarrow> nat" where
  "dl_cell dl \<equiv> unat (ucast (di_serv_cell_index dl) :: u8)"

abbreviation (input) dl_harq :: "flex_dl_info \<Rightarrow> nat" where
  "dl_harq dl \<equiv> unat (ucast (di_harq_process_id dl) :: u8)"

lemma update_dl_sf_info_loop:
  "update_dl_sf_info u dl = foldo (store_harq_status dl) u [0..<length (di_harq_status dl)]"
  by (simp add: update_dl_sf_info_def store_harq_status_def [abs_def] Let_def)

lemma store_harq_status_wf: "store_harq_status dl u i = Some u' \<Longrightarrow> ue_mac_wf u \<Longrightarrow> ue_mac_wf u'"
  by (auto simp: store_harq_status_def ue_mac_wf_def Option.bind_eq_Some_conv intro: aset3_dim)

lemma store_harq_status_fault:
  assumes "ue_mac_wf u" and "\<not> (dl_cell dl < MAX_NUM_CC \<and> dl_harq dl < MAX_NUM_HARQ \<and> i < MAX_NUM_TB)"
  shows "store_harq_status dl u i = None"
  using assms by (auto simp: store_harq_status_def arr_simps)

lemma store_harq_status_ok:
  assumes "ue_mac_wf u" and "dl_cell dl < MAX_NUM_CC" and "dl_harq dl < MAX_NUM_HARQ" and "i < MAX_NUM_TB"
  shows "\<exists>u'. store_harq_status dl u i = Some u' \<and> ue_mac_wf u'"
proof -
  from assms obtain u' where "store_harq_status dl u i = Some u'"
    by (simp add: store_harq_status_def arr_simps)
  with store_harq_status_wf [OF this assms(1)] show ?thesis by blast
qed

text \<open>A status of another process leaves the availability of this one alone.\<close>

lemma store_harq_status_other:
  assumes "store_harq_status dl u i = Some u'" and "(c, p) \<noteq> (dl_cell dl, dl_harq dl)"
  shows "um_active_harq u' ! c ! p = um_active_harq u ! c ! p"
  using assms by (auto simp: store_harq_status_def Option.bind_eq_Some_conv access_iffs nth_list_update)

text \<open>Exactly which downlink reports make the update write outside its arrays.\<close>

lemma update_dl_sf_info_fault_iff:
  assumes "ue_mac_wf u"
  shows "update_dl_sf_info u dl = None \<longleftrightarrow>
     di_harq_status dl \<noteq> [] \<and>
     (MAX_NUM_CC \<le> dl_cell dl \<or> MAX_NUM_HARQ \<le> dl_harq dl \<or> MAX_NUM_TB < length (di_harq_status dl))"
    (is "?lhs \<longleftrightarrow> ?rhs")
proof
  assume lhs: ?lhs
  show ?rhs
  proof (rule ccontr)
    assume "\<not> ?rhs"
    then have "\<exists>u'. foldo (store_harq_status dl) u [0..<length (di_harq_status dl)] = Some u' \<and> ue_mac_wf u'"
      by (intro foldo_total [where I = ue_mac_wf, OF assms] store_harq_status_ok) auto
    with lhs show False by (auto simp: update_dl_sf_info_loop)
  qed
next
  assume rhs: ?rhs
  let ?n = "length (di_harq_status dl)"
  define i where "i = (if MAX_NUM_TB < ?n then MAX_NUM_TB else 0)"
  have i: "i \<in> set [0..<?n]" using rhs by (auto simp: i_def)
  have "store_harq_status dl s i = None" if "ue_mac_wf s" for s
    using rhs by (intro store_harq_status_fault that) (auto simp: i_def split: if_splits)
  with i assms store_harq_status_wf show ?lhs
    unfolding update_dl_sf_info_loop by (intro foldo_fault [where I = ue_mac_wf and x = i]) auto
qed

text \<open>The same for uplink reports.\<close>

lemma update_ul_sf_info_fault_iff:
  assumes "ue_mac_wf u"
  shows "update_ul_sf_info u ul = None \<longleftrightarrow>
     MAX_NUM_CC \<le> unat (ucast (ui_serv_cell_index ul) :: u8) \<or> MAX_NUM_LC < length (ui_ul_reception ul)"
proof -
  let ?c = "unat (ucast (ui_serv_cell_index ul) :: u8)" and ?n = "length (ui_ul_reception ul)"
  define f where "f = (\<lambda>(u :: ue_mac_rib_info) i. do {
             rd \<leftarrow> aset2 (um_ul_reception_data u) ?c i (ucast (ui_ul_reception ul ! i));
             Some (u\<lparr>um_ul_reception_data := rd\<rparr>) })"
  show ?thesis
  proof (cases "?c < 2")
    case False
    then show ?thesis using assms by (simp add: update_ul_sf_info_def Let_def arr_simps)
  next
    case c: True
    define v where "v = u\<lparr>um_tpc := ucast (ui_tpc ul),
        um_uplink_reception_stats := (um_uplink_reception_stats u)[?c := ucast (ui_reception_status ul)]\<rparr>"
    have run: "update_ul_sf_info u ul = foldo f v [0..<?n]"
      using c assms by (simp add: update_ul_sf_info_def Let_def arr_simps v_def f_def)
    have wf: "ue_mac_wf v" using assms by (simp add: ue_mac_wf_def v_def)
    have keep: "ue_mac_wf w'" if "f w i = Some w'" "ue_mac_wf w" for w i w'
      using that by (auto simp: f_def ue_mac_wf_def Option.bind_eq_Some_conv intro: aset2_dim)
    have bad: "f w 11 = None" if "ue_mac_wf w" for w using c that by (simp add: f_def arr_simps)
    have good: "\<exists>w'. f w i = Some w' \<and> ue_mac_wf w'" if w: "ue_mac_wf w" and "i < 11" for w i
    proof -
      have "\<exists>w'. f w i = Some w'" using c that by (simp add: f_def arr_simps)
      then show ?thesis using keep [OF _ w] by blast
    qed
    have "foldo f v [0..<?n] = None" if "11 < ?n"
      by (rule foldo_fault [where I = ue_mac_wf and x = 11 and f = f, OF _ wf bad keep]) (use that in simp_all)
    moreover have "\<exists>w. foldo f v [0..<?n] = Some w \<and> ue_mac_wf w" if "\<not> 11 < ?n"
      by (rule foldo_total [where I = ue_mac_wf and f = f, OF wf good]) (use that in simp_all)
    ultimately show ?thesis using run c by fastforce
  qed
qed

lemma update_dl_sf_info_feedback:
  assumes "ue_mac_wf u" and "update_dl_sf_info u dl = Some u'" and "di_harq_status dl \<noteq> []"
  shows "um_active_harq u' ! dl_cell dl ! dl_harq dl ! 0"
    and "um_harq_stats u' ! dl_cell dl ! dl_harq dl ! 0 = ucast (hd (di_harq_status dl))"
proof -
  let ?c = "dl_cell dl" and ?h = "dl_harq dl" and ?n = "length (di_harq_status dl)"
  have ok: "?c < 2" "?h < 8"
    using assms update_dl_sf_info_fault_iff [OF assms(1), of dl] by auto
  have "[0..<?n] = 0 # [1..<?n]" using assms(3) by (simp add: upt_conv_Cons)
  then obtain v where v: "store_harq_status dl u 0 = Some v"
    and rest: "foldo (store_harq_status dl) v [1..<?n] = Some u'"
    using assms(2) by (auto simp: update_dl_sf_info_loop Option.bind_eq_Some_conv)
  let ?I = "\<lambda>w. ue_mac_wf w \<and> um_active_harq w ! ?c ! ?h ! 0 \<and>
       um_harq_stats w ! ?c ! ?h ! 0 = ucast (hd (di_harq_status dl))"
  have "?I v"
    using v ok assms(1,3) store_harq_status_wf [OF v assms(1)]
    by (auto simp: store_harq_status_def Option.bind_eq_Some_conv access_iffs arr_simps hd_conv_nth)
  from rest this have "?I u'"
  proof (rule foldo_invariant [where I = ?I])
    fix s x s'
    assume x: "x \<in> set [1..<?n]" and s: "?I s" and step: "store_harq_status dl s x = Some s'"
    then have "ue_mac_wf s'" using store_harq_status_wf by blast
    then show "?I s'"
      using x s step ok
      by (auto simp: store_harq_status_def Option.bind_eq_Some_conv access_iffs nth_list_update)
  qed
  then show "um_active_harq u' ! ?c ! ?h ! 0"
    and "um_harq_stats u' ! ?c ! ?h ! 0 = ucast (hd (di_harq_status dl))" by auto
qed

section \<open>The HARQ processes of a UE as a state machine\<close>

text \<open>Everything the controller does to a UE's record, as events.\<close>

datatype harq_event =
    HarqScheduled u16 u8
  | DlInfo flex_dl_info
  | UlInfo flex_ul_info
  | MacStats flex_ue_stats_report

fun harq_step :: "ue_mac_rib_info \<Rightarrow> harq_event \<Rightarrow> ue_mac_rib_info option" where
  "harq_step u (HarqScheduled c p) = harq_scheduled u c p"
| "harq_step u (DlInfo i) = update_dl_sf_info u i"
| "harq_step u (UlInfo i) = update_ul_sf_info u i"
| "harq_step u (MacStats r) = Some (update_mac_stats_report u r)"

fun feedback_for :: "u16 \<Rightarrow> u8 \<Rightarrow> harq_event \<Rightarrow> bool" where
  "feedback_for c p (DlInfo i) =
     (dl_cell i = unat c \<and> dl_harq i = unat p \<and> di_harq_status i \<noteq> [])"
| "feedback_for c p _ = False"

lemma harq_step_wf: "harq_step u e = Some u' \<Longrightarrow> ue_mac_wf u \<Longrightarrow> ue_mac_wf u'"
  by (cases e) (auto intro: wf_intros)

lemma update_ul_sf_info_active [frame_simps]:
  assumes "update_ul_sf_info u i = Some u'"
  shows "um_active_harq u' = um_active_harq u"
  using assms unfolding update_ul_sf_info_def Let_def Option.bind_eq_Some_conv
  by (auto elim!: foldo_invariant [where I = "\<lambda>v. um_active_harq v = um_active_harq u"]
      simp: Option.bind_eq_Some_conv)

lemma update_dl_sf_info_other:
  assumes "update_dl_sf_info u dl = Some u'"
    and "(c, p) \<noteq> (dl_cell dl, dl_harq dl) \<or> di_harq_status dl = []"
  shows "um_active_harq u' ! c ! p = um_active_harq u ! c ! p"
proof (cases "di_harq_status dl = []")
  case True
  then show ?thesis using assms(1) by (simp add: update_dl_sf_info_loop)
next
  case False
  with assms(2) have o: "(c, p) \<noteq> (dl_cell dl, dl_harq dl)" by simp
  show ?thesis
    using assms(1) unfolding update_dl_sf_info_loop
    by (rule foldo_invariant [where I = "\<lambda>v. um_active_harq v ! c ! p = um_active_harq u ! c ! p"])
       (use store_harq_status_other [OF _ o] in auto)
qed

lemma harq_step_stays_busy:
  assumes "harq_step u e = Some u'" and "ue_mac_wf u" and "\<not> active u c (unat p)"
    and "\<not> feedback_for c p e" and "unat c < MAX_NUM_CC" and "unat p < MAX_NUM_HARQ"
  shows "\<not> active u' c (unat p)"
proof (cases e)
  case (HarqScheduled d q)
  then show ?thesis
    using assms
    by (auto simp: harq_scheduled_def Option.bind_eq_Some_conv access_iffs nth_list_update arr_simps
        split: if_splits)
next
  case (DlInfo i)
  then show ?thesis using assms update_dl_sf_info_other [of u i u' "unat c" "unat p"] by auto
next
  case (UlInfo i)
  then show ?thesis using assms by (simp add: update_ul_sf_info_active)
next
  case (MacStats r)
  then show ?thesis using assms by (auto simp: frame_simps)
qed

text \<open>
  C18: once a transmission is scheduled on a HARQ process, whatever other messages the agent sends,
  the process is not offered to the scheduler again until a feedback for that very process arrives.
\<close>

theorem harq_busy_until_feedback:
  assumes "ue_mac_wf u" and "unat c < MAX_NUM_CC" and "unat p < MAX_NUM_HARQ"
    and "harq_scheduled u c p = Some u1"
    and "foldo harq_step u1 es = Some u2"
    and "\<forall>e \<in> set es. \<not> feedback_for c p e"
  shows "get_next_available_harq u2 c \<noteq> Some (int (unat p))"
proof -
  let ?I = "\<lambda>v. ue_mac_wf v \<and> \<not> active v c (unat p)"
  have "?I u1"
    using harq_scheduled_wf [OF assms(1-3)] assms(2-4) by auto
  with assms(5) have "?I u2"
    by (rule foldo_invariant [where I = ?I])
       (use assms(2,3,6) harq_step_wf harq_step_stays_busy in blast)
  then have wf: "ue_mac_wf u2" and busy: "\<not> active u2 c (unat p)" by auto
  show ?thesis
  proof
    assume "get_next_available_harq u2 c = Some (int (unat p))"
    then have "(case List.find (active u2 c) [0..<MAX_NUM_HARQ] of None \<Rightarrow> - 1 | Some i \<Rightarrow> int i) = int (unat p)"
      by (simp only: next_available_harq_wf [OF wf assms(2)] option.inject)
    then have "List.find (active u2 c) [0..<MAX_NUM_HARQ] = Some (unat p)"
      by (simp only: of_nat_eq_iff split: option.splits)
    then show False using busy by (auto simp: find_Some_iff)
  qed
qed

lemma harq_busy_witness:
  "get_next_available_harq
     (update_mac_stats_report (the (harq_scheduled (new_ue_mac_rib_info 0 7) 1 0)) empty_ue_stats_report) 1
   \<noteq> Some 0"
proof -
  let ?u = "new_ue_mac_rib_info 0 7"
  have ok: "ue_mac_wf ?u" by (rule ue_mac_wf_new)
  have run: "harq_scheduled ?u 1 0 = Some (the (harq_scheduled ?u 1 0))"
    using harq_scheduled_wf [OF ok, of 1 0] by auto
  show ?thesis
    using harq_busy_until_feedback [OF ok _ _ run, of "[MacStats empty_ue_stats_report]"] by simp
qed

end
