(* ===== verification/EnbRib.thy ===== *)
theory EnbRib
  imports MacRib StdMap
begin

text \<open>
  \<open>src/rib/enb_rib_info.{h,cc}\<close>: what the controller knows of one eNB. The configuration replies
  are stored as they arrive; the UE configuration and the map \<open>ue_mac_info_\<close> of MAC records are two
  views of the connected UEs that every update has to keep in step. \<open>clock()\<close> is the argument \<open>now\<close>.
\<close>

section \<open>State and construction\<close>

record enb_rib_info =
  en_agent_id :: int
  en_last_checked :: int
  en_current_frame :: frame_t
  en_current_subframe :: subframe_t
  en_eNB_config :: flex_enb_config_reply
  en_ue_config :: flex_ue_config_reply
  en_lc_config :: flex_lc_config_reply
  en_ue_mac_info :: "(rnti_t \<times> ue_mac_rib_info) list"
  en_cell_mac_info :: "cell_mac_rib_info list"

definition new_enb_rib_info :: "junk \<Rightarrow> int \<Rightarrow> int \<Rightarrow> enb_rib_info" where
  "new_enb_rib_info jk now agent_id =
     \<lparr>en_agent_id = agent_id,
      en_last_checked = now,
      en_current_frame = jk_frame jk agent_id,
      en_current_subframe = jk_subframe jk agent_id,
      en_eNB_config = \<lparr>er_header = no_header, er_eNB_id = 0, er_cell_config = []\<rparr>,
      en_ue_config = \<lparr>ur_header = no_header, ur_ue_config = []\<rparr>,
      en_lc_config = \<lparr>lr_header = no_header, lr_lc_ue_config = []\<rparr>,
      en_ue_mac_info = [],
      en_cell_mac_info = replicate MAX_NUM_CC new_cell_mac_rib_info\<rparr>"

definition time_to_query :: int where
  "time_to_query = 500"

definition update_liveness :: "int \<Rightarrow> enb_rib_info \<Rightarrow> enb_rib_info" where
  "update_liveness now e = e\<lparr>en_last_checked := now\<rparr>"

definition need_to_query :: "int \<Rightarrow> enb_rib_info \<Rightarrow> bool" where
  "need_to_query now e \<longleftrightarrow> now - en_last_checked e > time_to_query"

definition get_ue_mac_info :: "enb_rib_info \<Rightarrow> rnti_t \<Rightarrow> ue_mac_rib_info option" where
  "get_ue_mac_info e rnti = sm_find (en_ue_mac_info e) rnti"

definition get_cell_mac_rib_info :: "enb_rib_info \<Rightarrow> u16 \<Rightarrow> cell_mac_rib_info option" where
  "get_cell_mac_rib_info e cell_id = aget (en_cell_mac_info e) (unat cell_id)"

abbreviation ue_configs :: "enb_rib_info \<Rightarrow> flex_ue_config list" where
  "ue_configs e \<equiv> ur_ue_config (en_ue_config e)"

abbreviation lc_configs :: "enb_rib_info \<Rightarrow> flex_lc_ue_config list" where
  "lc_configs e \<equiv> lr_lc_ue_config (en_lc_config e)"

abbreviation cell_configs :: "enb_rib_info \<Rightarrow> flex_cell_config list" where
  "cell_configs e \<equiv> er_cell_config (en_eNB_config e)"

section \<open>Configuration updates\<close>

definition update_eNB_config :: "int \<Rightarrow> enb_rib_info \<Rightarrow> flex_enb_config_reply \<Rightarrow> enb_rib_info" where
  "update_eNB_config now e r = update_liveness now (e\<lparr>en_eNB_config := r\<rparr>)"

definition ensure_ue_mac :: "junk \<Rightarrow> enb_rib_info \<Rightarrow> rnti_t \<Rightarrow> enb_rib_info" where
  "ensure_ue_mac jk e rnti =
     (case sm_find (en_ue_mac_info e) rnti of
        None \<Rightarrow> e\<lparr>en_ue_mac_info :=
                  sm_insert rnti (new_ue_mac_rib_info (jk_tpc jk) rnti) (en_ue_mac_info e)\<rparr>
      | Some _ \<Rightarrow> e)"

definition update_UE_config :: "junk \<Rightarrow> int \<Rightarrow> enb_rib_info \<Rightarrow> flex_ue_config_reply \<Rightarrow> enb_rib_info" where
  "update_UE_config jk now e r =
     update_liveness now
       (foldl (ensure_ue_mac jk) (e\<lparr>en_ue_config := r\<rparr>) (map uc_rnti (ur_ue_config r)))"

text \<open>
  The loop that erases the logical channel configuration of a UE: after \<open>DeleteSubrange(j, 1)\<close>
  the index still advances, so the element that moved into place \<open>j\<close> is not looked at.
\<close>

function erase_lc :: "rnti_t \<Rightarrow> nat \<Rightarrow> flex_lc_ue_config list \<Rightarrow> flex_lc_ue_config list" where
  "erase_lc rnti j lcs =
     (if j < length lcs
      then if rnti = lu_rnti (lcs ! j) then erase_lc rnti (Suc j) (delete_at j lcs)
           else erase_lc rnti (Suc j) lcs
      else lcs)"
  by pat_completeness auto
termination
  by (relation "measure (\<lambda>(r, j, lcs). length lcs - j)") (auto simp: length_delete_at)

declare erase_lc.simps [simp del]

definition deactivate_ue :: "nat \<Rightarrow> rnti_t \<Rightarrow> enb_rib_info \<Rightarrow> enb_rib_info" where
  "deactivate_ue i rnti e =
     e\<lparr>en_ue_config := (en_ue_config e)\<lparr>ur_ue_config := delete_at i (ue_configs e)\<rparr>,
       en_ue_mac_info := sm_erase rnti (en_ue_mac_info e),
       en_lc_config := (en_lc_config e)\<lparr>lr_lc_ue_config := erase_lc rnti 0 (lc_configs e)\<rparr>\<rparr>"

function state_change_loop :: "flex_ue_state_change \<Rightarrow> nat \<Rightarrow> enb_rib_info \<Rightarrow> enb_rib_info" where
  "state_change_loop sc i e =
     (if i < length (ue_configs e)
      then let rnti = uc_rnti (ue_configs e ! i)
           in if rnti = uc_rnti (sc_config sc)
              then if sc_type sc = FLUESC_DEACTIVATED then deactivate_ue i rnti e
                   else if sc_type sc = FLUESC_UPDATED
                   then state_change_loop sc (Suc i)
                          (e\<lparr>en_ue_config := (en_ue_config e)
                               \<lparr>ur_ue_config := (ue_configs e)[i := sc_config sc]\<rparr>\<rparr>)
                   else state_change_loop sc (Suc i) e
              else state_change_loop sc (Suc i) e
      else e)"
  by pat_completeness auto
termination
  by (relation "measure (\<lambda>(sc, i, e). length (ue_configs e) - i)") auto

declare state_change_loop.simps [simp del]

definition update_UE_state :: "junk \<Rightarrow> enb_rib_info \<Rightarrow> flex_ue_state_change \<Rightarrow> enb_rib_info" where
  "update_UE_state jk e sc =
     (if sc_type sc = FLUESC_ACTIVATED
      then let rnti = uc_rnti (sc_config sc)
           in e\<lparr>en_ue_config := (en_ue_config e)\<lparr>ur_ue_config := ue_configs e @ [sc_config sc]\<rparr>,
                en_ue_mac_info :=
                  sm_insert rnti (new_ue_mac_rib_info (jk_tpc jk) rnti) (en_ue_mac_info e)\<rparr>
      else state_change_loop sc 0 e)"

definition update_LC_config :: "int \<Rightarrow> enb_rib_info \<Rightarrow> flex_lc_config_reply \<Rightarrow> enb_rib_info" where
  "update_LC_config now e r = update_liveness now (e\<lparr>en_lc_config := r\<rparr>)"

section \<open>Subframe and statistics updates\<close>

text \<open>An update of the record of one UE; an unknown RNTI is ignored.\<close>

definition with_ue :: "rnti_t \<Rightarrow> (ue_mac_rib_info \<Rightarrow> ue_mac_rib_info option) \<Rightarrow> enb_rib_info \<Rightarrow>
    enb_rib_info option" where
  "with_ue rnti f e =
     (case sm_find (en_ue_mac_info e) rnti of
        None \<Rightarrow> Some e
      | Some u \<Rightarrow> do { u' \<leftarrow> f u; Some (e\<lparr>en_ue_mac_info := sm_put rnti u' (en_ue_mac_info e)\<rparr>) })"

definition update_subframe :: "int \<Rightarrow> enb_rib_info \<Rightarrow> flex_sf_trigger \<Rightarrow> enb_rib_info option" where
  "update_subframe now e t =
     (let sfn_sf = ucast (st_sfn_sf t) :: u16;
          e = e\<lparr>en_current_frame := get_frame (ucast sfn_sf),
                en_current_subframe := get_subframe (ucast sfn_sf)\<rparr>
      in do {
        e \<leftarrow> foldo (\<lambda>e i. with_ue (di_rnti i) (\<lambda>u. update_dl_sf_info u i) e) e (st_dl_info t);
        e \<leftarrow> foldo (\<lambda>e i. with_ue (ui_rnti i) (\<lambda>u. update_ul_sf_info u i) e) e (st_ul_info t);
        Some (update_liveness now e)
      })"

definition store_cell_report :: "flex_stats_reply \<Rightarrow> enb_rib_info \<Rightarrow> nat \<Rightarrow> enb_rib_info option" where
  "store_cell_report r e i = do {
     c \<leftarrow> aget (en_cell_mac_info e) i;
     cs \<leftarrow> aset (en_cell_mac_info e) i (update_cell_stats_report c (sr_cell_report r ! i));
     Some (e\<lparr>en_cell_mac_info := cs\<rparr>) }"

definition update_mac_stats :: "enb_rib_info \<Rightarrow> flex_stats_reply \<Rightarrow> enb_rib_info option" where
  "update_mac_stats e r = do {
     e \<leftarrow> foldo (\<lambda>e s. with_ue (us_rnti s) (\<lambda>u. Some (update_mac_stats_report u s)) e) e (sr_ue_report r);
     foldo (store_cell_report r) e [0..<length (sr_cell_report r)] }"

section \<open>Invariants\<close>

text \<open>Shape: the map is a map, and every array has its declared dimensions.\<close>

definition enb_wf :: "enb_rib_info \<Rightarrow> bool" where
  "enb_wf e \<longleftrightarrow> sm_inv (en_ue_mac_info e) \<and>
     (\<forall>u \<in> ran (sm_find (en_ue_mac_info e)). ue_mac_wf u) \<and>
     length (en_cell_mac_info e) = MAX_NUM_CC"

abbreviation rntis :: "enb_rib_info \<Rightarrow> rnti_t list" where
  "rntis e \<equiv> map uc_rnti (ue_configs e)"

abbreviation mac_rntis :: "enb_rib_info \<Rightarrow> rnti_t set" where
  "mac_rntis e \<equiv> dom (sm_find (en_ue_mac_info e))"

text \<open>
  Consistency of the two views: no RNTI is configured twice, and every configured UE has a MAC
  record. The schedulers dereference that record without a test.
\<close>

definition ue_view_consistent :: "enb_rib_info \<Rightarrow> bool" where
  "ue_view_consistent e \<longleftrightarrow> distinct (rntis e) \<and> set (rntis e) \<subseteq> mac_rntis e"

lemma enb_wfD:
  "enb_wf e \<Longrightarrow> sm_inv (en_ue_mac_info e)"
  "enb_wf e \<Longrightarrow> sm_find (en_ue_mac_info e) r = Some u \<Longrightarrow> ue_mac_wf u"
  "enb_wf e \<Longrightarrow> length (en_cell_mac_info e) = 2"
  by (auto simp: enb_wf_def ran_def)

lemma enb_wfI:
  assumes "sm_inv (en_ue_mac_info e)" and "length (en_cell_mac_info e) = 2"
    and "\<And>r u. sm_find (en_ue_mac_info e) r = Some u \<Longrightarrow> ue_mac_wf u"
  shows "enb_wf e"
  using assms by (auto simp: enb_wf_def ran_def)

lemma enb_wf_cong:
  "en_ue_mac_info e' = en_ue_mac_info e \<Longrightarrow> en_cell_mac_info e' = en_cell_mac_info e \<Longrightarrow> enb_wf e' = enb_wf e"
  by (simp add: enb_wf_def)

lemma ue_view_cong:
  "en_ue_mac_info e' = en_ue_mac_info e \<Longrightarrow> en_ue_config e' = en_ue_config e \<Longrightarrow>
   ue_view_consistent e' = ue_view_consistent e"
  by (simp add: ue_view_consistent_def)

lemma enb_wf_new [wf_intros]: "enb_wf (new_enb_rib_info jk now a)"
  by (simp add: enb_wf_def new_enb_rib_info_def sm.inv_empty sm_find_def ran_def)

lemma ue_view_new [wf_intros]: "ue_view_consistent (new_enb_rib_info jk now a)"
  by (simp add: ue_view_consistent_def new_enb_rib_info_def)

lemma update_liveness_sel [frame_simps]:
  "en_ue_mac_info (update_liveness now e) = en_ue_mac_info e"
  "en_ue_config (update_liveness now e) = en_ue_config e"
  "en_lc_config (update_liveness now e) = en_lc_config e"
  "en_eNB_config (update_liveness now e) = en_eNB_config e"
  "en_cell_mac_info (update_liveness now e) = en_cell_mac_info e"
  "en_current_frame (update_liveness now e) = en_current_frame e"
  "en_current_subframe (update_liveness now e) = en_current_subframe e"
  "en_agent_id (update_liveness now e) = en_agent_id e"
  by (simp_all add: update_liveness_def)

lemma enb_wf_liveness [simp]: "enb_wf (update_liveness now e) = enb_wf e"
  by (rule enb_wf_cong) (simp_all add: frame_simps)

lemma ue_view_liveness [simp]: "ue_view_consistent (update_liveness now e) = ue_view_consistent e"
  by (simp add: ue_view_consistent_def frame_simps)

text \<open>A stored record keeps the shape, and the set of known RNTIs.\<close>

lemma with_ue_wf:
  assumes "with_ue r f e = Some e'" and "enb_wf e"
    and "\<And>u u'. f u = Some u' \<Longrightarrow> ue_mac_wf u \<Longrightarrow> ue_mac_wf u'"
  shows "enb_wf e'"
proof (cases "sm_find (en_ue_mac_info e) r")
  case None
  then show ?thesis using assms by (simp add: with_ue_def)
next
  case (Some u)
  then obtain u' where u': "f u = Some u'" "e' = e\<lparr>en_ue_mac_info := sm_put r u' (en_ue_mac_info e)\<rparr>"
    using assms(1) by (auto simp: with_ue_def Option.bind_eq_Some_conv)
  have "ue_mac_wf u'" using assms(3) [OF u'(1)] enb_wfD(2) [OF assms(2) Some] .
  then show ?thesis
    using enb_wfD [OF assms(2)]
    by (intro enb_wfI) (auto simp: u'(2) sm.find_put sm.inv_put split: if_splits)
qed

lemma with_ue_frame:
  assumes "with_ue r f e = Some e'" and "enb_wf e"
  shows "mac_rntis e' = mac_rntis e" and "en_ue_config e' = en_ue_config e"
    and "en_lc_config e' = en_lc_config e" and "en_eNB_config e' = en_eNB_config e"
    and "en_current_frame e' = en_current_frame e"
    and "en_current_subframe e' = en_current_subframe e"
    and "en_cell_mac_info e' = en_cell_mac_info e"
  using assms
  by (auto simp: with_ue_def Option.bind_eq_Some_conv sm.find_put [OF enb_wfD(1)] split: option.splits if_splits)

section \<open>Every update keeps the shape\<close>

lemma ensure_ue_mac_wf:
  assumes "enb_wf e"
  shows "enb_wf (ensure_ue_mac jk e r)"
    and "mac_rntis (ensure_ue_mac jk e r) = insert r (mac_rntis e)"
    and "en_ue_config (ensure_ue_mac jk e r) = en_ue_config e"
    and "sm_find (en_ue_mac_info e) q = Some u \<Longrightarrow>
         sm_find (en_ue_mac_info (ensure_ue_mac jk e r)) q = Some u"
proof -
  note D = enb_wfD [OF assms]
  show "enb_wf (ensure_ue_mac jk e r)"
    using D assms
    by (auto simp: ensure_ue_mac_def sm.find_insert sm.inv_insert ue_mac_wf_new split: option.splits if_splits
        intro!: enb_wfI)
  show "mac_rntis (ensure_ue_mac jk e r) = insert r (mac_rntis e)"
    using D(1) by (auto simp: ensure_ue_mac_def sm.find_insert split: option.splits if_splits)
  show "en_ue_config (ensure_ue_mac jk e r) = en_ue_config e"
    by (simp add: ensure_ue_mac_def split: option.split)
  show "sm_find (en_ue_mac_info (ensure_ue_mac jk e r)) q = Some u"
    if "sm_find (en_ue_mac_info e) q = Some u"
    using that D(1) by (auto simp: ensure_ue_mac_def sm.insert_keeps split: option.split)
qed

lemma ensure_ue_macs_wf:
  assumes "enb_wf e"
  shows "enb_wf (foldl (ensure_ue_mac jk) e rs) \<and>
         mac_rntis (foldl (ensure_ue_mac jk) e rs) = mac_rntis e \<union> set rs \<and>
         en_ue_config (foldl (ensure_ue_mac jk) e rs) = en_ue_config e \<and>
         (\<forall>q u. sm_find (en_ue_mac_info e) q = Some u \<longrightarrow>
                sm_find (en_ue_mac_info (foldl (ensure_ue_mac jk) e rs)) q = Some u)"
  using assms
proof (induction rs arbitrary: e)
  case Nil
  then show ?case by simp
next
  case (Cons r rs)
  note step = ensure_ue_mac_wf [OF Cons.prems, where jk = jk and r = r]
  show ?case
    using Cons.IH [OF step(1)] step by (simp add: insert_is_Un [symmetric])
qed

lemma enb_wf_update_eNB_config [wf_intros]: "enb_wf e \<Longrightarrow> enb_wf (update_eNB_config now e r)"
  by (simp add: update_eNB_config_def enb_wf_cong [of "e\<lparr>en_eNB_config := r\<rparr>" e])

lemma enb_wf_update_LC_config [wf_intros]: "enb_wf e \<Longrightarrow> enb_wf (update_LC_config now e r)"
  by (simp add: update_LC_config_def enb_wf_cong [of "e\<lparr>en_lc_config := r\<rparr>" e])

lemma enb_wf_update_UE_config [wf_intros]: "enb_wf e \<Longrightarrow> enb_wf (update_UE_config jk now e r)"
  using ensure_ue_macs_wf [of "e\<lparr>en_ue_config := r\<rparr>" jk] enb_wf_cong [of "e\<lparr>en_ue_config := r\<rparr>" e]
  by (simp add: update_UE_config_def)

lemma enb_wf_deactivate: "enb_wf e \<Longrightarrow> enb_wf (deactivate_ue i r e)"
  by (rule enb_wfI) (auto simp: deactivate_ue_def sm.inv_erase sm.find_erase enb_wfD split: if_splits)

lemma enb_wf_state_change_loop: "enb_wf e \<Longrightarrow> enb_wf (state_change_loop sc i e)"
proof (induction sc i e rule: state_change_loop.induct)
  case (1 sc i e)
  have upd: "enb_wf (e\<lparr>en_ue_config := c\<rparr>) = enb_wf e" for c by (rule enb_wf_cong) simp_all
  show ?case
    by (subst state_change_loop.simps) (use 1 in \<open>simp add: Let_def enb_wf_deactivate upd\<close>)
qed

lemma enb_wf_update_UE_state [wf_intros]: "enb_wf e \<Longrightarrow> enb_wf (update_UE_state jk e sc)"
  by (auto simp: update_UE_state_def Let_def enb_wf_state_change_loop sm.inv_insert sm.find_insert
      enb_wfD ue_mac_wf_new split: if_splits intro!: enb_wfI)

text \<open>The two loops over the records of a subframe trigger, and the one over a statistics reply.\<close>

definition same_view :: "enb_rib_info \<Rightarrow> enb_rib_info \<Rightarrow> bool" where
  "same_view e e' \<longleftrightarrow> mac_rntis e' = mac_rntis e \<and> en_ue_config e' = en_ue_config e \<and>
     en_lc_config e' = en_lc_config e \<and> en_eNB_config e' = en_eNB_config e \<and>
     en_current_frame e' = en_current_frame e \<and> en_current_subframe e' = en_current_subframe e"

lemma foldo_with_ue:
  assumes "foldo (\<lambda>e i. with_ue (r i) (f i) e) e xs = Some e'" and "enb_wf e"
    and "\<And>i u u'. f i u = Some u' \<Longrightarrow> ue_mac_wf u \<Longrightarrow> ue_mac_wf u'"
  shows "enb_wf e' \<and> same_view e e'"
  using assms(1)
proof (rule foldo_invariant [where I = "\<lambda>v. enb_wf v \<and> same_view e v"])
  show "enb_wf e \<and> same_view e e" using assms(2) by (simp add: same_view_def)
next
  fix s x s'
  assume s: "enb_wf s \<and> same_view e s" and step: "with_ue (r x) (f x) s = Some s'"
  have "enb_wf s'" using with_ue_wf [OF step] s assms(3) by blast
  then show "enb_wf s' \<and> same_view e s'"
    using with_ue_frame [OF step] s by (simp add: same_view_def)
qed

lemma store_cell_report_wf:
  assumes "store_cell_report r e i = Some e'" and "enb_wf e"
  shows "enb_wf e' \<and> same_view e e'"
  using assms
  by (auto simp: store_cell_report_def Option.bind_eq_Some_conv access_iffs enb_wf_def same_view_def)

lemma update_subframe_wf:
  assumes "update_subframe now e t = Some e'" and "enb_wf e"
  shows "enb_wf e' \<and> same_view (e\<lparr>en_current_frame := get_frame (ucast (ucast (st_sfn_sf t) :: u16)),
            en_current_subframe := get_subframe (ucast (ucast (st_sfn_sf t) :: u16))\<rparr>) e'"
proof -
  let ?e = "e\<lparr>en_current_frame := get_frame (ucast (ucast (st_sfn_sf t) :: u16)),
            en_current_subframe := get_subframe (ucast (ucast (st_sfn_sf t) :: u16))\<rparr>"
  obtain e1 e2 where 1: "foldo (\<lambda>e i. with_ue (di_rnti i) (\<lambda>u. update_dl_sf_info u i) e) ?e (st_dl_info t) = Some e1"
    and 2: "foldo (\<lambda>e i. with_ue (ui_rnti i) (\<lambda>u. update_ul_sf_info u i) e) e1 (st_ul_info t) = Some e2"
    and 3: "e' = update_liveness now e2"
    using assms(1) by (auto simp: update_subframe_def Let_def Option.bind_eq_Some_conv)
  have "enb_wf ?e" using assms(2) by (simp add: enb_wf_cong [of ?e e])
  then have w1: "enb_wf e1 \<and> same_view ?e e1"
    using foldo_with_ue [OF 1] ue_mac_wf_dl by blast
  then have w2: "enb_wf e2 \<and> same_view e1 e2"
    using foldo_with_ue [OF 2] ue_mac_wf_ul by blast
  from w1 w2 show ?thesis by (simp add: 3 same_view_def frame_simps)
qed

lemma update_mac_stats_wf:
  assumes "update_mac_stats e r = Some e'" and "enb_wf e"
  shows "enb_wf e' \<and> same_view e e'"
proof -
  obtain e1 where 1: "foldo (\<lambda>e s. with_ue (us_rnti s) (\<lambda>u. Some (update_mac_stats_report u s)) e) e
        (sr_ue_report r) = Some e1"
    and 2: "foldo (store_cell_report r) e1 [0..<length (sr_cell_report r)] = Some e'"
    using assms(1) by (auto simp: update_mac_stats_def Option.bind_eq_Some_conv)
  have w1: "enb_wf e1 \<and> same_view e e1"
    using foldo_with_ue [OF 1 assms(2)] ue_mac_wf_stats by blast
  from 2 show ?thesis
  proof (rule foldo_invariant [where I = "\<lambda>v. enb_wf v \<and> same_view e v"])
    fix s x s'
    assume "enb_wf s \<and> same_view e s" and "store_cell_report r s x = Some s'"
    then show "enb_wf s' \<and> same_view e s'"
      using store_cell_report_wf [of r s x s'] by (simp add: same_view_def)
  qed (rule w1)
qed

section \<open>Faults: a report outside the arrays\<close>

text \<open>A statistics reply is fatal exactly when it carries more cell reports than carriers.\<close>

lemma update_mac_stats_fault_iff:
  assumes "enb_wf e"
  shows "update_mac_stats e r = None \<longleftrightarrow> MAX_NUM_CC < length (sr_cell_report r)"
proof -
  let ?f = "\<lambda>e s. with_ue (us_rnti s) (\<lambda>u. Some (update_mac_stats_report u s)) e"
  have "\<exists>e1. foldo ?f e (sr_ue_report r) = Some e1 \<and> enb_wf e1"
  proof (rule foldo_total [where I = enb_wf, OF assms])
    fix s x assume s: "enb_wf s"
    obtain s' where s': "?f s x = Some s'"
      by (cases "sm_find (en_ue_mac_info s) (us_rnti x)") (simp_all add: with_ue_def)
    have "enb_wf s'" by (rule with_ue_wf [OF s' s]) (auto intro: wf_intros)
    with s' show "\<exists>s'. ?f s x = Some s' \<and> enb_wf s'" by blast
  qed
  then obtain e1 where e1: "foldo ?f e (sr_ue_report r) = Some e1" "enb_wf e1" by blast
  have ok: "\<exists>s'. store_cell_report r s i = Some s' \<and> enb_wf s'" if w: "enb_wf s" and i: "i < 2" for s i
  proof -
    obtain s' where s': "store_cell_report r s i = Some s'"
      using i enb_wfD(3) [OF w] by (simp add: store_cell_report_def arr_simps)
    with store_cell_report_wf [OF s' w] show ?thesis by blast
  qed
  have bad: "store_cell_report r s 2 = None" if "enb_wf s" for s
    using enb_wfD(3) [OF that] by (simp add: store_cell_report_def arr_simps)
  have "foldo (store_cell_report r) e1 [0..<length (sr_cell_report r)] = None
        \<longleftrightarrow> 2 < length (sr_cell_report r)"
  proof
    assume "2 < length (sr_cell_report r)"
    then show "foldo (store_cell_report r) e1 [0..<length (sr_cell_report r)] = None"
      using e1(2) bad store_cell_report_wf
      by (intro foldo_fault [where I = enb_wf and x = 2]) auto
  next
    assume none: "foldo (store_cell_report r) e1 [0..<length (sr_cell_report r)] = None"
    show "2 < length (sr_cell_report r)"
    proof (rule ccontr)
      assume "\<not> 2 < length (sr_cell_report r)"
      then have "\<exists>s'. foldo (store_cell_report r) e1 [0..<length (sr_cell_report r)] = Some s' \<and> enb_wf s'"
        by (intro foldo_total [where I = enb_wf, OF e1(2)] ok) auto
      with none show False by simp
    qed
  qed
  with e1(1) show ?thesis by (simp add: update_mac_stats_def)
qed

text \<open>
  A subframe trigger is fatal exactly when it reports, for a UE that is known, a carrier or a HARQ
  process that does not exist, or more transport blocks or logical channels than there are.
\<close>

definition dl_info_out_of_range :: "flex_dl_info \<Rightarrow> bool" where
  "dl_info_out_of_range i \<longleftrightarrow> di_harq_status i \<noteq> [] \<and>
     (MAX_NUM_CC \<le> dl_cell i \<or> MAX_NUM_HARQ \<le> dl_harq i \<or> MAX_NUM_TB < length (di_harq_status i))"

definition ul_info_out_of_range :: "flex_ul_info \<Rightarrow> bool" where
  "ul_info_out_of_range i \<longleftrightarrow>
     MAX_NUM_CC \<le> unat (ucast (ui_serv_cell_index i) :: u8) \<or> MAX_NUM_LC < length (ui_ul_reception i)"

lemma with_ue_None_iff: "with_ue r f e = None \<longleftrightarrow> (\<exists>u. sm_find (en_ue_mac_info e) r = Some u \<and> f u = None)"
  by (auto simp: with_ue_def Option.bind_eq_None_conv split: option.splits)

lemma foldo_with_ue_fault_iff:
  assumes wf: "enb_wf e"
    and keep: "\<And>i u u'. f i u = Some u' \<Longrightarrow> ue_mac_wf u \<Longrightarrow> ue_mac_wf u'"
    and bad: "\<And>i u. ue_mac_wf u \<Longrightarrow> f i u = None \<longleftrightarrow> bad i"
  shows "foldo (\<lambda>e i. with_ue (r i) (f i) e) e xs = None \<longleftrightarrow> (\<exists>i \<in> set xs. r i \<in> mac_rntis e \<and> bad i)"
proof -
  let ?g = "\<lambda>e i. with_ue (r i) (f i) e"
  let ?I = "\<lambda>v. enb_wf v \<and> mac_rntis v = mac_rntis e"
  have none: "?g v i = None \<longleftrightarrow> r i \<in> mac_rntis e \<and> bad i" if "?I v" for v i
  proof (cases "sm_find (en_ue_mac_info v) (r i)")
    case None
    then have "r i \<notin> mac_rntis v" by auto
    then have "r i \<notin> mac_rntis e" using that by simp
    with None show ?thesis by (simp add: with_ue_None_iff)
  next
    case (Some u)
    then have "r i \<in> mac_rntis e" and "ue_mac_wf u" using that enb_wfD(2) [of v] by auto
    with Some bad show ?thesis by (simp add: with_ue_None_iff)
  qed
  have step: "?I v'" if "?I v" "?g v i = Some v'" for v i v'
    using that with_ue_wf [OF that(2)] with_ue_frame(1) [OF that(2)] keep by auto
  show ?thesis
  proof
    assume "\<exists>i \<in> set xs. r i \<in> mac_rntis e \<and> bad i"
    then obtain i where "i \<in> set xs" "r i \<in> mac_rntis e \<and> bad i" by blast
    then show "foldo ?g e xs = None"
      using none step wf by (intro foldo_fault [where I = ?I and x = i]) blast+
  next
    assume n: "foldo ?g e xs = None"
    show "\<exists>i \<in> set xs. r i \<in> mac_rntis e \<and> bad i"
    proof (rule ccontr)
      assume no: "\<not> (\<exists>i \<in> set xs. r i \<in> mac_rntis e \<and> bad i)"
      have "\<exists>v. foldo ?g e xs = Some v \<and> ?I v"
      proof (rule foldo_total [where I = ?I])
        show "?I e" using wf by simp
        fix s x assume "x \<in> set xs" and s: "?I s"
        then obtain s' where "?g s x = Some s'" using none no by (metis not_None_eq)
        with step [OF s this] show "\<exists>s'. ?g s x = Some s' \<and> ?I s'" by blast
      qed
      with n show False by simp
    qed
  qed
qed

lemma update_subframe_fault_iff:
  assumes "enb_wf e"
  shows "update_subframe now e t = None \<longleftrightarrow>
     (\<exists>i \<in> set (st_dl_info t). di_rnti i \<in> mac_rntis e \<and> dl_info_out_of_range i) \<or>
     (\<exists>i \<in> set (st_ul_info t). ui_rnti i \<in> mac_rntis e \<and> ul_info_out_of_range i)"
proof -
  let ?e = "e\<lparr>en_current_frame := get_frame (ucast (ucast (st_sfn_sf t) :: u16)),
            en_current_subframe := get_subframe (ucast (ucast (st_sfn_sf t) :: u16))\<rparr>"
  let ?dl = "foldo (\<lambda>e i. with_ue (di_rnti i) (\<lambda>u. update_dl_sf_info u i) e) ?e (st_dl_info t)"
  have wf: "enb_wf ?e" using assms by (simp add: enb_wf_cong [of ?e e])
  have dl: "?dl = None \<longleftrightarrow> (\<exists>i \<in> set (st_dl_info t). di_rnti i \<in> mac_rntis e \<and> dl_info_out_of_range i)"
    using foldo_with_ue_fault_iff [OF wf, where r = di_rnti and f = "\<lambda>i u. update_dl_sf_info u i"
        and bad = dl_info_out_of_range and xs = "st_dl_info t"] ue_mac_wf_dl update_dl_sf_info_fault_iff
    by (simp add: dl_info_out_of_range_def)
  have ul: "foldo (\<lambda>e i. with_ue (ui_rnti i) (\<lambda>u. update_ul_sf_info u i) e) e1 (st_ul_info t) = None \<longleftrightarrow>
      (\<exists>i \<in> set (st_ul_info t). ui_rnti i \<in> mac_rntis e \<and> ul_info_out_of_range i)" if "?dl = Some e1" for e1
  proof -
    have "enb_wf e1 \<and> same_view ?e e1"
      using foldo_with_ue [OF that wf] ue_mac_wf_dl by blast
    then show ?thesis
      using foldo_with_ue_fault_iff [of e1 "\<lambda>i u. update_ul_sf_info u i" ul_info_out_of_range ui_rnti "st_ul_info t"]
        ue_mac_wf_ul update_ul_sf_info_fault_iff
      by (simp add: ul_info_out_of_range_def same_view_def)
  qed
  show ?thesis
    using dl ul by (cases ?dl) (auto simp: update_subframe_def Let_def Option.bind_eq_None_conv)
qed

section \<open>Erasing logical channel configurations\<close>

lemma erase_lc_skips: "j < length lcs \<Longrightarrow> lu_rnti (lcs ! j) \<noteq> r \<Longrightarrow> erase_lc r j lcs = erase_lc r (Suc j) lcs"
  by (subst erase_lc.simps) auto

lemma erase_lc_absent:
  assumes "\<forall>k. j \<le> k \<longrightarrow> k < length lcs \<longrightarrow> lu_rnti (lcs ! k) \<noteq> r"
  shows "erase_lc r j lcs = lcs"
  using assms
proof (induction "length lcs - j" arbitrary: j)
  case 0
  then show ?case by (subst erase_lc.simps) simp
next
  case (Suc n)
  have j: "j < length lcs" and n: "n = length lcs - Suc j" using Suc.hyps(2) by linarith+
  have "erase_lc r j lcs = erase_lc r (Suc j) lcs"
    using j Suc.prems by (intro erase_lc_skips) simp_all
  also have "\<dots> = lcs" using n Suc.prems by (intro Suc.hyps(1)) simp_all
  finally show ?case .
qed

text \<open>With at most one entry per UE the loop removes exactly the entries of that UE.\<close>

lemma erase_lc_from:
  assumes "distinct (map lu_rnti (xs @ ys))" and "\<forall>c \<in> set xs. lu_rnti c \<noteq> r"
  shows "erase_lc r (length xs) (xs @ ys) = xs @ filter (\<lambda>c. lu_rnti c \<noteq> r) ys"
  using assms
proof (induction ys arbitrary: xs)
  case Nil
  then show ?case by (subst erase_lc.simps) simp
next
  case (Cons y ys)
  show ?case
  proof (cases "lu_rnti y = r")
    case True
    have "lu_rnti y \<notin> lu_rnti ` set ys" using Cons.prems(1) by simp
    then have no: "\<forall>c \<in> set (xs @ ys). lu_rnti c \<noteq> r"
      using Cons.prems(2) True by (metis UnE image_eqI set_append)
    have "erase_lc r (length xs) (xs @ y # ys) = erase_lc r (Suc (length xs)) (xs @ ys)"
      using True by (subst erase_lc.simps) (simp add: delete_at_append)
    also have "\<dots> = xs @ ys" using no by (intro erase_lc_absent) (metis nth_mem)
    finally show ?thesis using True no by (simp add: filter_id_conv)
  next
    case False
    have "erase_lc r (length xs) (xs @ y # ys) = erase_lc r (length (xs @ [y])) ((xs @ [y]) @ ys)"
      using False by (subst erase_lc_skips) auto
    also have "\<dots> = (xs @ [y]) @ filter (\<lambda>c. lu_rnti c \<noteq> r) ys"
      using Cons.prems False by (intro Cons.IH) auto
    finally show ?thesis using False by simp
  qed
qed

lemma erase_lc_filter:
  "distinct (map lu_rnti lcs) \<Longrightarrow> erase_lc r 0 lcs = filter (\<lambda>c. lu_rnti c \<noteq> r) lcs"
  using erase_lc_from [of "[]" lcs r] by simp

section \<open>UE state changes\<close>

lemma state_change_skip:
  "uc_rnti (ue_configs e ! i) \<noteq> uc_rnti (sc_config sc) \<Longrightarrow> i < length (ue_configs e) \<Longrightarrow>
   state_change_loop sc i e = state_change_loop sc (Suc i) e"
  by (subst state_change_loop.simps) simp

lemma state_change_end: "length (ue_configs e) \<le> i \<Longrightarrow> state_change_loop sc i e = e"
  by (subst state_change_loop.simps) simp

text \<open>Every state change other than an activation keeps the two views of the UEs in step.\<close>

lemma ue_view_deactivate:
  assumes "enb_wf e" and "ue_view_consistent e" and "i < length (ue_configs e)"
  shows "ue_view_consistent (deactivate_ue i (uc_rnti (ue_configs e ! i)) e)"
proof -
  let ?r = "uc_rnti (ue_configs e ! i)"
  have d: "distinct (rntis e)" and s: "set (rntis e) \<subseteq> mac_rntis e"
    using assms(2) by (simp_all add: ue_view_consistent_def)
  note del = distinct_delete_at [OF d assms(3)]
  have "mac_rntis (deactivate_ue i ?r e) = mac_rntis e - {?r}"
    using assms(1) by (simp add: deactivate_ue_def sm.dom_erase enb_wfD)
  then show ?thesis
    using del s by (auto simp: ue_view_consistent_def deactivate_ue_def)
qed

lemma ue_view_state_change_loop:
  "enb_wf e \<Longrightarrow> ue_view_consistent e \<Longrightarrow> ue_view_consistent (state_change_loop sc i e)"
proof (induction sc i e rule: state_change_loop.induct)
  case (1 sc i e)
  let ?e = "e\<lparr>en_ue_config := (en_ue_config e)\<lparr>ur_ue_config := (ue_configs e)[i := sc_config sc]\<rparr>\<rparr>"
  have wf: "enb_wf ?e" using "1.prems"(1) by (simp add: enb_wf_cong [of ?e e])
  have view: "ue_view_consistent ?e"
    if "i < length (ue_configs e)" "uc_rnti (ue_configs e ! i) = uc_rnti (sc_config sc)"
  proof -
    have "rntis ?e = rntis e"
      using that by (simp add: map_update list_update_same_conv)
    then show ?thesis using "1.prems"(2) by (simp add: ue_view_consistent_def)
  qed
  have del: "ue_view_consistent (deactivate_ue i (uc_rnti (sc_config sc)) e)"
    if "i < length (ue_configs e)" "uc_rnti (ue_configs e ! i) = uc_rnti (sc_config sc)"
    using ue_view_deactivate [OF "1.prems" that(1)] that(2) by simp
  show ?case
    by (subst state_change_loop.simps) (use 1 wf view del in \<open>simp add: Let_def\<close>)
qed


lemma ue_view_update_UE_config:
  assumes "enb_wf e" and "distinct (map uc_rnti (ur_ue_config r))"
  shows "ue_view_consistent (update_UE_config jk now e r)"
proof -
  have "enb_wf (e\<lparr>en_ue_config := r\<rparr>)" using assms(1) by (simp add: enb_wf_cong [of "e\<lparr>en_ue_config := r\<rparr>" e])
  from ensure_ue_macs_wf [OF this, of jk "map uc_rnti (ur_ue_config r)"] show ?thesis
    using assms(2) by (simp add: update_UE_config_def ue_view_consistent_def frame_simps)
qed

lemma ue_view_update_UE_state:
  assumes "enb_wf e" and "ue_view_consistent e"
    and "sc_type sc = FLUESC_ACTIVATED \<longrightarrow> uc_rnti (sc_config sc) \<notin> set (rntis e)"
  shows "ue_view_consistent (update_UE_state jk e sc)"
proof (cases "sc_type sc = FLUESC_ACTIVATED")
  case True
  let ?r = "uc_rnti (sc_config sc)"
  have "mac_rntis (update_UE_state jk e sc) = insert ?r (mac_rntis e)"
    using True sm.dom_insert [OF enb_wfD(1) [OF assms(1)]] by (simp add: update_UE_state_def Let_def)
  then show ?thesis
    using assms(2,3) True by (auto simp: ue_view_consistent_def update_UE_state_def Let_def)
next
  case False
  then show ?thesis
    using ue_view_state_change_loop [OF assms(1,2)] by (simp add: update_UE_state_def)
qed

section \<open>The record of an eNB as a state machine\<close>

datatype enb_event =
    EnbConfig flex_enb_config_reply
  | UeConfig flex_ue_config_reply
  | UeState flex_ue_state_change
  | LcConfig flex_lc_config_reply
  | SfTrigger flex_sf_trigger
  | MacReport flex_stats_reply
  | EchoReply

fun enb_step :: "junk \<Rightarrow> int \<Rightarrow> enb_rib_info \<Rightarrow> enb_event \<Rightarrow> enb_rib_info option" where
  "enb_step jk now e (EnbConfig r) = Some (update_eNB_config now e r)"
| "enb_step jk now e (UeConfig r) = Some (update_UE_config jk now e r)"
| "enb_step jk now e (UeState sc) = Some (update_UE_state jk e sc)"
| "enb_step jk now e (LcConfig r) = Some (update_LC_config now e r)"
| "enb_step jk now e (SfTrigger t) = update_subframe now e t"
| "enb_step jk now e (MacReport r) = update_mac_stats e r"
| "enb_step jk now e EchoReply = Some (update_liveness now e)"

text \<open>What the agent has to respect: it names no UE twice, neither in a reply nor by activating it again.\<close>

fun names_ues_once :: "enb_rib_info \<Rightarrow> enb_event \<Rightarrow> bool" where
  "names_ues_once e (UeConfig r) = distinct (map uc_rnti (ur_ue_config r))"
| "names_ues_once e (UeState sc) =
     (sc_type sc \<noteq> FLUESC_ACTIVATED \<or> uc_rnti (sc_config sc) \<notin> set (rntis e))"
| "names_ues_once e _ = True"

inductive enb_reach :: "junk \<Rightarrow> enb_rib_info \<Rightarrow> bool" for jk where
  created: "enb_reach jk (new_enb_rib_info jk now a)"
| event: "enb_reach jk e \<Longrightarrow> names_ues_once e ev \<Longrightarrow> enb_step jk now e ev = Some e' \<Longrightarrow> enb_reach jk e'"

lemma enb_step_wf: "enb_step jk now e ev = Some e' \<Longrightarrow> enb_wf e \<Longrightarrow> enb_wf e'"
  using update_subframe_wf update_mac_stats_wf
  by (cases ev) (auto intro: wf_intros)

lemma enb_step_view:
  assumes "enb_step jk now e ev = Some e'" and "enb_wf e" and "ue_view_consistent e"
    and "names_ues_once e ev"
  shows "ue_view_consistent e'"
proof (cases ev)
  case (SfTrigger t)
  then show ?thesis
    using assms update_subframe_wf [of now e t e'] by (simp add: same_view_def ue_view_consistent_def)
next
  case (MacReport r)
  then show ?thesis
    using assms update_mac_stats_wf [of e r e'] by (simp add: same_view_def ue_view_consistent_def)
next
  case (UeConfig r)
  then show ?thesis using assms ue_view_update_UE_config by auto
next
  case (UeState sc)
  then show ?thesis using assms ue_view_update_UE_state by auto
next
  case (EnbConfig r)
  then show ?thesis
    using assms by (auto simp: update_eNB_config_def frame_simps cong: ue_view_cong)
next
  case (LcConfig r)
  then show ?thesis
    using assms by (auto simp: update_LC_config_def frame_simps cong: ue_view_cong)
next
  case EchoReply
  then show ?thesis using assms by auto
qed

lemma enb_reach_inv: "enb_reach jk e \<Longrightarrow> enb_wf e \<and> ue_view_consistent e"
proof (induction rule: enb_reach.induct)
  case (created now a)
  then show ?case by (simp add: wf_intros)
next
  case (event e ev now e')
  then show ?case using enb_step_wf enb_step_view by blast
qed

text \<open>The instances below start from an eNB with two UEs, the first of them with a logical channel entry.\<close>

definition two_ue_enb :: enb_rib_info where
  "two_ue_enb =
     update_LC_config 0
       (update_UE_config zero_junk 0 (new_enb_rib_info zero_junk 0 1)
          \<lparr>ur_header = no_header, ur_ue_config = [sample_ue_config 7, sample_ue_config 9]\<rparr>)
       \<lparr>lr_header = no_header, lr_lc_ue_config = [\<lparr>lu_rnti = 7, lu_lc_config = []\<rparr>]\<rparr>"

definition sample_state_change :: "u32 \<Rightarrow> rnti_t \<Rightarrow> flex_ue_state_change" where
  "sample_state_change t r = \<lparr>sc_header = no_header, sc_type = t, sc_config = sample_ue_config r\<rparr>"

lemma two_ue_enb_reached: "enb_reach zero_junk two_ue_enb"
proof -
  let ?e1 = "update_UE_config zero_junk 0 (new_enb_rib_info zero_junk 0 1)
          \<lparr>ur_header = no_header, ur_ue_config = [sample_ue_config 7, sample_ue_config 9]\<rparr>"
  have "enb_reach zero_junk ?e1"
    by (rule enb_reach.event [OF enb_reach.created,
          where ev = "UeConfig \<lparr>ur_header = no_header, ur_ue_config = [sample_ue_config 7, sample_ue_config 9]\<rparr>"])
       (simp_all add: sample_ue_config_def)
  then show ?thesis unfolding two_ue_enb_def
    by (rule enb_reach.event [where
          ev = "LcConfig \<lparr>lr_header = no_header, lr_lc_ue_config = [\<lparr>lu_rnti = 7, lu_lc_config = []\<rparr>]\<rparr>"])
       simp_all
qed

lemma two_ue_enb_configs:
  "ue_configs two_ue_enb = [sample_ue_config 7, sample_ue_config 9]"
  "lc_configs two_ue_enb = [\<lparr>lu_rnti = 7, lu_lc_config = []\<rparr>]"
proof -
  have "en_ue_config (foldl (ensure_ue_mac jk) e rs) = en_ue_config e" for jk e rs
    by (induction rs arbitrary: e) (auto simp: ensure_ue_mac_def split: option.splits)
  then show "ue_configs two_ue_enb = [sample_ue_config 7, sample_ue_config 9]"
    by (simp add: two_ue_enb_def update_LC_config_def update_UE_config_def frame_simps del: foldl_Cons)
qed (simp add: two_ue_enb_def update_LC_config_def frame_simps)

text \<open>
  C19: in every state of the record of an eNB that is reached from its creation by any sequence of
  agent events, as long as the agent names no UE twice, the two views of the UEs agree: no RNTI is
  configured twice, and every configured UE has a MAC record whose arrays have their declared sizes,
  so that the unchecked pointer the schedulers dereference is there.
\<close>

theorem enb_reach_consistent:
  assumes "enb_reach jk e"
  shows "distinct (rntis e) \<and>
    (\<forall>c \<in> set (ue_configs e). \<exists>u. get_ue_mac_info e (uc_rnti c) = Some u \<and> ue_mac_wf u)"
  using enb_reach_inv [OF assms]
  by (fastforce simp: ue_view_consistent_def get_ue_mac_info_def dest: enb_wfD(2))

lemma enb_reach_consistent_witness:
  "distinct (rntis two_ue_enb) \<and> (\<exists>u. get_ue_mac_info two_ue_enb 9 = Some u \<and> ue_mac_wf u)"
  using enb_reach_consistent [OF two_ue_enb_reached] by (auto simp: two_ue_enb_configs sample_ue_config_def)

section \<open>Deactivation\<close>

text \<open>The loop walks to the first entry of the UE.\<close>

lemma state_change_reach:
  assumes "i \<le> n" and "n \<le> length (ue_configs e)"
    and "\<forall>k. i \<le> k \<longrightarrow> k < n \<longrightarrow> uc_rnti (ue_configs e ! k) \<noteq> uc_rnti (sc_config sc)"
  shows "state_change_loop sc i e = state_change_loop sc n e"
  using assms(1)
proof (induction rule: inc_induct)
  case (step k)
  then have "state_change_loop sc k e = state_change_loop sc (Suc k) e"
    using assms(2,3) by (intro state_change_skip) auto
  with step show ?case by simp
qed simp

lemma first_occurrence:
  assumes "r \<in> set (map f xs)"
  obtains n where "n < length xs" and "f (xs ! n) = r" and "\<forall>k < n. f (xs ! k) \<noteq> r"
proof -
  let ?P = "\<lambda>n. n < length xs \<and> f (xs ! n) = r"
  have ex: "\<exists>n. ?P n" using assms by (auto simp: in_set_conv_nth)
  have "?P (LEAST n. ?P n)" using ex by (rule LeastI_ex)
  then show thesis
    using that [of "LEAST n. ?P n"] not_less_Least [of _ ?P] by (meson order.strict_trans)
qed

lemma deactivate_first:
  assumes "sc_type sc = FLUESC_DEACTIVATED" and "n < length (ue_configs e)"
    and "uc_rnti (ue_configs e ! n) = uc_rnti (sc_config sc)"
    and "\<forall>k < n. uc_rnti (ue_configs e ! k) \<noteq> uc_rnti (sc_config sc)"
  shows "update_UE_state jk e sc = deactivate_ue n (uc_rnti (sc_config sc)) e"
proof -
  have "update_UE_state jk e sc = state_change_loop sc n e"
    using assms state_change_reach [of 0 n e sc] by (simp add: update_UE_state_def)
  also have "\<dots> = deactivate_ue n (uc_rnti (sc_config sc)) e"
    using assms by (subst state_change_loop.simps) simp
  finally show ?thesis .
qed

text \<open>
  C39: in a record with consistent views, whose logical channel configurations name no UE twice, the deactivation of a
  configured UE makes the record forget it completely: its configuration, its logical channel configuration and
  its MAC record are gone, and those of every other UE are unchanged and in the same order.
\<close>

theorem deactivation_forgets_ue:
  assumes "enb_wf e" and "ue_view_consistent e" and "distinct (map lu_rnti (lc_configs e))"
    and "sc_type sc = FLUESC_DEACTIVATED" and "uc_rnti (sc_config sc) \<in> set (rntis e)"
  shows "ue_configs (update_UE_state jk e sc) = filter (\<lambda>c. uc_rnti c \<noteq> uc_rnti (sc_config sc)) (ue_configs e) \<and>
    lc_configs (update_UE_state jk e sc) = filter (\<lambda>c. lu_rnti c \<noteq> uc_rnti (sc_config sc)) (lc_configs e) \<and>
    get_ue_mac_info (update_UE_state jk e sc) = (get_ue_mac_info e)(uc_rnti (sc_config sc) := None)"
proof -
  let ?r = "uc_rnti (sc_config sc)"
  obtain n where n: "n < length (ue_configs e)" "uc_rnti (ue_configs e ! n) = ?r"
    "\<forall>k < n. uc_rnti (ue_configs e ! k) \<noteq> ?r"
    using first_occurrence [OF assms(5)] .
  have run: "update_UE_state jk e sc = deactivate_ue n ?r e"
    by (rule deactivate_first [OF assms(4) n])
  have d: "distinct (rntis e)" using assms(2) by (simp add: ue_view_consistent_def)
  have "ue_configs (update_UE_state jk e sc) = filter (\<lambda>c. uc_rnti c \<noteq> ?r) (ue_configs e)"
    using delete_at_filter [OF d n(1)] n(2) by (simp add: run deactivate_ue_def)
  moreover have "lc_configs (update_UE_state jk e sc) = filter (\<lambda>c. lu_rnti c \<noteq> ?r) (lc_configs e)"
    using erase_lc_filter [OF assms(3)] by (simp add: run deactivate_ue_def)
  moreover have "get_ue_mac_info (update_UE_state jk e sc) = (get_ue_mac_info e)(?r := None)"
    using sm.find_erase [OF enb_wfD(1) [OF assms(1)]]
    by (simp add: run deactivate_ue_def get_ue_mac_info_def fun_eq_iff)
  ultimately show ?thesis by blast
qed

lemma deactivation_witness:
  "ue_configs (update_UE_state zero_junk two_ue_enb (sample_state_change FLUESC_DEACTIVATED 7))
     = [sample_ue_config 9] \<and>
   lc_configs (update_UE_state zero_junk two_ue_enb (sample_state_change FLUESC_DEACTIVATED 7)) = [] \<and>
   get_ue_mac_info (update_UE_state zero_junk two_ue_enb (sample_state_change FLUESC_DEACTIVATED 7)) 7 = None"
  using deactivation_forgets_ue
    [of two_ue_enb "sample_state_change FLUESC_DEACTIVATED 7" zero_junk]
    enb_reach_inv [OF two_ue_enb_reached]
  by (simp add: sample_state_change_def two_ue_enb_configs sample_ue_config_def)

text \<open>
  An agent that activates the same UE twice and then deactivates it once leaves a configured UE
  without a MAC record, the state in which the schedulers dereference a null pointer. So the
  condition on the agent that \<open>enb_reach\<close> imposes cannot be dropped.
\<close>

theorem double_activation_leaves_dangling_ue:
  assumes "enb_wf e" and "uc_rnti c \<notin> set (rntis e)"
    and "act = \<lparr>sc_header = no_header, sc_type = FLUESC_ACTIVATED, sc_config = c\<rparr>"
    and "deact = \<lparr>sc_header = no_header, sc_type = FLUESC_DEACTIVATED, sc_config = c\<rparr>"
    and "e' = update_UE_state jk (update_UE_state jk (update_UE_state jk e act) act) deact"
  shows "uc_rnti c \<in> set (rntis e') \<and> get_ue_mac_info e' (uc_rnti c) = None"
proof -
  let ?e2 = "update_UE_state jk (update_UE_state jk e act) act"
  let ?n = "length (ue_configs e)"
  have cfg: "ue_configs ?e2 = ue_configs e @ [c, c]"
    by (simp add: assms(3) update_UE_state_def Let_def)
  have wf: "enb_wf ?e2" using assms(1) by (intro wf_intros)
  have no: "\<forall>k < ?n. uc_rnti ((ue_configs e @ [c, c]) ! k) \<noteq> uc_rnti c"
    using assms(2) by (metis nth_append nth_map nth_mem length_map)
  have "e' = deactivate_ue ?n (uc_rnti (sc_config deact)) ?e2"
    unfolding assms(5) by (rule deactivate_first) (use no in \<open>simp_all add: cfg assms(4)\<close>)
  then have e': "e' = deactivate_ue ?n (uc_rnti c) ?e2" by (simp add: assms(4))
  have "ue_configs e' = ue_configs e @ [c]"
    by (simp add: e' deactivate_ue_def cfg delete_at_def)
  moreover have "get_ue_mac_info e' (uc_rnti c) = None"
    using sm.find_erase [OF enb_wfD(1) [OF wf]]
    by (simp add: e' deactivate_ue_def get_ue_mac_info_def)
  ultimately show ?thesis by simp
qed


lemma double_activation_witness:
  "get_ue_mac_info
     (update_UE_state zero_junk (update_UE_state zero_junk (update_UE_state zero_junk two_ue_enb
        (sample_state_change FLUESC_ACTIVATED 5)) (sample_state_change FLUESC_ACTIVATED 5))
        (sample_state_change FLUESC_DEACTIVATED 5)) 5 = None"
  using double_activation_leaves_dangling_ue
    [of two_ue_enb "sample_ue_config 5" "sample_state_change FLUESC_ACTIVATED 5"
      "sample_state_change FLUESC_DEACTIVATED 5" _ zero_junk, OF _ _ _ _ refl]
    enb_reach_inv [OF two_ue_enb_reached]
  by (simp add: sample_state_change_def two_ue_enb_configs sample_ue_config_def)

end
