(* ===== verification/SchedHelper.thy ===== *)
theory SchedHelper
  imports CceAlloc EnbRib
begin

text \<open>
  \<open>src/app/remote_scheduler_helper.{h,cc}\<close>: how many resource blocks each UE wants, the order in which
  the UEs are served, and the preprocessor that hands the resource block groups of a cell to the UEs.
  \<open>std::sort\<close> is the parameter \<open>srt\<close>; its contract is the locale \<open>std_sort\<close>, for lists without ties only. On a list
  with a tie \<open>compare_stats\<close> is no strict ordering, the call is undefined, and \<open>sort_UEs\<close> is \<open>None\<close>.
\<close>

section \<open>Channel state\<close>

definition find_csi :: "flex_cell_config \<Rightarrow> flex_ue_stats_report \<Rightarrow> flex_dl_csi option" where
  "find_csi c r = List.find (\<lambda>i. cc_cell_id c = cs_serv_cell_index i) (dq_csi_report (us_dl_cqi_report r))"

text \<open>The MCS of the reported CQI, which indexes a table of 16 entries; \<open>dflt\<close> without a report.\<close>

definition csi_mcs :: "flex_cell_config \<Rightarrow> flex_ue_stats_report \<Rightarrow> int \<Rightarrow> int option" where
  "csi_mcs c r dflt =
     (case find_csi c r of None \<Rightarrow> Some dflt | Some i \<Rightarrow> aget cqi_to_mcs (unat (p10csi_wb_cqi i)))"

section \<open>assign_rbs_required\<close>

abbreviation (input) cell_id16 :: "flex_cell_config \<Rightarrow> u16" where
  "cell_id16 c \<equiv> ucast (cc_cell_id c)"

definition tx_queue_size :: "flex_rlc_bsr \<Rightarrow> u32" where
  "tx_queue_size r = get_u32 (rb_tx_queue_size r)"

text \<open>An \<open>int\<close> plus a \<open>uint32_t\<close> is computed without sign and converted back.\<close>

definition total_buffer_bytes :: "flex_ue_stats_report \<Rightarrow> int" where
  "total_buffer_bytes r = foldl (\<lambda>t q. to_i32 (t + uint (tx_queue_size q))) 0 (us_rlc_report r)"

definition update_priority :: "flex_lc_ue_config \<Rightarrow> flex_ue_stats_report \<Rightarrow> ue_scheduling_info \<Rightarrow> ue_scheduling_info" where
  "update_priority lc r s =
     (if us_rlc_report r = [] then s else is_high_priority_set (\<not> 2 < length (lu_lc_config lc)) s)"

partial_function (option) rbs_loop :: "flex_cell_config \<Rightarrow> int \<Rightarrow> int \<Rightarrow> u16 \<Rightarrow> ue_scheduling_info \<Rightarrow>
    ue_scheduling_info option" where
  "rbs_loop c mcs wanted TBS s =
     (if uint TBS < wanted
      then do {
        n \<leftarrow> get_nb_rbs_required s (cell_id16 c);
        s \<leftarrow> set_nb_rbs_required (cell_id16 c) (n + get_min_rb_unit c) s;
        n \<leftarrow> get_nb_rbs_required s (cell_id16 c);
        if ucast n > cc_dl_bandwidth c
        then do {
          _ \<leftarrow> get_TBS_DL (word_of_int mcs) (ucast (cc_dl_bandwidth c));
          set_nb_rbs_required (cell_id16 c) (ucast (cc_dl_bandwidth c)) s }
        else do {
          TBS \<leftarrow> get_TBS_DL (word_of_int mcs) n;
          rbs_loop c mcs wanted (ucast TBS) s } }
      else Some s)"

declare rbs_loop.simps [code]

definition assign_rbs_required :: "flex_cell_config \<Rightarrow> flex_lc_ue_config \<Rightarrow> ue_mac_rib_info \<Rightarrow>
    ue_scheduling_info \<Rightarrow> ue_scheduling_info option" where
  "assign_rbs_required c lc u s = do {
     let r = um_mac_stats_report u;
     mcs \<leftarrow> csi_mcs c r 0;
     let wanted = total_buffer_bytes r;
     let s = update_priority lc r s;
     if wanted > 0
     then do {
       s \<leftarrow> set_nb_rbs_required (cell_id16 c) (if mcs = 0 then 4 else get_min_rb_unit c) s;
       n \<leftarrow> get_nb_rbs_required s (cell_id16 c);
       TBS \<leftarrow> get_TBS_DL (word_of_int mcs) n;
       rbs_loop c mcs wanted (ucast TBS) s }
     else Some s }"

section \<open>sort_UEs\<close>

record ue_stats =
  ue_id :: int
  bytes_in_ccch :: int
  total_bytes_in_buffers :: int
  hol_delay :: int
  ue_cqi :: int
  ue_harq_round :: int

definition new_ue_stats :: ue_stats where
  "new_ue_stats = \<lparr>ue_id = 0, bytes_in_ccch = 0, total_bytes_in_buffers = 0, hol_delay = 0, ue_cqi = 0,
     ue_harq_round = 0\<rparr>"

definition compare_stats :: "ue_stats \<Rightarrow> ue_stats \<Rightarrow> bool" where
  "compare_stats a b =
     (if ue_harq_round a > ue_harq_round b then True
      else if ue_harq_round a < ue_harq_round b then False
      else if bytes_in_ccch a > bytes_in_ccch b then True
      else if bytes_in_ccch a < bytes_in_ccch b then False
      else if hol_delay a > hol_delay b then True
      else if hol_delay a < hol_delay b then False
      else if total_bytes_in_buffers a > total_bytes_in_buffers b then True
      else if total_bytes_in_buffers a < total_bytes_in_buffers b then False
      else if ue_cqi a > ue_cqi b then True
      else if ue_cqi a < ue_cqi b then False
      else True)"

text \<open>
  What \<open>std::sort\<close> asks of the elements it is given: no two of them may each come before the other.
  \<open>compare_stats\<close> answers true on equal keys, both ways round, so this excludes ties. On a list with a tie the
  call is undefined behaviour. (It also answers true when an element is compared with itself; a sort
  that does so has no defined result on any list, and the condition speaks of different elements only.)
\<close>

definition strict_on :: "ue_stats list \<Rightarrow> bool" where
  "strict_on sts \<longleftrightarrow> sorted_wrt (\<lambda>a b. \<not> (compare_stats a b \<and> compare_stats b a)) sts"

text \<open>One iteration over the RLC reports of a UE.\<close>

definition add_rlc_stats :: "ue_stats \<Rightarrow> flex_rlc_bsr \<Rightarrow> ue_stats" where
  "add_rlc_stats st q =
     (let st = (if rb_lc_id q = 1 \<or> rb_lc_id q = 2
                then st\<lparr>bytes_in_ccch := to_i32 (bytes_in_ccch st + uint (tx_queue_size q))\<rparr> else st);
          st = (case rb_tx_queue_size q of None \<Rightarrow> st
                | Some n \<Rightarrow> st\<lparr>total_bytes_in_buffers := to_i32 (total_bytes_in_buffers st + uint n)\<rparr>)
      in case rb_tx_queue_hol_delay q of None \<Rightarrow> st
         | Some d \<Rightarrow> st\<lparr>hol_delay := max (hol_delay st) (to_i32 (uint d))\<rparr>)"

definition stats_of_ue :: "flex_cell_config \<Rightarrow> enb_rib_info \<Rightarrow> nat \<Rightarrow> flex_ue_config \<Rightarrow> ue_stats option" where
  "stats_of_ue c e i ue =
     (let st = new_ue_stats\<lparr>ue_id := int i\<rparr>; cell_id = cell_id16 c
      in if uc_pcell_carrier_index ue = ucast cell_id
         then do {
           u \<leftarrow> get_ue_mac_info e (uc_rnti ue);
           avail \<leftarrow> has_available_harq u cell_id;
           if \<not> avail then Some st
           else do {
             harq_pid \<leftarrow> get_next_available_harq u cell_id;
             round \<leftarrow> get_harq_stats u cell_id (nat harq_pid);
             let r = um_mac_stats_report u;
             let st = st\<lparr>ue_harq_round := uint round\<rparr>;
             let st = (case find_csi c r of None \<Rightarrow> st
                       | Some i \<Rightarrow> st\<lparr>ue_cqi := to_i32 (uint (p10csi_wb_cqi i))\<rparr>);
             Some (foldl add_rlc_stats st (us_rlc_report r)) } }
         else Some st)"

fun collect_stats :: "flex_cell_config \<Rightarrow> enb_rib_info \<Rightarrow> nat \<Rightarrow> flex_ue_config list \<Rightarrow> ue_stats list option" where
  "collect_stats c e i [] = Some []"
| "collect_stats c e i (ue # ues) = do {
     st \<leftarrow> stats_of_ue c e i ue;
     sts \<leftarrow> collect_stats c e (Suc i) ues;
     Some (st # sts) }"

definition sort_UEs :: "(ue_stats list \<Rightarrow> ue_stats list) \<Rightarrow> flex_cell_config \<Rightarrow> enb_rib_info \<Rightarrow> int list option" where
  "sort_UEs srt c e =
     (if length (ue_configs e) > MAX_NUM_UE then None
      else do {
        sts \<leftarrow> collect_stats c e 0 (ue_configs e);
        if strict_on sts then Some (map ue_id (srt sts)) else None })"

text \<open>
  No two UEs of the eNB tie when those of the cell are sorted. The list holds all UEs of the eNB: one of another
  cell, or without a free HARQ process, keeps a key of zeros, so two of them tie.
\<close>

definition untied :: "flex_cell_config \<Rightarrow> enb_rib_info \<Rightarrow> bool" where
  "untied c e \<longleftrightarrow> (case collect_stats c e 0 (ue_configs e) of None \<Rightarrow> True | Some sts \<Rightarrow> strict_on sts)"

definition cells_untied :: "enb_rib_info \<Rightarrow> bool" where
  "cells_untied e \<longleftrightarrow> list_all (\<lambda>c. untied c e) (cell_configs e)"

section \<open>perform_pre_processor_allocation\<close>

definition last_short_group :: "flex_cell_config \<Rightarrow> nat \<Rightarrow> bool" where
  "last_short_group c i \<longleftrightarrow>
     int i = uint (get_nb_rbg c) - 1 \<and> (cc_dl_bandwidth c = 25 \<or> cc_dl_bandwidth c = 50)"

text \<open>Give group \<open>i\<close> of \<open>blocks\<close> resource blocks to the UE.\<close>

definition take_group :: "u16 \<Rightarrow> nat \<Rightarrow> int \<Rightarrow> enb_scheduling_info \<times> ue_scheduling_info \<Rightarrow>
    (enb_scheduling_info \<times> ue_scheduling_info) option" where
  "take_group cell_id i blocks = (\<lambda>(e, s). do {
     e \<leftarrow> toggle_vrb_map cell_id i e;
     s \<leftarrow> set_rballoc_sub cell_id i 1 s;
     rem \<leftarrow> get_nb_rbs_required_remaining s cell_id;
     let nb_rem = uint rem - blocks;
     s \<leftarrow> set_nb_rbs_required_remaining cell_id (if nb_rem \<le> 0 then 0 else word_of_int nb_rem) s;
     av \<leftarrow> get_pre_nb_rbs_available s cell_id;
     s \<leftarrow> set_pre_nb_rbs_available cell_id (word_of_int (uint av + blocks)) s;
     Some (e, s) })"

definition alloc_step :: "flex_cell_config \<Rightarrow> enb_scheduling_info \<times> ue_scheduling_info \<Rightarrow> nat \<Rightarrow>
    (enb_scheduling_info \<times> ue_scheduling_info) option" where
  "alloc_step c es i =
     (let (e, s) = es; cell_id = cell_id16 c; unit = uint (get_min_rb_unit c)
      in do {
        vrb \<leftarrow> get_vrb_map e cell_id i;
        own \<leftarrow> get_rballoc_sub s cell_id i;
        rem \<leftarrow> get_nb_rbs_required_remaining s cell_id;
        av \<leftarrow> get_pre_nb_rbs_available s cell_id;
        req \<leftarrow> get_nb_rbs_required s cell_id;
        if vrb = 0 \<and> own = 0 \<and> rem > 0 \<and> av < req
        then if last_short_group c i then take_group cell_id i (unit - 1) (e, s)
             else if uint rem \<ge> unit then take_group cell_id i unit (e, s)
             else Some (e, s)
        else Some (e, s) })"

definition perform_pre_processor_allocation :: "flex_cell_config \<Rightarrow> enb_scheduling_info \<times> ue_scheduling_info \<Rightarrow>
    (enb_scheduling_info \<times> ue_scheduling_info) option" where
  "perform_pre_processor_allocation c es = foldo (alloc_step c) es [0..<unat (get_nb_rbg c)]"

section \<open>run_dlsch_scheduler_preprocessor\<close>

text \<open>A loop over UEs (by their index) that skips those of other cells.\<close>

definition for_cell_ues :: "flex_cell_config \<Rightarrow> enb_rib_info \<Rightarrow> (flex_ue_config \<Rightarrow> 's \<Rightarrow> 's option) \<Rightarrow>
    int list \<Rightarrow> 's \<Rightarrow> 's option" where
  "for_cell_ues c e f order st =
     foldo (\<lambda>st i. do {
       ue \<leftarrow> aget (ue_configs e) (nat i);
       if uc_pcell_carrier_index ue = ucast (cell_id16 c) then f ue st else Some st }) st order"

text \<open>An update of the record of one UE through its pointer, which must not be null.\<close>

definition with_sched :: "rnti_t \<Rightarrow> (ue_scheduling_info \<Rightarrow> ue_scheduling_info option) \<Rightarrow> enb_scheduling_info \<Rightarrow>
    enb_scheduling_info option" where
  "with_sched rnti f sched = do {
     s \<leftarrow> get_ue_scheduling_info sched rnti;
     s \<leftarrow> f s;
     Some (put_ue_sched rnti s sched) }"

definition fresh_sched :: "rnti_t \<Rightarrow> enb_scheduling_info \<Rightarrow> enb_scheduling_info" where
  "fresh_sched rnti sched =
     (case get_ue_scheduling_info sched rnti of
        None \<Rightarrow> create_ue_scheduling_info rnti sched
      | Some s \<Rightarrow> put_ue_sched rnti (ue_start_new_scheduling_round s) sched)"

definition prepare_ue :: "flex_cell_config \<Rightarrow> enb_rib_info \<Rightarrow> flex_ue_config \<Rightarrow> enb_scheduling_info \<Rightarrow>
    enb_scheduling_info option" where
  "prepare_ue c e ue sched =
     (let sched = fresh_sched (uc_rnti ue) sched
      in case List.find (\<lambda>lc. lu_rnti lc = uc_rnti ue) (lc_configs e) of
           None \<Rightarrow> Some sched
         | Some lc \<Rightarrow> with_sched (uc_rnti ue) (\<lambda>s. do {
             u \<leftarrow> get_ue_mac_info e (uc_rnti ue);
             assign_rbs_required c lc u s }) sched)"

definition count_ue :: "flex_cell_config \<Rightarrow> enb_rib_info \<Rightarrow> flex_ue_config \<Rightarrow> enb_scheduling_info \<times> nat \<Rightarrow>
    (enb_scheduling_info \<times> nat) option" where
  "count_ue c e ue = (\<lambda>(sched, total_ue_count). do {
     let cell_id = cell_id16 c;
     u \<leftarrow> get_ue_mac_info e (uc_rnti ue);
     avail \<leftarrow> has_available_harq u cell_id;
     if \<not> avail then Some (sched, total_ue_count)
     else do {
       pid \<leftarrow> get_next_available_harq u cell_id;
       round \<leftarrow> get_harq_stats u cell_id (nat pid);
       sched \<leftarrow> with_sched (uc_rnti ue) (\<lambda>s. do {
         s \<leftarrow> set_harq_round cell_id (nat pid) round s;
         if round > 0
         then do { n \<leftarrow> get_nb_scheduled_rbs s cell_id (word_of_int pid);
                   set_nb_rbs_required cell_id n s }
         else set_nb_scheduled_rbs cell_id (word_of_int pid) 0 s }) sched;
       s \<leftarrow> get_ue_scheduling_info sched (uc_rnti ue);
       n \<leftarrow> get_nb_rbs_required s cell_id;
       Some (sched, if n > 0 then total_ue_count + 1 else total_ue_count) } })"

definition total_nb_available_rb :: "flex_cell_config \<Rightarrow> subframe_t \<Rightarrow> u16" where
  "total_nb_available_rb c subframe =
     (let rb = ucast (cc_dl_bandwidth c)
      in if subframe = 0 then rb - 4 else if subframe = 5 then rb - 8 else rb)"

definition average_rbs_per_user :: "flex_cell_config \<Rightarrow> subframe_t \<Rightarrow> nat \<Rightarrow> u16" where
  "average_rbs_per_user c subframe total_ue_count =
     (let rb = total_nb_available_rb c subframe
      in if total_ue_count = 0 then 0
         else if unat (get_min_rb_unit c) * total_ue_count \<le> unat rb then of_nat (unat rb div total_ue_count)
         else get_min_rb_unit c)"

definition demand_ue :: "flex_cell_config \<Rightarrow> u16 \<Rightarrow> flex_ue_config \<Rightarrow> enb_scheduling_info \<Rightarrow>
    enb_scheduling_info option" where
  "demand_ue c average ue =
     with_sched (uc_rnti ue) (\<lambda>s. do {
       req \<leftarrow> get_nb_rbs_required s (cell_id16 c);
       if req \<le> 0 then Some s
       else set_nb_rbs_required_remaining1 (cell_id16 c)
              (if si_high_priority s then req else min average req) s })"

definition remaining_ue :: "flex_cell_config \<Rightarrow> nat \<Rightarrow> flex_ue_config \<Rightarrow> enb_scheduling_info \<Rightarrow>
    enb_scheduling_info option" where
  "remaining_ue c r1 ue =
     with_sched (uc_rnti ue) (\<lambda>s. do {
       let cell_id = cell_id16 c;
       req \<leftarrow> get_nb_rbs_required s cell_id;
       if req \<le> 0 then Some s
       else do {
         rem1 \<leftarrow> get_nb_rbs_required_remaining1 s cell_id;
         if r1 = 0 then set_nb_rbs_required_remaining cell_id rem1 s
         else do {
           rem \<leftarrow> get_nb_rbs_required_remaining s cell_id;
           set_nb_rbs_required_remaining cell_id (req - rem1 + rem) s } } })"

text \<open>The pass over the UEs of one priority class.\<close>

definition allocate_ue :: "flex_cell_config \<Rightarrow> bool \<Rightarrow> flex_ue_config \<Rightarrow> enb_scheduling_info \<Rightarrow>
    enb_scheduling_info option" where
  "allocate_ue c high ue sched = do {
     s \<leftarrow> get_ue_scheduling_info sched (uc_rnti ue);
     if si_high_priority s \<noteq> high then Some sched
     else do {
       req \<leftarrow> get_nb_rbs_required s (cell_id16 c);
       if req \<le> 0 then Some sched
       else do {
         (sched, s) \<leftarrow> perform_pre_processor_allocation c (sched, s);
         Some (put_ue_sched (uc_rnti ue) s sched) } } }"

definition allocation_round :: "flex_cell_config \<Rightarrow> enb_rib_info \<Rightarrow> int list \<Rightarrow> nat \<Rightarrow> enb_scheduling_info \<Rightarrow> nat \<Rightarrow>
    enb_scheduling_info option" where
  "allocation_round c e order total_ue_count sched r1 = do {
     sched \<leftarrow> for_cell_ues c e (remaining_ue c r1) order sched;
     if total_ue_count > 0
     then do {
       sched \<leftarrow> for_cell_ues c e (allocate_ue c True) order sched;
       for_cell_ues c e (allocate_ue c False) order sched }
     else Some sched }"

definition run_dlsch_scheduler_preprocessor :: "(ue_stats list \<Rightarrow> ue_stats list) \<Rightarrow> flex_cell_config \<Rightarrow>
    enb_rib_info \<Rightarrow> frame_t \<Rightarrow> subframe_t \<Rightarrow> enb_scheduling_info \<Rightarrow> enb_scheduling_info option" where
  "run_dlsch_scheduler_preprocessor srt c e frame subframe sched = do {
     sched \<leftarrow> for_cell_ues c e (prepare_ue c e) (map int [0..<length (ue_configs e)]) sched;
     order \<leftarrow> sort_UEs srt c e;
     (sched, total_ue_count) \<leftarrow> for_cell_ues c e (count_ue c e) order (sched, 0);
     let average = average_rbs_per_user c subframe total_ue_count;
     sched \<leftarrow> for_cell_ues c e (demand_ue c average) order sched;
     foldo (allocation_round c e order total_ue_count) sched [0, 1] }"

section \<open>How many blocks a UE asks for\<close>

text \<open>The transport block size in bytes, as a number.\<close>

definition tbs_bytes :: "int \<Rightarrow> nat \<Rightarrow> nat" where
  "tbs_bytes mcs n = (case get_TBS_DL (word_of_int mcs) (of_nat n) of None \<Rightarrow> 0 | Some t \<Rightarrow> unat t)"

text \<open>
  \<open>least_in_steps u limit mcs wanted start n\<close>: \<open>n\<close> is the first of \<open>start\<close>, \<open>start + u\<close>, ... up to the
  limit whose transport block holds the wanted bytes, or the limit if there is none. In \<open>least_blocks\<close>
  the step is the minimum unit and the limit the bandwidth of the cell.
\<close>

definition least_in_steps :: "nat \<Rightarrow> nat \<Rightarrow> int \<Rightarrow> int \<Rightarrow> nat \<Rightarrow> nat \<Rightarrow> bool" where
  "least_in_steps u limit mcs wanted start n \<longleftrightarrow>
     (\<exists>k. n = start + k * u \<and> (k = 0 \<or> n \<le> limit) \<and> wanted \<le> int (tbs_bytes mcs n) \<and>
        (\<forall>j < k. int (tbs_bytes mcs (start + j * u)) < wanted)) \<or>
     n = limit \<and> (\<forall>j. start + j * u \<le> limit \<longrightarrow> int (tbs_bytes mcs (start + j * u)) < wanted)"

definition least_blocks :: "flex_cell_config \<Rightarrow> int \<Rightarrow> int \<Rightarrow> nat \<Rightarrow> nat \<Rightarrow> bool" where
  "least_blocks c mcs wanted start n \<longleftrightarrow>
     least_in_steps (unat (get_min_rb_unit c)) (unat (cc_dl_bandwidth c)) mcs wanted start n"

lemma tbs_bytes_value:
  assumes "n \<le> 110"
  shows "\<exists>t. get_TBS_DL (word_of_int mcs) (of_nat n) = Some t \<and> uint (ucast t :: u16) = int (tbs_bytes mcs n)"
proof -
  have "unat (of_nat n :: u16) = n" using assms by (simp add: unsigned_of_nat take_bit_nat_eq_self)
  then obtain t where t: "get_TBS_DL (word_of_int mcs) (of_nat n) = Some t"
    using get_TBS_DL_fault_iff [of "word_of_int mcs" "of_nat n"] assms by auto
  then have "unat t \<le> 9422" by (rule get_TBS_DL_bounds)
  then have "unat (ucast t :: u16) = unat t"
    by (simp add: unsigned_ucast_eq take_bit_nat_eq_self)
  then have "uint (ucast t :: u16) = int (unat t)" by (metis uint_nat)
  then show ?thesis using t by (simp add: tbs_bytes_def)
qed

lemma least_in_steps_found: "wanted \<le> int (tbs_bytes mcs n) \<Longrightarrow> least_in_steps u limit mcs wanted n n"
  unfolding least_in_steps_def by (intro disjI1 exI [of _ 0]) simp

lemma least_in_steps_limit:
  assumes "int (tbs_bytes mcs start) < wanted" and "limit < start + u"
  shows "least_in_steps u limit mcs wanted start limit"
proof -
  have "int (tbs_bytes mcs (start + j * u)) < wanted" if "start + j * u \<le> limit" for j
  proof (cases j)
    case 0
    then show ?thesis using assms(1) by simp
  next
    case (Suc i)
    then have "start + u \<le> start + j * u" by simp
    then show ?thesis using that assms(2) by linarith
  qed
  then show ?thesis by (simp add: least_in_steps_def)
qed

lemma least_in_steps_step:
  assumes "least_in_steps u limit mcs wanted (start + u) n" and "start + u \<le> limit"
    and "int (tbs_bytes mcs start) < wanted"
  shows "least_in_steps u limit mcs wanted start n"
proof -
  consider (some) k where "n = start + u + k * u" "k = 0 \<or> n \<le> limit" "wanted \<le> int (tbs_bytes mcs n)"
      "\<forall>j < k. int (tbs_bytes mcs (start + u + j * u)) < wanted"
    | (none) "n = limit" "\<forall>j. start + u + j * u \<le> limit \<longrightarrow> int (tbs_bytes mcs (start + u + j * u)) < wanted"
    using assms(1) by (auto simp: least_in_steps_def)
  then show ?thesis
  proof cases
    case some
    have "int (tbs_bytes mcs (start + j * u)) < wanted" if "j < Suc k" for j
      using that some(4) assms(3) by (cases j) (auto simp: add.assoc)
    then show ?thesis
      using some assms(2) unfolding least_in_steps_def by (intro disjI1 exI [of _ "Suc k"]) auto
  next
    case none
    have "int (tbs_bytes mcs (start + j * u)) < wanted" if "start + j * u \<le> limit" for j
      using that none(2) assms(3) by (cases j) (auto simp: add.assoc)
    then show ?thesis using none(1) by (simp add: least_in_steps_def)
  qed
qed

lemma rbs_loop_spec:
  assumes "unat (cc_dl_bandwidth c) \<le> 110" and "unat (cell_id16 c) < MAX_NUM_CC"
    and "ue_sched_wf s" and "si_nb_rbs_required s ! unat (cell_id16 c) = of_nat n" and "n \<le> 110"
    and "uint TBS = int (tbs_bytes mcs n)"
  shows "\<exists>n'. rbs_loop c mcs wanted TBS s =
      Some (s\<lparr>si_nb_rbs_required := (si_nb_rbs_required s)[unat (cell_id16 c) := of_nat n']\<rparr>) \<and>
      n' \<le> 110 \<and> least_blocks c mcs wanted n n'"
  using assms(3-6)
proof (induction "unat (cc_dl_bandwidth c) + 4 - n" arbitrary: n TBS s rule: less_induct)
  case less
  let ?i = "unat (cell_id16 c)" and ?u = "unat (get_min_rb_unit c)" and ?bw = "unat (cc_dl_bandwidth c)"
  let ?s = "\<lambda>m. s\<lparr>si_nb_rbs_required := (si_nb_rbs_required s)[?i := m]\<rparr>"
  have len: "length (si_nb_rbs_required s) = 2" using less.prems(1) by (simp add: arr_simps)
  have wf: "ue_sched_wf (?s m)" for m using less.prems(1) by (simp add: ue_sched_wf_def)
  note u = min_rb_unit_pos [of c]
  show ?case
  proof (cases "uint TBS < wanted")
    case False
    have "least_blocks c mcs wanted n n"
      using False less.prems(4) least_in_steps_found by (simp add: least_blocks_def)
    then show ?thesis
      using False less.prems by (subst rbs_loop.simps) (intro exI [of _ n]; simp flip: less.prems(2))
  next
    case True
    have sum: "of_nat n + get_min_rb_unit c = (of_nat (n + ?u) :: u16)" by simp
    have un: "unat (of_nat (n + ?u) :: u16) = n + ?u"
      using less.prems(3) u by (simp add: unsigned_of_nat take_bit_nat_eq_self del: of_nat_add)
    have cmp: "cc_dl_bandwidth c < ucast (of_nat (n + ?u) :: u16) \<longleftrightarrow> ?bw < n + ?u"
      by (simp only: word_less_nat_alt unsigned_ucast_eq un)
         (use less.prems(3) u in \<open>simp add: take_bit_nat_eq_self\<close>)
    show ?thesis
    proof (cases "?bw < n + ?u")
      case big: True
      obtain t where "get_TBS_DL (word_of_int mcs) (of_nat ?bw) = Some t"
        using tbs_bytes_value [OF assms(1)] by blast
      then have run: "rbs_loop c mcs wanted TBS s = Some (?s (of_nat ?bw))"
        using True big assms(2) len less.prems(2)
        by (subst rbs_loop.simps)
           (simp add: get_nb_rbs_required_def set_nb_rbs_required_def arr_simps cmp sum del: of_nat_add)
      have "least_blocks c mcs wanted n ?bw"
        using least_in_steps_limit [of mcs n wanted ?bw ?u] True big less.prems(4) by (simp add: least_blocks_def)
      then show ?thesis using run assms(1) by blast
    next
      case small: False
      then have le: "n + ?u \<le> 110" using assms(1) by simp
      obtain t where t: "get_TBS_DL (word_of_int mcs) (of_nat (n + ?u)) = Some t"
        "uint (ucast t :: u16) = int (tbs_bytes mcs (n + ?u))"
        using tbs_bytes_value [OF le] by blast
      have "?bw + 4 - (n + ?u) < ?bw + 4 - n" using u small by linarith
      from less.hyps [OF this wf _ le t(2), of "of_nat (n + ?u)"] obtain n' where
        IH: "rbs_loop c mcs wanted (ucast t) (?s (of_nat (n + ?u))) = Some (?s (of_nat n'))"
          "n' \<le> 110" "least_blocks c mcs wanted (n + ?u) n'"
        using len assms(2) by (auto simp del: of_nat_add)
      have "rbs_loop c mcs wanted TBS s = Some (?s (of_nat n'))"
        using True small assms(2) len less.prems(2) t(1) IH(1)
        by (subst rbs_loop.simps)
           (simp add: get_nb_rbs_required_def set_nb_rbs_required_def arr_simps cmp sum del: of_nat_add)
      moreover have "least_blocks c mcs wanted n n'"
        using IH(3) least_in_steps_step [of ?u ?bw mcs wanted n n'] small True less.prems(4)
        by (simp add: least_blocks_def)
      ultimately show ?thesis using IH(2) by blast
    qed
  qed
qed

text \<open>What \<open>assign_rbs_required\<close> changes: the priority and the demand in this cell.\<close>

lemma assign_rbs_required_spec:
  assumes "unat (cc_dl_bandwidth c) \<le> 110" and "unat (cell_id16 c) < MAX_NUM_CC" and "ue_sched_wf s"
    and "csi_mcs c (um_mac_stats_report u) 0 = Some mcs"
  shows "\<exists>s'. assign_rbs_required c lc u s = Some s' \<and> ue_sched_wf s' \<and> si_rballoc_sub s' = si_rballoc_sub s \<and>
     si_rballoc_sub_scheduled s' = si_rballoc_sub_scheduled s \<and>
     (0 < total_buffer_bytes (um_mac_stats_report u) \<longrightarrow>
        (\<exists>n \<le> 110. get_nb_rbs_required s' (cell_id16 c) = Some (of_nat n) \<and>
           least_blocks c mcs (total_buffer_bytes (um_mac_stats_report u))
             (if mcs = 0 then 4 else unat (get_min_rb_unit c)) n)) \<and>
     (\<exists>h n. n \<le> 110 \<and> (s' = s\<lparr>si_high_priority := h\<rparr> \<or>
        s' = s\<lparr>si_high_priority := h,
               si_nb_rbs_required := (si_nb_rbs_required s)[unat (cell_id16 c) := of_nat n]\<rparr>))"
proof -
  let ?r = "um_mac_stats_report u" and ?i = "unat (cell_id16 c)"
  let ?s0 = "update_priority lc ?r s"
  have wf0: "ue_sched_wf ?s0" using assms(3) by (simp add: update_priority_def ue_sched_wf_simple)
  have same: "si_rballoc_sub ?s0 = si_rballoc_sub s" "si_rballoc_sub_scheduled ?s0 = si_rballoc_sub_scheduled s"
    by (simp_all add: update_priority_def is_high_priority_set_def)
  obtain h where h: "?s0 = s\<lparr>si_high_priority := h\<rparr>"
  proof (cases "us_rlc_report ?r = []")
    case True
    then have "?s0 = s\<lparr>si_high_priority := si_high_priority s\<rparr>" by (simp add: update_priority_def)
    then show thesis by (rule that)
  next
    case False
    then have "?s0 = s\<lparr>si_high_priority := \<not> 2 < length (lu_lc_config lc)\<rparr>"
      by (simp add: update_priority_def is_high_priority_set_def)
    then show thesis by (rule that)
  qed
  show ?thesis
  proof (cases "total_buffer_bytes ?r > 0")
    case False
    have "\<exists>h n. n \<le> 110 \<and> (?s0 = s\<lparr>si_high_priority := h\<rparr> \<or>
        ?s0 = s\<lparr>si_high_priority := h, si_nb_rbs_required := (si_nb_rbs_required s)[?i := of_nat n]\<rparr>)"
      using h by (intro exI [of _ h] exI [of _ 0]) simp
    then show ?thesis using False assms(4) wf0 same by (simp add: assign_rbs_required_def)
  next
    case True
    define n0 where "n0 = (if mcs = 0 then 4 else unat (get_min_rb_unit c))"
    have n0: "(if mcs = 0 then 4 else get_min_rb_unit c) = of_nat n0" "n0 \<le> 110"
      using min_rb_unit_pos(2) [of c] by (auto simp: n0_def)
    obtain s1 where s1: "set_nb_rbs_required (cell_id16 c) (of_nat n0) ?s0 = Some s1"
      using ue_access_total(1) [OF wf0 assms(2)] by blast
    then have s1': "s1 = ?s0\<lparr>si_nb_rbs_required := (si_nb_rbs_required ?s0)[?i := of_nat n0]\<rparr>"
      by (simp add: set_nb_rbs_required_def aset_if split: if_splits)
    have wf1: "ue_sched_wf s1" by (rule ue_sched_wf_set(2) [OF s1 wf0])
    have n1: "si_nb_rbs_required s1 ! ?i = of_nat n0" using wf0 assms(2) by (simp add: s1' arr_simps)
    obtain t where t: "get_TBS_DL (word_of_int mcs) (of_nat n0) = Some t" "uint (ucast t :: u16) = int (tbs_bytes mcs n0)"
      using tbs_bytes_value [OF n0(2)] by blast
    obtain n where n: "rbs_loop c mcs (total_buffer_bytes ?r) (ucast t) s1 =
        Some (s1\<lparr>si_nb_rbs_required := (si_nb_rbs_required s1)[?i := of_nat n]\<rparr>)"
      "n \<le> 110" "least_blocks c mcs (total_buffer_bytes ?r) n0 n"
      using rbs_loop_spec [OF assms(1,2) wf1 n1 n0(2) t(2)] by blast
    let ?s' = "s1\<lparr>si_nb_rbs_required := (si_nb_rbs_required s1)[?i := of_nat n]\<rparr>"
    have "get_nb_rbs_required s1 (cell_id16 c) = Some (of_nat n0)"
      using ue_read_total(1) [OF wf1 assms(2)] n1 by simp
    then have "assign_rbs_required c lc u s = Some ?s'"
      using assms(4) True s1 t(1) n(1) by (simp add: assign_rbs_required_def n0(1))
    moreover have "ue_sched_wf ?s'" using wf1 by (simp add: ue_sched_wf_def)
    moreover have "get_nb_rbs_required ?s' (cell_id16 c) = Some (of_nat n)"
      using wf1 assms(2) by (simp add: get_nb_rbs_required_def arr_simps)
    moreover have "\<exists>h n. n \<le> 110 \<and> (?s' = s\<lparr>si_high_priority := h\<rparr> \<or>
        ?s' = s\<lparr>si_high_priority := h, si_nb_rbs_required := (si_nb_rbs_required s)[?i := of_nat n]\<rparr>)"
      using n(2) by (intro exI [of _ h] exI [of _ n]) (simp add: s1' h)
    ultimately show ?thesis using n(2,3) same by (auto simp: s1' n0_def)
  qed
qed

text \<open>
  C27: for a UE with data the preprocessor asks for the first number of resource blocks, counting from the minimum unit
  (from 4 at MCS 0) in steps of the minimum unit, whose transport block holds the whole queue at the UE's MCS, and for
  the bandwidth of the cell when no such number up to it exists; the search always ends.
\<close>

theorem assign_rbs_required_least:
  assumes "unat (cc_dl_bandwidth c) \<le> 110" and "unat (cell_id16 c) < MAX_NUM_CC" and "ue_sched_wf s"
    and "csi_mcs c (um_mac_stats_report u) 0 = Some mcs"
    and "0 < total_buffer_bytes (um_mac_stats_report u)"
  shows "\<exists>s' n. assign_rbs_required c lc u s = Some s' \<and> get_nb_rbs_required s' (cell_id16 c) = Some (of_nat n) \<and>
     n \<le> 110 \<and> least_blocks c mcs (total_buffer_bytes (um_mac_stats_report u))
       (if mcs = 0 then 4 else unat (get_min_rb_unit c)) n"
  using assign_rbs_required_spec [OF assms(1-4), of lc] assms(5) by blast

text \<open>A UE with CQI 7 (MCS 11) and 100 bytes in the queue of its only channel.\<close>

definition sample_mac :: "u32 \<Rightarrow> ue_mac_rib_info" where
  "sample_mac bytes = (new_ue_mac_rib_info 0 7)
     \<lparr>um_mac_stats_report := empty_ue_stats_report
        \<lparr>us_rlc_report := [\<lparr>rb_lc_id = 3, rb_tx_queue_size = Some bytes, rb_tx_queue_hol_delay = None\<rparr>],
         us_dl_cqi_report := \<lparr>dq_sfn_sn = 0, dq_csi_report = [\<lparr>cs_serv_cell_index = 0, cs_report = P10csi 7\<rparr>]\<rparr>\<rparr>\<rparr>"

lemma assign_rbs_required_witness:
  "\<exists>s' n. assign_rbs_required sample_cell \<lparr>lu_rnti = 7, lu_lc_config = []\<rparr> (sample_mac 100) (new_ue_scheduling_info 7) = Some s' \<and>
     get_nb_rbs_required s' 0 = Some (of_nat n) \<and> least_blocks sample_cell 11 100 2 n"
proof -
  have "csi_mcs sample_cell (um_mac_stats_report (sample_mac 100)) 0 = Some 11"
    "total_buffer_bytes (um_mac_stats_report (sample_mac 100)) = 100"
    by (simp_all add: csi_mcs_def find_csi_def sample_cell_def sample_mac_def aget_def cqi_to_mcs_def
        total_buffer_bytes_def tx_queue_size_def to_i32_id)
  moreover have "unat (get_min_rb_unit sample_cell) = 2" by (simp add: get_min_rb_unit_def sample_cell_def)
  ultimately show ?thesis
    using assign_rbs_required_least [of sample_cell "new_ue_scheduling_info 7" "sample_mac 100" 11 "\<lparr>lu_rnti = 7, lu_lc_config = []\<rparr>"]
    by (auto simp: ue_sched_wf_new) (auto simp: sample_cell_def)
qed

section \<open>The order of the UEs\<close>

text \<open>The keys \<open>compare_stats\<close> compares, in the order it compares them.\<close>

datatype priority = Priority (prio_key: "int list")

definition priority_of :: "ue_stats \<Rightarrow> priority" where
  "priority_of a = Priority [ue_harq_round a, bytes_in_ccch a, hol_delay a, total_bytes_in_buffers a, ue_cqi a]"

fun lex_less :: "int list \<Rightarrow> int list \<Rightarrow> bool" where
  "lex_less [] ys = (ys \<noteq> [])"
| "lex_less (x # xs) [] = False"
| "lex_less (x # xs) (y # ys) = (x < y \<or> x = y \<and> lex_less xs ys)"

lemma lex_less_irrefl: "\<not> lex_less xs xs"
  by (induction xs) auto

lemma lex_less_trans: "lex_less xs ys \<Longrightarrow> lex_less ys zs \<Longrightarrow> lex_less xs zs"
proof (induction xs ys arbitrary: zs rule: lex_less.induct)
  case (1 ys)
  then show ?case by (cases ys; cases zs) auto
next
  case (3 x xs y ys)
  then show ?case by (cases zs) auto
qed simp

lemma lex_less_linear: "lex_less xs ys \<or> xs = ys \<or> lex_less ys xs"
  by (induction xs ys rule: lex_less.induct) auto

instantiation priority :: linorder
begin

definition less_priority :: "priority \<Rightarrow> priority \<Rightarrow> bool" where
  "less_priority p q \<longleftrightarrow> lex_less (prio_key p) (prio_key q)"

definition less_eq_priority :: "priority \<Rightarrow> priority \<Rightarrow> bool" where
  "less_eq_priority p q \<longleftrightarrow> p = q \<or> lex_less (prio_key p) (prio_key q)"

instance
proof
  fix p q r :: priority
  show "p < q \<longleftrightarrow> p \<le> q \<and> \<not> q \<le> p"
    unfolding less_priority_def less_eq_priority_def by (metis lex_less_irrefl lex_less_trans)
  show "p \<le> p" by (simp add: less_eq_priority_def)
  show "p \<le> r" if "p \<le> q" "q \<le> r"
    using that unfolding less_eq_priority_def by (metis lex_less_trans)
  show "p = q" if "p \<le> q" "q \<le> p"
    using that unfolding less_eq_priority_def by (metis lex_less_irrefl lex_less_trans)
  show "p \<le> q \<or> q \<le> p"
    using lex_less_linear [of "prio_key p" "prio_key q"] by (auto simp: less_eq_priority_def priority.expand)
qed

end

text \<open>The comparison is that of the priorities, except on equal ones.\<close>

lemma compare_stats_iff: "compare_stats a b \<longleftrightarrow> priority_of b \<le> priority_of a"
proof -
  have "priority_of b \<le> priority_of a \<longleftrightarrow> \<not> lex_less (prio_key (priority_of a)) (prio_key (priority_of b))"
    by (simp add: less_priority_def [symmetric] not_less)
  also have "\<dots> \<longleftrightarrow> compare_stats a b"
    by (simp add: compare_stats_def priority_of_def not_less order.order_iff_strict [where 'a = int])
  finally show ?thesis by simp
qed

text \<open>Without ties it is the order of the priorities.\<close>

lemma strict_on_iff: "strict_on sts \<longleftrightarrow> distinct (map priority_of sts)"
proof -
  have "compare_stats a b \<and> compare_stats b a \<longleftrightarrow> priority_of a = priority_of b" for a b
    by (auto simp: compare_stats_iff)
  then show ?thesis by (induction sts) (auto simp: strict_on_def)
qed

text \<open>
  What \<open>std::sort\<close> promises on a list without ties, and only there: the same elements, none of them
  behind one that it comes before.
\<close>

locale std_sort =
  fixes srt :: "ue_stats list \<Rightarrow> ue_stats list"
  assumes permutes: "strict_on xs \<Longrightarrow> mset (srt xs) = mset xs"
    and ordered: "strict_on xs \<Longrightarrow> sorted_wrt (\<lambda>a b. \<not> compare_stats b a) (srt xs)"
begin

lemma length_srt: "strict_on xs \<Longrightarrow> length (srt xs) = length xs"
  by (metis permutes mset_eq_length)

lemma map_srt: "strict_on xs \<Longrightarrow> mset (map f (srt xs)) = mset (map f xs)"
  by (simp add: permutes)

text \<open>Each UE is served before those of lower priority.\<close>

lemma descending:
  "strict_on xs \<Longrightarrow> i < j \<Longrightarrow> j < length xs \<Longrightarrow> priority_of (srt xs ! j) < priority_of (srt xs ! i)"
  using ordered [of xs] length_srt [of xs] by (simp add: sorted_wrt_iff_nth_less compare_stats_iff not_le)

lemma set_srt: "strict_on xs \<Longrightarrow> set (srt xs) = set xs"
  by (metis permutes set_mset_mset)

end

definition insertion_sort :: "ue_stats list \<Rightarrow> ue_stats list" where
  "insertion_sort xs = rev (sort_key priority_of xs)"

interpretation ins: std_sort insertion_sort
proof
  fix xs
  show "mset (insertion_sort xs) = mset xs" by (simp add: insertion_sort_def)
  assume "strict_on xs"
  then have "distinct (map priority_of (sort_key priority_of xs))"
    by (simp add: strict_on_iff distinct_map)
  moreover have "sorted (map priority_of (sort_key priority_of xs))" by simp
  ultimately have "sorted_wrt (<) (map priority_of (sort_key priority_of xs))"
    by (simp only: strict_sorted_iff simp_thms)
  then show "sorted_wrt (\<lambda>a b. \<not> compare_stats b a) (insertion_sort xs)"
    by (simp add: insertion_sort_def sorted_wrt_rev sorted_wrt_map compare_stats_iff not_le)
qed

lemma collect_stats_ids:
  "collect_stats c e i ues = Some sts \<Longrightarrow> map ue_id sts = map int [i..<i + length ues]"
proof (induction ues arbitrary: i sts)
  case (Cons ue ues)
  obtain st ss where st: "stats_of_ue c e i ue = Some st" and ss: "collect_stats c e (Suc i) ues = Some ss"
    and sts: "sts = st # ss"
    using Cons.prems by (auto simp: Option.bind_eq_Some_conv)
  have rlc: "ue_id (foldl add_rlc_stats s qs) = ue_id s" for s qs
    by (induction qs arbitrary: s) (auto simp: add_rlc_stats_def Let_def split: option.splits)
  have "ue_id st = int i"
    using st by (auto simp: stats_of_ue_def Let_def Option.bind_eq_Some_conv rlc split: if_splits option.splits)
  moreover have "map ue_id ss = map int [Suc i..<Suc i + length ues]" by (rule Cons.IH [OF ss])
  ultimately show ?case by (simp add: sts upt_conv_Cons del: upt_Suc)
qed simp

lemma sort_UEs_Some:
  assumes "sort_UEs srt c e = Some order"
  obtains sts where "collect_stats c e 0 (ue_configs e) = Some sts" and "strict_on sts" and "order = map ue_id (srt sts)"
  using assms by (auto simp: sort_UEs_def Option.bind_eq_Some_conv split: if_splits)

lemma sort_UEs_untied: "sort_UEs srt c e = Some order \<Longrightarrow> untied c e"
  by (elim sort_UEs_Some) (simp add: untied_def)

text \<open>Every UE of the configuration is in the order exactly once.\<close>

lemma sort_UEs_perm:
  assumes "std_sort srt" and "sort_UEs srt c e = Some order"
  shows "mset order = mset (map int [0..<length (ue_configs e)])"
proof -
  obtain sts where sts: "collect_stats c e 0 (ue_configs e) = Some sts" "strict_on sts" "order = map ue_id (srt sts)"
    using sort_UEs_Some [OF assms(2)] .
  show ?thesis
    using std_sort.map_srt [OF assms(1) sts(2), of ue_id] collect_stats_ids [OF sts(1)] by (simp add: sts(3))
qed

text \<open>
  The order in which the UEs are served is a permutation of the configured UEs, so none is left out or
  served twice, and it follows the priorities: retransmissions first, then the bytes waiting on the
  signalling channels, the head-of-line delay, the bytes waiting in all and the channel quality.
\<close>

theorem sort_UEs_by_priority:
  assumes "std_sort srt" and "collect_stats c e 0 (ue_configs e) = Some sts"
    and "sort_UEs srt c e = Some order"
  shows "mset order = mset (map int [0..<length (ue_configs e)]) \<and>
     (\<forall>i j. i < j \<longrightarrow> j < length order \<longrightarrow>
        priority_of (sts ! nat (order ! j)) < priority_of (sts ! nat (order ! i)))"
proof -
  have order: "order = map ue_id (srt sts)" and strict: "strict_on sts"
    using assms(2,3) by (auto simp: sort_UEs_def split: if_splits)
  have len: "length (srt sts) = length sts" by (rule std_sort.length_srt [OF assms(1) strict])
  have self: "sts ! nat (ue_id st) = st" if "st \<in> set sts" for st
  proof -
    obtain k where k: "k < length sts" "sts ! k = st" using \<open>st \<in> set sts\<close> by (auto simp: in_set_conv_nth)
    have ids: "map ue_id sts = map int [0..<length (ue_configs e)]" using collect_stats_ids [OF assms(2)] by simp
    then have "length sts = length (ue_configs e)" by (metis diff_zero length_map length_upt)
    then have "ue_id (sts ! k) = int k" using arg_cong [OF ids, of "\<lambda>xs. xs ! k"] k(1) by simp
    then show ?thesis using k by simp
  qed
  have "priority_of (sts ! nat (order ! j)) < priority_of (sts ! nat (order ! i))"
    if "i < j" "j < length order" for i j
  proof -
    have ij: "i < length (srt sts)" "j < length (srt sts)" using that by (simp_all add: order)
    then have "srt sts ! i \<in> set sts" "srt sts ! j \<in> set sts"
      using std_sort.set_srt [OF assms(1) strict] nth_mem by metis+
    then have "sts ! nat (order ! i) = srt sts ! i" "sts ! nat (order ! j) = srt sts ! j"
      using self ij by (simp_all add: order)
    then show ?thesis using std_sort.descending [OF assms(1) strict that(1)] ij len by simp
  qed
  then show ?thesis using sort_UEs_perm [OF assms(1,3)] by blast
qed

text \<open>Two UEs with 100 and 300 bytes in their queues: the second one is served first.\<close>

definition loaded_enb :: enb_rib_info where
  "loaded_enb = (new_enb_rib_info zero_junk 0 1)
     \<lparr>en_ue_config := \<lparr>ur_header = no_header, ur_ue_config = [sample_ue_config 7, sample_ue_config 9]\<rparr>,
      en_lc_config := \<lparr>lr_header = no_header, lr_lc_ue_config =
        [\<lparr>lu_rnti = 7, lu_lc_config = []\<rparr>, \<lparr>lu_rnti = 9, lu_lc_config = []\<rparr>]\<rparr>,
      en_ue_mac_info := [(7, sample_mac 100), (9, sample_mac 300)]\<rparr>"

definition loaded_stats :: "int \<Rightarrow> int \<Rightarrow> ue_stats" where
  "loaded_stats i bytes = \<lparr>ue_id = i, bytes_in_ccch = 0, total_bytes_in_buffers = bytes, hol_delay = 0,
     ue_cqi = 7, ue_harq_round = 0\<rparr>"

lemma sample_mac_value:
  "has_available_harq (sample_mac bytes) 0 = Some True"
  "get_next_available_harq (sample_mac bytes) 0 = Some 0"
  "get_harq_stats (sample_mac bytes) 0 0 = Some 0"
  by (simp_all add: has_available_harq_def get_next_available_harq_def get_harq_stats_def sample_mac_def
      new_ue_mac_rib_info_def arr_simps upt_conv_Cons)

lemma loaded_enb_stats:
  "collect_stats sample_cell loaded_enb 0 (ue_configs loaded_enb) = Some [loaded_stats 0 100, loaded_stats 1 300]"
  by (simp add: loaded_enb_def stats_of_ue_def sample_cell_def sample_ue_config_def get_ue_mac_info_def sm_find_def
      sample_mac_value find_csi_def add_rlc_stats_def tx_queue_size_def to_i32_id new_ue_stats_def loaded_stats_def)
     (simp add: sample_mac_def add_rlc_stats_def tx_queue_size_def to_i32_id)

lemma loaded_stats_strict: "strict_on [loaded_stats 0 100, loaded_stats 1 300]"
  by (simp add: strict_on_def compare_stats_def loaded_stats_def)

lemma loaded_enb_untied: "untied sample_cell loaded_enb"
  by (simp add: untied_def loaded_enb_stats loaded_stats_strict del: collect_stats.simps)

lemma loaded_enb_order: "sort_UEs insertion_sort sample_cell loaded_enb = Some [1, 0]"
  unfolding sort_UEs_def loaded_enb_stats
  by (simp add: loaded_stats_strict)
     (simp add: insertion_sort_def priority_of_def less_eq_priority_def loaded_stats_def loaded_enb_def)

text \<open>Two UEs without a report tie: the sort of such a cell is undefined.\<close>

lemma idle_ues_tie: "\<not> strict_on [new_ue_stats\<lparr>ue_id := 0\<rparr>, new_ue_stats\<lparr>ue_id := 1\<rparr>]"
  by (simp add: strict_on_def compare_stats_def new_ue_stats_def)

end
