(* ===== verification/RbgExclusive.thy ===== *)
theory RbgExclusive
  imports SchedHelper
begin

text \<open>
  The safety property of the preprocessor: within a cell no resource block group is given to two UEs.
  The invariant \<open>rbg_excl\<close> ties the groups of the UEs to the shared resource map of the cell; every
  pass of the preprocessor keeps it, and on a configuration that is in range none of them faults but the sort,
  when two UEs tie.
\<close>

section \<open>The invariant\<close>

definition owns :: "flex_cell_config \<Rightarrow> ue_scheduling_info \<Rightarrow> nat \<Rightarrow> bool" where
  "owns c s i \<longleftrightarrow> i < N_RBG_MAX \<and> si_rballoc_sub s ! unat (cell_id16 c) ! i \<noteq> 0"

definition map_taken :: "flex_cell_config \<Rightarrow> enb_scheduling_info \<Rightarrow> nat \<Rightarrow> bool" where
  "map_taken c e i \<longleftrightarrow> es_vrb_map e ! unat (cell_id16 c) ! i \<noteq> 0"

definition rbg_excl :: "flex_cell_config \<Rightarrow> rnti_t set \<Rightarrow> enb_scheduling_info \<Rightarrow> bool" where
  "rbg_excl c R e \<longleftrightarrow> enb_sched_wf e \<and>
     (\<forall>r \<in> R. \<exists>s. get_ue_scheduling_info e r = Some s \<and>
        (\<forall>i. owns c s i \<longrightarrow> map_taken c e i \<and>
           (\<forall>r' \<in> R. \<forall>s'. r' \<noteq> r \<longrightarrow> get_ue_scheduling_info e r' = Some s' \<longrightarrow> \<not> owns c s' i)))"

lemma rbg_exclD:
  assumes "rbg_excl c R e"
  shows "enb_sched_wf e"
    and "r \<in> R \<Longrightarrow> \<exists>s. get_ue_scheduling_info e r = Some s \<and> ue_sched_wf s"
    and "r \<in> R \<Longrightarrow> get_ue_scheduling_info e r = Some s \<Longrightarrow> owns c s i \<Longrightarrow> map_taken c e i"
    and "r \<in> R \<Longrightarrow> r' \<in> R \<Longrightarrow> r \<noteq> r' \<Longrightarrow> get_ue_scheduling_info e r = Some s \<Longrightarrow>
         get_ue_scheduling_info e r' = Some s' \<Longrightarrow> owns c s i \<Longrightarrow> \<not> owns c s' i"
  using assms by (fastforce simp: rbg_excl_def enb_sched_wf_def)+

lemma rbg_exclI:
  assumes "enb_sched_wf e" and "\<And>r. r \<in> R \<Longrightarrow> get_ue_scheduling_info e r \<noteq> None"
    and "\<And>r s i. r \<in> R \<Longrightarrow> get_ue_scheduling_info e r = Some s \<Longrightarrow> owns c s i \<Longrightarrow> map_taken c e i"
    and "\<And>r r' s s' i. r \<in> R \<Longrightarrow> r' \<in> R \<Longrightarrow> r \<noteq> r' \<Longrightarrow> get_ue_scheduling_info e r = Some s \<Longrightarrow>
         get_ue_scheduling_info e r' = Some s' \<Longrightarrow> owns c s i \<Longrightarrow> \<not> owns c s' i"
  shows "rbg_excl c R e"
  unfolding rbg_excl_def
proof (intro conjI ballI)
  fix r assume r: "r \<in> R"
  then obtain s where s: "get_ue_scheduling_info e r = Some s" using assms(2) by blast
  show "\<exists>s. get_ue_scheduling_info e r = Some s \<and>
        (\<forall>i. owns c s i \<longrightarrow> map_taken c e i \<and>
           (\<forall>r' \<in> R. \<forall>s'. r' \<noteq> r \<longrightarrow> get_ue_scheduling_info e r' = Some s' \<longrightarrow> \<not> owns c s' i))"
    using s assms(3) [OF r s] assms(4) [OF r _ _ s] by (intro exI [of _ s]) metis
qed (rule assms(1))

lemma get_put:
  "enb_sched_wf e \<Longrightarrow> get_ue_scheduling_info (put_ue_sched r s e) q =
     (if q = r then Some s else get_ue_scheduling_info e q)"
  by (simp add: get_ue_scheduling_info_def put_ue_sched_def sm.find_put enb_sched_wf_def)

lemma map_taken_put [simp]: "map_taken c (put_ue_sched r s e) = map_taken c e"
  by (simp add: map_taken_def [abs_def] put_ue_sched_def)

lemma enb_sched_wf_put: "enb_sched_wf e \<Longrightarrow> ue_sched_wf s \<Longrightarrow> enb_sched_wf (put_ue_sched r s e)"
  using get_put [of e r s]
  by (auto simp: enb_sched_wf_def put_ue_sched_def sm.inv_put split: if_splits)

lemma enb_sched_wfD: "enb_sched_wf e \<Longrightarrow> get_ue_scheduling_info e r = Some s \<Longrightarrow> ue_sched_wf s"
  by (simp add: enb_sched_wf_def)

lemma excl_put_same:
  assumes "rbg_excl c R e" and "get_ue_scheduling_info e r = Some s"
    and "ue_sched_wf s'" and "si_rballoc_sub s' = si_rballoc_sub s"
  shows "rbg_excl c R (put_ue_sched r s' e)"
proof -
  note D = rbg_exclD [OF assms(1)]
  have o: "owns c s' = owns c s" using assms(4) by (simp add: owns_def [abs_def])
  have get: "\<exists>s0. get_ue_scheduling_info e q = Some s0 \<and> owns c s1 = owns c s0"
    if "get_ue_scheduling_info (put_ue_sched r s' e) q = Some s1" for q s1
    using that o assms(2) by (auto simp: get_put [OF D(1)] split: if_splits)
  show ?thesis
  proof (rule rbg_exclI)
    show "enb_sched_wf (put_ue_sched r s' e)" by (rule enb_sched_wf_put [OF D(1) assms(3)])
    show "get_ue_scheduling_info (put_ue_sched r s' e) q \<noteq> None" if "q \<in> R" for q
      using D(2) [OF that] by (auto simp: get_put [OF D(1)])
    show "map_taken c (put_ue_sched r s' e) i"
      if "q \<in> R" "get_ue_scheduling_info (put_ue_sched r s' e) q = Some s1" "owns c s1 i" for q s1 i
      using get [OF that(2)] D(3) [OF that(1)] that(3) by auto
    show "\<not> owns c s2 i"
      if "q \<in> R" "q' \<in> R" "q \<noteq> q'" "get_ue_scheduling_info (put_ue_sched r s' e) q = Some s1"
        "get_ue_scheduling_info (put_ue_sched r s' e) q' = Some s2" "owns c s1 i" for q q' s1 s2 i
      using get [OF that(4)] get [OF that(5)] D(4) [OF that(1-3)] that(6) by auto
  qed
qed

lemma excl_put_none:
  assumes "rbg_excl c R e" and "ue_sched_wf s'" and "\<And>i. \<not> owns c s' i"
  shows "rbg_excl c (insert r R) (put_ue_sched r s' e)"
proof -
  note D = rbg_exclD [OF assms(1)]
  have get: "q \<in> R \<and> q \<noteq> r \<and> get_ue_scheduling_info e q = Some s1"
    if "q \<in> insert r R" "get_ue_scheduling_info (put_ue_sched r s' e) q = Some s1" "owns c s1 i" for q s1 i
    using that assms(3) by (auto simp: get_put [OF D(1)] split: if_splits)
  show ?thesis
  proof (rule rbg_exclI)
    show "enb_sched_wf (put_ue_sched r s' e)" by (rule enb_sched_wf_put [OF D(1) assms(2)])
    show "get_ue_scheduling_info (put_ue_sched r s' e) q \<noteq> None" if "q \<in> insert r R" for q
      using D(2) [of q] that by (auto simp: get_put [OF D(1)])
    show "map_taken c (put_ue_sched r s' e) i"
      if "q \<in> insert r R" "get_ue_scheduling_info (put_ue_sched r s' e) q = Some s1" "owns c s1 i" for q s1 i
      using get [OF that] D(3) that(3) by auto
    show "\<not> owns c s2 i"
      if "q \<in> insert r R" "q' \<in> insert r R" "q \<noteq> q'" "get_ue_scheduling_info (put_ue_sched r s' e) q = Some s1"
        "get_ue_scheduling_info (put_ue_sched r s' e) q' = Some s2" "owns c s1 i" for q q' s1 s2 i
      using get [OF that(1,4,6)] get [OF that(2,5), of i] D(4) that(3,6) by blast
  qed
qed

section \<open>Updates that leave the groups alone\<close>

definition harmless :: "(ue_scheduling_info \<Rightarrow> ue_scheduling_info option) \<Rightarrow> bool" where
  "harmless f \<longleftrightarrow> (\<forall>s. ue_sched_wf s \<longrightarrow>
     (\<exists>s'. f s = Some s' \<and> ue_sched_wf s' \<and> si_rballoc_sub s' = si_rballoc_sub s))"

lemma with_sched_excl:
  assumes "rbg_excl c R e" and "r \<in> R" and "harmless f"
  shows "\<exists>e'. with_sched r f e = Some e' \<and> rbg_excl c R e'"
proof -
  obtain s where s: "get_ue_scheduling_info e r = Some s" "ue_sched_wf s"
    using rbg_exclD(2) [OF assms(1,2)] by blast
  then obtain s' where "f s = Some s'" "ue_sched_wf s'" "si_rballoc_sub s' = si_rballoc_sub s"
    using assms(3) by (auto simp: harmless_def)
  then show ?thesis using s excl_put_same [OF assms(1) s(1)] by (simp add: with_sched_def)
qed


lemma setters_keep_groups [frame_simps]:
  "set_nb_rbs_required c n s = Some s' \<Longrightarrow> si_rballoc_sub s' = si_rballoc_sub s"
  "set_nb_rbs_required_remaining c n s = Some s' \<Longrightarrow> si_rballoc_sub s' = si_rballoc_sub s"
  "set_nb_rbs_required_remaining1 c n s = Some s' \<Longrightarrow> si_rballoc_sub s' = si_rballoc_sub s"
  "set_nb_scheduled_rbs c p n s = Some s' \<Longrightarrow> si_rballoc_sub s' = si_rballoc_sub s"
  "set_pre_nb_rbs_available c n s = Some s' \<Longrightarrow> si_rballoc_sub s' = si_rballoc_sub s"
  "set_harq_round c h r s = Some s' \<Longrightarrow> si_rballoc_sub s' = si_rballoc_sub s"
  by (auto simp: ue_setter_defs Option.bind_eq_Some_conv)

lemma harmless_bind: "harmless f \<Longrightarrow> harmless g \<Longrightarrow> harmless (\<lambda>s. Option.bind (f s) g)"
  by (fastforce simp: harmless_def)

lemma harmless_Some: "harmless Some"
  by (simp add: harmless_def)

lemma harmless_set:
  assumes "unat c < MAX_NUM_CC"
  shows "harmless (set_nb_rbs_required c n)" and "harmless (set_nb_rbs_required_remaining c n)"
    and "harmless (set_nb_rbs_required_remaining1 c n)" and "harmless (set_pre_nb_rbs_available c n)"
    and "h < MAX_NUM_HARQ \<Longrightarrow> harmless (set_harq_round c h r)"
    and "unat p < MAX_NUM_HARQ \<Longrightarrow> harmless (set_nb_scheduled_rbs c p n)"
  unfolding harmless_def using ue_access_total [OF _ assms] ue_sched_wf_set setters_keep_groups by metis+

lemma harmless_read:
  assumes "unat c < MAX_NUM_CC" and "\<And>n. harmless (f n)"
  shows "harmless (\<lambda>s. Option.bind (get_nb_rbs_required s c) (\<lambda>n. f n s))"
    and "harmless (\<lambda>s. Option.bind (get_nb_rbs_required_remaining s c) (\<lambda>n. f n s))"
    and "harmless (\<lambda>s. Option.bind (get_nb_rbs_required_remaining1 s c) (\<lambda>n. f n s))"
    and "unat p < MAX_NUM_HARQ \<Longrightarrow> harmless (\<lambda>s. Option.bind (get_nb_scheduled_rbs s c p) (\<lambda>n. f n s))"
  unfolding harmless_def using ue_read_total [OF _ assms(1)] assms(2) by (simp_all add: harmless_def)

lemma harmless_if: "harmless f \<Longrightarrow> harmless g \<Longrightarrow> harmless (\<lambda>s. if b s then f s else g s)"
  by (simp add: harmless_def)

section \<open>The passes over the UEs\<close>

definition cell_ues :: "flex_cell_config \<Rightarrow> enb_rib_info \<Rightarrow> flex_ue_config list" where
  "cell_ues c e = filter (\<lambda>ue. uc_pcell_carrier_index ue = ucast (cell_id16 c)) (ue_configs e)"

definition cell_rntis :: "flex_cell_config \<Rightarrow> enb_rib_info \<Rightarrow> rnti_t set" where
  "cell_rntis c e = uc_rnti ` set (cell_ues c e)"

lemma for_cell_ues_total:
  assumes "\<And>i. i \<in> set order \<Longrightarrow> nat i < length (ue_configs e)" and "I st"
    and "\<And>st ue. ue \<in> set (cell_ues c e) \<Longrightarrow> I st \<Longrightarrow> \<exists>st'. f ue st = Some st' \<and> I st'"
  shows "\<exists>st'. for_cell_ues c e f order st = Some st' \<and> I st'"
  unfolding for_cell_ues_def
proof (rule foldo_total [where I = I, OF assms(2)])
  fix st i assume i: "i \<in> set order" and st: "I st"
  let ?ue = "ue_configs e ! nat i"
  have "?ue \<in> set (cell_ues c e)" if "uc_pcell_carrier_index ?ue = ucast (cell_id16 c)"
    using that assms(1) [OF i] by (simp add: cell_ues_def)
  then show "\<exists>s'. Option.bind (aget (ue_configs e) (nat i))
       (\<lambda>ue. if uc_pcell_carrier_index ue = ucast (cell_id16 c) then f ue st else Some st) = Some s' \<and> I s'"
    using assms(1) [OF i] assms(3) [OF _ st] st by (simp add: aget_def)
qed

lemma union_by_index:
  "(\<Union>i \<in> set (map int [0..<length xs]). if P (xs ! nat i) then {g (xs ! nat i)} else {}) = g ` set (filter P xs)"
proof -
  have "set xs = (\<lambda>i. xs ! nat i) ` set (map int [0..<length xs])"
    by (simp add: set_conv_nth image_image) (auto simp: image_def)
  then show ?thesis by auto
qed

text \<open>The first pass, in the order of the configuration, makes the records it needs.\<close>

lemma for_cell_ues_first:
  assumes "P {} st"
    and "\<And>R st ue. ue \<in> set (cell_ues c e) \<Longrightarrow> P R st \<Longrightarrow> \<exists>st'. f ue st = Some st' \<and> P (insert (uc_rnti ue) R) st'"
  shows "\<exists>st'. for_cell_ues c e f (map int [0..<length (ue_configs e)]) st = Some st' \<and> P (cell_rntis c e) st'"
proof -
  let ?here = "\<lambda>i. uc_pcell_carrier_index (ue_configs e ! nat i) = ucast (cell_id16 c)"
  let ?g = "\<lambda>i. if ?here i then {uc_rnti (ue_configs e ! nat i)} else {}"
  let ?order = "map int [0..<length (ue_configs e)]"
  have "\<exists>st'. for_cell_ues c e f ?order st = Some st' \<and> P ({} \<union> \<Union> (?g ` set ?order)) st'"
    unfolding for_cell_ues_def
  proof (rule foldo_accum [where P = P and g = ?g, OF assms(1)])
    fix R st i assume i: "i \<in> set ?order" and st: "P R st"
    have "ue_configs e ! nat i \<in> set (cell_ues c e)" if "?here i"
      using that i by (auto simp: cell_ues_def)
    then show "\<exists>s'. Option.bind (aget (ue_configs e) (nat i))
       (\<lambda>ue. if uc_pcell_carrier_index ue = ucast (cell_id16 c) then f ue st else Some st) = Some s' \<and> P (R \<union> ?g i) s'"
      using i assms(2) [OF _ st] st by (auto simp: aget_def)
  qed
  moreover have "\<Union> (?g ` set ?order) = cell_rntis c e"
    unfolding cell_rntis_def cell_ues_def by (rule union_by_index)
  ultimately show ?thesis by simp
qed

lemma create_is_put:
  "get_ue_scheduling_info sched r = None \<Longrightarrow>
   create_ue_scheduling_info r sched = put_ue_sched r (new_ue_scheduling_info r) sched"
proof -
  have "map_of m r = None \<Longrightarrow> sm_insert r v m = sm_put r v m" for v and m :: "(rnti_t \<times> ue_scheduling_info) list"
    by (induction m) (auto split: if_splits)
  then show "get_ue_scheduling_info sched r = None \<Longrightarrow> ?thesis"
    by (simp add: get_ue_scheduling_info_def create_ue_scheduling_info_def put_ue_sched_def sm_find_def)
qed

lemma fresh_sched_excl:
  assumes "rbg_excl c R sched" and "unat (cell_id16 c) < MAX_NUM_CC"
  shows "rbg_excl c (insert r R) (fresh_sched r sched)"
proof -
  have none: "\<not> owns c (new_ue_scheduling_info r) i" "\<not> owns c (ue_start_new_scheduling_round s) i" for s i
    using assms(2)
    by (auto simp: owns_def new_ue_scheduling_info_def ue_start_new_scheduling_round_def nth_Cons' )
  show ?thesis
  proof (cases "get_ue_scheduling_info sched r")
    case None
    then show ?thesis
      using excl_put_none [OF assms(1) ue_sched_wf_new none(1)] by (simp add: fresh_sched_def create_is_put)
  next
    case (Some s)
    have "ue_sched_wf (ue_start_new_scheduling_round s)"
      by (rule ue_sched_wf_round [OF enb_sched_wfD [OF rbg_exclD(1) [OF assms(1)] Some]])
    then show ?thesis
      using excl_put_none [OF assms(1) _ none(2)] Some by (simp add: fresh_sched_def)
  qed
qed


text \<open>What the preprocessor relies on of the cell and of what the RIB knows of its UEs.\<close>

definition cell_ready :: "flex_cell_config \<Rightarrow> enb_rib_info \<Rightarrow> bool" where
  "cell_ready c e \<longleftrightarrow> enb_wf e \<and> ue_view_consistent e \<and> unat (cc_cell_id c) < MAX_NUM_CC \<and>
     unat (cc_dl_bandwidth c) \<le> 110 \<and> length (ue_configs e) \<le> MAX_NUM_UE \<and>
     (\<forall>ue \<in> set (cell_ues c e). \<forall>u. get_ue_mac_info e (uc_rnti ue) = Some u \<longrightarrow>
        csi_mcs c (um_mac_stats_report u) 0 \<noteq> None)"

lemma cell_readyD:
  assumes "cell_ready c e"
  shows "unat (cell_id16 c) < MAX_NUM_CC" and "unat (cc_dl_bandwidth c) \<le> 110"
    and "length (ue_configs e) \<le> MAX_NUM_UE"
  using assms by (auto simp: cell_ready_def cell_index)

lemma cell_ready_ue:
  assumes "cell_ready c e" and "ue \<in> set (ue_configs e)"
  obtains u where "get_ue_mac_info e (uc_rnti ue) = Some u" and "ue_mac_wf u"
proof -
  have "uc_rnti ue \<in> mac_rntis e" using assms by (auto simp: cell_ready_def ue_view_consistent_def)
  then obtain u where "get_ue_mac_info e (uc_rnti ue) = Some u" by (auto simp: get_ue_mac_info_def)
  moreover have "ue_mac_wf u"
    using enb_wfD(2) [of e "uc_rnti ue" u] assms(1) calculation by (simp add: cell_ready_def get_ue_mac_info_def)
  ultimately show thesis by (rule that)
qed

lemma cell_ues_sub: "ue \<in> set (cell_ues c e) \<Longrightarrow> ue \<in> set (ue_configs e)"
  by (simp add: cell_ues_def)

lemma prepare_ue_excl:
  assumes "cell_ready c e" and "ue \<in> set (cell_ues c e)" and "rbg_excl c R sched"
  shows "\<exists>sched'. prepare_ue c e ue sched = Some sched' \<and> rbg_excl c (insert (uc_rnti ue) R) sched'"
proof -
  note fresh = fresh_sched_excl [OF assms(3) cell_readyD(1) [OF assms(1)], of "uc_rnti ue"]
  obtain u where u: "get_ue_mac_info e (uc_rnti ue) = Some u"
    using cell_ready_ue [OF assms(1) cell_ues_sub [OF assms(2)]] by blast
  then obtain mcs where mcs: "csi_mcs c (um_mac_stats_report u) 0 = Some mcs"
    using assms(1,2) by (auto simp: cell_ready_def)
  have "harmless (\<lambda>s. assign_rbs_required c lc u s)" for lc
    unfolding harmless_def
    using assign_rbs_required_spec [OF cell_readyD(2,1) [OF assms(1)] _ mcs, of _ lc] by blast
  then have "harmless (\<lambda>s. do { u \<leftarrow> get_ue_mac_info e (uc_rnti ue); assign_rbs_required c lc u s })" for lc
    by (simp add: u)
  then show ?thesis
    using with_sched_excl [OF fresh insertI1] fresh
    by (cases "List.find (\<lambda>lc. lu_rnti lc = uc_rnti ue) (lc_configs e)") (simp_all add: prepare_ue_def Let_def)
qed

lemma count_ue_excl:
  assumes "cell_ready c e" and "ue \<in> set (cell_ues c e)" and "rbg_excl c R sched" and "uc_rnti ue \<in> R"
  shows "\<exists>sched' n'. count_ue c e ue (sched, n) = Some (sched', n') \<and> rbg_excl c R sched'"
proof -
  note cc = cell_readyD(1) [OF assms(1)]
  obtain u where u: "get_ue_mac_info e (uc_rnti ue) = Some u" "ue_mac_wf u"
    using cell_ready_ue [OF assms(1) cell_ues_sub [OF assms(2)]] by blast
  show ?thesis
  proof (cases "has_available_harq u (cell_id16 c) = Some True")
    case False
    then have "has_available_harq u (cell_id16 c) = Some False" using has_available_harq_iff [OF u(2) cc] by auto
    then show ?thesis using u assms(3) by (simp add: count_ue_def Let_def)
  next
    case True
    then obtain p where p: "get_next_available_harq u (cell_id16 c) = Some (int p)" "p < MAX_NUM_HARQ"
      using next_available_harq_active [OF u(2) cc] by metis
    obtain round where round: "get_harq_stats u (cell_id16 c) p = Some round"
      using u(2) cc p(2) by (simp add: get_harq_stats_def arr_simps)
    let ?f = "\<lambda>s. do {
         s \<leftarrow> set_harq_round (cell_id16 c) p round s;
         if round > 0
         then do { n \<leftarrow> get_nb_scheduled_rbs s (cell_id16 c) (word_of_int (int p));
                   set_nb_rbs_required (cell_id16 c) n s }
         else set_nb_scheduled_rbs (cell_id16 c) (word_of_int (int p)) 0 s }"
    have up: "unat (word_of_int (int p) :: u8) < MAX_NUM_HARQ"
      using p(2) by (simp add: unsigned_of_nat take_bit_nat_eq_self)
    have "harmless ?f"
      using harmless_set [OF cc] harmless_read(4) [OF cc _ up] p(2) up
      by (intro harmless_bind harmless_if) auto
    then obtain sched' where s': "with_sched (uc_rnti ue) ?f sched = Some sched'" "rbg_excl c R sched'"
      using with_sched_excl [OF assms(3,4)] by blast
    obtain s where s: "get_ue_scheduling_info sched' (uc_rnti ue) = Some s" "ue_sched_wf s"
      using rbg_exclD(2) [OF s'(2) assms(4)] by blast
    obtain n where "get_nb_rbs_required s (cell_id16 c) = Some n" using ue_read_total(1) [OF s(2) cc] by blast
    then show ?thesis using True u p round s' s by (simp add: count_ue_def Let_def)
  qed
qed

lemma demand_ue_excl:
  assumes "unat (cell_id16 c) < MAX_NUM_CC" and "rbg_excl c R sched" and "uc_rnti ue \<in> R"
  shows "\<exists>sched'. demand_ue c average ue sched = Some sched' \<and> rbg_excl c R sched'"
  unfolding demand_ue_def
  by (intro with_sched_excl [OF assms(2,3)] harmless_read(1) [OF assms(1)] harmless_if harmless_Some)
     (use harmless_set(3) [OF assms(1)] in \<open>auto simp: harmless_def\<close>)

lemma remaining_ue_excl:
  assumes "unat (cell_id16 c) < MAX_NUM_CC" and "rbg_excl c R sched" and "uc_rnti ue \<in> R"
  shows "\<exists>sched'. remaining_ue c r1 ue sched = Some sched' \<and> rbg_excl c R sched'"
  unfolding remaining_ue_def Let_def
  by (intro with_sched_excl [OF assms(2,3)] harmless_read [OF assms(1)] harmless_if harmless_Some
      harmless_set [OF assms(1)])

section \<open>The allocation of groups\<close>

lemma excl_take:
  assumes "rbg_excl c R (put_ue_sched r s e)" and "enb_sched_wf e" and "r \<in> R"
    and "ue_sched_wf s'" and "enb_sched_wf e'" and "es_scheduling_info e' = es_scheduling_info e"
    and "\<And>j. map_taken c e j \<Longrightarrow> map_taken c e' j"
    and "\<And>j. owns c s' j \<Longrightarrow> owns c s j \<or> \<not> map_taken c e j \<and> map_taken c e' j"
  shows "rbg_excl c R (put_ue_sched r s' e')"
proof -
  note D = rbg_exclD [OF assms(1), unfolded map_taken_put get_put [OF assms(2)]]
  have get: "get_ue_scheduling_info (put_ue_sched r s' e') q =
      (if q = r then Some s' else get_ue_scheduling_info e q)" for q
    using assms(6) by (simp add: get_put [OF assms(5)]) (simp add: get_ue_scheduling_info_def)
  have other: "map_taken c e j" if "q \<in> R" "q \<noteq> r" "get_ue_scheduling_info e q = Some s1" "owns c s1 j" for q s1 j
    using D(3) [of q s1 j] that by simp
  have sep: "\<not> owns c s' j" if "q \<in> R" "q \<noteq> r" "get_ue_scheduling_info e q = Some s1" "owns c s1 j" for q s1 j
    using assms(8) [of j] other [OF that] D(4) [OF that(1) assms(3) that(2), of s1 s j] that by auto
  show ?thesis
  proof (rule rbg_exclI, unfold get map_taken_put)
    show "enb_sched_wf (put_ue_sched r s' e')" by (rule enb_sched_wf_put [OF assms(5,4)])
    show "(if q = r then Some s' else get_ue_scheduling_info e q) \<noteq> None" if "q \<in> R" for q
      using D(2) [OF that] by (auto split: if_splits)
    show "map_taken c e' j"
      if q: "q \<in> R" "(if q = r then Some s' else get_ue_scheduling_info e q) = Some s1" "owns c s1 j" for q s1 j
    proof (cases "q = r")
      case True
      then show ?thesis using q assms(7,8) [of j] D(3) [OF assms(3), of s j] by auto
    next
      case False
      then show ?thesis using q other [of q s1 j] assms(7) by simp
    qed
    show "\<not> owns c s2 j"
      if q: "q \<in> R" "q' \<in> R" "q \<noteq> q'" "(if q = r then Some s' else get_ue_scheduling_info e q) = Some s1"
        "(if q' = r then Some s' else get_ue_scheduling_info e q') = Some s2" "owns c s1 j" for q q' s1 s2 j
      using q sep [of q s1 j] sep [of q' s2 j] D(4) [of q q' s1 s2 j] by (auto split: if_splits)
  qed
qed


definition pair_ok :: "flex_cell_config \<Rightarrow> rnti_t set \<Rightarrow> rnti_t \<Rightarrow> enb_scheduling_info \<times> ue_scheduling_info \<Rightarrow> bool" where
  "pair_ok c R r es \<longleftrightarrow> r \<in> R \<and> enb_sched_wf (fst es) \<and> ue_sched_wf (snd es) \<and>
     rbg_excl c R (put_ue_sched r (snd es) (fst es))"

lemma pair_ok_setter:
  assumes "pair_ok c R r (e, s)" and "harmless f"
  shows "\<exists>s'. f s = Some s' \<and> pair_ok c R r (e, s')"
proof -
  obtain s' where s': "f s = Some s'" "ue_sched_wf s'" "si_rballoc_sub s' = si_rballoc_sub s"
    using assms by (auto simp: pair_ok_def harmless_def)
  have "rbg_excl c R (put_ue_sched r s' e)"
    by (rule excl_take [where e = e and s = s])
       (use assms(1) s' in \<open>auto simp: pair_ok_def owns_def\<close>)
  then show ?thesis using s' assms(1) by (auto simp: pair_ok_def)
qed

lemma toggle_free_group:
  assumes "pair_ok c R r (e, s)" and "unat (cell_id16 c) < MAX_NUM_CC" and "i < N_RBG_MAX"
    and "get_vrb_map e (cell_id16 c) i = Some 0"
  shows "\<exists>e' s'. toggle_vrb_map (cell_id16 c) i e = Some e' \<and> set_rballoc_sub (cell_id16 c) i 1 s = Some s' \<and>
     pair_ok c R r (e', s')"
proof -
  let ?k = "unat (cell_id16 c)"
  have wf: "enb_sched_wf e" "ue_sched_wf s" "r \<in> R" using assms(1) by (simp_all add: pair_ok_def)
  let ?e = "e\<lparr>es_vrb_map := (es_vrb_map e)[?k := (es_vrb_map e ! ?k)[i := 1]]\<rparr>"
  let ?s = "s\<lparr>si_rballoc_sub := (si_rballoc_sub s)[?k := (si_rballoc_sub s ! ?k)[i := 1]]\<rparr>"
  have run: "toggle_vrb_map (cell_id16 c) i e = Some ?e" "set_rballoc_sub (cell_id16 c) i 1 s = Some ?s"
    using wf assms(2,3) by (simp_all add: toggle_vrb_map_def set_rballoc_sub_def arr_simps)
  have free: "es_vrb_map e ! ?k ! i = 0" using assms(4) by (simp add: get_vrb_map_def aget2_eq_Some)
  have "enb_sched_wf ?e" using wf(1) by (auto simp: enb_sched_wf_def get_ue_scheduling_info_def intro: dim2_write)
  moreover have "ue_sched_wf ?s" by (rule ue_sched_wf_set(5) [OF run(2) wf(2)])
  moreover have "rbg_excl c R (put_ue_sched r ?s ?e)"
    by (rule excl_take [where e = e and s = s])
       (use assms(1-3) wf free calculation in \<open>auto simp: pair_ok_def owns_def map_taken_def nth_list_update arr_simps split: if_splits\<close>)
  ultimately show ?thesis using run wf(3) by (auto simp: pair_ok_def)
qed

lemma take_group_excl:
  assumes "pair_ok c R r (e, s)" and "unat (cell_id16 c) < MAX_NUM_CC" and "i < N_RBG_MAX"
    and "get_vrb_map e (cell_id16 c) i = Some 0"
  shows "\<exists>es'. take_group (cell_id16 c) i blocks (e, s) = Some es' \<and> pair_ok c R r es'"
proof -
  obtain e1 s1 where 1: "toggle_vrb_map (cell_id16 c) i e = Some e1" "set_rballoc_sub (cell_id16 c) i 1 s = Some s1"
    "pair_ok c R r (e1, s1)"
    using toggle_free_group [OF assms] by blast
  then obtain rem where rem: "get_nb_rbs_required_remaining s1 (cell_id16 c) = Some rem"
    using ue_read_total(2) [OF _ assms(2)] by (auto simp: pair_ok_def)
  obtain s2 where 2: "set_nb_rbs_required_remaining (cell_id16 c)
      (if uint rem - blocks \<le> 0 then 0 else word_of_int (uint rem - blocks)) s1 = Some s2" "pair_ok c R r (e1, s2)"
    using pair_ok_setter [OF 1(3) harmless_set(2) [OF assms(2)]] by blast
  obtain av where av: "get_pre_nb_rbs_available s2 (cell_id16 c) = Some av"
    using ue_read_total(4) [OF _ assms(2)] 2(2) by (auto simp: pair_ok_def)
  obtain s3 where "set_pre_nb_rbs_available (cell_id16 c) (word_of_int (uint av + blocks)) s2 = Some s3"
    "pair_ok c R r (e1, s3)"
    using pair_ok_setter [OF 2(2) harmless_set(4) [OF assms(2)]] by blast
  then show ?thesis using 1 2 rem av by (simp add: take_group_def Let_def)
qed

lemma alloc_step_excl:
  assumes "pair_ok c R r es" and "unat (cell_id16 c) < MAX_NUM_CC" and "i < N_RBG_MAX"
  shows "\<exists>es'. alloc_step c es i = Some es' \<and> pair_ok c R r es'"
proof -
  obtain e s where es: "es = (e, s)" by (cases es)
  have wf: "enb_sched_wf e" "ue_sched_wf s" using assms(1) by (simp_all add: pair_ok_def es)
  obtain vrb where vrb: "get_vrb_map e (cell_id16 c) i = Some vrb"
    using wf(1) assms(2,3) by (simp add: get_vrb_map_def arr_simps)
  note ok = assms(1) [unfolded es]
  show ?thesis
  proof (cases "vrb = 0")
    case True
    show ?thesis
      using take_group_excl [OF ok assms(2,3) vrb [unfolded True]] ok vrb ue_read_total [OF wf(2) assms(2)] assms(3)
      by (simp add: alloc_step_def es Let_def)
  next
    case False
    then show ?thesis
      using ok vrb ue_read_total [OF wf(2) assms(2)] assms(3) by (simp add: alloc_step_def es Let_def)
  qed
qed

lemma allocate_ue_excl:
  assumes "unat (cell_id16 c) < MAX_NUM_CC" and "rbg_excl c R sched" and "uc_rnti ue \<in> R"
  shows "\<exists>sched'. allocate_ue c high ue sched = Some sched' \<and> rbg_excl c R sched'"
proof -
  let ?r = "uc_rnti ue"
  obtain s where s: "get_ue_scheduling_info sched ?r = Some s" "ue_sched_wf s"
    using rbg_exclD(2) [OF assms(2,3)] by blast
  have "pair_ok c R ?r (sched, s)"
    using assms(2,3) s excl_put_same [OF assms(2) s refl] rbg_exclD(1) [OF assms(2)] by (simp add: pair_ok_def)
  then have "\<exists>es'. foldo (alloc_step c) (sched, s) [0..<unat (get_nb_rbg c)] = Some es' \<and> pair_ok c R ?r es'"
    by (rule foldo_total) (use alloc_step_excl [OF _ assms(1)] nb_rbg_le [of c] in auto)
  then show ?thesis
    using assms(2) s ue_read_total(1) [OF s(2) assms(1)]
    by (auto simp: allocate_ue_def perform_pre_processor_allocation_def pair_ok_def)
qed

lemma allocation_round_excl:
  assumes "unat (cell_id16 c) < MAX_NUM_CC" and "rbg_excl c (cell_rntis c e) sched"
    and "\<And>i. i \<in> set order \<Longrightarrow> nat i < length (ue_configs e)"
  shows "\<exists>sched'. allocation_round c e order n sched r1 = Some sched' \<and> rbg_excl c (cell_rntis c e) sched'"
proof -
  let ?I = "rbg_excl c (cell_rntis c e)"
  have pass: "\<exists>st'. for_cell_ues c e f order st = Some st' \<and> ?I st'"
    if "?I st" "\<And>st ue. uc_rnti ue \<in> cell_rntis c e \<Longrightarrow> ?I st \<Longrightarrow> \<exists>st'. f ue st = Some st' \<and> ?I st'" for f st
    by (rule for_cell_ues_total [where I = ?I, OF assms(3) that(1)]) (use that(2) in \<open>auto simp: cell_rntis_def\<close>)
  obtain s1 where s1: "for_cell_ues c e (remaining_ue c r1) order sched = Some s1" "?I s1"
    using pass [of sched "remaining_ue c r1"] assms(2) remaining_ue_excl [OF assms(1)] by blast
  obtain s2 where s2: "for_cell_ues c e (allocate_ue c True) order s1 = Some s2" "?I s2"
    using pass [of s1 "allocate_ue c True"] s1(2) allocate_ue_excl [OF assms(1)] by blast
  obtain s3 where s3: "for_cell_ues c e (allocate_ue c False) order s2 = Some s3" "?I s3"
    using pass [of s2 "allocate_ue c False"] s2(2) allocate_ue_excl [OF assms(1)] by blast
  show ?thesis using s1 s2 s3 by (simp add: allocation_round_def)
qed

section \<open>The preprocessor\<close>

lemma stats_of_ue_total:
  assumes "cell_ready c e" and "ue \<in> set (ue_configs e)"
  shows "\<exists>st. stats_of_ue c e i ue = Some st"
proof -
  note cc = cell_readyD(1) [OF assms(1)]
  obtain u where u: "get_ue_mac_info e (uc_rnti ue) = Some u" "ue_mac_wf u"
    using cell_ready_ue [OF assms] by blast
  show ?thesis
  proof (cases "has_available_harq u (cell_id16 c) = Some True")
    case True
    then obtain p where p: "get_next_available_harq u (cell_id16 c) = Some (int p)" "p < MAX_NUM_HARQ"
      using next_available_harq_active [OF u(2) cc] by metis
    obtain round where "get_harq_stats u (cell_id16 c) p = Some round"
      using u(2) cc p(2) by (simp add: get_harq_stats_def arr_simps)
    then show ?thesis using True u(1) p by (simp add: stats_of_ue_def Let_def)
  next
    case False
    then have "has_available_harq u (cell_id16 c) = Some False" using has_available_harq_iff [OF u(2) cc] by auto
    then show ?thesis using u(1) by (simp add: stats_of_ue_def Let_def)
  qed
qed

lemma collect_stats_total:
  assumes "cell_ready c e" and "set ues \<subseteq> set (ue_configs e)"
  shows "\<exists>sts. collect_stats c e i ues = Some sts"
  using assms(2)
proof (induction ues arbitrary: i)
  case (Cons ue ues)
  then have "ue \<in> set (ue_configs e)" "set ues \<subseteq> set (ue_configs e)" by simp_all
  then obtain st sts where "stats_of_ue c e i ue = Some st" "collect_stats c e (Suc i) ues = Some sts"
    using stats_of_ue_total [OF assms(1)] Cons.IH by blast
  then show ?case by simp
qed simp

lemma sort_UEs_total:
  assumes "std_sort srt" and "cell_ready c e" and "untied c e"
  obtains order where "sort_UEs srt c e = Some order"
    and "\<And>i. i \<in> set order \<Longrightarrow> nat i < length (ue_configs e)"
proof -
  obtain sts where "collect_stats c e 0 (ue_configs e) = Some sts"
    using collect_stats_total [OF assms(2) order_refl] by blast
  then obtain order where order: "sort_UEs srt c e = Some order"
    using cell_readyD(3) [OF assms(2)] assms(3) by (simp add: sort_UEs_def untied_def)
  have "set order = set (map int [0..<length (ue_configs e)])"
    using sort_UEs_perm [OF assms(1) order] by (rule mset_eq_setD)
  then show thesis using order by (intro that) auto
qed

lemma preprocessor_untied:
  "run_dlsch_scheduler_preprocessor srt c e frame subframe sched = Some sched' \<Longrightarrow> untied c e"
  by (auto simp: run_dlsch_scheduler_preprocessor_def Option.bind_eq_Some_conv dest: sort_UEs_untied)

lemma preprocessor_excl:
  assumes "std_sort srt" and "cell_ready c e" and "enb_sched_wf sched" and "untied c e"
  shows "\<exists>sched'. run_dlsch_scheduler_preprocessor srt c e frame subframe sched = Some sched' \<and>
     rbg_excl c (cell_rntis c e) sched'"
proof -
  let ?I = "rbg_excl c (cell_rntis c e)"
  note cc = cell_readyD(1) [OF assms(2)]
  obtain s1 where s1: "for_cell_ues c e (prepare_ue c e) (map int [0..<length (ue_configs e)]) sched = Some s1" "?I s1"
    using for_cell_ues_first [of "rbg_excl c" sched c e "prepare_ue c e"] prepare_ue_excl [OF assms(2)] assms(3)
    by (auto simp: rbg_excl_def)
  obtain order where order: "sort_UEs srt c e = Some order" "\<And>i. i \<in> set order \<Longrightarrow> nat i < length (ue_configs e)"
    using sort_UEs_total [OF assms(1,2,4)] by blast
  have "\<exists>st'. for_cell_ues c e (count_ue c e) order (s1, 0) = Some st' \<and> ?I (fst st')"
    by (rule for_cell_ues_total [OF order(2)])
       (use s1(2) count_ue_excl [OF assms(2)] in \<open>auto simp: cell_rntis_def\<close>)
  then obtain s2 n where s2: "for_cell_ues c e (count_ue c e) order (s1, 0) = Some (s2, n)" "?I s2" by auto
  let ?av = "average_rbs_per_user c subframe n"
  have "\<exists>st'. for_cell_ues c e (demand_ue c ?av) order s2 = Some st' \<and> ?I st'"
    by (rule for_cell_ues_total [where I = ?I, OF order(2) s2(2)])
       (use demand_ue_excl [OF cc] in \<open>auto simp: cell_rntis_def\<close>)
  then obtain s3 where s3: "for_cell_ues c e (demand_ue c ?av) order s2 = Some s3" "?I s3" by blast
  have "\<exists>st'. foldo (allocation_round c e order n) s3 [0, 1] = Some st' \<and> ?I st'"
    by (rule foldo_total [where I = ?I, OF s3(2)]) (rule allocation_round_excl [OF cc _ order(2)])
  then show ?thesis using s1 order s2 s3 by (simp add: run_dlsch_scheduler_preprocessor_def del: foldo.simps)
qed

text \<open>
  C3: on a cell whose parameters are in range the preprocessor has one way to fault, the sort: it returns exactly when
  no two UEs of the eNB tie (\<open>untied\<close>; on a tie \<open>compare_stats\<close> puts each of the two before the other, which
  \<open>std::sort\<close> does not define). When it returns, no resource block group of the cell belongs to two of its UEs,
  whatever allocations the previous round had left; every group a UE holds is marked in the cell's map.
\<close>

theorem preprocessor_exclusive:
  assumes "std_sort srt" and "cell_ready c e" and "enb_sched_wf sched"
  shows "(run_dlsch_scheduler_preprocessor srt c e frame subframe sched = None \<longleftrightarrow> \<not> untied c e) \<and>
     (\<forall>sched'. run_dlsch_scheduler_preprocessor srt c e frame subframe sched = Some sched' \<longrightarrow>
        rbg_excl c (cell_rntis c e) sched')"
  using preprocessor_excl [OF assms, of frame subframe] preprocessor_untied [of srt c e frame subframe sched] by force

lemma sample_mac_wf: "ue_mac_wf (sample_mac bytes)"
  using ue_mac_wf_new [of 0 7] by (simp add: sample_mac_def ue_mac_wf_def)

lemma sample_mac_mcs: "csi_mcs sample_cell (um_mac_stats_report (sample_mac bytes)) d = Some 11"
  by (simp add: csi_mcs_def find_csi_def sample_cell_def sample_mac_def aget_def cqi_to_mcs_def)

lemma loaded_enb_ready: "cell_ready sample_cell loaded_enb"
proof -
  have find: "sm_find (en_ue_mac_info loaded_enb) = [7 \<mapsto> sample_mac 100, 9 \<mapsto> sample_mac 300]"
    by (simp add: loaded_enb_def sm_find_def fun_eq_iff)
  have inv: "sm_inv (en_ue_mac_info loaded_enb)" by (simp add: loaded_enb_def sm_inv_def)
  have "enb_wf loaded_enb"
    by (rule enb_wfI [OF inv])
       (auto simp: sm_find_def sample_mac_wf loaded_enb_def new_enb_rib_info_def split: if_splits)
  moreover have "ue_view_consistent loaded_enb"
    unfolding ue_view_consistent_def find by (simp add: loaded_enb_def sample_ue_config_def)
  moreover have "csi_mcs sample_cell (um_mac_stats_report u) 0 \<noteq> None"
    if "get_ue_mac_info loaded_enb r = Some u" for r u
    using that sample_mac_mcs by (auto simp: get_ue_mac_info_def find split: if_splits)
  moreover have "unat (cc_cell_id sample_cell) < MAX_NUM_CC" "unat (cc_dl_bandwidth sample_cell) \<le> 110"
    "length (ue_configs loaded_enb) \<le> MAX_NUM_UE"
    by (simp_all add: sample_cell_def loaded_enb_def)
  ultimately show ?thesis by (simp add: cell_ready_def)
qed

lemma loaded_enb_rntis: "cell_rntis sample_cell loaded_enb = {7, 9}"
  by (simp add: cell_rntis_def cell_ues_def loaded_enb_def sample_cell_def sample_ue_config_def)

lemma preprocessor_witness:
  "\<exists>sched' s7 s9. run_dlsch_scheduler_preprocessor insertion_sort sample_cell loaded_enb 3 1
       (new_enb_scheduling_info zero_junk 1) = Some sched' \<and>
     get_ue_scheduling_info sched' 7 = Some s7 \<and> get_ue_scheduling_info sched' 9 = Some s9 \<and>
     {i. owns sample_cell s7 i} \<inter> {i. owns sample_cell s9 i} = {}"
proof -
  obtain sched' where run: "run_dlsch_scheduler_preprocessor insertion_sort sample_cell loaded_enb 3 1
       (new_enb_scheduling_info zero_junk 1) = Some sched'" and excl: "rbg_excl sample_cell {7, 9} sched'"
    using preprocessor_exclusive [OF ins.std_sort_axioms loaded_enb_ready enb_sched_wf_new, of 3 1 zero_junk 1]
      loaded_enb_untied
    unfolding loaded_enb_rntis by (metis not_None_eq)
  obtain s7 s9 where "get_ue_scheduling_info sched' 7 = Some s7" "get_ue_scheduling_info sched' 9 = Some s9"
    using rbg_exclD(2) [OF excl] by (metis insertCI)
  then show ?thesis
    using run rbg_exclD(4) [OF excl, of 7 9 s7 s9] by (intro exI [of _ sched'] exI [of _ s7] exI [of _ s9]) auto
qed

end
