(* ===== verification/FlexUe.thy ===== *)
theory FlexUe
  imports SchedHelper
begin

text \<open>
  The body of the UE loop of \<open>run_central_scheduler\<close> in \<open>src/app/flexible_scheduler.cc\<close>: what the
  central scheduler sends to one UE of a cell. The definitions follow the source from the choice of the
  aggregation level to the downlink data element with its DCI.
\<close>

section \<open>State\<close>

text \<open>
  The locals of \<open>run_central_scheduler\<close> that keep their value from one UE to the next, and the static
  member \<open>tpc_accumulated\<close>. Every other local is assigned before it is read.
\<close>

record sched_vars =
  lv_aggregation :: u8
  lv_mcs :: int
  lv_ce_flags :: u32
  lv_tpc_accumulated :: int

record flex_state =
  fl_enb :: enb_rib_info
  fl_sched :: enb_scheduling_info
  fl_vars :: sched_vars
  fl_data :: "flex_dl_data list"

text \<open>What is sent to the UE, once its coding is chosen.\<close>

record transmission =
  tx_nb_rb :: u16
  tx_mcs :: int
  tx_tbs :: u32
  tx_ndi :: u8
  tx_tpc :: int

record coding =
  co_tx :: "transmission option"
  co_ue :: ue_mac_rib_info
  co_sched :: ue_scheduling_info
  co_vars :: sched_vars
  co_pdus :: "flex_rlc_pdu list"

text \<open>A write through the \<open>shared_ptr\<close> of a UE's MAC record.\<close>

definition put_ue_mac :: "rnti_t \<Rightarrow> ue_mac_rib_info \<Rightarrow> enb_rib_info \<Rightarrow> enb_rib_info" where
  "put_ue_mac rnti u e = e\<lparr>en_ue_mac_info := sm_put rnti u (en_ue_mac_info e)\<rparr>"

section \<open>Aggregation level\<close>

definition csi_aggregation :: "flex_cell_config \<Rightarrow> flex_ue_stats_report \<Rightarrow> u8 \<Rightarrow> u8 option" where
  "csi_aggregation c r dflt =
     (case find_csi c r of
        None \<Rightarrow> Some dflt
      | Some i \<Rightarrow> get_aggregation (word_of_int (get_bw_index (to_i32 (uint (cc_dl_bandwidth c)))))
                    (ucast (p10csi_wb_cqi i)) FLDCIF_1)"

section \<open>The groups of a transmission\<close>

definition copy_group :: "u16 \<Rightarrow> u8 \<Rightarrow> ue_scheduling_info \<Rightarrow> nat \<Rightarrow> ue_scheduling_info option" where
  "copy_group cell_id harq_pid s j = do {
     v \<leftarrow> get_rballoc_sub s cell_id j;
     set_rballoc_sub_scheduled cell_id harq_pid j v s }"

definition copy_rballoc :: "flex_cell_config \<Rightarrow> u8 \<Rightarrow> ue_scheduling_info \<Rightarrow> ue_scheduling_info option" where
  "copy_rballoc c harq_pid s = foldo (copy_group (cell_id16 c) harq_pid) s [0..<unat (get_nb_rbg c)]"

text \<open>\<open>nb_rb_tmp\<close> is a \<open>uint16_t\<close>: when it does not hit 0 exactly it wraps and all groups are taken.\<close>

definition group_blocks :: "flex_cell_config \<Rightarrow> nat \<Rightarrow> u16" where
  "group_blocks c j = (if last_short_group c j then get_min_rb_unit c - 1 else get_min_rb_unit c)"

function take_rballoc :: "flex_cell_config \<Rightarrow> u8 \<Rightarrow> u16 \<Rightarrow> nat \<Rightarrow> ue_scheduling_info \<Rightarrow>
    ue_scheduling_info option" where
  "take_rballoc c harq_pid nb_rb_tmp j s =
     (if nb_rb_tmp > 0 \<and> j < unat (get_nb_rbg c)
      then do {
        v \<leftarrow> get_rballoc_sub s (cell_id16 c) j;
        if v = 1
        then do {
          s \<leftarrow> set_rballoc_sub_scheduled (cell_id16 c) harq_pid j v s;
          take_rballoc c harq_pid (nb_rb_tmp - group_blocks c j) (Suc j) s }
        else take_rballoc c harq_pid nb_rb_tmp (Suc j) s }
      else Some s)"
  by pat_completeness auto
termination
  by (relation "measure (\<lambda>(c, p, n, j, s). unat (get_nb_rbg c) - j)") auto

declare take_rballoc.simps [simp del]

definition give_groups :: "flex_cell_config \<Rightarrow> u8 \<Rightarrow> u16 \<Rightarrow> u16 \<Rightarrow> ue_scheduling_info \<Rightarrow>
    ue_scheduling_info option" where
  "give_groups c harq_pid nb_rb available s =
     (if nb_rb = available then copy_rballoc c harq_pid s else take_rballoc c harq_pid nb_rb 0 s)"

section \<open>Retransmission\<close>

definition retransmit :: "flex_cell_config \<Rightarrow> u8 \<Rightarrow> u16 \<Rightarrow> coding \<Rightarrow> coding option" where
  "retransmit c harq_pid nb_available_rb co = do {
     let cell_id = cell_id16 c;
     let s = co_sched co;
     mcs \<leftarrow> get_mcs s cell_id harq_pid;
     nb_rb \<leftarrow> get_nb_rbs_required s cell_id;
     dci_tbs \<leftarrow> get_TBS_DL (word_of_int mcs) nb_rb;
     let vars = (co_vars co)\<lparr>lv_mcs := mcs\<rparr>;
     if nb_rb \<le> nb_available_rb
     then do {
       s \<leftarrow> give_groups c harq_pid nb_rb nb_available_rb s;
       agg \<leftarrow> csi_aggregation c (um_mac_stats_report (co_ue co)) (lv_aggregation vars);
       ndi \<leftarrow> get_ndi s cell_id harq_pid;
       tpc \<leftarrow> get_tpc s cell_id harq_pid;
       Some (co\<lparr>co_tx := Some \<lparr>tx_nb_rb = nb_rb, tx_mcs = mcs, tx_tbs = dci_tbs, tx_ndi = ndi, tx_tpc = uint tpc\<rparr>,
                co_sched := s, co_vars := vars\<lparr>lv_aggregation := agg\<rparr>\<rparr>) }
     else Some (co\<lparr>co_tx := None, co_vars := vars\<rparr>) }"

section \<open>The bytes requested from the logical channels\<close>

text \<open>
  \<open>header_len\<close> counts in 8 bits, \<open>sdu_length_total\<close> in 16. The room left in the transport block is
  computed without sign, so it is positive also when the block is already overrun.
\<close>

record rlc_request =
  rq_header_len :: u8
  rq_header_len_last :: u8
  rq_sdu_length_total :: u16
  rq_pdus :: "flex_rlc_pdu list"

definition rlc_room :: "u32 \<Rightarrow> u8 \<Rightarrow> u8 \<Rightarrow> u16 \<Rightarrow> u32" where
  "rlc_room dci_tbs ta_len header_len sdu = dci_tbs - ucast ta_len - ucast header_len - ucast sdu"

definition request_channel :: "u32 \<Rightarrow> u8 \<Rightarrow> rlc_request \<Rightarrow> flex_rlc_bsr \<Rightarrow> rlc_request \<times> flex_rlc_bsr" where
  "request_channel dci_tbs ta_len q b =
     (let header_len = rq_header_len q + 3;
          room = rlc_room dci_tbs ta_len header_len (rq_sdu_length_total q);
          queued = tx_queue_size b
      in if room > 0
         then if queued > 0
              then let data_to_request = min room queued;
                       tb = \<lparr>tb_logical_channel_id = rb_lc_id b, tb_size = data_to_request\<rparr>
                   in (q\<lparr>rq_header_len := (if data_to_request < 128 then header_len - 1 else header_len),
                         rq_header_len_last := (if data_to_request < 128 then 2 else 3),
                         rq_sdu_length_total := rq_sdu_length_total q + ucast data_to_request,
                         rq_pdus := rq_pdus q @ [[tb, tb]]\<rparr>,
                       b\<lparr>rb_tx_queue_size := Some (queued - data_to_request)\<rparr>)
              else (q\<lparr>rq_header_len := header_len - 3\<rparr>, b)
         else (q\<lparr>rq_header_len := header_len\<rparr>, b))"

fun request_channels :: "u32 \<Rightarrow> u8 \<Rightarrow> rlc_request \<Rightarrow> flex_rlc_bsr list \<Rightarrow> rlc_request \<times> flex_rlc_bsr list" where
  "request_channels dci_tbs ta_len q [] = (q, [])"
| "request_channels dci_tbs ta_len q (b # bs) =
     (let (q, b) = request_channel dci_tbs ta_len q b;
          (q, bs) = request_channels dci_tbs ta_len q bs
      in (q, b # bs))"

definition no_request :: rlc_request where
  "no_request = \<lparr>rq_header_len = 0, rq_header_len_last = 0, rq_sdu_length_total = 0, rq_pdus = []\<rparr>"

text \<open>The correction of the header after the loop: the length field of the last SDU is left out.\<close>

definition final_header_len :: "rlc_request \<Rightarrow> u8" where
  "final_header_len q =
     (let header_len_last = (if rq_header_len q = 0 then 0 else rq_header_len_last q)
      in if rq_header_len q \<noteq> 0 then rq_header_len q - (header_len_last - 1) else rq_header_len q)"

section \<open>Resource blocks and coding scheme\<close>

partial_function (option) fit_blocks :: "flex_cell_config \<Rightarrow> int \<Rightarrow> u16 \<Rightarrow> int \<Rightarrow> u16 \<Rightarrow> u16 \<Rightarrow> (u16 \<times> u16) option" where
  "fit_blocks c mcs nb_available_rb wanted nb_rb TBS =
     (if uint TBS < wanted
      then let nb_rb = nb_rb + get_min_rb_unit c
           in if nb_rb > nb_available_rb
              then do { t \<leftarrow> get_TBS_DL (word_of_int mcs) nb_available_rb; Some (nb_available_rb, ucast t) }
              else do { t \<leftarrow> get_TBS_DL (word_of_int mcs) nb_rb;
                        fit_blocks c mcs nb_available_rb wanted nb_rb (ucast t) }
      else Some (nb_rb, TBS))"

declare fit_blocks.simps [code]

function lower_mcs :: "u16 \<Rightarrow> int \<Rightarrow> int \<Rightarrow> u16 \<Rightarrow> (int \<times> u16) option" where
  "lower_mcs nb_rb wanted mcs_tmp TBS =
     (if uint TBS > wanted \<and> mcs_tmp > 0
      then do { t \<leftarrow> get_TBS_DL (word_of_int (mcs_tmp - 1)) nb_rb;
                lower_mcs nb_rb wanted (mcs_tmp - 1) (ucast t) }
      else Some (mcs_tmp, TBS))"
  by pat_completeness auto
termination
  by (relation "measure (\<lambda>(n, w, mcs, t). nat mcs)") auto

function raise_mcs :: "u16 \<Rightarrow> int \<Rightarrow> int \<Rightarrow> u16 \<Rightarrow> (int \<times> u16) option" where
  "raise_mcs nb_rb wanted mcs_tmp TBS =
     (if uint TBS < wanted \<and> mcs_tmp < 28
      then do { t \<leftarrow> get_TBS_DL (word_of_int (mcs_tmp + 1)) nb_rb;
                raise_mcs nb_rb wanted (mcs_tmp + 1) (ucast t) }
      else Some (mcs_tmp, TBS))"
  by pat_completeness auto
termination
  by (relation "measure (\<lambda>(n, w, mcs, t). nat (28 - mcs))") auto

declare lower_mcs.simps [simp del] raise_mcs.simps [simp del]

definition choose_blocks :: "flex_cell_config \<Rightarrow> int \<Rightarrow> u16 \<Rightarrow> int \<Rightarrow> (u16 \<times> u16) option" where
  "choose_blocks c mcs nb_available_rb wanted = do {
     let nb_rb = (if mcs = 0 then 4 else get_min_rb_unit c);
     t \<leftarrow> get_TBS_DL (word_of_int mcs) nb_rb;
     fit_blocks c mcs nb_available_rb wanted nb_rb (ucast t) }"

definition choose_mcs :: "u16 \<Rightarrow> int \<Rightarrow> int \<Rightarrow> u16 \<Rightarrow> (int \<times> u16) option" where
  "choose_mcs nb_rb wanted mcs TBS = do {
     (mcs_tmp, TBS) \<leftarrow> lower_mcs nb_rb wanted mcs TBS;
     raise_mcs nb_rb wanted mcs_tmp TBS }"

section \<open>PUCCH power control\<close>

text \<open>The first report for the cell that carries a power.\<close>

definition find_pucch :: "u16 \<Rightarrow> flex_ue_stats_report \<Rightarrow> flex_pucch_dbm option" where
  "find_pucch cell_id r =
     List.find (\<lambda>d. pd_serv_cell_index d = ucast cell_id \<and> pd_p0_pucch_dbm d \<noteq> None)
       (uc_pucch_dbm (us_ul_cqi_report r))"

definition x10 :: "frame_t \<Rightarrow> subframe_t \<Rightarrow> int" where
  "x10 frame subframe = uint frame * 10 + uint subframe"

definition tpc_due :: "int \<Rightarrow> int \<Rightarrow> bool" where
  "tpc_due sent now \<longleftrightarrow> sent + 10 \<le> now \<or> sent > now \<and> 10240 - sent + now \<ge> 10"

text \<open>
  The command (0, 1, 2 for -1, 0, +1 dB) and the new value of \<open>tpc_accumulated\<close>, which nothing reads;
  its wrap-around stands for the overflow after \<open>2 ^ 31\<close> commands.
\<close>

definition power_control :: "u16 \<Rightarrow> frame_t \<Rightarrow> subframe_t \<Rightarrow> flex_cell_stats_report \<Rightarrow> flex_ue_stats_report \<Rightarrow>
    ue_scheduling_info \<Rightarrow> int \<Rightarrow> int \<times> ue_scheduling_info \<times> int" where
  "power_control cell_id target_frame target_subframe cell_report r s acc =
     (let target_rx_power = to_i16 (ni_p0_nominal_pucch (ce_noise_inter_report cell_report) + 20);
          sent = x10 (si_pucch_tpc_tx_frame s) (si_pucch_tpc_tx_subframe s)
      in if tpc_due sent (x10 target_frame target_subframe)
         then case find_pucch cell_id r of
                None \<Rightarrow> (1, s, acc)
              | Some d \<Rightarrow>
                  if pd_p0_pucch_updated d = 1
                  then let normalized_rx_power = to_i16 (the (pd_p0_pucch_dbm d));
                           s = set_pucch_tpc_tx target_frame target_subframe s
                       in if normalized_rx_power > target_rx_power + 1 then (0, s, to_i32 (acc - 1))
                          else if normalized_rx_power < target_rx_power - 1 then (2, s, to_i32 (acc + 1))
                          else (1, s, acc)
                  else (1, s, acc)
         else (1, s, acc))"

section \<open>New transmission\<close>

definition ta_update :: "flex_ue_stats_report \<Rightarrow> ue_scheduling_info \<Rightarrow> u8 \<times> ue_scheduling_info" where
  "ta_update r s =
     (if si_ta_timer s = 0
      then if us_pending_mac_ces r AND FLPCET_TA \<noteq> 0 then (2, set_ta_timer 20 s) else (0, s)
      else (0, decr_ta_timer s))"

text \<open>The payload is known: blocks, groups, coding scheme, power control and the new-data indicator.\<close>

definition code_payload :: "flex_cell_config \<Rightarrow> frame_t \<Rightarrow> subframe_t \<Rightarrow> u8 \<Rightarrow> u16 \<Rightarrow> int \<Rightarrow> enb_rib_info \<Rightarrow>
    coding \<Rightarrow> coding option" where
  "code_payload c target_frame target_subframe harq_pid nb_available_rb wanted e co = do {
     let cell_id = cell_id16 c;
     let mcs = lv_mcs (co_vars co);
     (nb_rb, TBS) \<leftarrow> choose_blocks c mcs nb_available_rb wanted;
     s \<leftarrow> give_groups c harq_pid nb_rb nb_available_rb (co_sched co);
     (mcs, TBS) \<leftarrow> choose_mcs nb_rb wanted mcs TBS;
     s \<leftarrow> set_mcs cell_id harq_pid mcs s;
     s \<leftarrow> set_nb_scheduled_rbs cell_id harq_pid nb_rb s;
     cell \<leftarrow> get_cell_mac_rib_info e cell_id;
     let (tpc, s, acc) = power_control cell_id target_frame target_subframe (cm_cell_stats_report cell)
           (um_mac_stats_report (co_ue co)) s (lv_tpc_accumulated (co_vars co));
     s \<leftarrow> toggle_ndi cell_id harq_pid s;
     ndi \<leftarrow> get_ndi s cell_id harq_pid;
     s \<leftarrow> set_tpc cell_id harq_pid (word_of_int tpc) s;
     Some (co\<lparr>co_tx := Some \<lparr>tx_nb_rb = nb_rb, tx_mcs = mcs, tx_tbs = ucast TBS, tx_ndi = ndi, tx_tpc = tpc\<rparr>,
              co_sched := s, co_vars := (co_vars co)\<lparr>lv_mcs := mcs, lv_tpc_accumulated := acc\<rparr>\<rparr>) }"

definition new_transmission :: "flex_cell_config \<Rightarrow> frame_t \<Rightarrow> subframe_t \<Rightarrow> u8 \<Rightarrow> u16 \<Rightarrow> enb_rib_info \<Rightarrow>
    coding \<Rightarrow> coding option" where
  "new_transmission c target_frame target_subframe harq_pid nb_available_rb e co = do {
     let r = um_mac_stats_report (co_ue co);
     t \<leftarrow> get_TBS_DL (word_of_int (lv_mcs (co_vars co))) nb_available_rb;
     let dci_tbs = (ucast (ucast t :: u16) :: u32);
     let (ta_len, s) = ta_update r (co_sched co);
     let vars = (if ta_len > 0 then (co_vars co)\<lparr>lv_ce_flags := lv_ce_flags (co_vars co) OR FLPCET_TA\<rparr>
                 else co_vars co);
     let (q, bs) = request_channels dci_tbs ta_len no_request (us_rlc_report r);
     let u = (co_ue co)\<lparr>um_mac_stats_report := r\<lparr>us_rlc_report := bs\<rparr>\<rparr>;
     let co = co\<lparr>co_tx := None, co_ue := u, co_sched := s, co_vars := vars, co_pdus := rq_pdus q\<rparr>;
     if rq_pdus q \<noteq> []
     then code_payload c target_frame target_subframe harq_pid nb_available_rb
            (uint (rq_sdu_length_total q) + uint (final_header_len q) + uint ta_len) e co
     else Some co }"

section \<open>One UE\<close>

definition dci_of :: "flex_ue_config \<Rightarrow> u8 \<Rightarrow> u8 \<Rightarrow> u8 \<Rightarrow> transmission \<Rightarrow> u32 \<Rightarrow> flex_dl_dci" where
  "dci_of ue harq_pid round aggregation t bitmap =
     \<lparr>dci_rnti = uc_rnti ue, dci_res_alloc = 0, dci_rb_bitmap = bitmap, dci_rb_shift = 0,
      dci_tbs_size = [tx_tbs t], dci_mcs = [word_of_int (tx_mcs t)], dci_ndi = [ucast (tx_ndi t)],
      dci_rv = [ucast (round mod 4)], dci_aggr_level = ucast aggregation, dci_format = FLDCIF_1,
      dci_tpc = word_of_int (tx_tpc t), dci_harq_process = ucast harq_pid,
      dci_vrb_format = FLVRBF_LOCALIZED\<rparr>"

text \<open>The end of the loop body: the records are written back, the data element completed or removed.\<close>

definition finish_ue :: "flex_cell_config \<Rightarrow> flex_ue_config \<Rightarrow> u8 \<Rightarrow> u8 \<Rightarrow> coding \<Rightarrow> flex_state \<Rightarrow> flex_state option" where
  "finish_ue c ue harq_pid round co st =
     (let cell_id = cell_id16 c; rnti = uc_rnti ue; vars = co_vars co;
          sched = put_ue_sched rnti (co_sched co) (fl_sched st)
      in case co_tx co of
           None \<Rightarrow> Some (st\<lparr>fl_enb := put_ue_mac rnti (co_ue co) (fl_enb st), fl_sched := sched, fl_vars := vars\<rparr>)
         | Some t \<Rightarrow> do {
             u \<leftarrow> harq_scheduled (co_ue co) cell_id harq_pid;
             sched \<leftarrow> assign_CCE cell_id (2 ^ unat (lv_aggregation vars)) sched;
             rballoc \<leftarrow> get_rballoc_sub_scheduled (co_sched co) cell_id harq_pid;
             bitmap \<leftarrow> allocate_prbs_sub (uint (tx_nb_rb t)) rballoc c;
             let data = \<lparr>dd_rnti = rnti, dd_dl_dci = Some (dci_of ue harq_pid round (lv_aggregation vars) t bitmap),
                         dd_ce_bitmap = [lv_ce_flags vars, lv_ce_flags vars], dd_rlc_pdu = co_pdus co,
                         dd_serv_cell_index = ucast cell_id\<rparr>;
             Some (st\<lparr>fl_enb := put_ue_mac rnti u (fl_enb st), fl_sched := sched, fl_vars := vars,
                      fl_data := fl_data st @ [data]\<rparr>) })"

definition transmit_ue :: "flex_cell_config \<Rightarrow> frame_t \<Rightarrow> subframe_t \<Rightarrow> flex_ue_config \<Rightarrow> ue_mac_rib_info \<Rightarrow>
    ue_scheduling_info \<Rightarrow> u16 \<Rightarrow> flex_state \<Rightarrow> flex_state option" where
  "transmit_ue c target_frame target_subframe ue u s nb_available_rb st = do {
     let cell_id = cell_id16 c;
     pid \<leftarrow> get_next_available_harq u cell_id;
     let harq_pid = (word_of_int pid :: u8);
     round \<leftarrow> get_harq_stats u cell_id (unat harq_pid);
     mcs \<leftarrow> csi_mcs c (um_mac_stats_report u) (lv_mcs (fl_vars st));
     let co = \<lparr>co_tx = None, co_ue = u, co_sched = s, co_vars = (fl_vars st)\<lparr>lv_mcs := mcs\<rparr>, co_pdus = []\<rparr>;
     co \<leftarrow> (if round > 0 then retransmit c harq_pid nb_available_rb co
            else new_transmission c target_frame target_subframe harq_pid nb_available_rb (fl_enb st) co);
     finish_ue c ue harq_pid round co st }"

definition schedule_ue :: "flex_cell_config \<Rightarrow> frame_t \<Rightarrow> subframe_t \<Rightarrow> flex_state \<Rightarrow> flex_ue_config \<Rightarrow>
    flex_state option" where
  "schedule_ue c target_frame target_subframe st ue =
     (if uc_pcell_carrier_index ue \<noteq> ucast (cell_id16 c) then Some st
      else case get_ue_mac_info (fl_enb st) (uc_rnti ue) of
        None \<Rightarrow> Some st
      | Some u \<Rightarrow> do {
          agg \<leftarrow> csi_aggregation c (um_mac_stats_report u) (lv_aggregation (fl_vars st));
          (infeasible, sched) \<leftarrow> CCE_allocation_infeasible c ue agg target_subframe (fl_sched st);
          let st = st\<lparr>fl_sched := sched, fl_vars := (fl_vars st)\<lparr>lv_aggregation := agg\<rparr>\<rparr>;
          if infeasible then Some st
          else do {
            avail \<leftarrow> has_available_harq u (cell_id16 c);
            if \<not> avail then Some st
            else do {
              s \<leftarrow> get_ue_scheduling_info sched (uc_rnti ue);
              nb_available_rb \<leftarrow> get_pre_nb_rbs_available s (cell_id16 c);
              if nb_available_rb = 0 then Some st
              else transmit_ue c target_frame target_subframe ue u s nb_available_rb st } } })"

end
