(* ===== verification/UeBlocks.thy ===== *)
theory UeBlocks
  imports RbgExclusive FlexUe
begin

text \<open>
  What a UE's record says during a scheduling round, and that it stays true: the blocks counted for the
  UE are those of the groups it holds, the numbers of blocks stay in the table of transport block sizes,
  and a transmission is coded only onto groups the UE holds.
\<close>

section \<open>The blocks of the groups a UE holds\<close>

definition blocks_held :: "flex_cell_config \<Rightarrow> u8 list \<Rightarrow> nat \<Rightarrow> nat" where
  "blocks_held c row k = (\<Sum>i < k. if row ! i \<noteq> 0 then unat (group_blocks c i) else 0)"

lemma group_blocks_value:
  "unat (group_blocks c i) =
     (if last_short_group c i then unat (get_min_rb_unit c) - 1 else unat (get_min_rb_unit c))"
  using min_rb_unit_range [of c] by (auto simp: group_blocks_def)

lemma group_blocks_uint:
  "uint (group_blocks c i) = uint (get_min_rb_unit c) - (if last_short_group c i then 1 else 0)"
  using min_rb_unit_range [of c] by (auto simp: group_blocks_def)

lemma blocks_held_bound: "blocks_held c row (unat (get_nb_rbg c)) \<le> 100"
proof -
  have "blocks_held c row (unat (get_nb_rbg c)) \<le> (\<Sum>i < unat (get_nb_rbg c). unat (group_blocks c i))"
    unfolding blocks_held_def by (rule sum_mono) simp
  also have "\<dots> \<le> 100"
  proof -
    consider "cc_dl_bandwidth c = 25" | "cc_dl_bandwidth c = 50"
      | "cc_dl_bandwidth c \<noteq> 25" "cc_dl_bandwidth c \<noteq> 50" by blast
    then show ?thesis
    proof cases
      case 1
      then show ?thesis
        by (simp add: group_blocks_value last_short_group_def get_nb_rbg_def get_min_rb_unit_def lessThan_nat_numeral lessThan_Suc)
    next
      case 2
      then show ?thesis
        by (simp add: group_blocks_value last_short_group_def get_nb_rbg_def get_min_rb_unit_def lessThan_nat_numeral lessThan_Suc)
    next
      case 3
      then have "(\<Sum>i < unat (get_nb_rbg c). unat (group_blocks c i)) = unat (get_nb_rbg c) * unat (get_min_rb_unit c)"
        by (simp add: group_blocks_value last_short_group_def)
      then show ?thesis using 3 by (simp add: get_nb_rbg_def get_min_rb_unit_def Let_def)
    qed
  qed
  finally show ?thesis .
qed

lemma blocks_held_take:
  assumes "i < k" and "row ! i = 0" and "k \<le> length row"
  shows "blocks_held c (row[i := 1]) k = blocks_held c row k + unat (group_blocks c i)"
proof -
  have "blocks_held c r k = (if r ! i \<noteq> 0 then unat (group_blocks c i) else 0) +
      (\<Sum>j \<in> {..<k} - {i}. if r ! j \<noteq> 0 then unat (group_blocks c j) else 0)" for r
    unfolding blocks_held_def by (rule sum.remove) (use assms(1) in auto)
  from this [of "row[i := 1]"] this [of row] show ?thesis
    using assms by simp
qed

section \<open>The invariant of a record\<close>

definition blocks_ok :: "ue_scheduling_info \<Rightarrow> bool" where
  "blocks_ok s \<longleftrightarrow> ue_sched_wf s \<and>
     (\<forall>k < MAX_NUM_CC. \<forall>p < MAX_NUM_HARQ. unat (si_nb_scheduled_rbs s ! k ! p) \<le> 110)"

definition ue_fits :: "flex_cell_config \<Rightarrow> ue_scheduling_info \<Rightarrow> bool" where
  "ue_fits c s \<longleftrightarrow> blocks_ok s \<and>
     (let k = unat (cell_id16 c); row = si_rballoc_sub s ! k
      in (\<forall>i < N_RBG_MAX. row ! i = 0 \<or> row ! i = 1) \<and>
         unat (si_pre_nb_rbs_available s ! k) = blocks_held c row (unat (get_nb_rbg c)) \<and>
         unat (si_nb_rbs_required s ! k) \<le> 110 \<and>
         (\<forall>p < MAX_NUM_HARQ. \<forall>i < N_RBG_MAX. si_rballoc_sub_scheduled s ! k ! p ! i \<noteq> 0 \<longrightarrow>
            si_rballoc_sub_scheduled s ! k ! p ! i = 1 \<and> row ! i = 1))"

lemma ue_fitsD:
  assumes "ue_fits c s"
  shows "blocks_ok s" and "ue_sched_wf s"
    and "i < N_RBG_MAX \<Longrightarrow> si_rballoc_sub s ! unat (cell_id16 c) ! i \<noteq> 0 \<Longrightarrow> si_rballoc_sub s ! unat (cell_id16 c) ! i = 1"
    and "unat (si_pre_nb_rbs_available s ! unat (cell_id16 c)) =
         blocks_held c (si_rballoc_sub s ! unat (cell_id16 c)) (unat (get_nb_rbg c))"
    and "unat (si_nb_rbs_required s ! unat (cell_id16 c)) \<le> 110"
    and "p < MAX_NUM_HARQ \<Longrightarrow> i < N_RBG_MAX \<Longrightarrow> si_rballoc_sub_scheduled s ! unat (cell_id16 c) ! p ! i \<noteq> 0 \<Longrightarrow>
         si_rballoc_sub_scheduled s ! unat (cell_id16 c) ! p ! i = 1 \<and> owns c s i"
    and "unat (si_pre_nb_rbs_available s ! unat (cell_id16 c)) \<le> 100"
  using assms blocks_held_bound by (auto simp: ue_fits_def blocks_ok_def Let_def owns_def)

lemma blocks_okD: "blocks_ok s \<Longrightarrow> k < 2 \<Longrightarrow> p < 8 \<Longrightarrow> unat (si_nb_scheduled_rbs s ! k ! p) \<le> 110"
  by (simp add: blocks_ok_def)

lemma fits_new: "unat (cell_id16 c) < MAX_NUM_CC \<Longrightarrow> ue_fits c (new_ue_scheduling_info r)"
  using nb_rbg_le [of c]
  by (simp add: ue_fits_def blocks_ok_def ue_sched_wf_new)
     (simp add: new_ue_scheduling_info_def blocks_held_def nth_Cons')

lemma fits_round:
  "unat (cell_id16 c) < MAX_NUM_CC \<Longrightarrow> blocks_ok s \<Longrightarrow> ue_fits c (ue_start_new_scheduling_round s)"
  using nb_rbg_le [of c]
  by (simp add: ue_fits_def blocks_ok_def ue_sched_wf_round)
     (simp add: ue_start_new_scheduling_round_def blocks_held_def nth_Cons')

text \<open>The fields the invariant speaks of; most operations leave them alone.\<close>

definition fit_fields :: "ue_scheduling_info \<Rightarrow>
    u8 list list \<times> u8 list list list \<times> u16 list \<times> u16 list \<times> u16 list list" where
  "fit_fields s = (si_rballoc_sub s, si_rballoc_sub_scheduled s, si_pre_nb_rbs_available s,
     si_nb_rbs_required s, si_nb_scheduled_rbs s)"

lemma fits_same: "ue_fits c s \<Longrightarrow> ue_sched_wf s' \<Longrightarrow> fit_fields s' = fit_fields s \<Longrightarrow> ue_fits c s'"
  by (auto simp: ue_fits_def blocks_ok_def fit_fields_def Let_def)

lemma fit_fields_setters:
  "set_harq_round k h r s = Some s' \<Longrightarrow> fit_fields s' = fit_fields s"
  "set_nb_rbs_required_remaining k n s = Some s' \<Longrightarrow> fit_fields s' = fit_fields s"
  "set_nb_rbs_required_remaining1 k n s = Some s' \<Longrightarrow> fit_fields s' = fit_fields s"
  "set_mcs k p m s = Some s' \<Longrightarrow> fit_fields s' = fit_fields s"
  "toggle_ndi k p s = Some s' \<Longrightarrow> fit_fields s' = fit_fields s"
  "set_tpc k p t s = Some s' \<Longrightarrow> fit_fields s' = fit_fields s"
  "fit_fields (decr_ta_timer s) = fit_fields s"
  "fit_fields (set_ta_timer v s) = fit_fields s"
  "fit_fields (set_pucch_tpc_tx f sf s) = fit_fields s"
  by (auto simp: fit_fields_def ue_setter_defs Option.bind_eq_Some_conv decr_ta_timer_def set_ta_timer_def
      set_pucch_tpc_tx_def)

lemma fits_simple:
  assumes "ue_fits c s"
  shows "set_harq_round k h r s = Some s' \<Longrightarrow> ue_fits c s'"
    and "set_nb_rbs_required_remaining k n s = Some s' \<Longrightarrow> ue_fits c s'"
    and "set_nb_rbs_required_remaining1 k n s = Some s' \<Longrightarrow> ue_fits c s'"
    and "set_mcs k p m s = Some s' \<Longrightarrow> ue_fits c s'"
    and "toggle_ndi k p s = Some s' \<Longrightarrow> ue_fits c s'"
    and "set_tpc k p t s = Some s' \<Longrightarrow> ue_fits c s'"
    and "ue_fits c (decr_ta_timer s)" and "ue_fits c (set_ta_timer v s)" and "ue_fits c (set_pucch_tpc_tx f sf s)"
  using fits_same [OF assms] fit_fields_setters ue_sched_wf_set ue_sched_wf_simple ue_fitsD(2) [OF assms] by metis+

lemma fits_required:
  assumes "ue_fits c s" and "set_nb_rbs_required (cell_id16 c) n s = Some s'" and "unat n \<le> 110"
  shows "ue_fits c s'"
  using assms ue_sched_wf_set(2) [OF assms(2) ue_fitsD(2) [OF assms(1)]]
  by (auto simp: ue_fits_def blocks_ok_def Let_def set_nb_rbs_required_def Option.bind_eq_Some_conv access_iffs)

lemma fits_scheduled:
  assumes "ue_fits c s" and "set_nb_scheduled_rbs k p n s = Some s'" and "unat n \<le> 110"
  shows "ue_fits c s'"
  using assms ue_sched_wf_set(6) [OF assms(2) ue_fitsD(2) [OF assms(1)]]
  by (auto simp: ue_fits_def blocks_ok_def Let_def set_nb_scheduled_rbs_def Option.bind_eq_Some_conv access_iffs
      nth_list_update)

lemma fits_assign:
  assumes "ue_fits c s" and "assign_rbs_required c lc u s = Some s'" and "unat (cell_id16 c) < MAX_NUM_CC"
    and "unat (cc_dl_bandwidth c) \<le> 110" and "csi_mcs c (um_mac_stats_report u) 0 = Some mcs"
  shows "ue_fits c s'"
proof -
  obtain h n where "ue_sched_wf s'" "n \<le> 110"
    "s' = s\<lparr>si_high_priority := h\<rparr> \<or>
     s' = s\<lparr>si_high_priority := h, si_nb_rbs_required := (si_nb_rbs_required s)[unat (cell_id16 c) := of_nat n]\<rparr>"
    using assign_rbs_required_spec [OF assms(4,3) ue_fitsD(2) [OF assms(1)] assms(5), of lc] assms(2) by auto
  moreover from this have "unat (of_nat n :: u16) \<le> 110" by (simp add: unsigned_of_nat take_bit_nat_eq_self)
  moreover have "length (si_nb_rbs_required s) = 2" using ue_fitsD(2) [OF assms(1)] by (simp add: arr_simps)
  ultimately show ?thesis
    using assms(1,3) by (auto simp: ue_fits_def blocks_ok_def Let_def)
qed

section \<open>The allocation of a group keeps the count\<close>

lemma take_group_result:
  assumes "take_group k i blocks (e, s) = Some (e', s')" and "ue_sched_wf s"
  shows "si_rballoc_sub s' = (si_rballoc_sub s)[unat k := (si_rballoc_sub s ! unat k)[i := 1]]"
    and "si_pre_nb_rbs_available s' =
         (si_pre_nb_rbs_available s)[unat k := word_of_int (uint (si_pre_nb_rbs_available s ! unat k) + blocks)]"
    and "si_rballoc_sub_scheduled s' = si_rballoc_sub_scheduled s"
    and "si_nb_rbs_required s' = si_nb_rbs_required s" and "si_nb_scheduled_rbs s' = si_nb_scheduled_rbs s"
    and "ue_sched_wf s'"
    and "es_num_pdcch_symbols e' = es_num_pdcch_symbols e" and "es_nCCE_rem e' = es_nCCE_rem e"
    and "es_scheduling_info e' = es_scheduling_info e"
  using assms
  by (auto simp: take_group_def Let_def ue_setter_defs ue_getter_defs toggle_vrb_map_def Option.bind_eq_Some_conv
      access_iffs ue_sched_wf_def intro: dim2_write)

lemma fits_take:
  assumes "ue_fits c s" and "take_group (cell_id16 c) i (uint (group_blocks c i)) (e, s) = Some (e', s')"
    and "si_rballoc_sub s ! unat (cell_id16 c) ! i = 0" and "i < unat (get_nb_rbg c)"
    and "unat (cell_id16 c) < MAX_NUM_CC"
  shows "ue_fits c s'"
proof -
  let ?k = "unat (cell_id16 c)" and ?N = "unat (get_nb_rbg c)"
  let ?row = "si_rballoc_sub s ! ?k" and ?av = "si_pre_nb_rbs_available s ! ?k"
  note wf = ue_fitsD(2) [OF assms(1)] and R = take_group_result [OF assms(2) ue_fitsD(2) [OF assms(1)]]
  have len: "length ?row = 25" "length (si_rballoc_sub s) = 2" "length (si_pre_nb_rbs_available s) = 2"
    using wf assms(5) by (simp_all add: arr_simps)
  have sum: "blocks_held c (?row[i := 1]) ?N = unat ?av + unat (group_blocks c i)"
    using blocks_held_take [of i ?N ?row c] assms(3,4) nb_rbg_le [of c] len ue_fitsD(4) [OF assms(1)] by simp
  have "uint ?av + uint (group_blocks c i) = int (unat ?av + unat (group_blocks c i))"
    by (metis of_nat_add uint_nat)
  moreover have "unat ?av + unat (group_blocks c i) \<le> 100" unfolding sum [symmetric] by (rule blocks_held_bound)
  ultimately have "unat (word_of_int (uint ?av + uint (group_blocks c i)) :: u16) = unat ?av + unat (group_blocks c i)"
    by (simp add: unsigned_of_nat take_bit_nat_eq_self del: of_nat_add)
  then have av: "unat (si_pre_nb_rbs_available s' ! ?k) = blocks_held c (si_rballoc_sub s' ! ?k) ?N"
    using assms(5) len sum by (simp add: R(1,2))
  have row: "si_rballoc_sub s' ! ?k ! j = (if j = i then 1 else ?row ! j)" if "j < N_RBG_MAX" for j
    using that assms(5) len by (simp add: R(1) nth_list_update)
  show ?thesis
    using assms(1) R(3-6) unfolding ue_fits_def blocks_ok_def Let_def by (simp add: av row)
qed

lemma fits_alloc_step:
  assumes "ue_fits c s" and "alloc_step c (e, s) i = Some (e', s')" and "i < unat (get_nb_rbg c)"
    and "unat (cell_id16 c) < MAX_NUM_CC"
  shows "ue_fits c s' \<and> es_num_pdcch_symbols e' = es_num_pdcch_symbols e \<and> es_nCCE_rem e' = es_nCCE_rem e \<and>
     es_scheduling_info e' = es_scheduling_info e"
proof (cases "(e', s') = (e, s)")
  case True
  then show ?thesis using assms(1) by simp
next
  case False
  then have "take_group (cell_id16 c) i (uint (group_blocks c i)) (e, s) = Some (e', s')"
    "get_rballoc_sub s (cell_id16 c) i = Some 0"
    using assms(2) by (auto simp: alloc_step_def Let_def Option.bind_eq_Some_conv group_blocks_uint split: if_splits)
  then show ?thesis
    using fits_take [OF assms(1) _ _ assms(3,4)] take_group_result [OF _ ue_fitsD(2) [OF assms(1)]]
    by (auto simp: get_rballoc_sub_def access_iffs)
qed

section \<open>The preprocessor keeps the invariant\<close>

definition cce_fields :: "enb_scheduling_info \<Rightarrow> u8 list \<times> u32 list" where
  "cce_fields e = (es_num_pdcch_symbols e, es_nCCE_rem e)"

text \<open>The records of the UEs in \<open>R\<close> are those of the current round; the control region stands at \<open>q\<close>.\<close>

definition sched_fits :: "flex_cell_config \<Rightarrow> u8 list \<times> u32 list \<Rightarrow> rnti_t set \<Rightarrow> enb_scheduling_info \<Rightarrow> bool" where
  "sched_fits c q R e \<longleftrightarrow> enb_sched_wf e \<and> cce_fields e = q \<and>
     (\<forall>r s. get_ue_scheduling_info e r = Some s \<longrightarrow> blocks_ok s \<and> (r \<in> R \<longrightarrow> ue_fits c s))"

lemma sched_fitsD:
  assumes "sched_fits c q R e"
  shows "enb_sched_wf e" and "cce_fields e = q"
    and "get_ue_scheduling_info e r = Some s \<Longrightarrow> blocks_ok s"
    and "get_ue_scheduling_info e r = Some s \<Longrightarrow> r \<in> R \<Longrightarrow> ue_fits c s"
  using assms by (auto simp: sched_fits_def)

lemma cce_fields_put [simp]: "cce_fields (put_ue_sched r s e) = cce_fields e"
  by (simp add: cce_fields_def put_ue_sched_def)

lemma sched_fits_put:
  "sched_fits c q R e \<Longrightarrow> ue_fits c s \<Longrightarrow> sched_fits c q (insert r R) (put_ue_sched r s e)"
  using enb_sched_wf_put [of e s r] ue_fitsD(1,2) [of c s]
  by (auto simp: sched_fits_def get_put split: if_splits)

lemma sched_fits_fresh:
  assumes "sched_fits c q R e" and "unat (cell_id16 c) < MAX_NUM_CC"
  shows "sched_fits c q (insert r R) (fresh_sched r e)"
  using sched_fits_put [OF assms(1)] fits_new [OF assms(2)] fits_round [OF assms(2)] sched_fitsD(3) [OF assms(1)]
  by (auto simp: fresh_sched_def create_is_put split: option.split)

lemma with_sched_fits:
  assumes "with_sched r f e = Some e'" and "sched_fits c q R e" and "r \<in> R"
    and "\<And>s s'. ue_fits c s \<Longrightarrow> f s = Some s' \<Longrightarrow> ue_fits c s'"
  shows "sched_fits c q R e'"
proof -
  obtain s s' where s: "get_ue_scheduling_info e r = Some s" "f s = Some s'" "e' = put_ue_sched r s' e"
    using assms(1) by (auto simp: with_sched_def Option.bind_eq_Some_conv)
  have "ue_fits c s'" by (rule assms(4) [OF sched_fitsD(4) [OF assms(2) s(1) assms(3)] s(2)])
  from sched_fits_put [OF assms(2) this, of r] show ?thesis by (simp add: s(3) insert_absorb [OF assms(3)])
qed

lemma for_cell_ues_invariant:
  assumes "for_cell_ues c e f order st = Some st'" and "I st"
    and "\<And>ue st st'. ue \<in> set (cell_ues c e) \<Longrightarrow> I st \<Longrightarrow> f ue st = Some st' \<Longrightarrow> I st'"
  shows "I st'"
proof (rule foldo_invariant [where I = I, OF assms(1) [unfolded for_cell_ues_def] assms(2)])
  fix st i st'
  let ?ue = "ue_configs e ! nat i"
  assume "I st" and "do {
       ue \<leftarrow> aget (ue_configs e) (nat i);
       if uc_pcell_carrier_index ue = ucast (cell_id16 c) then f ue st else Some st } = Some st'"
  then show "I st'" using assms(3) [of ?ue st st'] by (auto simp: cell_ues_def access_iffs Option.bind_eq_Some_conv split: if_splits)
qed

lemma foldo_grow:
  assumes "foldo f st xs = Some st'" and "P R st"
    and "\<And>R st x st'. x \<in> set xs \<Longrightarrow> P R st \<Longrightarrow> f st x = Some st' \<Longrightarrow> P (R \<union> g x) st'"
  shows "P (R \<union> \<Union> (g ` set xs)) st'"
  using assms
proof (induction xs arbitrary: R st)
  case (Cons x xs)
  obtain st1 where st1: "f st x = Some st1" "foldo f st1 xs = Some st'"
    using Cons.prems(1) by (auto simp: Option.bind_eq_Some_conv)
  have "P (R \<union> g x) st1" by (rule Cons.prems(3) [OF _ Cons.prems(2) st1(1)]) simp
  from Cons.IH [OF st1(2) this] Cons.prems(3) show ?case by (simp add: Un_assoc)
qed simp

lemma for_cell_ues_grow:
  assumes "for_cell_ues c e f (map int [0..<length (ue_configs e)]) st = Some st'" and "P {} st"
    and "\<And>R ue st st'. ue \<in> set (cell_ues c e) \<Longrightarrow> P R st \<Longrightarrow> f ue st = Some st' \<Longrightarrow> P (insert (uc_rnti ue) R) st'"
  shows "P (cell_rntis c e) st'"
proof -
  let ?here = "\<lambda>i. uc_pcell_carrier_index (ue_configs e ! nat i) = ucast (cell_id16 c)"
  let ?g = "\<lambda>i. if ?here i then {uc_rnti (ue_configs e ! nat i)} else {}"
  have "P ({} \<union> \<Union> (?g ` set (map int [0..<length (ue_configs e)]))) st'"
  proof (rule foldo_grow [where P = P and g = ?g, OF assms(1) [unfolded for_cell_ues_def] assms(2)])
    fix R st i st'
    assume "P R st" and "do {
       ue \<leftarrow> aget (ue_configs e) (nat i);
       if uc_pcell_carrier_index ue = ucast (cell_id16 c) then f ue st else Some st } = Some st'"
    then show "P (R \<union> ?g i) st'"
      using assms(3) [of "ue_configs e ! nat i" R st st']
      by (auto simp: cell_ues_def access_iffs Option.bind_eq_Some_conv split: if_splits)
  qed
  moreover have "\<Union> (?g ` set (map int [0..<length (ue_configs e)])) = cell_rntis c e"
    unfolding cell_rntis_def cell_ues_def by (rule union_by_index)
  ultimately show ?thesis by simp
qed

lemma prepare_ue_fits:
  assumes "prepare_ue c e ue sched = Some sched'" and "sched_fits c q R sched" and "cell_ready c e"
    and "ue \<in> set (cell_ues c e)"
  shows "sched_fits c q (insert (uc_rnti ue) R) sched'"
proof -
  note C = cell_readyD [OF assms(3)]
  note fresh = sched_fits_fresh [OF assms(2) C(1), of "uc_rnti ue"]
  show ?thesis
  proof (cases "List.find (\<lambda>lc. lu_rnti lc = uc_rnti ue) (lc_configs e)")
    case None
    then show ?thesis using assms(1) fresh by (simp add: prepare_ue_def Let_def)
  next
    case (Some lc)
    obtain u where u: "get_ue_mac_info e (uc_rnti ue) = Some u"
      using cell_ready_ue [OF assms(3) cell_ues_sub [OF assms(4)]] by blast
    then obtain mcs where mcs: "csi_mcs c (um_mac_stats_report u) 0 = Some mcs"
      using assms(3,4) by (auto simp: cell_ready_def)
    have "with_sched (uc_rnti ue) (\<lambda>s. assign_rbs_required c lc u s) (fresh_sched (uc_rnti ue) sched) = Some sched'"
      using assms(1) Some u by (simp add: prepare_ue_def Let_def)
    from with_sched_fits [OF this fresh insertI1] fits_assign [OF _ _ C(1,2) mcs] show ?thesis by blast
  qed
qed

lemma count_ue_fits:
  assumes "count_ue c e ue (sched, n) = Some (sched', n')" and "sched_fits c q R sched" and "uc_rnti ue \<in> R"
    and "unat (cell_id16 c) < MAX_NUM_CC"
  shows "sched_fits c q R sched'"
proof -
  let ?f = "\<lambda>pid round s. do {
         s \<leftarrow> set_harq_round (cell_id16 c) (nat pid) round s;
         if round > 0
         then do { n \<leftarrow> get_nb_scheduled_rbs s (cell_id16 c) (word_of_int pid);
                   set_nb_rbs_required (cell_id16 c) n s }
         else set_nb_scheduled_rbs (cell_id16 c) (word_of_int pid) 0 s }"
  have f: "ue_fits c s'" if s: "ue_fits c s" and run: "?f pid round s = Some s'" for pid round s s'
  proof -
    obtain s1 where s1: "set_harq_round (cell_id16 c) (nat pid) round s = Some s1"
      using run by (auto simp: Option.bind_eq_Some_conv)
    note fit1 = fits_simple(1) [OF s s1]
    have small: "unat n \<le> 110" if "get_nb_scheduled_rbs s1 (cell_id16 c) p = Some n" for n p
      using that blocks_okD [OF ue_fitsD(1) [OF fit1], of "unat (cell_id16 c)" "unat p"] assms(4) ue_fitsD(2) [OF fit1]
      by (auto simp: get_nb_scheduled_rbs_def access_iffs arr_simps split: if_splits)
    show ?thesis
      using run s1 fits_required [OF fit1] fits_scheduled [OF fit1] small
      by (auto simp: Option.bind_eq_Some_conv split: if_splits)
  qed
  show ?thesis
  proof (cases "sched' = sched")
    case True
    then show ?thesis using assms(2) by simp
  next
    case False
    then obtain pid round where "with_sched (uc_rnti ue) (?f pid round) sched = Some sched'"
      using assms(1) by (auto simp: count_ue_def Let_def Option.bind_eq_Some_conv split: if_splits)
    from with_sched_fits [OF this assms(2,3) f] show ?thesis .
  qed
qed

lemma demand_ue_fits:
  assumes "demand_ue c average ue sched = Some sched'" and "sched_fits c q R sched" and "uc_rnti ue \<in> R"
  shows "sched_fits c q R sched'"
  by (rule with_sched_fits [OF assms(1) [unfolded demand_ue_def] assms(2,3)])
     (auto simp: Option.bind_eq_Some_conv split: if_splits dest: fits_simple(3))

lemma remaining_ue_fits:
  assumes "remaining_ue c r1 ue sched = Some sched'" and "sched_fits c q R sched" and "uc_rnti ue \<in> R"
  shows "sched_fits c q R sched'"
  by (rule with_sched_fits [OF assms(1) [unfolded remaining_ue_def Let_def] assms(2,3)])
     (auto simp: Option.bind_eq_Some_conv split: if_splits dest: fits_simple(2))

lemma allocate_ue_fits:
  assumes "allocate_ue c high ue sched = Some sched'" and "sched_fits c q R sched" and "uc_rnti ue \<in> R"
    and "unat (cell_id16 c) < MAX_NUM_CC" and "rbg_excl c R sched"
  shows "sched_fits c q R sched'"
proof (cases "sched' = sched")
  case False
  let ?r = "uc_rnti ue"
  obtain s sched1 s1 where s: "get_ue_scheduling_info sched ?r = Some s"
    and run: "perform_pre_processor_allocation c (sched, s) = Some (sched1, s1)"
    and res: "sched' = put_ue_sched ?r s1 sched1"
    using assms(1) False by (auto simp: allocate_ue_def Option.bind_eq_Some_conv split: if_splits)
  note fit = sched_fitsD(4) [OF assms(2) s assms(3)]
  let ?I = "\<lambda>(e, s). ue_fits c s \<and> cce_fields e = q \<and> es_scheduling_info e = es_scheduling_info sched"
  have "?I (sched1, s1)"
  proof (rule foldo_invariant [where I = ?I, OF run [unfolded perform_pre_processor_allocation_def]])
    show "?I (sched, s)" using fit sched_fitsD(2) [OF assms(2)] by simp
    show "?I es'" if "i \<in> set [0..<unat (get_nb_rbg c)]" "?I es" "alloc_step c es i = Some es'" for es i es'
      using that fits_alloc_step [OF _ _ _ assms(4)] by (cases es; cases es') (auto simp: cce_fields_def)
  qed
  moreover have "enb_sched_wf sched1"
  proof -
    have "pair_ok c R ?r (sched, s)"
      using assms(3,5) s fit excl_put_same [OF assms(5) s _ refl] sched_fitsD(1) [OF assms(2)] ue_fitsD(2)
      by (simp add: pair_ok_def)
    moreover have "pair_ok c R ?r es'"
      if "i \<in> set [0..<unat (get_nb_rbg c)]" "pair_ok c R ?r es" "alloc_step c es i = Some es'" for i es es'
    proof -
      have "i < N_RBG_MAX" using that(1) nb_rbg_le [of c] by simp
      from alloc_step_excl [OF that(2) assms(4) this] that(3) show ?thesis by simp
    qed
    ultimately have "pair_ok c R ?r (sched1, s1)"
      using foldo_invariant [where I = "pair_ok c R ?r", OF run [unfolded perform_pre_processor_allocation_def]] by blast
    then show ?thesis by (simp add: pair_ok_def)
  qed
  ultimately have "sched_fits c q R sched1 \<and> ue_fits c s1"
    using assms(2) by (auto simp: sched_fits_def get_ue_scheduling_info_def)
  then show ?thesis using sched_fits_put [of c q R sched1 s1 ?r] insert_absorb [OF assms(3)] by (simp add: res)
qed (use assms(2) in simp)

lemma allocation_round_fits:
  assumes "allocation_round c e order n sched r1 = Some sched'" and "sched_fits c q (cell_rntis c e) sched"
    and "unat (cell_id16 c) < MAX_NUM_CC" and "rbg_excl c (cell_rntis c e) sched"
  shows "sched_fits c q (cell_rntis c e) sched' \<and> rbg_excl c (cell_rntis c e) sched'"
proof -
  let ?R = "cell_rntis c e"
  let ?I = "\<lambda>st. sched_fits c q ?R st \<and> rbg_excl c ?R st"
  have R: "uc_rnti ue \<in> ?R" if "ue \<in> set (cell_ues c e)" for ue using that by (simp add: cell_rntis_def)
  have rem: "?I st'" if ue: "ue \<in> set (cell_ues c e)" and st: "?I st" and run: "remaining_ue c r1 ue st = Some st'"
    for ue st st'
    using remaining_ue_fits [OF run conjunct1 [OF st] R [OF ue]]
      remaining_ue_excl [OF assms(3) conjunct2 [OF st] R [OF ue], of r1] run by (metis option.inject)
  have alloc: "?I st'" if ue: "ue \<in> set (cell_ues c e)" and st: "?I st" and run: "allocate_ue c h ue st = Some st'"
    for h ue st st'
    using allocate_ue_fits [OF run conjunct1 [OF st] R [OF ue] assms(3) conjunct2 [OF st]]
      allocate_ue_excl [OF assms(3) conjunct2 [OF st] R [OF ue], of h] run by (metis option.inject)
  obtain s1 where s1: "for_cell_ues c e (remaining_ue c r1) order sched = Some s1"
    and rest: "s1 = sched' \<or> (\<exists>s2. for_cell_ues c e (allocate_ue c True) order s1 = Some s2 \<and>
                                  for_cell_ues c e (allocate_ue c False) order s2 = Some sched')"
    using assms(1) by (auto simp: allocation_round_def Option.bind_eq_Some_conv split: if_splits)
  have "?I s1" by (rule for_cell_ues_invariant [where I = ?I, OF s1 conjI [OF assms(2,4)] rem])
  moreover have "?I st'" if "for_cell_ues c e (allocate_ue c h) order st = Some st'" "?I st" for h st st'
    by (rule for_cell_ues_invariant [where I = ?I, OF that alloc])
  ultimately show ?thesis using rest by blast
qed

text \<open>
  After the preprocessor each UE of the cell has its groups to itself, its count of blocks is right, its
  numbers of blocks index the table of transport block sizes, and the control region is as it was.
\<close>

lemma preprocessor_fits:
  assumes "std_sort srt" and "cell_ready c e" and "sched_fits c q {} sched" and "untied c e"
  shows "\<exists>sched'. run_dlsch_scheduler_preprocessor srt c e frame subframe sched = Some sched' \<and>
     rbg_excl c (cell_rntis c e) sched' \<and> sched_fits c q (cell_rntis c e) sched'"
proof -
  let ?R = "cell_rntis c e"
  note cc = cell_readyD(1) [OF assms(2)]
  obtain sched' where run: "run_dlsch_scheduler_preprocessor srt c e frame subframe sched = Some sched'"
    and excl: "rbg_excl c ?R sched'"
    using preprocessor_excl [OF assms(1,2) sched_fitsD(1) [OF assms(3)] assms(4)] by blast
  obtain s1 order s2 n s3 where
    s1: "for_cell_ues c e (prepare_ue c e) (map int [0..<length (ue_configs e)]) sched = Some s1"
    and s2: "for_cell_ues c e (count_ue c e) order (s1, 0) = Some (s2, n)"
    and s3: "for_cell_ues c e (demand_ue c (average_rbs_per_user c subframe n)) order s2 = Some s3"
    and s4: "foldo (allocation_round c e order n) s3 [0, 1] = Some sched'"
    using run by (auto simp: run_dlsch_scheduler_preprocessor_def Option.bind_eq_Some_conv Let_def simp del: foldo.simps)
  let ?I = "\<lambda>st. sched_fits c q ?R st \<and> rbg_excl c ?R st"
  have R: "uc_rnti ue \<in> ?R" if "ue \<in> set (cell_ues c e)" for ue using that by (simp add: cell_rntis_def)
  have none: "rbg_excl c {} sched" using sched_fitsD(1) [OF assms(3)] by (simp add: rbg_excl_def)
  have "sched_fits c q ?R s1 \<and> rbg_excl c ?R s1"
  proof (rule for_cell_ues_grow [where P = "\<lambda>R st. sched_fits c q R st \<and> rbg_excl c R st", OF s1])
    show "sched_fits c q (insert (uc_rnti ue) R) st' \<and> rbg_excl c (insert (uc_rnti ue) R) st'"
      if "ue \<in> set (cell_ues c e)" "sched_fits c q R st \<and> rbg_excl c R st" "prepare_ue c e ue st = Some st'" for R ue st st'
      using that prepare_ue_fits [OF that(3) _ assms(2)] prepare_ue_excl [OF assms(2) that(1), of R st] by auto
  qed (use assms(3) none in simp)
  then have 1: "?I (fst (s1, 0 :: nat))" by simp
  have "?I (fst (s2, n))"
  proof (rule for_cell_ues_invariant [where I = "\<lambda>st. ?I (fst st)", OF s2 1])
    fix ue and st st' :: "enb_scheduling_info \<times> nat"
    assume ue: "ue \<in> set (cell_ues c e)" and st: "?I (fst st)" and step: "count_ue c e ue st = Some st'"
    obtain a m a' m' where eq: "st = (a, m)" "st' = (a', m')" by (cases st; cases st')
    show "?I (fst st')"
      using count_ue_fits [OF step [unfolded eq] _ R [OF ue] cc] st step
        count_ue_excl [OF assms(2) ue _ R [OF ue], of a m] by (auto simp: eq)
  qed
  then have 2: "?I s2" by simp
  have "?I s3"
  proof (rule for_cell_ues_invariant [where I = ?I, OF s3 2])
    fix ue st st'
    assume ue: "ue \<in> set (cell_ues c e)" and st: "?I st"
      and step: "demand_ue c (average_rbs_per_user c subframe n) ue st = Some st'"
    show "?I st'"
      using demand_ue_fits [OF step conjunct1 [OF st] R [OF ue]] step
        demand_ue_excl [OF cc conjunct2 [OF st] R [OF ue], of "average_rbs_per_user c subframe n"] by auto
  qed
  then have "?I sched'"
    by (rule foldo_invariant [where I = ?I, OF s4]) (use allocation_round_fits [OF _ _ cc] in blast)
  then show ?thesis using run by blast
qed

end
