(* ===== verification/Rib.thy ===== *)
theory Rib
  imports EnbRib
begin

text \<open>
  \<open>src/rib/rib.{h,cc}\<close>: the RAN information base, the store shared by the RIB updater and the
  applications. It maps agent ids to eNB records and keeps the set of agents that are connected but
  have not sent their configuration. An update of an agent that has no record is ignored. The record
  is reached through a \<open>shared_ptr\<close>, so an update is a write through the pointer (\<open>sm_put\<close>).
\<close>

section \<open>State and operations\<close>

record rib =
  rb_eNB_configs :: "(int \<times> enb_rib_info) list"
  rb_pending_agents :: "int set"

definition new_rib :: rib where
  "new_rib = \<lparr>rb_eNB_configs = [], rb_pending_agents = {}\<rparr>"

definition add_pending_agent :: "int \<Rightarrow> rib \<Rightarrow> rib" where
  "add_pending_agent agent_id r = r\<lparr>rb_pending_agents := insert agent_id (rb_pending_agents r)\<rparr>"

definition remove_pending_agent :: "int \<Rightarrow> rib \<Rightarrow> rib" where
  "remove_pending_agent agent_id r = r\<lparr>rb_pending_agents := rb_pending_agents r - {agent_id}\<rparr>"

definition agent_is_pending :: "rib \<Rightarrow> int \<Rightarrow> bool" where
  "agent_is_pending r agent_id \<longleftrightarrow> agent_id \<in> rb_pending_agents r"

definition get_agent :: "rib \<Rightarrow> int \<Rightarrow> enb_rib_info option" where
  "get_agent r agent_id = sm_find (rb_eNB_configs r) agent_id"

definition new_eNB_config_entry :: "junk \<Rightarrow> int \<Rightarrow> int \<Rightarrow> rib \<Rightarrow> rib" where
  "new_eNB_config_entry jk now agent_id r =
     r\<lparr>rb_eNB_configs := sm_insert agent_id (new_enb_rib_info jk now agent_id) (rb_eNB_configs r)\<rparr>"

definition has_eNB_config_entry :: "rib \<Rightarrow> int \<Rightarrow> bool" where
  "has_eNB_config_entry r agent_id \<longleftrightarrow> sm_find (rb_eNB_configs r) agent_id \<noteq> None"

text \<open>The shape all updates share: find the record, ignore an unknown agent, write the record back.\<close>

definition with_agent :: "int \<Rightarrow> (enb_rib_info \<Rightarrow> enb_rib_info option) \<Rightarrow> rib \<Rightarrow> rib option" where
  "with_agent agent_id f r =
     (case sm_find (rb_eNB_configs r) agent_id of
        None \<Rightarrow> Some r
      | Some e \<Rightarrow> do { e' \<leftarrow> f e;
                      Some (r\<lparr>rb_eNB_configs := sm_put agent_id e' (rb_eNB_configs r)\<rparr>) })"

definition eNB_config_update :: "int \<Rightarrow> int \<Rightarrow> flex_enb_config_reply \<Rightarrow> rib \<Rightarrow> rib option" where
  "eNB_config_update now agent_id u = with_agent agent_id (\<lambda>e. Some (update_eNB_config now e u))"

definition ue_config_update :: "junk \<Rightarrow> int \<Rightarrow> int \<Rightarrow> flex_ue_config_reply \<Rightarrow> rib \<Rightarrow> rib option" where
  "ue_config_update jk now agent_id u = with_agent agent_id (\<lambda>e. Some (update_UE_config jk now e u))"

definition ue_state_update :: "junk \<Rightarrow> int \<Rightarrow> flex_ue_state_change \<Rightarrow> rib \<Rightarrow> rib option" where
  "ue_state_update jk agent_id u = with_agent agent_id (\<lambda>e. Some (update_UE_state jk e u))"

definition lc_config_update :: "int \<Rightarrow> int \<Rightarrow> flex_lc_config_reply \<Rightarrow> rib \<Rightarrow> rib option" where
  "lc_config_update now agent_id u = with_agent agent_id (\<lambda>e. Some (update_LC_config now e u))"

definition rib_update_liveness :: "int \<Rightarrow> int \<Rightarrow> rib \<Rightarrow> rib option" where
  "rib_update_liveness now agent_id = with_agent agent_id (\<lambda>e. Some (update_liveness now e))"

definition set_subframe_updates :: "int \<Rightarrow> int \<Rightarrow> flex_sf_trigger \<Rightarrow> rib \<Rightarrow> rib option" where
  "set_subframe_updates now agent_id t = with_agent agent_id (\<lambda>e. update_subframe now e t)"

definition mac_stats_update :: "int \<Rightarrow> flex_stats_reply \<Rightarrow> rib \<Rightarrow> rib option" where
  "mac_stats_update agent_id u = with_agent agent_id (\<lambda>e. update_mac_stats e u)"

text \<open>The copy of the keys; the loops over \<open>std::set<int>\<close> visit them in this order.\<close>

definition get_available_agents :: "rib \<Rightarrow> int list" where
  "get_available_agents r = sm_keys (rb_eNB_configs r)"

section \<open>Well-formedness\<close>

definition rib_wf :: "rib \<Rightarrow> bool" where
  "rib_wf r \<longleftrightarrow> sm_inv (rb_eNB_configs r) \<and> (\<forall>a e. get_agent r a = Some e \<longrightarrow> enb_wf e)"

lemma rib_wfD:
  "rib_wf r \<Longrightarrow> sm_inv (rb_eNB_configs r)"
  "rib_wf r \<Longrightarrow> get_agent r a = Some e \<Longrightarrow> enb_wf e"
  by (auto simp: rib_wf_def)

lemma get_agent_frame [simp]:
  "get_agent (add_pending_agent a r) = get_agent r"
  "get_agent (remove_pending_agent a r) = get_agent r"
  "get_agent new_rib = (\<lambda>_. None)"
  by (simp_all add: get_agent_def [abs_def] add_pending_agent_def remove_pending_agent_def new_rib_def sm.find_empty)

lemma configs_frame [simp]:
  "rb_eNB_configs (add_pending_agent a r) = rb_eNB_configs r"
  "rb_eNB_configs (remove_pending_agent a r) = rb_eNB_configs r"
  by (simp_all add: add_pending_agent_def remove_pending_agent_def)

lemma rib_wf_pending [simp]:
  "rib_wf (add_pending_agent a r) = rib_wf r" "rib_wf (remove_pending_agent a r) = rib_wf r"
  by (simp_all add: rib_wf_def)

lemma rib_wf_new_rib [wf_intros]: "rib_wf new_rib"
  by (simp add: rib_wf_def new_rib_def sm.inv_empty sm.find_empty get_agent_def)

lemma get_agent_new_entry:
  "rib_wf r \<Longrightarrow> get_agent (new_eNB_config_entry jk now a r) =
     (if has_eNB_config_entry r a then get_agent r
      else (get_agent r)(a \<mapsto> new_enb_rib_info jk now a))"
  by (auto simp: get_agent_def [abs_def] new_eNB_config_entry_def sm.find_insert rib_wfD
      has_eNB_config_entry_def dom_def)

lemma rib_wf_new_entry [wf_intros]: "rib_wf r \<Longrightarrow> rib_wf (new_eNB_config_entry jk now a r)"
  using get_agent_new_entry [of r jk now a]
  by (auto simp: rib_wf_def new_eNB_config_entry_def sm.inv_insert enb_wf_new split: if_splits)

text \<open>What a write through the pointer does: exactly one record changes, everything else stays.\<close>

lemma with_agent_cases:
  assumes "with_agent a f r = Some r'" and "rib_wf r"
  obtains (unknown) "get_agent r a = None" "r' = r"
    | (known) e e' where "get_agent r a = Some e" "f e = Some e'"
        "get_agent r' = (get_agent r)(a \<mapsto> e')" "rb_pending_agents r' = rb_pending_agents r"
        "get_available_agents r' = get_available_agents r"
proof (cases "get_agent r a")
  case None
  show thesis
    using None by (rule unknown) (use None assms(1) in \<open>simp add: with_agent_def get_agent_def\<close>)
next
  case (Some e)
  then obtain e' where e': "f e = Some e'"
    "r' = r\<lparr>rb_eNB_configs := sm_put a e' (rb_eNB_configs r)\<rparr>"
    using assms(1) by (auto simp: with_agent_def get_agent_def Option.bind_eq_Some_conv)
  have "sm_keys (sm_put a e' (rb_eNB_configs r)) = sm_keys (rb_eNB_configs r)"
    using Some by (intro sm.keys_put rib_wfD(1) [OF assms(2)] domI) (simp add: get_agent_def)
  note keys = this
  show thesis
    using Some e'(1)
    by (rule known)
       (use Some keys e' rib_wfD(1) [OF assms(2)] in
        \<open>auto simp: get_agent_def [abs_def] get_available_agents_def sm.find_put\<close>)
qed

lemma with_agent_wf:
  assumes "with_agent a f r = Some r'" and "rib_wf r"
    and "\<And>e e'. f e = Some e' \<Longrightarrow> enb_wf e \<Longrightarrow> enb_wf e'"
  shows "rib_wf r'"
proof -
  have "sm_inv (rb_eNB_configs r')"
    using assms(1) rib_wfD(1) [OF assms(2)]
    by (auto simp: with_agent_def sm.inv_put Option.bind_eq_Some_conv split: option.splits)
  moreover have "enb_wf e" if "get_agent r' b = Some e" for b e
    using assms(1,2)
    by (cases rule: with_agent_cases) (use that assms rib_wfD(2) in \<open>auto split: if_splits\<close>)
  ultimately show ?thesis by (simp add: rib_wf_def)
qed

lemma with_agent_fault_iff:
  "with_agent a f r = None \<longleftrightarrow> (\<exists>e. get_agent r a = Some e \<and> f e = None)"
  by (auto simp: with_agent_def get_agent_def Option.bind_eq_None_conv split: option.splits)

lemma rib_updates_wf [wf_intros]:
  "eNB_config_update now a u1 r = Some r' \<Longrightarrow> rib_wf r \<Longrightarrow> rib_wf r'"
  "ue_config_update jk now a u2 r = Some r' \<Longrightarrow> rib_wf r \<Longrightarrow> rib_wf r'"
  "ue_state_update jk a u3 r = Some r' \<Longrightarrow> rib_wf r \<Longrightarrow> rib_wf r'"
  "lc_config_update now a u4 r = Some r' \<Longrightarrow> rib_wf r \<Longrightarrow> rib_wf r'"
  "rib_update_liveness now a r = Some r' \<Longrightarrow> rib_wf r \<Longrightarrow> rib_wf r'"
  "set_subframe_updates now a u5 r = Some r' \<Longrightarrow> rib_wf r \<Longrightarrow> rib_wf r'"
  "mac_stats_update a u6 r = Some r' \<Longrightarrow> rib_wf r \<Longrightarrow> rib_wf r'"
  unfolding eNB_config_update_def ue_config_update_def ue_state_update_def lc_config_update_def
    rib_update_liveness_def set_subframe_updates_def mac_stats_update_def
  by (erule with_agent_wf; auto intro: wf_intros dest: update_subframe_wf update_mac_stats_wf)+

lemma available_agents_iff: "rib_wf r \<Longrightarrow> a \<in> set (get_available_agents r) \<longleftrightarrow> has_eNB_config_entry r a"
  by (auto simp: get_available_agents_def has_eNB_config_entry_def sm.set_keys rib_wfD dom_def)

lemma available_agents_sorted: "rib_wf r \<Longrightarrow> sorted (get_available_agents r) \<and> distinct (get_available_agents r)"
  by (simp add: get_available_agents_def sm.keys_sorted rib_wfD)

end
