(* ===== verification/WireFormat.thy ===== *)
theory WireFormat
  imports Protocol
begin

text \<open>
  The bytes on the wire. \<open>src/network/protocol_message.{h,cc}\<close> frames a message by a four-byte
  big-endian length; \<open>src/network/tagged_message.{h,cc}\<close> is the buffer that carries a message
  between the network thread and the controller, inline up to 2048 bytes and on the heap above.
  Memory that is not written yet is an argument \<open>mem\<close>. A \<open>memcpy\<close> outside its arrays is \<open>None\<close>.
\<close>

type_synonym u64 = "64 word"

abbreviation (input) header_length :: nat where "header_length \<equiv> 4"
abbreviation (input) max_body_length :: nat where "max_body_length \<equiv> 240000"
abbreviation (input) max_normal_msg_size :: nat where "max_normal_msg_size \<equiv> 2048"

section \<open>protocol_message\<close>

text \<open>\<open>data_\<close> has \<open>header_length + max_body_length\<close> bytes; it is indexed through \<open>pm_memcpy\<close>.\<close>

record protocol_message =
  pm_data :: "nat \<Rightarrow> u8"
  pm_body_length :: u32

definition new_protocol_message :: "(nat \<Rightarrow> u8) \<Rightarrow> protocol_message" where
  "new_protocol_message mem = \<lparr>pm_data = mem, pm_body_length = 0\<rparr>"

definition pm_length :: "protocol_message \<Rightarrow> u32" where
  "pm_length m = of_nat header_length + pm_body_length m"

definition pm_memcpy :: "nat \<Rightarrow> u8 list \<Rightarrow> nat \<Rightarrow> protocol_message \<Rightarrow> protocol_message option" where
  "pm_memcpy off src n m =
     (if n \<le> length src \<and> off + n \<le> header_length + max_body_length
      then Some (m\<lparr>pm_data := (\<lambda>i. if off \<le> i \<and> i < off + n then src ! (i - off) else pm_data m i)\<rparr>)
      else None)"

text \<open>The setter: the \<open>size_t\<close> argument is first truncated to the 32-bit member.\<close>

definition set_body_length :: "u64 \<Rightarrow> protocol_message \<Rightarrow> protocol_message" where
  "set_body_length new_length m =
     (let len = ucast new_length :: u32
      in m\<lparr>pm_body_length := (if len > of_nat max_body_length then of_nat max_body_length else len)\<rparr>)"

definition encode_header :: "protocol_message \<Rightarrow> protocol_message" where
  "encode_header m =
     (let l = pm_body_length m
      in m\<lparr>pm_data := (pm_data m)
             (0 := ucast (drop_bit 24 l AND 255), 1 := ucast (drop_bit 16 l AND 255),
              2 := ucast (drop_bit 8 l AND 255), 3 := ucast (l AND 255))\<rparr>)"

definition set_message :: "u8 list \<Rightarrow> u64 \<Rightarrow> protocol_message \<Rightarrow> protocol_message option" where
  "set_message buf sz m =
     (let m = encode_header (set_body_length sz m)
      in pm_memcpy header_length buf (unat (pm_body_length m)) m)"

definition decode_header :: "protocol_message \<Rightarrow> bool \<times> protocol_message" where
  "decode_header m =
     (let d = pm_data m;
          l = push_bit 24 (ucast (d 0)) OR push_bit 16 (ucast (d 1)) OR push_bit 8 (ucast (d 2))
              OR (ucast (d 3) :: u32)
      in if l > of_nat max_body_length then (False, m\<lparr>pm_body_length := 0\<rparr>)
         else (True, m\<lparr>pm_body_length := l\<rparr>))"

text \<open>The bytes \<open>[data(), data() + length())\<close> an \<open>async_write\<close> sends.\<close>

definition wire_bytes :: "protocol_message \<Rightarrow> u8 list" where
  "wire_bytes m = map (pm_data m) [0..<unat (pm_length m)]"

definition pm_body :: "protocol_message \<Rightarrow> u8 list" where
  "pm_body m = map (\<lambda>i. pm_data m (header_length + i)) [0..<unat (pm_body_length m)]"

section \<open>tagged_message\<close>

text \<open>\<open>tm_buf\<close> is the array \<open>msg_contents_\<close> points to: the inline one or the heap block.\<close>

record tagged_message =
  tm_tag :: int
  tm_size :: u64
  tm_buf :: "u8 list"
  tm_dynamic_alloc :: bool

definition new_tagged_message :: "(nat \<Rightarrow> u8) \<Rightarrow> u64 \<Rightarrow> int \<Rightarrow> tagged_message" where
  "new_tagged_message mem sz tag =
     (if sz > of_nat max_normal_msg_size
      then \<lparr>tm_tag = tag, tm_size = sz, tm_buf = map mem [0..<unat sz], tm_dynamic_alloc = True\<rparr>
      else \<lparr>tm_tag = tag, tm_size = sz, tm_buf = map mem [0..<max_normal_msg_size],
            tm_dynamic_alloc = False\<rparr>)"

definition tm_memcpy :: "u8 list \<Rightarrow> u64 \<Rightarrow> tagged_message \<Rightarrow> tagged_message option" where
  "tm_memcpy src n m =
     (if unat n \<le> length src \<and> unat n \<le> length (tm_buf m)
      then Some (m\<lparr>tm_buf := take (unat n) src @ drop (unat n) (tm_buf m)\<rparr>)
      else None)"

definition tagged_message_of :: "(nat \<Rightarrow> u8) \<Rightarrow> u8 list \<Rightarrow> u64 \<Rightarrow> int \<Rightarrow> tagged_message option" where
  "tagged_message_of mem msg sz tag = tm_memcpy msg sz (new_tagged_message mem sz tag)"

text \<open>The copy and the move constructor (both copy), and the move assignment.\<close>

definition copy_tagged_message :: "(nat \<Rightarrow> u8) \<Rightarrow> tagged_message \<Rightarrow> tagged_message option" where
  "copy_tagged_message mem m =
     tm_memcpy (tm_buf m) (tm_size m) (new_tagged_message mem (tm_size m) (tm_tag m))"

definition getSize :: "tagged_message \<Rightarrow> int" where
  "getSize m = sint (ucast (tm_size m) :: u32)"

definition tm_contents :: "tagged_message \<Rightarrow> u8 list" where
  "tm_contents m = take (unat (tm_size m)) (tm_buf m)"

definition tm_wf :: "tagged_message \<Rightarrow> bool" where
  "tm_wf m \<longleftrightarrow> unat (tm_size m) \<le> length (tm_buf m) \<and>
     tm_dynamic_alloc m = (tm_size m > of_nat max_normal_msg_size)"

section \<open>Lemmas: headers\<close>

lemma pm_memcpy_eq_Some:
  "pm_memcpy off src n m = Some m' \<longleftrightarrow>
     n \<le> length src \<and> off + n \<le> 240004 \<and>
     m' = m\<lparr>pm_data := (\<lambda>i. if off \<le> i \<and> i < off + n then src ! (i - off) else pm_data m i)\<rparr>"
  by (auto simp: pm_memcpy_def)

text \<open>The four header bytes put together give the length back.\<close>

lemma header_bytes:
  fixes l :: u32
  shows "push_bit 24 (ucast (ucast (drop_bit 24 l AND 255) :: u8)) OR
         push_bit 16 (ucast (ucast (drop_bit 16 l AND 255) :: u8)) OR
         push_bit 8 (ucast (ucast (drop_bit 8 l AND 255) :: u8)) OR
         ucast (ucast (l AND 255) :: u8) = l"
proof (rule bit_word_eqI)
  fix n :: nat
  assume "n < LENGTH(32)"
  then have n: "n < 32" by simp
  have m: "(255::u32) = mask 8" by (simp add: mask_eq_exp_minus_1)
  consider "n < 8" | "8 \<le> n" "n < 16" | "16 \<le> n" "n < 24" | "24 \<le> n" by linarith
  then show "bit (push_bit 24 (ucast (ucast (drop_bit 24 l AND 255) :: u8)) OR
         push_bit 16 (ucast (ucast (drop_bit 16 l AND 255) :: u8)) OR
         push_bit 8 (ucast (ucast (drop_bit 8 l AND 255) :: u8)) OR
         (ucast (ucast (l AND 255) :: u8) :: u32)) n = bit l n"
    unfolding m using n by cases (auto simp: bit_simps)
qed

lemma decode_encode:
  "pm_body_length m \<le> 240000 \<Longrightarrow> (\<forall>i < 4. pm_data m' i = pm_data (encode_header m) i) \<Longrightarrow>
   decode_header m' = (True, m'\<lparr>pm_body_length := pm_body_length m\<rparr>)"
  by (simp add: decode_header_def encode_header_def Let_def header_bytes leD)

lemma set_body_length_bound: "pm_body_length (set_body_length n m) \<le> 240000"
  by (auto simp: set_body_length_def Let_def not_less)

lemma encode_header_sel [simp]: "pm_body_length (encode_header m) = pm_body_length m"
  by (simp add: encode_header_def Let_def)

text \<open>What \<open>set_message\<close> leaves: a header for at most 240000 bytes, followed by those bytes.\<close>

definition body_size :: "u64 \<Rightarrow> nat" where
  "body_size sz = min (unat (ucast sz :: u32)) max_body_length"

lemma body_length_size: "unat (pm_body_length (set_body_length n m)) = body_size n"
  by (auto simp: set_body_length_def Let_def body_size_def word_less_nat_alt min_def)

lemma body_size_small: "unat n \<le> 240000 \<Longrightarrow> body_size n = unat n"
  by (simp add: body_size_def unsigned_ucast_eq take_bit_nat_eq_self min_def)

lemma body_size_le: "body_size n \<le> unat n"
  by (simp add: body_size_def unsigned_ucast_eq take_bit_nat_less_eq_self min.coboundedI1)

lemma set_message_total:
  "body_size sz \<le> length buf \<Longrightarrow> \<exists>m'. set_message buf sz m = Some m'"
  using body_length_size [of sz m] by (auto simp: set_message_def Let_def pm_memcpy_def body_size_def)

lemma set_message_fields:
  assumes "set_message buf sz m = Some m'"
  shows "unat (pm_body_length m') = body_size sz" and "pm_body m' = take (body_size sz) buf"
    and "body_size sz \<le> length buf" and "unat (pm_length m') = 4 + body_size sz"
    and "i < 4 \<Longrightarrow> pm_data m' i = pm_data (encode_header m') i"
proof -
  define h where "h = encode_header (set_body_length sz m)"
  have m': "body_size sz \<le> length buf"
    "m' = h\<lparr>pm_data := (\<lambda>i. if 4 \<le> i \<and> i < 4 + body_size sz then buf ! (i - 4) else pm_data h i)\<rparr>"
    using assms unfolding h_def [symmetric] set_message_def Let_def pm_memcpy_eq_Some
    by (simp_all add: h_def body_length_size)
  show l: "unat (pm_body_length m') = body_size sz"
    by (simp add: m'(2) h_def body_length_size)
  show "body_size sz \<le> length buf" by (rule m'(1))
  show "pm_body m' = take (body_size sz) buf"
    using m'(1) unfolding pm_body_def l by (intro nth_equalityI) (auto simp: m'(2))
  have "unat (of_nat 4 + pm_body_length m') = 4 + body_size sz"
    using l by (simp add: unat_word_ariths body_size_def)
  then show "unat (pm_length m') = 4 + body_size sz" by (simp add: pm_length_def)
  show "pm_data m' i = pm_data (encode_header m') i" if "i < 4"
    using that by (auto simp: m'(2) h_def encode_header_def Let_def)
qed

section \<open>Lemmas: buffers\<close>

lemma tm_wf_new: "tm_wf (new_tagged_message mem n tag)"
  by (auto simp: tm_wf_def new_tagged_message_def word_less_nat_alt)

lemma new_tagged_message_sel [simp]:
  "tm_tag (new_tagged_message mem n tag) = tag" "tm_size (new_tagged_message mem n tag) = n"
  by (simp_all add: new_tagged_message_def)

lemma tm_memcpy_eq_Some:
  "tm_memcpy src n m = Some m' \<longleftrightarrow> unat n \<le> length src \<and> unat n \<le> length (tm_buf m) \<and>
     m' = m\<lparr>tm_buf := take (unat n) src @ drop (unat n) (tm_buf m)\<rparr>"
  by (auto simp: tm_memcpy_def)

text \<open>The constructor takes over exactly the bytes it is given, inline or on the heap.\<close>

lemma tagged_message_of_total:
  assumes "unat n \<le> length msg"
  shows "\<exists>t. tagged_message_of mem msg n tag = Some t \<and> tm_wf t \<and> tm_tag t = tag \<and> tm_size t = n \<and>
     tm_contents t = take (unat n) msg"
  using assms tm_wf_new [of mem n tag]
  by (simp add: tagged_message_of_def tm_memcpy_def tm_wf_def tm_contents_def min_def)

lemma copy_tagged_message_total:
  assumes "tm_wf m"
  shows "\<exists>t. copy_tagged_message mem m = Some t \<and> tm_wf t \<and> tm_tag t = tm_tag m \<and>
     tm_contents t = tm_contents m"
  using assms tm_wf_new [of mem "tm_size m" "tm_tag m"]
  by (auto simp: copy_tagged_message_def tm_memcpy_def tm_wf_def tm_contents_def min_def)

section \<open>Reading the stream back\<close>

text \<open>
  The two completion handlers of the read side of a session, on the bytes the \<open>async_read\<close> filled
  in: the result of \<open>decode_header\<close>, and the message that is forwarded.
\<close>

definition read_header :: "u8 list \<Rightarrow> protocol_message \<Rightarrow> (bool \<times> protocol_message) option" where
  "read_header bytes m = do { m \<leftarrow> pm_memcpy 0 bytes header_length m; Some (decode_header m) }"

definition read_body :: "(nat \<Rightarrow> u8) \<Rightarrow> int \<Rightarrow> u8 list \<Rightarrow> protocol_message \<Rightarrow>
    (tagged_message \<times> protocol_message) option" where
  "read_body mem session_id bytes m = do {
     m \<leftarrow> pm_memcpy header_length bytes (unat (pm_body_length m)) m;
     th \<leftarrow> tagged_message_of mem (pm_body m) (ucast (pm_body_length m)) session_id;
     Some (th, m) }"

text \<open>The read loop of a session over all the bytes that arrived: the messages and the bytes left.\<close>

function read_stream :: "(nat \<Rightarrow> u8) \<Rightarrow> int \<Rightarrow> protocol_message \<Rightarrow> u8 list \<Rightarrow>
    (tagged_message list \<times> u8 list) option" where
  "read_stream mem session_id m bytes =
     (if length bytes < header_length then Some ([], bytes)
      else case read_header (take header_length bytes) m of
        None \<Rightarrow> None
      | Some (ok, m) \<Rightarrow>
          if \<not> ok then Some ([], drop header_length bytes)
          else if length bytes < header_length + unat (pm_body_length m) then Some ([], bytes)
          else case read_body mem session_id
                      (take (unat (pm_body_length m)) (drop header_length bytes)) m of
            None \<Rightarrow> None
          | Some (th, m') \<Rightarrow> do {
              (ths, rest) \<leftarrow> read_stream mem session_id m'
                 (drop (header_length + unat (pm_body_length m)) bytes);
              Some (th # ths, rest) })"
  by pat_completeness auto
termination by (relation "measure (\<lambda>(mem, i, m, bytes). length bytes)") auto

declare read_stream.simps [simp del]

definition framed :: "protocol_message \<Rightarrow> bool" where
  "framed m \<longleftrightarrow> pm_body_length m \<le> 240000 \<and> (\<forall>i < 4. pm_data m i = pm_data (encode_header m) i)"

lemma framed_set_message: "set_message buf sz m = Some m' \<Longrightarrow> framed m'"
  using set_message_fields [of buf sz m m'] set_body_length_bound [of sz m]
  by (auto simp: framed_def word_le_nat_alt body_size_def)

lemma framed_lengths:
  assumes "framed m"
  shows "unat (pm_body_length m) \<le> 240000" and "unat (pm_length m) = 4 + unat (pm_body_length m)"
    and "length (pm_body m) = unat (pm_body_length m)"
proof -
  show l: "unat (pm_body_length m) \<le> 240000" using assms by (simp add: framed_def word_le_nat_alt)
  then show "unat (pm_length m) = 4 + unat (pm_body_length m)"
    by (simp add: pm_length_def unat_word_ariths)
  show "length (pm_body m) = unat (pm_body_length m)" by (simp add: pm_body_def)
qed

lemma wire_bytes_split:
  assumes "framed m"
  shows "wire_bytes m = map (pm_data m) [0..<4] @ pm_body m"
proof -
  have "[0..<4 + unat (pm_body_length m)] = [0..<4] @ map (\<lambda>i. 4 + i) [0..<unat (pm_body_length m)]"
    using upt_add_eq_append [of 0 4 "unat (pm_body_length m)"] map_add_upt [of 4 "unat (pm_body_length m)"]
    by (simp add: add.commute)
  then show ?thesis
    using framed_lengths(2) [OF assms] by (simp add: wire_bytes_def pm_body_def)
qed

lemma read_framed:
  assumes "framed w" and "wire_bytes w = h @ b" and "length h = 4"
  shows "\<exists>m1 m2 th. read_header h m = Some (True, m1) \<and> pm_body_length m1 = pm_body_length w \<and>
     read_body mem i b m1 = Some (th, m2) \<and> tm_wf th \<and> tm_tag th = i \<and> tm_contents th = pm_body w"
proof -
  have hb: "h = map (pm_data w) [0..<4]" "b = pm_body w"
    using assms wire_bytes_split [OF assms(1)] by (simp_all add: append_eq_append_conv)
  define m0 where "m0 = m\<lparr>pm_data := (\<lambda>i. if i < 4 then h ! (i - 0) else pm_data m i)\<rparr>"
  have m0: "pm_memcpy 0 h 4 m = Some m0" using assms(3) by (simp add: pm_memcpy_def m0_def)
  have "\<forall>i < 4. pm_data m0 i = pm_data (encode_header w) i"
    using assms(1) by (simp add: m0_def hb framed_def)
  then have "read_header h m = Some (True, m0\<lparr>pm_body_length := pm_body_length w\<rparr>)"
    using m0 assms(1) by (simp add: read_header_def decode_encode framed_def)
  moreover define m1 where "m1 = m0\<lparr>pm_body_length := pm_body_length w\<rparr>"
  moreover have lb: "length b = unat (pm_body_length w)" "unat (pm_body_length w) \<le> 240000"
    using framed_lengths [OF assms(1)] hb by simp_all
  define m2 where "m2 = m1\<lparr>pm_data := (\<lambda>i. if 4 \<le> i \<and> i < 4 + unat (pm_body_length w) then b ! (i - 4)
                                              else pm_data m1 i)\<rparr>"
  have bl: "pm_body_length m1 = pm_body_length w" by (simp add: m1_def)
  have m2: "pm_memcpy 4 b (unat (pm_body_length m1)) m1 = Some m2"
    using lb bl by (simp add: pm_memcpy_def m2_def)
  have body: "pm_body m2 = b"
    using lb by (intro nth_equalityI) (simp_all add: pm_body_def m2_def m1_def)
  have sz: "unat (ucast (pm_body_length m2) :: u64) = unat (pm_body_length w)"
    using lb(2) by (simp add: m2_def m1_def unsigned_ucast_eq take_bit_nat_eq_self)
  obtain th where th: "tagged_message_of mem (pm_body m2) (ucast (pm_body_length m2)) i = Some th"
    "tm_wf th" "tm_tag th = i" "tm_contents th = take (unat (ucast (pm_body_length m2) :: u64)) (pm_body m2)"
    using tagged_message_of_total [of "ucast (pm_body_length m2)" "pm_body m2" mem i] sz body lb by auto
  have "read_body mem i b m1 = Some (th, m2)"
    using m2 th(1) by (simp add: read_body_def)
  moreover have "tm_contents th = pm_body w"
    using th(4) sz body lb hb by simp
  ultimately show ?thesis using th(2,3) by (auto simp: m1_def)
qed

lemma read_stream_framed:
  assumes "framed w"
  shows "\<exists>th m2. tm_wf th \<and> tm_tag th = i \<and> tm_contents th = pm_body w \<and>
     read_stream mem i m (wire_bytes w @ rest) =
       map_option (\<lambda>(ths, r). (th # ths, r)) (read_stream mem i m2 rest)"
proof -
  let ?h = "map (pm_data w) [0..<4]"
  have split: "wire_bytes w = ?h @ pm_body w" by (rule wire_bytes_split [OF assms])
  obtain m1 m2 th where r: "read_header ?h m = Some (True, m1)" "pm_body_length m1 = pm_body_length w"
     "read_body mem i (pm_body w) m1 = Some (th, m2)" "tm_wf th" "tm_tag th = i" "tm_contents th = pm_body w"
    using read_framed [OF assms split] by (metis diff_zero length_map length_upt)
  have len: "length (pm_body w) = unat (pm_body_length w)" by (rule framed_lengths(3) [OF assms])
  have "read_stream mem i m (wire_bytes w @ rest) =
      do { (ths, r) \<leftarrow> read_stream mem i m2 rest; Some (th # ths, r) }"
    by (subst read_stream.simps) (simp add: split r len)
  then show ?thesis using r by (intro exI [of _ th] exI [of _ m2]) (cases "read_stream mem i m2 rest"; auto)
qed

lemma read_stream_frames:
  assumes "\<forall>w \<in> set ws. framed w" and "length rest < 4"
  shows "\<exists>ths. read_stream mem i m (concat (map wire_bytes ws) @ rest) = Some (ths, rest) \<and>
     map tm_contents ths = map pm_body ws \<and> (\<forall>th \<in> set ths. tm_wf th \<and> tm_tag th = i)"
  using assms(1)
proof (induction ws arbitrary: m)
  case Nil
  then show ?case using assms(2) by (subst read_stream.simps) simp
next
  case (Cons w ws)
  obtain th m2 where w: "tm_wf th" "tm_tag th = i" "tm_contents th = pm_body w"
    "read_stream mem i m (wire_bytes w @ concat (map wire_bytes ws) @ rest) =
       map_option (\<lambda>(ths, r). (th # ths, r)) (read_stream mem i m2 (concat (map wire_bytes ws) @ rest))"
    using read_stream_framed [of w i mem m] Cons.prems by (metis list.set_intros(1))
  obtain ths where "read_stream mem i m2 (concat (map wire_bytes ws) @ rest) = Some (ths, rest)"
     "map tm_contents ths = map pm_body ws" "\<forall>th \<in> set ths. tm_wf th \<and> tm_tag th = i"
    using Cons.IH [of m2] Cons.prems by auto
  with w show ?case by auto
qed

lemma body_size_eq: "body_size sz = min (unat sz mod 2 ^ 32) max_body_length"
  by (simp add: body_size_def unsigned_ucast_eq take_bit_eq_mod)

text \<open>
  C22: framing is a lossless transport up to its limit. The frames \<open>set_message\<close> builds for any sequence of buffers,
  written one after the other, are read back by a session's read loop as that sequence, in its order and with
  the reader's session id, whatever the reader's buffer held before; the bytes of a header that has not arrived
  completely stay in the socket. A message of up to 240000 bytes comes back whole, a longer one as its first 240000
  bytes (its size is taken modulo \<open>2 ^ 32\<close> first).
\<close>

theorem framing_roundtrip:
  assumes "list_all2 (\<lambda>(buf, sz) w. set_message buf sz (new_protocol_message mem) = Some w) msgs ws"
    and "length rest < header_length"
  shows "\<exists>ths. read_stream mem' i m (concat (map wire_bytes ws) @ rest) = Some (ths, rest) \<and>
     map tm_contents ths = map (\<lambda>(buf, sz). take (min (unat sz mod 2 ^ 32) max_body_length) buf) msgs \<and>
     (\<forall>th \<in> set ths. tm_tag th = i)"
proof -
  have "map pm_body ws = map (\<lambda>(buf, sz). take (min (unat sz mod 2 ^ 32) max_body_length) buf) msgs \<and>
      (\<forall>w \<in> set ws. framed w)"
    using assms(1)
    by (induction rule: list_all2_induct)
       (auto simp: set_message_fields(2) body_size_eq simp del: take_bit_eq_mod dest: framed_set_message)
  then show ?thesis using read_stream_frames [of ws rest mem' i m] assms(2) by auto
qed

lemma framing_roundtrip_witness:
  "\<exists>ths. read_stream (\<lambda>_. 0) 3 (new_protocol_message (\<lambda>_. 9))
      (wire_bytes (the (set_message [1, 2, 3] 3 (new_protocol_message (\<lambda>_. 7)))) @
       wire_bytes (the (set_message [5, 6] 1 (new_protocol_message (\<lambda>_. 7)))) @ [0, 0]) = Some (ths, [0, 0]) \<and>
     map tm_contents ths = [[1, 2, 3], [5]]"
proof -
  let ?w = "\<lambda>b n. the (set_message b n (new_protocol_message (\<lambda>_. 7)))"
  have "set_message [1, 2, 3] 3 (new_protocol_message (\<lambda>_. 7)) = Some (?w [1, 2, 3] 3)"
    "set_message [5, 6] 1 (new_protocol_message (\<lambda>_. 7)) = Some (?w [5, 6] 1)"
    by (simp_all add: set_message_def Let_def pm_memcpy_def set_body_length_def)
  then show ?thesis
    using framing_roundtrip [of "\<lambda>_. 7" "[([1, 2, 3], 3), ([5, 6], 1)]" "[?w [1, 2, 3] 3, ?w [5, 6] 1]"
        "[0, 0]" "\<lambda>_. 0" 3 "new_protocol_message (\<lambda>_. 9)"]
    by auto
qed

text \<open>
  A message of more than 240000 bytes is sent, without an error, as its first 240000 bytes: the
  frame is well formed, so the peer cannot tell.
\<close>

theorem oversized_message_truncated:
  assumes "max_body_length < unat sz" and "unat sz < 2 ^ 32" and "unat sz \<le> length buf"
  shows "\<exists>w. set_message buf sz m = Some w \<and> framed w \<and> pm_body w = take max_body_length buf"
proof -
  have b: "body_size sz = 240000"
    using assms(1,2) by (simp add: body_size_def unsigned_ucast_eq take_bit_nat_eq_self min_def)
  obtain w where w: "set_message buf sz m = Some w"
    using set_message_total [of sz buf m] assms b by auto
  then show ?thesis using set_message_fields(2) [OF w] b framed_set_message [OF w] by simp
qed

lemma oversized_message_witness:
  "\<exists>w. set_message (replicate 240001 1) 240001 (new_protocol_message (\<lambda>_. 0)) = Some w \<and>
     framed w \<and> pm_body w = take 240000 (replicate 240001 1)"
  by (rule oversized_message_truncated) simp_all

end
