(* ===== verification/Network.thy ===== *)
theory Network
  imports WireFormat StdMap
begin

text \<open>
  The asynchronous interface to the agents: \<open>src/network/agent_session.{h,cc}\<close> (one TCP session),
  \<open>connection_manager.{h,cc}\<close> (the sessions by id), \<open>async_xface.{h,cc}\<close> (two bounded queues between
  the controller's threads and the network thread) and \<open>src/core/requests_manager.{h,cc}\<close>.

  Boost and protobuf are not part of the sources. The lock-free queues and the serialiser are
  parameters (the record \<open>ext\<close>), and the contract of the queues is the locale \<open>bounded_fifo\<close>. An
  asynchronous operation of asio is recorded as outstanding; its completion is a step of the network
  thread, which runs one handler at a time. Undefined behaviour (a null or dangling pointer, a pop
  from an empty queue) is \<open>None\<close>.
\<close>

section \<open>The queue contract\<close>

locale bounded_fifo =
  fixes push :: "'a \<Rightarrow> 'q \<Rightarrow> 'q option"
    and pop :: "'q \<Rightarrow> ('a \<times> 'q) option"
    and contents :: "'q \<Rightarrow> 'a list"
    and capacity :: nat
  assumes push_room: "length (contents q) < capacity \<Longrightarrow>
        \<exists>q'. push x q = Some q' \<and> contents q' = contents q @ [x]"
    and push_full: "capacity \<le> length (contents q) \<Longrightarrow> push x q = None"
    and pop_nil: "contents q = [] \<Longrightarrow> pop q = None"
    and pop_cons: "contents q = x # xs \<Longrightarrow> \<exists>q'. pop q = Some (x, q') \<and> contents q' = xs"
begin

lemma push_SomeD: "push x q = Some q' \<Longrightarrow> contents q' = contents q @ [x] \<and> length (contents q) < capacity"
  using push_room [of q x] push_full [of q x] by (cases "length (contents q) < capacity") auto

lemma pop_SomeD: "pop q = Some (x, q') \<Longrightarrow> contents q = x # contents q'"
  using pop_nil [of q] pop_cons [of q] by (cases "contents q") force+

lemma pop_None_iff: "pop q = None \<longleftrightarrow> contents q = []"
  using pop_nil [of q] pop_cons [of q] by (cases "contents q") force+

lemma push_None_iff: "push x q = None \<longleftrightarrow> capacity \<le> length (contents q)"
  using push_room [of q x] push_full [of q x] by (cases "length (contents q) < capacity") auto

text \<open>A bounded queue never holds more than its capacity once it starts within it.\<close>

lemma push_bounded: "push x q = Some q' \<Longrightarrow> length (contents q') \<le> capacity"
  using push_SomeD [of x q q'] by simp

end

text \<open>A list with a length check satisfies the contract, so the hypothesis below can hold.\<close>

definition list_push :: "nat \<Rightarrow> 'a \<Rightarrow> 'a list \<Rightarrow> 'a list option" where
  "list_push n x q = (if length q < n then Some (q @ [x]) else None)"

fun list_pop :: "'a list \<Rightarrow> ('a \<times> 'a list) option" where
  "list_pop [] = None"
| "list_pop (x # xs) = Some (x, xs)"

interpretation lq: bounded_fifo "list_push n" list_pop "\<lambda>q. q" n for n
  by unfold_locales (auto simp: list_push_def)

section \<open>State\<close>

record 'q ext =
  q_push :: "tagged_message \<Rightarrow> 'q \<Rightarrow> 'q option"
  q_pop :: "'q \<Rightarrow> (tagged_message \<times> 'q) option"
  ext_serialize :: "flexran_message \<Rightarrow> u8 list"
  ext_parse :: "u8 list \<Rightarrow> flexran_message"
  ext_mem :: "nat \<Rightarrow> u8"

definition queue_capacity :: nat where
  "queue_capacity = 10000"

text \<open>What the code relies on: the queues are bounded FIFOs of 10000 places.\<close>

definition ext_ok :: "'q ext \<Rightarrow> ('q \<Rightarrow> tagged_message list) \<Rightarrow> bool" where
  "ext_ok X contents \<longleftrightarrow> bounded_fifo (q_push X) (q_pop X) contents queue_capacity"

text \<open>protobuf bounds a message by 2 GB: \<open>ByteSize\<close> is an \<open>int\<close>.\<close>

definition sendable :: "'q ext \<Rightarrow> flexran_message \<Rightarrow> bool" where
  "sendable X m \<longleftrightarrow> length (ext_serialize X m) < 2 ^ 31"

text \<open>Lists as queues and a serialiser that sends one byte, for the concrete instances.\<close>

definition sample_parse :: "u8 list \<Rightarrow> flexran_body" where
  "sample_parse b =
     (if b = [1] then HelloMsg no_header
      else if b = [2] then EchoReplyMsg no_header
      else if b = [3] then EnbConfigReplyMsg \<lparr>er_header = no_header, er_eNB_id = 1, er_cell_config = []\<rparr>
      else if b = [4] then UeConfigReplyMsg \<lparr>ur_header = no_header, ur_ue_config = [sample_ue_config 7]\<rparr>
      else NoMsg)"

definition list_ext :: "tagged_message list ext" where
  "list_ext =
     \<lparr>q_push = list_push queue_capacity, q_pop = list_pop,
      ext_serialize = (\<lambda>m. case msg_body m of HelloMsg _ \<Rightarrow> [1] | EchoReplyMsg _ \<Rightarrow> [2] | _ \<Rightarrow> [3]),
      ext_parse = (\<lambda>b. \<lparr>msg_dir = SUCCESSFUL_OUTCOME, msg_body = sample_parse b\<rparr>),
      ext_mem = (\<lambda>_. 0)\<rparr>"

lemma list_ext_queues: "q_push list_ext = list_push queue_capacity" "q_pop list_ext = list_pop"
  by (simp_all add: list_ext_def)

lemma ext_ok_list: "ext_ok list_ext (\<lambda>q. q)"
  by (simp add: ext_ok_def list_ext_def lq.bounded_fifo_axioms)

text \<open>\<open>as_pending_writes\<close> are the buffers of the outstanding writes, \<open>as_sent\<close> what the peer was sent.\<close>

datatype read_op = NoRead | HeaderRead | BodyRead

record agent_session =
  as_session_id :: int
  as_open :: bool
  as_write_queue :: "protocol_message list"
  as_read_msg :: protocol_message
  as_pending_read :: read_op
  as_pending_writes :: "u8 list list"
  as_sent :: "u8 list"

text \<open>
  \<open>nx_pushed\<close> counts the sender threads between the push and the post of \<open>send_msg\<close>, \<open>nx_posted\<close> the
  handlers posted and not run, \<open>nx_aborted\<close> the sessions that were destroyed while a read was
  outstanding.
\<close>

record 'q network =
  nx_in_queue :: 'q
  nx_out_queue :: 'q
  nx_pushed :: nat
  nx_posted :: nat
  nx_sessions :: "int \<Rightarrow> agent_session option"
  nx_next_id :: int
  nx_aborted :: "int list"

definition new_network :: "'q \<Rightarrow> 'q network" where
  "new_network q =
     \<lparr>nx_in_queue = q, nx_out_queue = q, nx_pushed = 0, nx_posted = 0,
      nx_sessions = (\<lambda>_. None), nx_next_id = 0, nx_aborted = []\<rparr>"

definition new_session :: "'q ext \<Rightarrow> int \<Rightarrow> agent_session" where
  "new_session X session_id =
     \<lparr>as_session_id = session_id, as_open = True, as_write_queue = [],
      as_read_msg = new_protocol_message (ext_mem X), as_pending_read = NoRead,
      as_pending_writes = [], as_sent = []\<rparr>"

section \<open>agent_session\<close>

definition do_read_header :: "agent_session \<Rightarrow> agent_session" where
  "do_read_header s = s\<lparr>as_pending_read := HeaderRead\<rparr>"

definition do_read_body :: "agent_session \<Rightarrow> agent_session" where
  "do_read_body s = s\<lparr>as_pending_read := BodyRead\<rparr>"

definition do_write :: "agent_session \<Rightarrow> agent_session option" where
  "do_write s =
     (case as_write_queue s of
        [] \<Rightarrow> None
      | front # _ \<Rightarrow> Some (s\<lparr>as_pending_writes := as_pending_writes s @ [wire_bytes front]\<rparr>))"

definition session_start :: "agent_session \<Rightarrow> agent_session" where
  "session_start s = do_read_header s"

definition close_socket :: "agent_session \<Rightarrow> agent_session" where
  "close_socket s = s\<lparr>as_open := False, as_pending_read := NoRead\<rparr>"

definition frame_of :: "'q ext \<Rightarrow> tagged_message \<Rightarrow> protocol_message option" where
  "frame_of X msg =
     set_message (tm_buf msg) (word_of_int (getSize msg)) (new_protocol_message (ext_mem X))"

definition deliver :: "'q ext \<Rightarrow> tagged_message \<Rightarrow> agent_session \<Rightarrow> agent_session option" where
  "deliver X msg s = do {
     let write_in_progress = (as_write_queue s \<noteq> []);
     data \<leftarrow> frame_of X msg;
     let s = s\<lparr>as_write_queue := as_write_queue s @ [data]\<rparr>;
     if \<not> write_in_progress then do_write s else Some s }"

text \<open>The handlers of the two reads, when the bytes have arrived.\<close>

definition on_header :: "u8 list \<Rightarrow> agent_session \<Rightarrow> agent_session option" where
  "on_header bytes s = do {
     (ok, m) \<leftarrow> read_header bytes (as_read_msg s);
     let s = s\<lparr>as_read_msg := m\<rparr>;
     Some (if ok then do_read_body s else close_socket s) }"

definition on_body :: "'q ext \<Rightarrow> u8 list \<Rightarrow> agent_session \<Rightarrow> (tagged_message \<times> agent_session) option" where
  "on_body X bytes s = do {
     (th, m) \<leftarrow> read_body (ext_mem X) (as_session_id s) bytes (as_read_msg s);
     Some (th, do_read_header (s\<lparr>as_read_msg := m\<rparr>)) }"

text \<open>The handler of a write that succeeded: the buffer of the oldest outstanding write is on the wire.\<close>

definition on_written :: "agent_session \<Rightarrow> agent_session option" where
  "on_written s =
     (case (as_pending_writes s, as_write_queue s) of
        (b # bs, _ # queue) \<Rightarrow>
          let s = s\<lparr>as_sent := as_sent s @ b, as_pending_writes := bs, as_write_queue := queue\<rparr>
          in if queue \<noteq> [] then do_write s else Some s
      | _ \<Rightarrow> None)"

section \<open>async_xface and connection_manager\<close>

text \<open>A push whose result is ignored: the message is dropped when the queue is full.\<close>

definition forward_message :: "'q ext \<Rightarrow> tagged_message \<Rightarrow> 'q network \<Rightarrow> 'q network" where
  "forward_message X msg n =
     (case q_push X msg (nx_in_queue n) of None \<Rightarrow> n | Some q \<Rightarrow> n\<lparr>nx_in_queue := q\<rparr>)"

definition initialize_connection :: "'q ext \<Rightarrow> int \<Rightarrow> 'q network \<Rightarrow> 'q network" where
  "initialize_connection X session_id n =
     forward_message X (new_tagged_message (ext_mem X) 0 session_id) n"

definition get_msg_from_network :: "'q ext \<Rightarrow> 'q network \<Rightarrow> (tagged_message \<times> 'q network) option" where
  "get_msg_from_network X n =
     (case q_pop X (nx_in_queue n) of
        None \<Rightarrow> None
      | Some (msg, q) \<Rightarrow> Some (msg, n\<lparr>nx_in_queue := q\<rparr>))"

definition outgoing :: "'q ext \<Rightarrow> flexran_message \<Rightarrow> int \<Rightarrow> tagged_message option" where
  "outgoing X msg agent_tag =
     (let bytes = ext_serialize X msg; sz = of_nat (length bytes)
      in tm_memcpy bytes sz (new_tagged_message (ext_mem X) sz agent_tag))"

text \<open>\<open>send_msg\<close> up to its push; the flag is the result of the push, and of \<open>send_msg\<close>.\<close>

definition send_push :: "'q ext \<Rightarrow> flexran_message \<Rightarrow> int \<Rightarrow> 'q network \<Rightarrow> (bool \<times> 'q network) option" where
  "send_push X msg agent_tag n = do {
     tm \<leftarrow> outgoing X msg agent_tag;
     case q_push X tm (nx_out_queue n) of
       Some q \<Rightarrow> Some (True, n\<lparr>nx_out_queue := q, nx_pushed := Suc (nx_pushed n)\<rparr>)
     | None \<Rightarrow> Some (False, n) }"

definition send_post :: "'q network \<Rightarrow> 'q network" where
  "send_post n = n\<lparr>nx_pushed := nx_pushed n - 1, nx_posted := Suc (nx_posted n)\<rparr>"

definition send_msg :: "'q ext \<Rightarrow> flexran_message \<Rightarrow> int \<Rightarrow> 'q network \<Rightarrow> (bool \<times> 'q network) option" where
  "send_msg X msg agent_tag n = do {
     (ok, n) \<leftarrow> send_push X msg agent_tag n;
     Some (ok, if ok then send_post n else n) }"

definition requests_send_message :: "'q ext \<Rightarrow> int \<Rightarrow> flexran_message \<Rightarrow> 'q network \<Rightarrow> 'q network option" where
  "requests_send_message X agent_id msg n = map_option snd (send_msg X msg agent_id n)"

definition send_msg_to_agent :: "'q ext \<Rightarrow> tagged_message \<Rightarrow> 'q network \<Rightarrow> 'q network option" where
  "send_msg_to_agent X msg n =
     (case nx_sessions n (tm_tag msg) of
        None \<Rightarrow> None
      | Some s \<Rightarrow> do { s \<leftarrow> deliver X msg s;
                      Some (n\<lparr>nx_sessions := (nx_sessions n)(tm_tag msg \<mapsto> s)\<rparr>) })"

definition forward_msg_to_agent :: "'q ext \<Rightarrow> 'q network \<Rightarrow> 'q network option" where
  "forward_msg_to_agent X n =
     (case q_pop X (nx_out_queue n) of
        None \<Rightarrow> None
      | Some (msg, q) \<Rightarrow> send_msg_to_agent X msg (n\<lparr>nx_out_queue := q\<rparr>))"

definition close_connection :: "int \<Rightarrow> 'q network \<Rightarrow> 'q network" where
  "close_connection session_id n = n\<lparr>nx_sessions := (nx_sessions n)(session_id := None)\<rparr>"

text \<open>The accept handler. \<open>next_id_++\<close> on the largest \<open>int\<close> is undefined.\<close>

definition on_accept :: "'q ext \<Rightarrow> 'q network \<Rightarrow> 'q network option" where
  "on_accept X n =
     (let next_id = nx_next_id n;
          n = n\<lparr>nx_sessions := (nx_sessions n)(next_id \<mapsto> session_start (new_session X next_id))\<rparr>;
          n = initialize_connection X next_id n
      in if next_id < 2 ^ 31 - 1 then Some (n\<lparr>nx_next_id := next_id + 1\<rparr>) else None)"

section \<open>The steps of the system\<close>

text \<open>
  The controller's threads push, post and consume; the rest are the handlers the network thread runs.
  \<open>enabled\<close> says when the environment can cause a step, \<open>net_step\<close> what the code then does.
\<close>

datatype net_event =
    SendPush flexran_message int | SendPost | Consume
  | Accepted | HeaderArrived int "u8 list" | BodyArrived int "u8 list" | ReadFailed int
  | WriteDone int | WriteFailed int | RunForward

definition on_session :: "int \<Rightarrow> (agent_session \<Rightarrow> 'q network \<Rightarrow> 'q network option) \<Rightarrow> 'q network \<Rightarrow>
    'q network option" where
  "on_session i f n = (case nx_sessions n i of None \<Rightarrow> None | Some s \<Rightarrow> f s n)"

definition put_session :: "int \<Rightarrow> 'q network \<Rightarrow> agent_session \<Rightarrow> 'q network" where
  "put_session i n s = n\<lparr>nx_sessions := (nx_sessions n)(i \<mapsto> s)\<rparr>"

fun enabled :: "'q ext \<Rightarrow> 'q network \<Rightarrow> net_event \<Rightarrow> bool" where
  "enabled X n (SendPush m i) = sendable X m"
| "enabled X n SendPost = (0 < nx_pushed n)"
| "enabled X n Consume = True"
| "enabled X n Accepted = True"
| "enabled X n (HeaderArrived i b) =
     (\<exists>s. nx_sessions n i = Some s \<and> as_pending_read s = HeaderRead \<and> length b = header_length)"
| "enabled X n (BodyArrived i b) =
     (\<exists>s. nx_sessions n i = Some s \<and> as_pending_read s = BodyRead \<and>
          length b = unat (pm_body_length (as_read_msg s)))"
| "enabled X n (ReadFailed i) =
     (i \<in> set (nx_aborted n) \<or> (\<exists>s. nx_sessions n i = Some s \<and> as_pending_read s \<noteq> NoRead))"
| "enabled X n (WriteDone i) = (\<exists>s. nx_sessions n i = Some s \<and> as_pending_writes s \<noteq> [])"
| "enabled X n (WriteFailed i) = (\<exists>s. nx_sessions n i = Some s \<and> as_pending_writes s \<noteq> [])"
| "enabled X n RunForward = (0 < nx_posted n)"

text \<open>
  A failed write closes the connection. The manager's pointer and the one the handler holds are the
  last owners of the session: it is destroyed, but a read handler that is outstanding captured only
  \<open>this\<close>. When that handler runs (with an error) it uses the destroyed session.
\<close>

fun net_step :: "'q ext \<Rightarrow> 'q network \<Rightarrow> net_event \<Rightarrow> 'q network option" where
  "net_step X n (SendPush m i) = map_option snd (send_push X m i n)"
| "net_step X n SendPost = Some (send_post n)"
| "net_step X n Consume = Some (case get_msg_from_network X n of None \<Rightarrow> n | Some (_, n) \<Rightarrow> n)"
| "net_step X n Accepted = on_accept X n"
| "net_step X n (HeaderArrived i b) =
     on_session i (\<lambda>s n. map_option (put_session i n) (on_header b s)) n"
| "net_step X n (BodyArrived i b) =
     on_session i (\<lambda>s n. map_option (\<lambda>(th, s). forward_message X th (put_session i n s)) (on_body X b s)) n"
| "net_step X n (ReadFailed i) =
     (if i \<in> set (nx_aborted n) then None
      else on_session i (\<lambda>s n. Some (put_session i n (close_socket s))) n)"
| "net_step X n (WriteDone i) =
     on_session i (\<lambda>s n. map_option (put_session i n) (on_written s)) n"
| "net_step X n (WriteFailed i) =
     on_session i (\<lambda>s n. Some ((close_connection i n)
        \<lparr>nx_aborted := (if as_pending_read s \<noteq> NoRead then i # nx_aborted n else nx_aborted n)\<rparr>)) n"
| "net_step X n RunForward = forward_msg_to_agent X (n\<lparr>nx_posted := nx_posted n - 1\<rparr>)"

text \<open>\<open>net_reach X h n\<close>: \<open>n\<close> is reached, and \<open>h\<close> are the messages \<open>send_msg\<close> accepted, in order.\<close>

definition accepted :: "'q ext \<Rightarrow> 'q network \<Rightarrow> net_event \<Rightarrow> tagged_message list" where
  "accepted X n ev =
     (case ev of SendPush m i \<Rightarrow>
        (case send_push X m i n of Some (True, _) \<Rightarrow> [the (outgoing X m i)] | _ \<Rightarrow> [])
      | _ \<Rightarrow> [])"

inductive net_reach :: "'q ext \<Rightarrow> ('q \<Rightarrow> tagged_message list) \<Rightarrow> tagged_message list \<Rightarrow> 'q network \<Rightarrow> bool"
  for X contents where
  started: "contents q = [] \<Longrightarrow> net_reach X contents [] (new_network q)"
| step: "net_reach X contents h n \<Longrightarrow> enabled X n ev \<Longrightarrow> net_step X n ev = Some n' \<Longrightarrow>
         net_reach X contents (h @ accepted X n ev) n'"

text \<open>
  \<open>net_path X P n h n'\<close>: from \<open>n\<close>, steps of the kinds \<open>P\<close> lead to \<open>n'\<close>, and \<open>h\<close> are the messages \<open>send_msg\<close>
  accepted on the way.
\<close>

inductive net_path :: "'q ext \<Rightarrow> (net_event \<Rightarrow> bool) \<Rightarrow> 'q network \<Rightarrow> tagged_message list \<Rightarrow> 'q network \<Rightarrow> bool"
  for X P n where
  here: "net_path X P n [] n"
| more: "net_path X P n h n1 \<Longrightarrow> P ev \<Longrightarrow> enabled X n1 ev \<Longrightarrow> net_step X n1 ev = Some n2 \<Longrightarrow>
         net_path X P n (h @ accepted X n1 ev) n2"

lemma net_path_trans:
  assumes "net_path X P a h b" and "net_path X P b k c"
  shows "net_path X P a (h @ k) c"
  using assms(2)
proof induction
  case here
  then show ?case using assms(1) by simp
next
  case (more k n1 ev n2)
  then show ?case using net_path.more [OF more.IH more.hyps(2-4)] by simp
qed

lemma net_path_one:
  "P ev \<Longrightarrow> enabled X n ev \<Longrightarrow> net_step X n ev = Some n' \<Longrightarrow> net_path X P n (accepted X n ev) n'"
  using net_path.more [OF net_path.here, of P ev X n n'] by simp

lemma net_reach_path:
  assumes "net_path X P n k n'" and "net_reach X contents h n"
  shows "net_reach X contents (h @ k) n'"
  using assms(1)
proof induction
  case here
  then show ?case using assms(2) by simp
next
  case (more k n1 ev n2)
  then show ?case using net_reach.step [OF more.IH more.hyps(3,4)] by simp
qed

section \<open>The invariant of a session\<close>

definition frames :: "'q ext \<Rightarrow> tagged_message list \<Rightarrow> u8 list" where
  "frames X ts = concat (map (\<lambda>t. wire_bytes (the (frame_of X t))) ts)"

definition session_wf :: "agent_session \<Rightarrow> bool" where
  "session_wf s \<longleftrightarrow>
     as_pending_writes s = (case as_write_queue s of [] \<Rightarrow> [] | w # _ \<Rightarrow> [wire_bytes w]) \<and>
     (as_pending_read s = BodyRead \<longrightarrow> pm_body_length (as_read_msg s) \<le> 240000)"

text \<open>All the bytes a session was asked to send: the ones on the wire and the ones queued.\<close>

definition session_bytes :: "agent_session \<Rightarrow> u8 list" where
  "session_bytes s = as_sent s @ concat (map wire_bytes (as_write_queue s))"

lemma frames_simps [simp]:
  "frames X [] = []" "frames X (t # ts) = wire_bytes (the (frame_of X t)) @ frames X ts"
  "frames X (ts @ us) = frames X ts @ frames X us"
  by (simp_all add: frames_def)

lemma session_wf_new [wf_intros]: "session_wf (session_start (new_session X i))"
  by (simp add: session_wf_def session_start_def do_read_header_def new_session_def)

lemma session_bytes_new [simp]: "session_bytes (session_start (new_session X i)) = []"
  by (simp add: session_bytes_def session_start_def do_read_header_def new_session_def)

text \<open>One write at a time: a delivery starts a write only when none is outstanding.\<close>

lemma deliver_wf:
  assumes "deliver X t s = Some s'" and "session_wf s"
  shows "session_wf s' \<and> session_bytes s' = session_bytes s @ wire_bytes (the (frame_of X t)) \<and>
    as_session_id s' = as_session_id s"
  using assms
  by (cases "as_write_queue s")
     (auto simp: deliver_def Let_def do_write_def session_wf_def session_bytes_def Option.bind_eq_Some_conv)

lemma on_written_wf:
  assumes "on_written s = Some s'" and "session_wf s"
  shows "session_wf s' \<and> session_bytes s' = session_bytes s \<and> as_session_id s' = as_session_id s"
  using assms
  by (auto simp: on_written_def Let_def do_write_def session_wf_def session_bytes_def
      split: list.splits if_splits)

lemma decode_header_bound: "decode_header m = (True, m') \<Longrightarrow> pm_body_length m' \<le> 240000"
  by (auto simp: decode_header_def Let_def not_less split: if_splits)

lemma read_header_bound: "read_header b m = Some (True, m') \<Longrightarrow> pm_body_length m' \<le> 240000"
  by (auto simp: read_header_def Option.bind_eq_Some_conv dest: decode_header_bound)

lemma on_header_wf:
  assumes "on_header b s = Some s'" and "session_wf s"
  shows "session_wf s' \<and> session_bytes s' = session_bytes s \<and> as_session_id s' = as_session_id s"
proof -
  obtain ok m where r: "read_header b (as_read_msg s) = Some (ok, m)"
    and s': "s' = (if ok then do_read_body (s\<lparr>as_read_msg := m\<rparr>) else close_socket (s\<lparr>as_read_msg := m\<rparr>))"
    using assms(1) by (cases "read_header b (as_read_msg s)") (auto simp: on_header_def Let_def)
  have "ok \<Longrightarrow> pm_body_length m \<le> 240000" using r read_header_bound by auto
  then show ?thesis
    using assms(2) by (auto simp: s' do_read_body_def close_socket_def session_wf_def session_bytes_def)
qed

lemma on_body_wf:
  assumes "on_body X b s = Some (th, s')" and "session_wf s"
  shows "session_wf s' \<and> session_bytes s' = session_bytes s \<and> as_session_id s' = as_session_id s"
  using assms
  by (auto simp: on_body_def do_read_header_def session_wf_def session_bytes_def Option.bind_eq_Some_conv)

lemma close_socket_wf:
  "session_wf s \<Longrightarrow> session_wf (close_socket s) \<and> session_bytes (close_socket s) = session_bytes s"
  by (simp add: close_socket_def session_wf_def session_bytes_def)

section \<open>The invariant of the system\<close>

definition session_inv :: "'q ext \<Rightarrow> tagged_message list \<Rightarrow> int \<Rightarrow> agent_session \<Rightarrow> bool" where
  "session_inv X sent i s \<longleftrightarrow> session_wf s \<and> as_session_id s = i \<and>
     session_bytes s = frames X (filter (\<lambda>t. tm_tag t = i) sent)"

definition ids_below :: "int \<Rightarrow> int set \<Rightarrow> bool" where
  "ids_below k A \<longleftrightarrow> (\<forall>i \<in> A. 0 \<le> i \<and> i < k)"

text \<open>\<open>sent\<close> are the messages that were handed to a session, the others are still in the queue.\<close>

definition net_inv :: "'q ext \<Rightarrow> ('q \<Rightarrow> tagged_message list) \<Rightarrow> tagged_message list \<Rightarrow> 'q network \<Rightarrow> bool" where
  "net_inv X contents sent n \<longleftrightarrow>
     nx_pushed n + nx_posted n = length (contents (nx_out_queue n)) \<and>
     (\<forall>t \<in> set (contents (nx_out_queue n)). frame_of X t \<noteq> None) \<and>
     0 \<le> nx_next_id n \<and> ids_below (nx_next_id n) (set (nx_aborted n)) \<and>
     ids_below (nx_next_id n) (tm_tag ` set sent) \<and>
     (\<forall>i s. nx_sessions n i = Some s \<longrightarrow>
        0 \<le> i \<and> i < nx_next_id n \<and> i \<notin> set (nx_aborted n) \<and> session_inv X sent i s)"

definition net_wf :: "'q ext \<Rightarrow> ('q \<Rightarrow> tagged_message list) \<Rightarrow> tagged_message list \<Rightarrow> 'q network \<Rightarrow> bool" where
  "net_wf X contents h n \<longleftrightarrow>
     (\<exists>sent. h = sent @ contents (nx_out_queue n) \<and> net_inv X contents sent n)"

lemma ext_okD:
  assumes "ext_ok X contents"
  shows "bounded_fifo (q_push X) (q_pop X) contents queue_capacity"
  using assms by (auto simp: ext_ok_def)

lemma small_size:
  assumes "k < 2 ^ 31"
  shows "unat (of_nat k :: u64) = k" and "word_of_int (sint (ucast (of_nat k :: u64) :: u32)) = (of_nat k :: u64)"
proof -
  show u: "unat (of_nat k :: u64) = k"
    using assms by (simp add: unsigned_of_nat take_bit_nat_eq_self)
  have c: "(ucast (of_nat k :: u64) :: u32) = of_nat k"
    using assms by (simp add: word_unat_eq_iff unsigned_ucast_eq unsigned_of_nat take_bit_nat_eq_self)
  have "sint (of_nat k :: u32) = int k"
    using assms by (simp add: signed_of_nat signed_take_bit_int_eq_self)
  then show "word_of_int (sint (ucast (of_nat k :: u64) :: u32)) = (of_nat k :: u64)"
    by (simp add: c)
qed

text \<open>A message that was serialised can always be sent, and its tag is the agent's.\<close>

lemma outgoing_total:
  assumes "sendable X m"
  shows "\<exists>t. outgoing X m i = Some t \<and> tm_tag t = i \<and> tm_wf t \<and> frame_of X t \<noteq> None \<and>
     tm_contents t = ext_serialize X m"
proof -
  let ?b = "ext_serialize X m"
  have len: "length ?b < 2 ^ 31" using assms by (simp add: sendable_def)
  have "outgoing X m i = tagged_message_of (ext_mem X) ?b (of_nat (length ?b)) i"
    by (simp add: outgoing_def tagged_message_of_def Let_def)
  then obtain t where t: "outgoing X m i = Some t" "tm_wf t" "tm_tag t = i" "tm_size t = of_nat (length ?b)"
    "tm_contents t = ?b"
    using tagged_message_of_total [of "of_nat (length ?b)" ?b "ext_mem X" i] small_size(1) [OF len] by auto
  have "body_size (word_of_int (getSize t)) \<le> length (tm_buf t)"
    using t(2,4) small_size [OF len] body_size_le [of "tm_size t"] by (simp add: getSize_def tm_wf_def)
  then have "frame_of X t \<noteq> None" using set_message_total by (fastforce simp: frame_of_def)
  with t show ?thesis by blast
qed

lemma forward_message_frame [frame_simps]:
  "nx_out_queue (forward_message X t n) = nx_out_queue n" "nx_pushed (forward_message X t n) = nx_pushed n"
  "nx_posted (forward_message X t n) = nx_posted n" "nx_sessions (forward_message X t n) = nx_sessions n"
  "nx_next_id (forward_message X t n) = nx_next_id n" "nx_aborted (forward_message X t n) = nx_aborted n"
  by (auto simp: forward_message_def split: option.split)

lemma net_inv_frame:
  "nx_out_queue n' = nx_out_queue n \<Longrightarrow> nx_pushed n' = nx_pushed n \<Longrightarrow> nx_posted n' = nx_posted n \<Longrightarrow>
   nx_sessions n' = nx_sessions n \<Longrightarrow> nx_next_id n' = nx_next_id n \<Longrightarrow> nx_aborted n' = nx_aborted n \<Longrightarrow>
   net_inv X contents sent n' = net_inv X contents sent n"
  by (simp add: net_inv_def)

lemma net_wf_frame:
  "nx_out_queue n' = nx_out_queue n \<Longrightarrow> nx_pushed n' = nx_pushed n \<Longrightarrow> nx_posted n' = nx_posted n \<Longrightarrow>
   nx_sessions n' = nx_sessions n \<Longrightarrow> nx_next_id n' = nx_next_id n \<Longrightarrow> nx_aborted n' = nx_aborted n \<Longrightarrow>
   net_wf X contents h n' = net_wf X contents h n"
  using net_inv_frame [of n' n X contents] by (simp add: net_wf_def)

lemma net_wf_forward [simp]: "net_wf X contents h (forward_message X t n) = net_wf X contents h n"
  by (rule net_wf_frame) (simp_all add: frame_simps)

text \<open>A session may be replaced by one that has its bytes, or removed.\<close>

lemma net_inv_upd_session:
  assumes "net_inv X contents sent n" and "nx_sessions n i = Some s" and "session_inv X sent i s'"
  shows "net_inv X contents sent (n\<lparr>nx_sessions := (nx_sessions n)(i \<mapsto> s')\<rparr>)"
  using assms by (simp add: net_inv_def)

lemma net_wf_put_session:
  assumes "net_wf X contents h n" and "nx_sessions n i = Some s"
    and "session_wf s \<Longrightarrow> session_wf s' \<and> session_bytes s' = session_bytes s \<and> as_session_id s' = as_session_id s"
  shows "net_wf X contents h (put_session i n s')"
proof -
  obtain sent where h: "h = sent @ contents (nx_out_queue n)" and iv: "net_inv X contents sent n"
    using assms(1) by (auto simp: net_wf_def)
  have "session_inv X sent i s" using iv assms(2) by (simp add: net_inv_def)
  then have "session_inv X sent i s'" using assms(3) by (simp add: session_inv_def)
  from net_inv_upd_session [OF iv assms(2) this] h show ?thesis
    by (auto simp: net_wf_def put_session_def)
qed

lemma net_wf_new: "contents q = [] \<Longrightarrow> net_wf X contents [] (new_network q)"
  by (simp add: net_wf_def net_inv_def new_network_def ids_below_def)

lemma net_wf_push:
  assumes ok: "ext_ok X contents" and wf: "net_wf X contents h n" and "sendable X m"
    and push: "send_push X m i n = Some (b, n')"
  shows "net_wf X contents (h @ accepted X n (SendPush m i)) n'"
proof -
  obtain t where t: "outgoing X m i = Some t" "frame_of X t \<noteq> None"
    using outgoing_total [OF assms(3)] by blast
  show ?thesis
  proof (cases "q_push X t (nx_out_queue n)")
    case None
    then show ?thesis using wf push t by (simp add: send_push_def accepted_def)
  next
    case (Some q)
    have q: "contents q = contents (nx_out_queue n) @ [t]"
      using bounded_fifo.push_SomeD [OF ext_okD(1) [OF ok] Some] by simp
    have n': "n' = n\<lparr>nx_out_queue := q, nx_pushed := Suc (nx_pushed n)\<rparr>" and "accepted X n (SendPush m i) = [t]"
      using push t Some by (simp_all add: send_push_def accepted_def)
    then show ?thesis using wf q t(2) by (simp add: net_wf_def net_inv_def)
  qed
qed

lemma net_wf_post: "net_wf X contents h n \<Longrightarrow> 0 < nx_pushed n \<Longrightarrow> net_wf X contents h (send_post n)"
  by (simp add: net_wf_def net_inv_def send_post_def)

lemma net_wf_consume:
  assumes "net_wf X contents h n" and "get_msg_from_network X n = Some (t, n')"
  shows "net_wf X contents h n'"
proof -
  obtain q where "n' = n\<lparr>nx_in_queue := q\<rparr>"
    using assms(2) by (auto simp: get_msg_from_network_def split: option.splits)
  then show ?thesis using assms(1) net_wf_frame [of n' n X contents h] by simp
qed

lemma session_inv_new: "ids_below i (tm_tag ` set sent) \<Longrightarrow> session_inv X sent i (session_start (new_session X i))"
  by (auto simp: session_inv_def session_wf_new ids_below_def filter_empty_conv frames_def)
     (simp add: session_start_def do_read_header_def new_session_def)

lemma net_wf_accept:
  assumes wf: "net_wf X contents h n" and acc: "on_accept X n = Some n'"
  shows "net_wf X contents h n'"
proof -
  let ?i = "nx_next_id n"
  let ?n = "n\<lparr>nx_sessions := (nx_sessions n)(?i \<mapsto> session_start (new_session X ?i)), nx_next_id := ?i + 1\<rparr>"
  obtain sent where h: "h = sent @ contents (nx_out_queue n)" and iv: "net_inv X contents sent n"
    using wf by (auto simp: net_wf_def)
  have up: "ids_below ?i A \<Longrightarrow> ids_below (?i + 1) A" for A by (auto simp: ids_below_def)
  have fresh: "?i \<notin> set (nx_aborted n)" using iv by (auto simp: net_inv_def ids_below_def)
  have "net_inv X contents sent ?n"
    using iv session_inv_new [of ?i sent X] fresh up by (fastforce simp: net_inv_def)
  then have "net_wf X contents h ?n" using h by (auto simp: net_wf_def)
  moreover have "nx_out_queue n' = nx_out_queue ?n" "nx_pushed n' = nx_pushed ?n" "nx_posted n' = nx_posted ?n"
    "nx_sessions n' = nx_sessions ?n" "nx_next_id n' = nx_next_id ?n" "nx_aborted n' = nx_aborted ?n"
    using acc by (auto simp: on_accept_def Let_def initialize_connection_def frame_simps split: if_splits)
  ultimately show ?thesis using net_wf_frame [of n' ?n X contents h] by blast
qed

lemma net_wf_close:
  assumes "net_wf X contents h n" and "nx_sessions n i = Some s"
  shows "net_wf X contents h ((close_connection i n)
      \<lparr>nx_aborted := (if as_pending_read s \<noteq> NoRead then i # nx_aborted n else nx_aborted n)\<rparr>)"
proof -
  let ?n = "(close_connection i n)
      \<lparr>nx_aborted := (if as_pending_read s \<noteq> NoRead then i # nx_aborted n else nx_aborted n)\<rparr>"
  obtain sent where h: "h = sent @ contents (nx_out_queue n)" and iv: "net_inv X contents sent n"
    using assms(1) by (auto simp: net_wf_def)
  have "0 \<le> i \<and> i < nx_next_id n" using iv assms(2) by (simp add: net_inv_def)
  with iv have "net_inv X contents sent ?n"
    by (auto simp: net_inv_def close_connection_def ids_below_def)
  then show ?thesis using h by (auto simp: net_wf_def close_connection_def)
qed

text \<open>The oldest queued message is handed to its session.\<close>

lemma net_wf_run_forward:
  assumes ok: "ext_ok X contents" and wf: "net_wf X contents h n" and posted: "0 < nx_posted n"
    and run: "forward_msg_to_agent X (n\<lparr>nx_posted := nx_posted n - 1\<rparr>) = Some n'"
  shows "net_wf X contents h n'"
proof -
  obtain t q s s' where pop: "q_pop X (nx_out_queue n) = Some (t, q)"
    and s: "nx_sessions n (tm_tag t) = Some s" and d: "deliver X t s = Some s'"
    and n': "n' = n\<lparr>nx_posted := nx_posted n - 1, nx_out_queue := q,
                    nx_sessions := (nx_sessions n)(tm_tag t \<mapsto> s')\<rparr>"
    using run by (auto simp: forward_msg_to_agent_def send_msg_to_agent_def Option.bind_eq_Some_conv
        split: option.splits)
  have q: "contents (nx_out_queue n) = t # contents q"
    by (rule bounded_fifo.pop_SomeD [OF ext_okD(1) [OF ok] pop])
  obtain sent where h: "h = sent @ contents (nx_out_queue n)" and iv: "net_inv X contents sent n"
    using wf by (auto simp: net_wf_def)
  have "session_inv X sent (tm_tag t) s" using iv s by (simp add: net_inv_def)
  then have s': "session_inv X (sent @ [t]) (tm_tag t) s'"
    using deliver_wf [OF d] by (simp add: session_inv_def)
  have other: "session_inv X (sent @ [t]) i u" if "nx_sessions n i = Some u" "i \<noteq> tm_tag t" for i u
    using iv that by (simp add: net_inv_def session_inv_def)
  have tag: "ids_below (nx_next_id n) (tm_tag ` set (sent @ [t]))"
    using iv s by (auto simp: net_inv_def ids_below_def)
  have "net_inv X contents (sent @ [t]) n'"
    using iv posted q s s' other tag unfolding net_inv_def n' by simp
  then show ?thesis using h q by (auto simp: net_wf_def n')
qed

text \<open>Every enabled step that does not fault keeps the invariant.\<close>

lemma net_step_wf:
  assumes ok: "ext_ok X contents" and wf: "net_wf X contents h n" and en: "enabled X n ev"
    and step: "net_step X n ev = Some n'"
  shows "net_wf X contents (h @ accepted X n ev) n'"
proof (cases ev)
  case (SendPush m i)
  then show ?thesis using step en net_wf_push [OF ok wf] by auto
next
  case SendPost
  then show ?thesis using step en net_wf_post [OF wf] by (simp add: accepted_def)
next
  case Consume
  then show ?thesis
    using step wf net_wf_consume [OF wf] by (auto simp: accepted_def split: option.splits prod.splits)
next
  case Accepted
  then show ?thesis using step net_wf_accept [OF wf] by (simp add: accepted_def)
next
  case (HeaderArrived i b)
  then obtain s s' where s: "nx_sessions n i = Some s" "on_header b s = Some s'" "n' = put_session i n s'"
    using step by (auto simp: on_session_def split: option.splits)
  then show ?thesis
    using on_header_wf [OF s(2)] net_wf_put_session [OF wf s(1), of s'] HeaderArrived
    by (simp add: accepted_def)
next
  case (BodyArrived i b)
  then obtain s th s' where s: "nx_sessions n i = Some s" "on_body X b s = Some (th, s')"
    "n' = forward_message X th (put_session i n s')"
    using step by (auto simp: on_session_def split: option.splits)
  then show ?thesis
    using on_body_wf [OF s(2)] net_wf_put_session [OF wf s(1), of s'] BodyArrived
    by (simp add: accepted_def)
next
  case (ReadFailed i)
  then obtain s where s: "nx_sessions n i = Some s" "n' = put_session i n (close_socket s)"
    using step by (auto simp: on_session_def split: option.splits if_splits)
  then show ?thesis
    using close_socket_wf [of s] net_wf_put_session [OF wf s(1), of "close_socket s"]
      ReadFailed
    by (simp add: accepted_def close_socket_def)
next
  case (WriteDone i)
  then obtain s s' where s: "nx_sessions n i = Some s" "on_written s = Some s'" "n' = put_session i n s'"
    using step by (auto simp: on_session_def split: option.splits)
  then show ?thesis
    using on_written_wf [OF s(2)] net_wf_put_session [OF wf s(1), of s'] WriteDone
    by (simp add: accepted_def)
next
  case (WriteFailed i)
  then show ?thesis
    using step net_wf_close [OF wf] by (auto simp: on_session_def accepted_def split: option.splits)
next
  case RunForward
  then show ?thesis using step en net_wf_run_forward [OF ok wf] by (simp add: accepted_def)
qed

lemma net_reach_wf: "net_reach X contents h n \<Longrightarrow> ext_ok X contents \<Longrightarrow> net_wf X contents h n"
  by (induction rule: net_reach.induct) (auto simp: net_wf_new intro: net_step_wf)

section \<open>What the interface promises\<close>

lemma net_reach_cases:
  assumes "ext_ok X contents" and "net_reach X contents h n"
  obtains sent where "h = sent @ contents (nx_out_queue n)" and "net_inv X contents sent n"
  using net_reach_wf [OF assms(2,1)] by (auto simp: net_wf_def)

lemma session_order:
  assumes "ext_ok X contents" and "net_reach X contents h n" and "nx_sessions n i = Some s"
  shows "frames X (filter (\<lambda>t. tm_tag t = i) h) =
      as_sent s @ concat (map wire_bytes (as_write_queue s)) @
      frames X (filter (\<lambda>t. tm_tag t = i) (contents (nx_out_queue n))) \<and>
    as_pending_writes s = map wire_bytes (take 1 (as_write_queue s))"
proof -
  obtain sent where h: "h = sent @ contents (nx_out_queue n)" and iv: "net_inv X contents sent n"
    using net_reach_cases [OF assms(1,2)] .
  have "session_inv X sent i s" using iv assms(3) by (simp add: net_inv_def)
  then have "as_sent s @ concat (map wire_bytes (as_write_queue s)) = frames X (filter (\<lambda>t. tm_tag t = i) sent)"
    and "as_pending_writes s = map wire_bytes (take 1 (as_write_queue s))"
    by (auto simp: session_inv_def session_bytes_def session_wf_def split: list.splits)
  then show ?thesis by (simp add: h)
qed

text \<open>
  C9: per agent, the network delivers what \<open>send_msg\<close> accepted, in order and without loss, as long as
  its session lives. In every reachable state, over every interleaving of senders and handlers, the
  bytes on the wire of a session followed by the frames in its write queue and those still in the
  output queue are the frames of all the messages accepted for that agent; and the session has at
  most one write outstanding, of the front of its queue.
\<close>

theorem session_delivers_in_order:
  assumes "ext_ok X contents" and "net_reach X contents h n" and "nx_sessions n i = Some s"
  shows "frames X (filter (\<lambda>t. tm_tag t = i) h) =
      as_sent s @ concat (map wire_bytes (as_write_queue s)) @
      frames X (filter (\<lambda>t. tm_tag t = i) (contents (nx_out_queue n))) \<and>
    as_pending_writes s = map wire_bytes (take 1 (as_write_queue s))"
  using assms by (rule session_order)

text \<open>
  C28: a posted handler always finds its message. The number of posted handlers plus that of senders
  between push and post is the length of the output queue, so the pop whose result the handler does
  not test never fails.
\<close>

theorem forward_never_pops_empty:
  assumes "ext_ok X contents" and "net_reach X contents h n" and "enabled X n RunForward"
  shows "nx_pushed n + nx_posted n = length (contents (nx_out_queue n)) \<and> q_pop X (nx_out_queue n) \<noteq> None"
proof -
  obtain sent where iv: "net_inv X contents sent n"
    using net_reach_cases [OF assms(1,2)] .
  then show ?thesis
    using assms(3) bounded_fifo.pop_None_iff [OF ext_okD(1) [OF assms(1)], of "nx_out_queue n"]
    by (auto simp: net_inv_def)
qed

lemma do_write_total: "as_write_queue s \<noteq> [] \<Longrightarrow> do_write s \<noteq> None"
  by (cases "as_write_queue s") (simp_all add: do_write_def)

lemma deliver_total: "frame_of X t \<noteq> None \<Longrightarrow> deliver X t s \<noteq> None"
  using do_write_total by (auto simp: deliver_def Let_def)

lemma on_written_total: "session_wf s \<Longrightarrow> as_pending_writes s \<noteq> [] \<Longrightarrow> on_written s \<noteq> None"
  by (cases "as_write_queue s") (auto simp: on_written_def session_wf_def Let_def do_write_def split: list.splits)

lemma on_header_total: "length b = 4 \<Longrightarrow> on_header b s \<noteq> None"
  by (auto simp: on_header_def read_header_def pm_memcpy_def Let_def split: prod.split)

lemma on_body_total:
  assumes "pm_body_length (as_read_msg s) \<le> 240000" and "length b = unat (pm_body_length (as_read_msg s))"
  shows "on_body X b s \<noteq> None"
proof -
  let ?m = "as_read_msg s"
  have l: "unat (pm_body_length ?m) \<le> 240000" using assms(1) by (simp add: word_le_nat_alt)
  obtain m where m: "pm_memcpy 4 b (unat (pm_body_length ?m)) ?m = Some m" "pm_body_length m = pm_body_length ?m"
    using assms(2) l by (simp add: pm_memcpy_def)
  have "unat (ucast (pm_body_length m) :: u64) = length (pm_body m)"
    using l m(2) by (simp add: pm_body_def unsigned_ucast_eq take_bit_nat_eq_self)
  then have "tagged_message_of (ext_mem X) (pm_body m) (ucast (pm_body_length m)) (as_session_id s) \<noteq> None"
    using tagged_message_of_total [of "ucast (pm_body_length m)" "pm_body m" "ext_mem X" "as_session_id s"] by auto
  then show ?thesis using m(1) by (auto simp: on_body_def read_body_def)
qed

text \<open>
  C21: the only undefined behaviour of the network code. From a reachable state, a step the environment
  can cause faults exactly when a message is forwarded to an agent whose session is gone (a null
  pointer in \<open>sessions_\<close>), when the read handler of a session runs that a failed write destroyed, or when
  a connection is accepted after \<open>next_id_\<close> has come to the largest \<open>int\<close>.
\<close>

theorem network_fault_iff:
  assumes "ext_ok X contents" and "net_reach X contents h n" and "enabled X n ev"
  shows "net_step X n ev = None \<longleftrightarrow>
     (ev = RunForward \<and> nx_sessions n (tm_tag (hd (contents (nx_out_queue n)))) = None) \<or>
     (\<exists>i. ev = ReadFailed i \<and> i \<in> set (nx_aborted n)) \<or>
     (ev = Accepted \<and> 2 ^ 31 - 1 \<le> nx_next_id n)"
proof -
  obtain sent where iv: "net_inv X contents sent n"
    using net_reach_cases [OF assms(1,2)] .
  have wf: "session_wf s" if "nx_sessions n i = Some s" for i s
    using iv that by (simp add: net_inv_def session_inv_def)
  show ?thesis
  proof (cases ev)
    case (SendPush m i)
    then obtain t where "outgoing X m i = Some t" using outgoing_total [of X m i] assms(3) by auto
    then show ?thesis using SendPush by (auto simp: send_push_def split: option.splits)
  next
    case Accepted
    then show ?thesis using assms(3) by (simp add: on_accept_def Let_def initialize_connection_def frame_simps)
  next
    case (HeaderArrived i b)
    then show ?thesis using assms(3) on_header_total by (auto simp: on_session_def)
  next
    case (BodyArrived i b)
    then obtain s where s: "nx_sessions n i = Some s" "as_pending_read s = BodyRead"
      "length b = unat (pm_body_length (as_read_msg s))"
      using assms(3) by auto
    then have "on_body X b s \<noteq> None"
      using wf [OF s(1)] by (intro on_body_total) (simp_all add: session_wf_def)
    then show ?thesis using BodyArrived s(1) by (simp add: on_session_def)
  next
    case (ReadFailed i)
    then show ?thesis using assms(3) by (auto simp: on_session_def)
  next
    case (WriteDone i)
    then show ?thesis using assms(3) on_written_total wf by (auto simp: on_session_def)
  next
    case (WriteFailed i)
    then show ?thesis using assms(3) by (auto simp: on_session_def)
  next
    case RunForward
    then obtain t ts where q: "contents (nx_out_queue n) = t # ts" "frame_of X t \<noteq> None"
      using iv assms(3) by (cases "contents (nx_out_queue n)") (auto simp: net_inv_def)
    then obtain q' where "q_pop X (nx_out_queue n) = Some (t, q')"
      using bounded_fifo.pop_cons [OF ext_okD(1) [OF assms(1)]] by blast
    then have "forward_msg_to_agent X (n\<lparr>nx_posted := nx_posted n - 1\<rparr>) = None \<longleftrightarrow>
        nx_sessions n (tm_tag t) = None"
      using deliver_total [OF q(2)]
      by (auto simp: forward_msg_to_agent_def send_msg_to_agent_def Option.bind_eq_None_conv
          split: option.splits)
    then show ?thesis using RunForward q(1) by simp
  qed auto
qed

text \<open>
  A concrete run: an agent connects, two messages are accepted for it, the first is handed to its
  session and written.
\<close>

definition hello_message :: flexran_message where
  "hello_message = \<lparr>msg_dir = INITIATING_MESSAGE, msg_body = HelloMsg no_header\<rparr>"

fun net_run :: "'q ext \<Rightarrow> 'q network \<Rightarrow> net_event list \<Rightarrow> (tagged_message list \<times> 'q network) option" where
  "net_run X n [] = Some ([], n)"
| "net_run X n (ev # evs) =
     (if enabled X n ev
      then do { n' \<leftarrow> net_step X n ev; (h, n'') \<leftarrow> net_run X n' evs; Some (accepted X n ev @ h, n'') }
      else None)"

lemma net_run_reach:
  "net_run X n evs = Some (h', n') \<Longrightarrow> net_reach X contents h n \<Longrightarrow> net_reach X contents (h @ h') n'"
proof (induction evs arbitrary: n h h')
  case (Cons ev evs)
  then obtain n1 h1 where en: "enabled X n ev" and st: "net_step X n ev = Some n1"
    and r: "net_run X n1 evs = Some (h1, n')" and h': "h' = accepted X n ev @ h1"
    by (auto simp: Option.bind_eq_Some_conv split: if_splits)
  have "net_reach X contents (h @ accepted X n ev) n1"
    by (rule net_reach.step [OF Cons.prems(2) en st])
  from Cons.IH [OF r this] show ?case by (simp add: h')
qed simp

definition sample_run :: "net_event list" where
  "sample_run = [Accepted, SendPush hello_message 0, SendPost, SendPush hello_message 0, RunForward, WriteDone 0]"

lemma sample_run_reach:
  obtains t w s n where "outgoing list_ext hello_message 0 = Some t" and "tm_tag t = 0"
    and "frame_of list_ext t = Some w" and "net_reach list_ext (\<lambda>q. q) [t, t] n"
    and "nx_sessions n 0 = Some s" and "as_sent s = wire_bytes w" and "as_write_queue s = []"
    and "nx_out_queue n = [t]" and "nx_posted n = 0" and "nx_aborted n = []" and "as_pending_read s = HeaderRead"
proof -
  have ok: "sendable list_ext hello_message" by (simp add: sendable_def list_ext_def hello_message_def)
  obtain t w where t: "outgoing list_ext hello_message 0 = Some t" "tm_tag t = 0" "frame_of list_ext t = Some w"
    using outgoing_total [OF ok, of 0] by auto
  obtain s n where run: "net_run list_ext (new_network []) sample_run = Some ([t, t], n)"
    and n: "nx_sessions n 0 = Some s" "as_sent s = wire_bytes w" "as_write_queue s = []" "nx_out_queue n = [t]"
      "nx_posted n = 0" "nx_aborted n = []" "as_pending_read s = HeaderRead"
    by (simp add: sample_run_def ok t list_ext_queues new_network_def on_accept_def Let_def initialize_connection_def
        forward_message_def list_push_def queue_capacity_def accepted_def send_push_def send_post_def
        forward_msg_to_agent_def send_msg_to_agent_def deliver_def session_start_def do_read_header_def
        new_session_def do_write_def on_session_def on_written_def put_session_def)
  have "net_reach list_ext (\<lambda>q. q) ([] @ [t, t]) n"
    by (rule net_run_reach [OF run net_reach.started]) simp
  then show thesis using that [OF t, of n s] n by simp
qed

lemma session_delivers_witness:
  "\<exists>h n s. net_reach list_ext (\<lambda>q. q) h n \<and> nx_sessions n 0 = Some s \<and> length h = 2 \<and> as_sent s \<noteq> [] \<and>
     frames list_ext (filter (\<lambda>t. tm_tag t = 0) h) = as_sent s @ as_sent s"
proof -
  obtain t w s n where run: "tm_tag t = 0" "frame_of list_ext t = Some w" "net_reach list_ext (\<lambda>q. q) [t, t] n"
    "nx_sessions n 0 = Some s" "as_sent s = wire_bytes w" "as_write_queue s = []" "nx_out_queue n = [t]"
    using sample_run_reach by metis
  have "framed w" using run(2) framed_set_message by (auto simp: frame_of_def)
  then have "wire_bytes w \<noteq> []" using framed_lengths(2) by (force simp: wire_bytes_def)
  then show ?thesis
    using session_delivers_in_order [OF ext_ok_list run(3,4)] run
    by (intro exI [of _ "[t, t]"] exI [of _ n] exI [of _ s]) simp
qed

lemma forward_never_pops_empty_witness:
  "\<exists>h n. net_reach list_ext (\<lambda>q. q) h (send_post n) \<and> nx_posted (send_post n) = 1 \<and>
     q_pop list_ext (nx_out_queue (send_post n)) \<noteq> None"
proof -
  have ok: "sendable list_ext hello_message" by (simp add: sendable_def list_ext_def hello_message_def)
  obtain t where t: "outgoing list_ext hello_message 0 = Some t" using outgoing_total [OF ok, of 0] by auto
  let ?n = "(new_network [])\<lparr>nx_out_queue := [t], nx_pushed := 1\<rparr>"
  have "net_run list_ext (new_network []) [SendPush hello_message 0, SendPost] = Some ([t], send_post ?n)"
    by (simp add: ok t new_network_def accepted_def send_push_def list_ext_queues list_push_def queue_capacity_def)
  then have r: "net_reach list_ext (\<lambda>q. q) ([] @ [t]) (send_post ?n)"
    by (rule net_run_reach [OF _ net_reach.started]) simp
  have "enabled list_ext (send_post ?n) RunForward" by (simp add: send_post_def)
  with forward_never_pops_empty [OF ext_ok_list r] r show ?thesis
    by (intro exI [of _ "[t]"] exI [of _ ?n]) (simp add: send_post_def new_network_def)
qed

lemma network_fault_witness:
  "\<exists>h n. net_reach list_ext (\<lambda>q. q) h n \<and> enabled list_ext n (ReadFailed 0) \<and>
     net_step list_ext n (ReadFailed 0) = None \<and> net_step list_ext n Accepted \<noteq> None"
proof -
  have ok: "sendable list_ext hello_message" by (simp add: sendable_def list_ext_def hello_message_def)
  obtain t w where t: "outgoing list_ext hello_message 0 = Some t" "tm_tag t = 0" "frame_of list_ext t = Some w"
    using outgoing_total [OF ok, of 0] by auto
  obtain n where run: "net_run list_ext (new_network [])
      [Accepted, SendPush hello_message 0, SendPost, RunForward, WriteFailed 0] = Some ([t], n)"
    and n: "nx_aborted n = [0]" "nx_next_id n = 1"
    by (simp add: ok t list_ext_queues new_network_def on_accept_def Let_def initialize_connection_def
        forward_message_def list_push_def queue_capacity_def accepted_def send_push_def send_post_def
        forward_msg_to_agent_def send_msg_to_agent_def deliver_def session_start_def do_read_header_def
        new_session_def do_write_def on_session_def close_connection_def)
  have r: "net_reach list_ext (\<lambda>q. q) ([] @ [t]) n"
    by (rule net_run_reach [OF run net_reach.started]) simp
  have en: "enabled list_ext n (ReadFailed 0)" "enabled list_ext n Accepted" using n by simp_all
  show ?thesis
    using network_fault_iff [OF ext_ok_list r en(1)] network_fault_iff [OF ext_ok_list r en(2)] r en(1) n
    by (intro exI [of _ "[t]"] exI [of _ n]) simp
qed

end
