(* ===== verification/RibUpdater.thy ===== *)
theory RibUpdater
  imports Rib Network
begin

text \<open>
  \<open>src/rib/rib_updater.{h,cc}\<close>: the task that moves messages from the network into the RIB. Once per
  period it handles up to \<open>messages_to_check_\<close> (350) messages; an empty message announces a new
  connection. The run of the task is one step here: messages that arrive meanwhile are in the queue
  of the next run. \<open>clk k\<close> is what \<open>clock()\<close> returns while \<open>k\<close> messages are left to check.
\<close>

section \<open>State and handlers\<close>

record 'q updater =
  ru_rib :: rib
  ru_net :: "'q network"

definition send_to :: "'q ext \<Rightarrow> flexran_message \<Rightarrow> int \<Rightarrow> 'q updater \<Rightarrow> 'q updater option" where
  "send_to X m agent_id u = do {
     (ok, n) \<leftarrow> send_msg X m agent_id (ru_net u);
     Some (u\<lparr>ru_net := n\<rparr>) }"

definition on_rib :: "(rib \<Rightarrow> rib option) \<Rightarrow> 'q updater \<Rightarrow> 'q updater option" where
  "on_rib f u = do { r \<leftarrow> f (ru_rib u); Some (u\<lparr>ru_rib := r\<rparr>) }"

abbreviation header :: "flex_type \<Rightarrow> u32 option \<Rightarrow> u32 \<Rightarrow> flex_header" where
  "header t version xid \<equiv> \<lparr>hdr_version = version, hdr_type = Some t, hdr_xid = Some xid\<rparr>"

definition hello_out :: flexran_message where
  "hello_out = \<lparr>msg_dir = INITIATING_MESSAGE, msg_body = HelloMsg (header FLPT_HELLO (Some 0) 0)\<rparr>"

definition enb_config_request_out :: flexran_message where
  "enb_config_request_out =
     \<lparr>msg_dir = INITIATING_MESSAGE,
      msg_body = EnbConfigRequestMsg (header FLPT_GET_ENB_CONFIG_REQUEST (Some 0) 0)\<rparr>"

definition ue_config_request_out :: flexran_message where
  "ue_config_request_out =
     \<lparr>msg_dir = INITIATING_MESSAGE,
      msg_body = UeConfigRequestMsg (header FLPT_GET_UE_CONFIG_REQUEST None 1)\<rparr>"

definition lc_config_request_out :: flexran_message where
  "lc_config_request_out =
     \<lparr>msg_dir = INITIATING_MESSAGE,
      msg_body = LcConfigRequestMsg (header FLPT_GET_LC_CONFIG_REQUEST None 2)\<rparr>"

definition echo_reply_out :: "flex_header \<Rightarrow> flexran_message" where
  "echo_reply_out request_header =
     \<lparr>msg_dir = SUCCESSFUL_OUTCOME,
      msg_body = EchoReplyMsg (header FLPT_ECHO_REPLY (Some 0) (get_u32 (hdr_xid request_header)))\<rparr>"

definition handle_new_connection :: "'q ext \<Rightarrow> int \<Rightarrow> 'q updater \<Rightarrow> 'q updater option" where
  "handle_new_connection X tag u =
     send_to X hello_out tag (u\<lparr>ru_rib := add_pending_agent tag (ru_rib u)\<rparr>)"

definition handle_hello :: "'q ext \<Rightarrow> int \<Rightarrow> flexran_direction \<Rightarrow> 'q updater \<Rightarrow> 'q updater option" where
  "handle_hello X agent_id dir u =
     (if dir = SUCCESSFUL_OUTCOME
      then do {
        u \<leftarrow> send_to X enb_config_request_out agent_id u;
        u \<leftarrow> send_to X ue_config_request_out agent_id u;
        send_to X lc_config_request_out agent_id u }
      else Some u)"

definition handle_echo_request :: "'q ext \<Rightarrow> int \<Rightarrow> flex_header \<Rightarrow> 'q updater \<Rightarrow> 'q updater option" where
  "handle_echo_request X agent_id h u = send_to X (echo_reply_out h) agent_id u"

definition if_configured :: "int \<Rightarrow> ('q updater \<Rightarrow> 'q updater option) \<Rightarrow> 'q updater \<Rightarrow> 'q updater option" where
  "if_configured agent_id f u = (if has_eNB_config_entry (ru_rib u) agent_id then f u else Some u)"

definition handle_echo_reply :: "int \<Rightarrow> int \<Rightarrow> 'q updater \<Rightarrow> 'q updater option" where
  "handle_echo_reply now agent_id = if_configured agent_id (on_rib (rib_update_liveness now agent_id))"

definition handle_sf_trigger :: "int \<Rightarrow> int \<Rightarrow> flex_sf_trigger \<Rightarrow> 'q updater \<Rightarrow> 'q updater option" where
  "handle_sf_trigger now agent_id t = if_configured agent_id (on_rib (set_subframe_updates now agent_id t))"

definition handle_enb_config_reply ::
    "junk \<Rightarrow> int \<Rightarrow> int \<Rightarrow> flex_enb_config_reply \<Rightarrow> 'q updater \<Rightarrow> 'q updater option" where
  "handle_enb_config_reply jk now agent_id m u =
     (if agent_is_pending (ru_rib u) agent_id
      then let r = remove_pending_agent agent_id (new_eNB_config_entry jk now agent_id (ru_rib u))
           in on_rib (eNB_config_update now agent_id m) (u\<lparr>ru_rib := r\<rparr>)
      else Some u)"

definition handle_ue_config_reply ::
    "junk \<Rightarrow> int \<Rightarrow> int \<Rightarrow> flex_ue_config_reply \<Rightarrow> 'q updater \<Rightarrow> 'q updater option" where
  "handle_ue_config_reply jk now agent_id m =
     if_configured agent_id (on_rib (ue_config_update jk now agent_id m))"

definition handle_lc_config_reply :: "int \<Rightarrow> int \<Rightarrow> flex_lc_config_reply \<Rightarrow> 'q updater \<Rightarrow> 'q updater option" where
  "handle_lc_config_reply now agent_id m = if_configured agent_id (on_rib (lc_config_update now agent_id m))"

definition handle_stats_reply :: "int \<Rightarrow> flex_stats_reply \<Rightarrow> 'q updater \<Rightarrow> 'q updater option" where
  "handle_stats_reply agent_id m = if_configured agent_id (on_rib (mac_stats_update agent_id m))"

definition handle_ue_state_change ::
    "'q ext \<Rightarrow> junk \<Rightarrow> int \<Rightarrow> flex_ue_state_change \<Rightarrow> 'q updater \<Rightarrow> 'q updater option" where
  "handle_ue_state_change X jk agent_id m =
     if_configured agent_id (\<lambda>u. do {
       u \<leftarrow> on_rib (ue_state_update jk agent_id m) u;
       send_to X lc_config_request_out agent_id u })"

text \<open>The chain of \<open>has_...\<close> tests: at most one member of the \<open>oneof\<close> is set.\<close>

definition handle_message :: "'q ext \<Rightarrow> junk \<Rightarrow> int \<Rightarrow> int \<Rightarrow> flexran_message \<Rightarrow> 'q updater \<Rightarrow>
    'q updater option" where
  "handle_message X jk now tag m u =
     (case msg_body m of
        HelloMsg _ \<Rightarrow> handle_hello X tag (msg_dir m) u
      | EchoRequestMsg h \<Rightarrow> handle_echo_request X tag h u
      | EchoReplyMsg _ \<Rightarrow> handle_echo_reply now tag u
      | StatsReplyMsg r \<Rightarrow> handle_stats_reply tag r u
      | SfTriggerMsg t \<Rightarrow> handle_sf_trigger now tag t u
      | UlSrInfoMsg \<Rightarrow> Some u
      | EnbConfigReplyMsg r \<Rightarrow> handle_enb_config_reply jk now tag r u
      | UeConfigReplyMsg r \<Rightarrow> handle_ue_config_reply jk now tag r u
      | LcConfigReplyMsg r \<Rightarrow> handle_lc_config_reply now tag r u
      | UeStateChangeMsg r \<Rightarrow> handle_ue_state_change X jk tag r u
      | _ \<Rightarrow> Some u)"

text \<open>The result of \<open>ParseFromArray\<close> is not tested; \<open>ext_parse\<close> is the message object it leaves.\<close>

definition handle_tagged :: "'q ext \<Rightarrow> junk \<Rightarrow> int \<Rightarrow> tagged_message \<Rightarrow> 'q updater \<Rightarrow> 'q updater option" where
  "handle_tagged X jk now tm u =
     (if getSize tm = 0 then handle_new_connection X (tm_tag tm) u
      else handle_message X jk now (tm_tag tm) (ext_parse X (tm_contents tm)) u)"

text \<open>
  The loop condition first takes a message off the queue, then tests the budget: with no budget left
  the message is gone.
\<close>

fun update_loop :: "'q ext \<Rightarrow> junk \<Rightarrow> (nat \<Rightarrow> int) \<Rightarrow> nat \<Rightarrow> 'q updater \<Rightarrow> 'q updater option" where
  "update_loop X jk clk rem_msgs u =
     (case get_msg_from_network X (ru_net u) of
        None \<Rightarrow> Some u
      | Some (tm, n) \<Rightarrow>
          let u = u\<lparr>ru_net := n\<rparr>
          in case rem_msgs of
               0 \<Rightarrow> Some u
             | Suc k \<Rightarrow> do {
                 u \<leftarrow> handle_tagged X jk (clk rem_msgs) tm u;
                 update_loop X jk clk k u })"

declare update_loop.simps [simp del]

definition update_rib :: "'q ext \<Rightarrow> junk \<Rightarrow> (nat \<Rightarrow> int) \<Rightarrow> int \<Rightarrow> 'q updater \<Rightarrow> 'q updater option" where
  "update_rib X jk clk messages_to_check u = update_loop X jk clk (nat messages_to_check) u"

definition default_messages_to_check :: int where
  "default_messages_to_check = 350"

section \<open>Frames\<close>

lemma on_rib_eq_Some: "on_rib f u = Some u' \<longleftrightarrow> (\<exists>r. f (ru_rib u) = Some r \<and> u' = u\<lparr>ru_rib := r\<rparr>)"
  by (auto simp: on_rib_def Option.bind_eq_Some_conv)

lemma send_to_eq_Some:
  "send_to X m a u = Some u' \<longleftrightarrow> (\<exists>ok n. send_msg X m a (ru_net u) = Some (ok, n) \<and> u' = u\<lparr>ru_net := n\<rparr>)"
  by (auto simp: send_to_def Option.bind_eq_Some_conv)

lemma send_msg_in_queue: "send_msg X m a n = Some (ok, n') \<Longrightarrow> nx_in_queue n' = nx_in_queue n"
  by (auto simp: send_msg_def send_push_def send_post_def Option.bind_eq_Some_conv split: option.splits if_splits)

lemma send_to_frame:
  assumes "send_to X m a u = Some u'"
  shows "ru_rib u' = ru_rib u" and "nx_in_queue (ru_net u') = nx_in_queue (ru_net u)"
  using assms send_msg_in_queue by (auto simp: send_to_eq_Some)

text \<open>A message that fits protobuf's bound can always be handed to the network.\<close>

lemma send_to_total: "sendable X m \<Longrightarrow> \<exists>u'. send_to X m a u = Some u'"
  using outgoing_total [of X m a]
  by (auto simp: send_to_eq_Some send_msg_def send_push_def split: option.splits)

section \<open>Every agent's record follows the state machine of its eNB\<close>

fun event_of :: "flexran_body \<Rightarrow> enb_event option" where
  "event_of (StatsReplyMsg r) = Some (MacReport r)"
| "event_of (SfTriggerMsg t) = Some (SfTrigger t)"
| "event_of (EnbConfigReplyMsg r) = Some (EnbConfig r)"
| "event_of (UeConfigReplyMsg r) = Some (UeConfig r)"
| "event_of (LcConfigReplyMsg r) = Some (LcConfig r)"
| "event_of (UeStateChangeMsg r) = Some (UeState r)"
| "event_of (EchoReplyMsg h) = Some EchoReply"
| "event_of _ = None"

definition tagged_event :: "'q ext \<Rightarrow> tagged_message \<Rightarrow> enb_event option" where
  "tagged_event X tm = (if getSize tm = 0 then None else event_of (msg_body (ext_parse X (tm_contents tm))))"

text \<open>
  What one message may do to the record of its sender. The result is \<open>None\<close> when the update faults;
  a record is created by the configuration reply of a pending agent and by nothing else.
\<close>

definition agent_spec :: "junk \<Rightarrow> int \<Rightarrow> int \<Rightarrow> bool \<Rightarrow> enb_event option \<Rightarrow> enb_rib_info option \<Rightarrow>
    enb_rib_info option option" where
  "agent_spec jk now a pending ev old =
     (case ev of
        None \<Rightarrow> Some old
      | Some (EnbConfig r) \<Rightarrow>
          if pending
          then map_option Some (enb_step jk now
                 (case old of None \<Rightarrow> new_enb_rib_info jk now a | Some e \<Rightarrow> e) (EnbConfig r))
          else Some old
      | Some ev \<Rightarrow> (case old of None \<Rightarrow> Some None | Some e \<Rightarrow> map_option Some (enb_step jk now e ev)))"

lemma agent_spec_simps [simp]:
  "agent_spec jk now a p None old = Some old"
  "agent_spec jk now a p (Some (EnbConfig r)) old =
     (if p then Some (Some (update_eNB_config now
                 (case old of None \<Rightarrow> new_enb_rib_info jk now a | Some e \<Rightarrow> e) r)) else Some old)"
  "\<forall>r. ev \<noteq> EnbConfig r \<Longrightarrow> agent_spec jk now a p (Some ev) old =
     (case old of None \<Rightarrow> Some None | Some e \<Rightarrow> map_option Some (enb_step jk now e ev))"
  by (auto simp: agent_spec_def split: enb_event.split)

text \<open>The view of one agent, through the handlers.\<close>

abbreviation (input) agent_view :: "int \<Rightarrow> 'q updater option \<Rightarrow> enb_rib_info option option" where
  "agent_view a \<equiv> map_option (\<lambda>u. get_agent (ru_rib u) a)"

lemma with_agent_view:
  assumes "rib_wf r"
  shows "map_option (\<lambda>r'. get_agent r' a) (with_agent a f r) =
     (case get_agent r a of None \<Rightarrow> Some None | Some e \<Rightarrow> map_option Some (f e))"
proof (cases "with_agent a f r")
  case None
  then show ?thesis by (auto simp: with_agent_fault_iff)
next
  case (Some r')
  from Some assms show ?thesis
    by (cases rule: with_agent_cases) (use Some in auto)
qed

lemma on_rib_view: "agent_view a (on_rib f u) = map_option (\<lambda>r. get_agent r a) (f (ru_rib u))"
  by (cases "f (ru_rib u)") (simp_all add: on_rib_def)

lemma if_configured_view:
  assumes "rib_wf (ru_rib u)"
  shows "agent_view a (if_configured a (on_rib (with_agent a f)) u) =
     (case get_agent (ru_rib u) a of None \<Rightarrow> Some None | Some e \<Rightarrow> map_option Some (f e))"
  using assms on_rib_view [of a "with_agent a f" u] with_agent_view [OF assms, of a f]
  by (auto simp: if_configured_def has_eNB_config_entry_def get_agent_def)

definition can_send :: "'q ext \<Rightarrow> bool" where
  "can_send X \<longleftrightarrow> sendable X hello_out \<and> sendable X enb_config_request_out \<and> sendable X ue_config_request_out \<and>
     sendable X lc_config_request_out \<and> (\<forall>h. sendable X (echo_reply_out h))"

lemma send_to_view:
  "sendable X m \<Longrightarrow> agent_view a (send_to X m b u) = Some (get_agent (ru_rib u) a)"
  using send_to_total [of X m b u] send_to_frame(1) by fastforce

lemma send_after_view:
  assumes "sendable X m"
  shows "agent_view a (f u \<bind> send_to X m b) = agent_view a (f u)"
  using send_to_view [OF assms] by (cases "f u") auto

lemma handle_hello_view: "can_send X \<Longrightarrow> agent_view a (handle_hello X b d u) = Some (get_agent (ru_rib u) a)"
proof (cases "d = SUCCESSFUL_OUTCOME")
  case True
  assume s: "can_send X"
  obtain u1 where u1: "send_to X enb_config_request_out b u = Some u1"
    using send_to_total [of X enb_config_request_out b u] s by (auto simp: can_send_def)
  obtain u2 where u2: "send_to X ue_config_request_out b u1 = Some u2"
    using send_to_total [of X ue_config_request_out b u1] s by (auto simp: can_send_def)
  show ?thesis
    using True u1 u2 send_to_frame(1) [OF u1] send_to_frame(1) [OF u2] s
    by (simp add: handle_hello_def send_to_view can_send_def)
qed (simp add: handle_hello_def)

lemma handle_enb_config_view:
  assumes "rib_wf (ru_rib u)"
  shows "agent_view a (handle_enb_config_reply jk now a r u) =
     agent_spec jk now a (agent_is_pending (ru_rib u) a) (Some (EnbConfig r)) (get_agent (ru_rib u) a)"
proof (cases "agent_is_pending (ru_rib u) a")
  case True
  let ?r = "remove_pending_agent a (new_eNB_config_entry jk now a (ru_rib u))"
  have wf: "rib_wf ?r" using assms by (simp add: rib_wf_new_entry)
  have "get_agent ?r a = Some (case get_agent (ru_rib u) a of None \<Rightarrow> new_enb_rib_info jk now a | Some e \<Rightarrow> e)"
    using get_agent_new_entry [OF assms] by (auto simp: has_eNB_config_entry_def get_agent_def split: option.splits)
  then show ?thesis
    using True with_agent_view [OF wf, of a "\<lambda>e. Some (update_eNB_config now e r)"]
    by (simp add: handle_enb_config_reply_def Let_def on_rib_view eNB_config_update_def)
qed (simp add: handle_enb_config_reply_def)

lemma handle_message_view:
  assumes "rib_wf (ru_rib u)" and "can_send X"
  shows "agent_view a (handle_message X jk now a m u) =
     agent_spec jk now a (agent_is_pending (ru_rib u) a) (event_of (msg_body m)) (get_agent (ru_rib u) a)"
proof -
  note view = if_configured_view [OF assms(1)]
  have lc: "agent_view a (handle_ue_state_change X jk a sc u) =
      agent_view a (if_configured a (on_rib (ue_state_update jk a sc)) u)" for sc
    using send_after_view [of X lc_config_request_out a "on_rib (ue_state_update jk a sc)" u a] assms(2)
    by (simp add: handle_ue_state_change_def if_configured_def can_send_def)
  show ?thesis
    using assms(2)
    by (cases "msg_body m")
       (simp_all add: handle_message_def lc view handle_hello_view handle_enb_config_view [OF assms(1)]
          handle_echo_request_def send_to_view can_send_def handle_echo_reply_def handle_stats_reply_def
          handle_sf_trigger_def handle_ue_config_reply_def handle_lc_config_reply_def rib_update_liveness_def
          mac_stats_update_def set_subframe_updates_def ue_config_update_def lc_config_update_def
          ue_state_update_def del: agent_spec_simps(2) split: option.split)
qed

lemma handle_tagged_view:
  assumes "rib_wf (ru_rib u)" and "can_send X"
  shows "agent_view (tm_tag tm) (handle_tagged X jk now tm u) =
     agent_spec jk now (tm_tag tm) (agent_is_pending (ru_rib u) (tm_tag tm)) (tagged_event X tm)
       (get_agent (ru_rib u) (tm_tag tm))"
proof (cases "getSize tm = 0")
  case True
  then show ?thesis
    using assms(2) by (simp add: handle_tagged_def tagged_event_def handle_new_connection_def send_to_view can_send_def)
next
  case False
  then show ?thesis
    using handle_message_view [OF assms] by (simp add: handle_tagged_def tagged_event_def)
qed

text \<open>
  C4: the updater refines one state machine per eNB. Handling a message that arrived from an agent
  takes that agent's record exactly the step \<open>agent_spec\<close> says (creation by a configuration reply of a
  pending agent, one event of the eNB's state machine, or nothing), and it faults exactly when
  that step does.
\<close>

theorem updater_refines_enb:
  assumes "rib_wf (ru_rib u)" and "can_send X"
  shows "map_option (\<lambda>u'. get_agent (ru_rib u') (tm_tag tm)) (handle_tagged X jk now tm u) =
     agent_spec jk now (tm_tag tm) (agent_is_pending (ru_rib u) (tm_tag tm)) (tagged_event X tm)
       (get_agent (ru_rib u) (tm_tag tm))"
  by (rule handle_tagged_view [OF assms])

text \<open>A one-byte message from an agent, as \<open>list_ext\<close> parses it.\<close>

definition sample_tagged :: "int \<Rightarrow> u8 list \<Rightarrow> tagged_message" where
  "sample_tagged tag b = \<lparr>tm_tag = tag, tm_size = of_nat (length b), tm_buf = b, tm_dynamic_alloc = False\<rparr>"

lemma can_send_list: "can_send list_ext"
  by (simp add: can_send_def sendable_def list_ext_def hello_out_def enb_config_request_out_def
      ue_config_request_out_def lc_config_request_out_def echo_reply_out_def)

lemma sample_event:
  "tagged_event list_ext (sample_tagged a []) = None"
  "tagged_event list_ext (sample_tagged a [b]) = event_of (sample_parse [b])"
  by (simp_all add: tagged_event_def sample_tagged_def getSize_def tm_contents_def list_ext_def)

definition pending_updater :: "tagged_message list updater" where
  "pending_updater = \<lparr>ru_rib = add_pending_agent 4 new_rib, ru_net = new_network []\<rparr>"

lemma pending_updater_wf:
  "rib_wf (ru_rib pending_updater)" "get_agent (ru_rib pending_updater) a = None"
  "agent_is_pending (ru_rib pending_updater) 4"
  unfolding pending_updater_def
  by (simp_all add: rib_wf_new_rib) (simp add: agent_is_pending_def add_pending_agent_def)

lemma updater_refines_witness:
  "map_option (\<lambda>u'. get_agent (ru_rib u') 4) (handle_tagged list_ext zero_junk 0 (sample_tagged 4 [3]) pending_updater) =
     Some (Some (update_eNB_config 0 (new_enb_rib_info zero_junk 0 4)
       \<lparr>er_header = no_header, er_eNB_id = 1, er_cell_config = []\<rparr>))"
  using updater_refines_enb [OF pending_updater_wf(1) can_send_list, of "sample_tagged 4 [3]" zero_junk 0]
    pending_updater_wf(2,3)
  by (simp add: sample_event sample_parse_def) (simp add: sample_tagged_def)

section \<open>Isolation of the agents\<close>

text \<open>\<open>touches a u u'\<close>: the step kept the RIB well formed, the input queue, and all records but \<open>a\<close>'s.\<close>

definition touches :: "int \<Rightarrow> 'q updater \<Rightarrow> 'q updater \<Rightarrow> bool" where
  "touches a u u' \<longleftrightarrow> (rib_wf (ru_rib u) \<longrightarrow>
     rib_wf (ru_rib u') \<and> (\<forall>b. b \<noteq> a \<longrightarrow> get_agent (ru_rib u') b = get_agent (ru_rib u) b)) \<and>
     nx_in_queue (ru_net u') = nx_in_queue (ru_net u)"

lemma touches_refl: "touches a u u"
  by (simp add: touches_def)

lemma touches_trans: "touches a u v \<Longrightarrow> touches a v w \<Longrightarrow> touches a u w"
  by (auto simp: touches_def)

lemma touches_send: "send_to X m b u = Some u' \<Longrightarrow> touches a u u'"
  using send_to_frame [of X m b u u'] by (simp add: touches_def)

lemma touches_with_agent:
  assumes "on_rib (with_agent a f) u = Some u'" and "\<And>e e'. f e = Some e' \<Longrightarrow> enb_wf e \<Longrightarrow> enb_wf e'"
  shows "touches a u u'"
proof -
  obtain r where r: "with_agent a f (ru_rib u) = Some r" and u': "u' = u\<lparr>ru_rib := r\<rparr>"
    using assms(1) by (auto simp: on_rib_eq_Some)
  have "rib_wf r \<and> (\<forall>b. b \<noteq> a \<longrightarrow> get_agent r b = get_agent (ru_rib u) b)" if "rib_wf (ru_rib u)"
  proof -
    have "rib_wf r" by (rule with_agent_wf [OF r that assms(2)])
    moreover have "\<forall>b. b \<noteq> a \<longrightarrow> get_agent r b = get_agent (ru_rib u) b"
      using r that by (cases rule: with_agent_cases) auto
    ultimately show ?thesis by blast
  qed
  then show ?thesis by (simp add: touches_def u')
qed

lemma touches_if_configured:
  "if_configured a f u = Some u' \<Longrightarrow> (\<And>u'. f u = Some u' \<Longrightarrow> touches a u u') \<Longrightarrow> touches a u u'"
  by (auto simp: if_configured_def touches_refl split: if_splits)

lemma touches_enb_config:
  assumes "handle_enb_config_reply jk now a r u = Some u'"
  shows "touches a u u'"
proof (cases "agent_is_pending (ru_rib u) a")
  case True
  let ?u = "u\<lparr>ru_rib := remove_pending_agent a (new_eNB_config_entry jk now a (ru_rib u))\<rparr>"
  have "touches a u ?u"
    using get_agent_new_entry [of "ru_rib u" jk now a] by (simp add: touches_def rib_wf_new_entry)
  moreover have "touches a ?u u'"
    using assms True by (intro touches_with_agent [where f = "\<lambda>e. Some (update_eNB_config now e r)"])
      (auto simp: handle_enb_config_reply_def Let_def eNB_config_update_def intro: wf_intros)
  ultimately show ?thesis by (rule touches_trans)
next
  case False
  then show ?thesis using assms by (simp add: handle_enb_config_reply_def touches_refl)
qed

lemma touches_updates:
  "handle_echo_reply now a u = Some u' \<Longrightarrow> touches a u u'"
  "handle_stats_reply a sr u = Some u' \<Longrightarrow> touches a u u'"
  "handle_sf_trigger now a t u = Some u' \<Longrightarrow> touches a u u'"
  "handle_ue_config_reply jk now a uc u = Some u' \<Longrightarrow> touches a u u'"
  "handle_lc_config_reply now a lc u = Some u' \<Longrightarrow> touches a u u'"
  unfolding handle_echo_reply_def handle_stats_reply_def handle_sf_trigger_def handle_ue_config_reply_def
    handle_lc_config_reply_def rib_update_liveness_def mac_stats_update_def set_subframe_updates_def
    ue_config_update_def lc_config_update_def
  by (erule touches_if_configured; erule touches_with_agent;
      auto intro: wf_intros dest: update_subframe_wf update_mac_stats_wf)+

lemma touches_ue_state:
  assumes "handle_ue_state_change X jk a sc u = Some u'"
  shows "touches a u u'"
  using assms unfolding handle_ue_state_change_def
proof (rule touches_if_configured)
  fix u' assume "on_rib (ue_state_update jk a sc) u \<bind> send_to X lc_config_request_out a = Some u'"
  then obtain v where v: "on_rib (ue_state_update jk a sc) u = Some v" "send_to X lc_config_request_out a v = Some u'"
    by (auto simp: Option.bind_eq_Some_conv)
  have "touches a u v"
    using v(1) unfolding ue_state_update_def by (rule touches_with_agent) (auto intro: wf_intros)
  then show "touches a u u'" using touches_send [OF v(2)] touches_trans by blast
qed

lemma touches_hello: "handle_hello X a d u = Some u' \<Longrightarrow> touches b u u'"
  by (auto simp: handle_hello_def Option.bind_eq_Some_conv touches_refl split: if_splits
      dest!: touches_send [where a = b] intro: touches_trans)

lemma handle_tagged_touches:
  assumes "handle_tagged X jk now tm u = Some u'"
  shows "touches (tm_tag tm) u u'"
proof (cases "getSize tm = 0")
  case True
  let ?u = "u\<lparr>ru_rib := add_pending_agent (tm_tag tm) (ru_rib u)\<rparr>"
  have "touches (tm_tag tm) u ?u" by (simp add: touches_def)
  moreover have "touches (tm_tag tm) ?u u'"
    using assms True by (intro touches_send) (simp add: handle_tagged_def handle_new_connection_def)
  ultimately show ?thesis by (rule touches_trans)
next
  case False
  then have "handle_message X jk now (tm_tag tm) (ext_parse X (tm_contents tm)) u = Some u'"
    using assms by (simp add: handle_tagged_def)
  then show ?thesis
    using touches_hello touches_updates touches_ue_state touches_enb_config touches_send touches_refl
    by (cases "msg_body (ext_parse X (tm_contents tm))")
       (auto simp: handle_message_def handle_echo_request_def)
qed

text \<open>
  C38: agents are isolated. Handling a message of one agent leaves the record of every other agent as it
  is, keeps the RIB well formed, and takes nothing from the input queue.
\<close>

theorem agents_isolated:
  assumes "handle_tagged X jk now tm u = Some u'" and "rib_wf (ru_rib u)"
  shows "rib_wf (ru_rib u') \<and> nx_in_queue (ru_net u') = nx_in_queue (ru_net u) \<and>
     (\<forall>b. b \<noteq> tm_tag tm \<longrightarrow> get_agent (ru_rib u') b = get_agent (ru_rib u) b)"
  using handle_tagged_touches [OF assms(1)] assms(2) by (auto simp: touches_def)

lemma agents_isolated_witness:
  "\<exists>u'. handle_tagged list_ext zero_junk 0 (sample_tagged 4 [3]) pending_updater = Some u' \<and>
     get_agent (ru_rib u') 4 \<noteq> None \<and> get_agent (ru_rib u') 5 = None"
proof -
  have t: "tm_tag (sample_tagged 4 [3]) = 4" by (simp add: sample_tagged_def)
  obtain u' where u': "handle_tagged list_ext zero_junk 0 (sample_tagged 4 [3]) pending_updater = Some u'"
    "get_agent (ru_rib u') 4 \<noteq> None"
    using handle_tagged_view [OF pending_updater_wf(1) can_send_list, of "sample_tagged 4 [3]" zero_junk 0]
      pending_updater_wf(2,3)
    by (auto simp: t sample_event sample_parse_def)
  then show ?thesis
    using agents_isolated [OF u'(1) pending_updater_wf(1)] pending_updater_wf(2) t by auto
qed

section \<open>All reachable information bases\<close>

text \<open>
  The updater's state changes by handling a message and by whatever the network and other senders do
  to the interface. \<open>polite\<close> is the demand on the agent: it names no UE twice.
\<close>

definition polite :: "'q ext \<Rightarrow> 'q updater \<Rightarrow> tagged_message \<Rightarrow> bool" where
  "polite X u tm \<longleftrightarrow>
     (case (get_agent (ru_rib u) (tm_tag tm), tagged_event X tm) of
        (Some e, Some ev) \<Rightarrow> names_ues_once e ev | _ \<Rightarrow> True)"

inductive upd_reach :: "'q ext \<Rightarrow> junk \<Rightarrow> 'q updater \<Rightarrow> bool" for X jk where
  started: "upd_reach X jk \<lparr>ru_rib = new_rib, ru_net = n\<rparr>"
| network: "upd_reach X jk u \<Longrightarrow> upd_reach X jk (u\<lparr>ru_net := n\<rparr>)"
| handled: "upd_reach X jk u \<Longrightarrow> polite X u tm \<Longrightarrow> handle_tagged X jk now tm u = Some u' \<Longrightarrow> upd_reach X jk u'"

lemma agent_spec_reach:
  assumes "agent_spec jk now a p ev old = Some (Some e')"
    and "\<And>e. old = Some e \<Longrightarrow> enb_reach jk e"
    and "\<And>e v. old = Some e \<Longrightarrow> ev = Some v \<Longrightarrow> names_ues_once e v"
  shows "enb_reach jk e'"
proof (cases ev)
  case None
  then show ?thesis using assms(1,2) by simp
next
  case (Some v)
  have step: "enb_reach jk f" if "old = Some e" "enb_step jk now e v = Some f" for e f
    using enb_reach.event assms(2,3) that Some by blast
  show ?thesis
  proof (cases "\<exists>r. v = EnbConfig r")
    case True
    then obtain r where r: "v = EnbConfig r" by blast
    have new: "enb_reach jk (update_eNB_config now (new_enb_rib_info jk now a) r)"
      by (rule enb_reach.event [OF enb_reach.created [of jk now a], of "EnbConfig r" now]) simp_all
    show ?thesis
      using assms(1,2) Some r step new by (cases old) (auto split: if_splits)
  next
    case False
    then show ?thesis using assms(1) Some step by (auto split: option.splits)
  qed
qed

lemma upd_reach_inv:
  assumes "upd_reach X jk u" and "can_send X"
  shows "rib_wf (ru_rib u) \<and> (\<forall>a e. get_agent (ru_rib u) a = Some e \<longrightarrow> enb_reach jk e)"
  using assms(1)
proof induction
  case (started n)
  then show ?case by (simp add: rib_wf_new_rib)
next
  case (network u n)
  then show ?case by simp
next
  case (handled u tm now u')
  then have wf: "rib_wf (ru_rib u)" by blast
  note t = handle_tagged_touches [OF handled.hyps(3)]
  have "enb_reach jk e" if e: "get_agent (ru_rib u') a = Some e" for a e
  proof (cases "a = tm_tag tm")
    case True
    have "agent_spec jk now a (agent_is_pending (ru_rib u) a) (tagged_event X tm) (get_agent (ru_rib u) a)
        = Some (Some e)"
      using handle_tagged_view [OF wf assms(2), of tm jk now] handled.hyps(3) e True by simp
    then show ?thesis
      by (rule agent_spec_reach) (use handled True in \<open>auto simp: polite_def\<close>)
  next
    case False
    then show ?thesis using t wf e handled.IH by (auto simp: touches_def)
  qed
  then show ?case using t wf by (simp add: touches_def)
qed

text \<open>
  C13: in every state the RIB reaches, whatever agents send in whatever order as long as none names a UE twice
  (\<open>polite\<close>), no RNTI is configured twice at an agent, and each configured UE has its MAC record, with arrays of
  their declared sizes: the pointer the schedulers dereference without a test is there.
\<close>

theorem rib_never_dangles:
  assumes "upd_reach X jk u" and "can_send X" and "get_agent (ru_rib u) a = Some e"
  shows "distinct (rntis e) \<and>
     (\<forall>c \<in> set (ue_configs e). \<exists>m. get_ue_mac_info e (uc_rnti c) = Some m \<and> ue_mac_wf m)"
proof -
  have "enb_wf e \<and> ue_view_consistent e"
    using upd_reach_inv [OF assms(1,2)] assms(3) enb_reach_inv by blast
  then show ?thesis
    by (fastforce simp: ue_view_consistent_def get_ue_mac_info_def dest: enb_wfD(2))
qed

text \<open>An instance: an agent connects, sends its configuration and then that of its one UE.\<close>

lemma sample_rib_reach:
  obtains u e where "upd_reach list_ext zero_junk u" and "get_agent (ru_rib u) 4 = Some e"
    and "ue_configs e = [sample_ue_config 7]"
proof -
  have tag: "tm_tag (sample_tagged a b) = a" for a b by (simp add: sample_tagged_def)
  note view = handle_tagged_view [OF _ can_send_list]
  have r: "upd_reach list_ext zero_junk pending_updater"
  proof -
    have "getSize (sample_tagged 4 []) = 0" by (simp add: sample_tagged_def getSize_def)
    then obtain v where v: "handle_tagged list_ext zero_junk 0 (sample_tagged 4 [])
        \<lparr>ru_rib = new_rib, ru_net = new_network []\<rparr> = Some v" "ru_rib v = ru_rib pending_updater"
      using send_to_total [of list_ext hello_out 4 pending_updater] send_to_frame(1) can_send_list
      by (fastforce simp: handle_tagged_def handle_new_connection_def pending_updater_def can_send_def tag)
    have "upd_reach list_ext zero_junk v"
      by (rule upd_reach.handled [OF upd_reach.started _ v(1)]) (simp add: polite_def)
    from upd_reach.network [OF this, of "new_network []"] show ?thesis
      using v(2) by (cases v) (simp add: pending_updater_def)
  qed
  obtain u1 where u1: "handle_tagged list_ext zero_junk 0 (sample_tagged 4 [3]) pending_updater = Some u1"
    "get_agent (ru_rib u1) 4 \<noteq> None"
    using view [OF pending_updater_wf(1), of "sample_tagged 4 [3]" zero_junk 0] pending_updater_wf(2,3)
    by (auto simp: tag sample_event sample_parse_def)
  then obtain e1 where e1: "get_agent (ru_rib u1) 4 = Some e1" by blast
  have r1: "upd_reach list_ext zero_junk u1"
    by (rule upd_reach.handled [OF r _ u1(1)]) (simp add: polite_def pending_updater_wf tag)
  have wf1: "rib_wf (ru_rib u1)" using upd_reach_inv [OF r1 can_send_list] by blast
  let ?ur = "\<lparr>ur_header = no_header, ur_ue_config = [sample_ue_config 7]\<rparr>"
  obtain u2 where u2: "handle_tagged list_ext zero_junk 0 (sample_tagged 4 [4]) u1 = Some u2"
    "get_agent (ru_rib u2) 4 = Some (update_UE_config zero_junk 0 e1 ?ur)"
    using view [OF wf1, of "sample_tagged 4 [4]" zero_junk 0] e1
    by (auto simp: tag sample_event sample_parse_def)
  have "upd_reach list_ext zero_junk u2"
    by (rule upd_reach.handled [OF r1 _ u2(1)]) (simp add: polite_def tag sample_event sample_parse_def e1)
  moreover have "ue_configs (update_UE_config zero_junk 0 e1 ?ur) = [sample_ue_config 7]"
    by (simp add: update_UE_config_def frame_simps ensure_ue_mac_def split: option.split)
  ultimately show thesis using that u2(2) by blast
qed

lemma rib_never_dangles_witness:
  "\<exists>u e m. upd_reach list_ext zero_junk u \<and> get_agent (ru_rib u) 4 = Some e \<and>
     ue_configs e = [sample_ue_config 7] \<and> distinct (rntis e) \<and> get_ue_mac_info e 7 = Some m \<and> ue_mac_wf m"
proof -
  obtain u e where u: "upd_reach list_ext zero_junk u" "get_agent (ru_rib u) 4 = Some e"
    "ue_configs e = [sample_ue_config 7]" using sample_rib_reach .
  from rib_never_dangles [OF u(1) can_send_list u(2)] u show ?thesis
    by (auto simp: sample_ue_config_def)
qed

section \<open>The loop\<close>

lemma get_msg_contents:
  assumes "ext_ok X contents"
  shows "get_msg_from_network X n = None \<longleftrightarrow> contents (nx_in_queue n) = []"
    and "get_msg_from_network X n = Some (t, n') \<Longrightarrow> contents (nx_in_queue n) = t # contents (nx_in_queue n')"
  using bounded_fifo.pop_None_iff [OF ext_okD(1) [OF assms]] bounded_fifo.pop_SomeD [OF ext_okD(1) [OF assms]]
  by (auto simp: get_msg_from_network_def split: option.splits prod.splits)

lemma update_loop_queue:
  assumes "ext_ok X contents"
  shows "update_loop X jk clk k u = Some u' \<Longrightarrow>
     contents (nx_in_queue (ru_net u')) = drop (Suc k) (contents (nx_in_queue (ru_net u)))"
proof (induction k arbitrary: u)
  case 0
  then show ?case
    using get_msg_contents [OF assms, of "ru_net u"]
    by (subst (asm) update_loop.simps) (auto split: option.splits)
next
  case (Suc k)
  show ?case
  proof (cases "get_msg_from_network X (ru_net u)")
    case None
    then show ?thesis
      using Suc.prems get_msg_contents(1) [OF assms, of "ru_net u"] by (subst (asm) update_loop.simps) simp
  next
    case (Some p)
    then obtain t n where p: "get_msg_from_network X (ru_net u) = Some (t, n)" by (cases p) simp
    then obtain v where v: "handle_tagged X jk (clk (Suc k)) t (u\<lparr>ru_net := n\<rparr>) = Some v"
      "update_loop X jk clk k v = Some u'"
      using Suc.prems by (subst (asm) update_loop.simps) (auto simp: Option.bind_eq_Some_conv Let_def)
    have "nx_in_queue (ru_net v) = nx_in_queue n"
      using handle_tagged_touches [OF v(1)] by (simp add: touches_def)
    then show ?thesis
      using Suc.IH [OF v(2)] get_msg_contents(2) [OF assms p] by simp
  qed
qed

text \<open>
  The run as a plain loop: the messages in their order, each with the clock reading of its iteration. Handling a
  message neither looks at the input queue nor changes it.
\<close>

definition handle_all :: "'q ext \<Rightarrow> junk \<Rightarrow> (nat \<Rightarrow> int) \<Rightarrow> nat \<Rightarrow> tagged_message list \<Rightarrow> 'q updater \<Rightarrow> 'q updater option" where
  "handle_all X jk clk k tms u = foldo (\<lambda>u (i, tm). handle_tagged X jk (clk i) tm u) u (zip (rev [1..<Suc k]) tms)"

definition with_in_queue :: "'q \<Rightarrow> 'q updater \<Rightarrow> 'q updater" where
  "with_in_queue q u = u\<lparr>ru_net := (ru_net u)\<lparr>nx_in_queue := q\<rparr>\<rparr>"

lemma with_in_queue_sel [simp]:
  "ru_rib (with_in_queue q u) = ru_rib u" "nx_in_queue (ru_net (with_in_queue q u)) = q"
  "with_in_queue q (with_in_queue q' u) = with_in_queue q u"
  "with_in_queue (nx_in_queue (ru_net u)) u = u"
  by (simp_all add: with_in_queue_def)

lemma send_to_queue: "send_to X m a (with_in_queue q u) = map_option (with_in_queue q) (send_to X m a u)"
  by (cases "outgoing X m a")
     (auto simp: send_to_def send_msg_def send_push_def send_post_def with_in_queue_def split: option.splits)

lemma on_rib_queue: "on_rib f (with_in_queue q u) = map_option (with_in_queue q) (on_rib f u)"
  by (cases "f (ru_rib u)") (simp_all add: on_rib_def with_in_queue_def)

lemma rib_update_queue: "(with_in_queue q u)\<lparr>ru_rib := r\<rparr> = with_in_queue q (u\<lparr>ru_rib := r\<rparr>)"
  by (simp add: with_in_queue_def)

lemma bind_queue:
  assumes "\<And>v. g (with_in_queue q v) = map_option (with_in_queue q) (g v)"
  shows "Option.bind (map_option (with_in_queue q) x) g = map_option (with_in_queue q) (Option.bind x g)"
  using assms by (cases x) simp_all

lemma handle_message_queue:
  "handle_message X jk now a m (with_in_queue q u) = map_option (with_in_queue q) (handle_message X jk now a m u)"
  by (cases "msg_body m")
     (simp_all add: handle_message_def handle_hello_def handle_echo_request_def handle_echo_reply_def if_configured_def
        handle_stats_reply_def handle_sf_trigger_def handle_enb_config_reply_def handle_ue_config_reply_def
        handle_lc_config_reply_def handle_ue_state_change_def Let_def send_to_queue on_rib_queue rib_update_queue
        bind_queue)

lemma handle_tagged_queue:
  "handle_tagged X jk now tm (with_in_queue q u) = map_option (with_in_queue q) (handle_tagged X jk now tm u)"
  by (simp add: handle_tagged_def handle_new_connection_def handle_message_queue send_to_queue rib_update_queue)

lemma handle_all_queue:
  "handle_all X jk clk k tms (with_in_queue q u) = map_option (with_in_queue q) (handle_all X jk clk k tms u)"
proof -
  have "foldo (\<lambda>u (i, tm). handle_tagged X jk (clk i) tm u) (with_in_queue q u) xs =
      map_option (with_in_queue q) (foldo (\<lambda>u (i, tm). handle_tagged X jk (clk i) tm u) u xs)" for xs
  proof (induction xs arbitrary: u)
    case (Cons x xs)
    then show ?case
      by (cases x; cases "handle_tagged X jk (clk (fst x)) (snd x) u") (simp_all add: handle_tagged_queue)
  qed simp
  then show ?thesis by (simp add: handle_all_def)
qed

lemma handle_all_Suc:
  "handle_all X jk clk (Suc k) (tm # tms) u =
     do { u \<leftarrow> handle_tagged X jk (clk (Suc k)) tm u; handle_all X jk clk k tms u }"
  by (simp add: handle_all_def)

lemma handle_all_none: "handle_all X jk clk 0 tms u = Some u" "handle_all X jk clk k [] u = Some u"
  by (simp_all add: handle_all_def)

lemma update_loop_handles:
  assumes "ext_ok X contents"
  shows "handle_all X jk clk k (contents (nx_in_queue (ru_net u))) u =
     map_option (with_in_queue (nx_in_queue (ru_net u))) (update_loop X jk clk k u)"
proof (induction k arbitrary: u)
  case 0
  show ?case
    by (subst update_loop.simps) (auto simp: handle_all_none with_in_queue_def get_msg_from_network_def split: option.splits)
next
  case (Suc k)
  show ?case
  proof (cases "get_msg_from_network X (ru_net u)")
    case None
    then show ?thesis
      using get_msg_contents(1) [OF assms, of "ru_net u"] by (subst update_loop.simps) (simp add: handle_all_none)
  next
    case (Some p)
    then obtain t n where p: "get_msg_from_network X (ru_net u) = Some (t, n)" by (cases p) simp
    then obtain q where n: "u\<lparr>ru_net := n\<rparr> = with_in_queue q u" "nx_in_queue n = q"
      by (auto simp: get_msg_from_network_def with_in_queue_def split: option.splits)
    have msgs: "contents (nx_in_queue (ru_net u)) = t # contents q" using get_msg_contents(2) [OF assms p] n(2) by simp
    let ?orig = "with_in_queue (nx_in_queue (ru_net u))"
    show ?thesis
    proof (cases "handle_tagged X jk (clk (Suc k)) t u")
      case None
      then show ?thesis by (subst update_loop.simps) (simp add: p n(1) msgs handle_all_Suc handle_tagged_queue)
    next
      case (Some v)
      have q: "nx_in_queue (ru_net (with_in_queue q v)) = q" by simp
      have "handle_all X jk clk k (contents q) v = map_option (with_in_queue (nx_in_queue (ru_net v)))
          (handle_all X jk clk k (contents q) (with_in_queue q v))"
        by (simp flip: handle_all_queue)
      also have "\<dots> = map_option ?orig (update_loop X jk clk k (with_in_queue q v))"
        using Suc.IH [of "with_in_queue q v"] handle_tagged_touches [OF Some]
        by (simp add: touches_def option.map_comp comp_def)
      finally show ?thesis
        using Some by (subst update_loop.simps) (simp add: p n(1) msgs handle_all_Suc handle_tagged_queue)
    qed
  qed
qed

text \<open>
  C40: one run of the updater with a budget of \<open>k\<close> messages does what handling the first \<open>k\<close> messages of the queue
  does, in their order (and faults when that does), but takes one more off the queue, if there are that many:
  the message that meets the exhausted budget is dequeued and dropped, because the loop tests the budget after
  the dequeue. The run ends for every queue, also one that is never empty.
\<close>

theorem update_rib_takes_one_too_many:
  assumes "ext_ok X contents" and "tms = contents (nx_in_queue (ru_net u))"
  shows "handle_all X jk clk (nat k) tms u = map_option (with_in_queue (nx_in_queue (ru_net u))) (update_rib X jk clk k u) \<and>
     (\<forall>u'. update_rib X jk clk k u = Some u' \<longrightarrow> contents (nx_in_queue (ru_net u')) = drop (Suc (nat k)) tms)"
  using update_loop_queue [OF assms(1)] update_loop_handles [OF assms(1)] assms(2) by (simp add: update_rib_def)

text \<open>Two messages are waiting and the budget is one: the second is lost.\<close>

definition busy_updater :: "tagged_message list updater" where
  "busy_updater = pending_updater
     \<lparr>ru_net := (new_network [])\<lparr>nx_in_queue := [sample_tagged 4 [2], sample_tagged 4 [2]]\<rparr>\<rparr>"

lemma update_rib_witness:
  "\<exists>u'. update_rib list_ext zero_junk (\<lambda>_. 0) 1 busy_updater = Some u' \<and> nx_in_queue (ru_net u') = [] \<and>
     handle_tagged list_ext zero_junk 0 (sample_tagged 4 [2]) busy_updater = Some (with_in_queue (nx_in_queue (ru_net busy_updater)) u')"
proof -
  obtain u' where u': "update_rib list_ext zero_junk (\<lambda>_. 0) 1 busy_updater = Some u'"
    by (simp add: update_rib_def update_loop.simps busy_updater_def get_msg_from_network_def list_ext_queues
        handle_tagged_def sample_tagged_def getSize_def handle_message_def list_ext_def sample_parse_def
        tm_contents_def handle_echo_reply_def if_configured_def pending_updater_def has_eNB_config_entry_def
        new_rib_def sm.find_empty)
  have queue: "nx_in_queue (ru_net busy_updater) = [sample_tagged 4 [2], sample_tagged 4 [2]]"
    by (simp add: busy_updater_def)
  note claim = update_rib_takes_one_too_many [OF ext_ok_list queue [symmetric], of zero_junk "\<lambda>_. 0" 1]
  have "nx_in_queue (ru_net u') = []" using claim u' by simp
  moreover have "handle_tagged list_ext zero_junk 0 (sample_tagged 4 [2]) busy_updater =
      Some (with_in_queue (nx_in_queue (ru_net busy_updater)) u')"
    using claim u' by (simp add: handle_all_Suc [where k = 0, simplified] handle_all_none)
  ultimately show ?thesis using u' by blast
qed

end
