(* ===== verification/FlexScheduler.thy ===== *)
theory FlexScheduler
  imports FlexUe RibUpdater
begin

text \<open>
  \<open>src/app/flexible_scheduler.{h,cc}\<close>: the scheduling application of the controller. Once per period it
  schedules the UEs of all eNBs centrally, or leaves that to the agents; the north-bound interface
  switches between the two and pushes policies. The files it reads and the environment variable are
  the record \<open>host\<close>. RIB and network are the state \<open>updater\<close> the tasks share.
\<close>

section \<open>State\<close>

record flexible_scheduler =
  fs_scheduling_info :: "(int \<times> enb_scheduling_info) list"
  fs_central_scheduling :: bool
  fs_code_pushed :: bool
  fs_tpc_accumulated :: int

definition new_flexible_scheduler :: flexible_scheduler where
  "new_flexible_scheduler =
     \<lparr>fs_scheduling_info = [], fs_central_scheduling = False, fs_code_pushed = False, fs_tpc_accumulated = 0\<rparr>"

text \<open>\<open>ho_file\<close> is \<open>None\<close> for a file whose stream is not good.\<close>

record host =
  ho_env :: "string option"
  ho_file :: "string \<Rightarrow> u8 list option"

type_synonym 'q app_state = "flexible_scheduler \<times> 'q updater"

section \<open>Code and policies for the agents\<close>

definition delegation_path :: "host \<Rightarrow> string" where
  "delegation_path H =
     (case ho_env H of
        Some env_p \<Rightarrow> env_p @ ''/tests/delegation_control/''
      | None \<Rightarrow> ''../tests/delegation_control/'')"

text \<open>The contents of a file, if it can be read and its length, as an \<open>int\<close>, is positive.\<close>

definition read_nonempty :: "host \<Rightarrow> string \<Rightarrow> u8 list option" where
  "read_nonempty H name =
     (case ho_file H name of
        None \<Rightarrow> None
      | Some bytes \<Rightarrow> if to_i32 (int (length bytes)) \<le> 0 then None else Some bytes)"

definition reconfiguration_out :: "u8 list \<Rightarrow> flexran_message" where
  "reconfiguration_out policy =
     \<lparr>msg_dir = INITIATING_MESSAGE,
      msg_body = AgentReconfigurationMsg
        \<lparr>ar_header = header FLPT_RECONFIGURE_AGENT (Some 0) 0, ar_policy = policy\<rparr>\<rparr>"

definition reconfigure_agent_string :: "'q ext \<Rightarrow> int \<Rightarrow> u8 list \<Rightarrow> 'q updater \<Rightarrow> 'q updater option" where
  "reconfigure_agent_string X agent_id policy = send_to X (reconfiguration_out policy) agent_id"

definition reconfigure_agent_file :: "'q ext \<Rightarrow> host \<Rightarrow> int \<Rightarrow> string \<Rightarrow> 'q updater \<Rightarrow> 'q updater option" where
  "reconfigure_agent_file X H agent_id policy_name u =
     (case read_nonempty H policy_name of
        None \<Rightarrow> Some u
      | Some policy \<Rightarrow> reconfigure_agent_string X agent_id policy u)"

definition delegation_out :: "string \<Rightarrow> u8 list \<Rightarrow> flexran_message" where
  "delegation_out function_name payload =
     \<lparr>msg_dir = INITIATING_MESSAGE,
      msg_body = ControlDelegationMsg
        \<lparr>cd_header = header FLPT_DELEGATE_CONTROL (Some 0) 0,
         cd_delegation_type = FLCDT_MAC_DL_UE_SCHEDULER, cd_payload = payload, cd_name = function_name\<rparr>\<rparr>"

definition push_code :: "'q ext \<Rightarrow> host \<Rightarrow> int \<Rightarrow> string \<Rightarrow> string \<Rightarrow> 'q updater \<Rightarrow> 'q updater option" where
  "push_code X H agent_id function_name lib_name u =
     (case read_nonempty H lib_name of
        None \<Rightarrow> Some u
      | Some payload \<Rightarrow> send_to X (delegation_out function_name payload) agent_id u)"

text \<open>A loop over the agents known at the start of the call.\<close>

definition for_agents :: "(int \<Rightarrow> 'q updater \<Rightarrow> 'q updater option) \<Rightarrow> 'q updater \<Rightarrow> 'q updater option" where
  "for_agents f u = foldo (\<lambda>u agent_id. f agent_id u) u (get_available_agents (ru_rib u))"

definition apply_agent_rrm_policy :: "'q ext \<Rightarrow> host \<Rightarrow> string \<Rightarrow> 'q app_state \<Rightarrow> (bool \<times> 'q app_state) option" where
  "apply_agent_rrm_policy X H policy_name = (\<lambda>(app, u).
     if fs_central_scheduling app then Some (False, app, u)
     else do {
       u \<leftarrow> for_agents (\<lambda>a. reconfigure_agent_file X H a (delegation_path H @ policy_name)) u;
       Some (True, app, u) })"

definition apply_agent_rrm_policy_string :: "'q ext \<Rightarrow> u8 list \<Rightarrow> 'q app_state \<Rightarrow> (bool \<times> 'q app_state) option" where
  "apply_agent_rrm_policy_string X policy = (\<lambda>(app, u).
     if fs_central_scheduling app then Some (False, app, u)
     else do {
       u \<leftarrow> for_agents (\<lambda>a. reconfigure_agent_string X a policy) u;
       Some (True, app, u) })"

definition enable_central_scheduling :: "'q ext \<Rightarrow> host \<Rightarrow> bool \<Rightarrow> 'q app_state \<Rightarrow> 'q app_state option" where
  "enable_central_scheduling X H central_sch = (\<lambda>(app, u). do {
     let app = app\<lparr>fs_central_scheduling := central_sch\<rparr>;
     u \<leftarrow> for_agents (\<lambda>a. reconfigure_agent_file X H a
            (delegation_path H @ (if central_sch then ''remote_policy.yaml'' else ''local_policy.yaml''))) u;
     Some (app, u) })"

section \<open>The central scheduler\<close>

text \<open>\<open>ahead\<close> is \<open>schedule_ahead\<close>, which is 0.\<close>

definition target_time :: "int \<Rightarrow> frame_t \<Rightarrow> subframe_t \<Rightarrow> frame_t \<times> subframe_t" where
  "target_time ahead current_frame current_subframe =
     (let target_subframe = word_of_int ((uint current_subframe + ahead) mod 10);
          target_frame = (if target_subframe < current_subframe
                          then word_of_int ((uint current_frame + 1) mod 1024) else current_frame)
      in (word_of_int ((uint target_frame + ahead div 10) mod 1024), target_subframe))"

definition prepare_cell :: "(ue_stats list \<Rightarrow> ue_stats list) \<Rightarrow> enb_rib_info \<Rightarrow> frame_t \<Rightarrow> subframe_t \<Rightarrow>
    enb_scheduling_info \<Rightarrow> flex_cell_config \<Rightarrow> enb_scheduling_info option" where
  "prepare_cell srt e target_frame target_subframe sched c = do {
     sched \<leftarrow> enb_start_new_scheduling_round target_subframe c sched;
     run_dlsch_scheduler_preprocessor srt c e target_frame target_subframe sched }"

definition schedule_cell :: "frame_t \<Rightarrow> subframe_t \<Rightarrow> flex_state \<Rightarrow> flex_cell_config \<Rightarrow> flex_state option" where
  "schedule_cell target_frame target_subframe st c =
     foldo (schedule_ue c target_frame target_subframe) st (ue_configs (fl_enb st))"

definition schedule_agent :: "(ue_stats list \<Rightarrow> ue_stats list) \<Rightarrow> frame_t \<Rightarrow> subframe_t \<Rightarrow> enb_rib_info \<Rightarrow>
    enb_scheduling_info \<Rightarrow> sched_vars \<Rightarrow> flex_state option" where
  "schedule_agent srt target_frame target_subframe e sched vars = do {
     sched \<leftarrow> foldo (prepare_cell srt e target_frame target_subframe) sched (cell_configs e);
     foldo (schedule_cell target_frame target_subframe)
       \<lparr>fl_enb = e, fl_sched = sched, fl_vars = vars, fl_data = []\<rparr> (cell_configs e) }"

definition ensure_scheduling_info :: "junk \<Rightarrow> int \<Rightarrow> (int \<times> enb_scheduling_info) list \<Rightarrow>
    (int \<times> enb_scheduling_info) list" where
  "ensure_scheduling_info jk agent_id infos =
     (case sm_find infos agent_id of
        Some _ \<Rightarrow> infos
      | None \<Rightarrow> sm_insert agent_id (new_enb_scheduling_info jk agent_id) infos)"

definition dl_mac_config_out :: "frame_t \<Rightarrow> subframe_t \<Rightarrow> flex_dl_data list \<Rightarrow> flexran_message" where
  "dl_mac_config_out target_frame target_subframe data =
     \<lparr>msg_dir = INITIATING_MESSAGE,
      msg_body = DlMacConfigMsg
        \<lparr>dm_header = header FLPT_DL_MAC_CONFIG (Some 0) 0,
         dm_sfn_sf = ucast (get_sfn_sf target_frame target_subframe), dm_dl_ue_data = data\<rparr>\<rparr>"

text \<open>A write through the \<open>shared_ptr\<close> of an agent's record.\<close>

definition put_agent :: "int \<Rightarrow> enb_rib_info \<Rightarrow> 'q updater \<Rightarrow> 'q updater" where
  "put_agent agent_id e u =
     u\<lparr>ru_rib := (ru_rib u)\<lparr>rb_eNB_configs := sm_put agent_id e (rb_eNB_configs (ru_rib u))\<rparr>\<rparr>"

definition set_last_checked :: "frame_t \<Rightarrow> subframe_t \<Rightarrow> enb_scheduling_info \<Rightarrow> enb_scheduling_info" where
  "set_last_checked frame subframe sched =
     sched\<lparr>es_last_checked_frame := frame, es_last_checked_subframe := subframe\<rparr>"

text \<open>The body of the loop over the agents; the state is that of the application with the loop's locals.\<close>

definition central_agent :: "(ue_stats list \<Rightarrow> ue_stats list) \<Rightarrow> junk \<Rightarrow> 'q ext \<Rightarrow>
    flexible_scheduler \<times> sched_vars \<times> 'q updater \<Rightarrow> int \<Rightarrow> (flexible_scheduler \<times> sched_vars \<times> 'q updater) option" where
  "central_agent srt jk X = (\<lambda>(app, vars, u) agent_id. do {
     e \<leftarrow> get_agent (ru_rib u) agent_id;
     let infos = ensure_scheduling_info jk agent_id (fs_scheduling_info app);
     let app = app\<lparr>fs_scheduling_info := infos\<rparr>;
     sched \<leftarrow> sm_find infos agent_id;
     let current_frame = en_current_frame e;
     let current_subframe = en_current_subframe e;
     let (target_frame, target_subframe) = target_time 0 current_frame current_subframe;
     if \<not> needs_scheduling sched current_frame current_subframe \<or> target_subframe = 0 \<or> target_subframe = 5
     then Some (app, vars, u)
     else do {
       st \<leftarrow> schedule_agent srt target_frame target_subframe e sched vars;
       let sched = set_last_checked current_frame current_subframe (fl_sched st);
       let app = app\<lparr>fs_scheduling_info := sm_put agent_id sched infos\<rparr>;
       let u = put_agent agent_id (fl_enb st) u;
       u \<leftarrow> (if fl_data st \<noteq> []
            then send_to X (dl_mac_config_out target_frame target_subframe (fl_data st)) agent_id u
            else Some u);
       Some (app, fl_vars st, u) } })"

definition run_central_scheduler :: "(ue_stats list \<Rightarrow> ue_stats list) \<Rightarrow> junk \<Rightarrow> 'q ext \<Rightarrow> 'q app_state \<Rightarrow>
    'q app_state option" where
  "run_central_scheduler srt jk X = (\<lambda>(app, u). do {
     let vars = \<lparr>lv_aggregation = 1, lv_mcs = jk_mcs jk, lv_ce_flags = 0,
                 lv_tpc_accumulated = fs_tpc_accumulated app\<rparr>;
     (app, vars, u) \<leftarrow> foldo (central_agent srt jk X) (app, vars, u) (get_available_agents (ru_rib u));
     Some (app\<lparr>fs_tpc_accumulated := lv_tpc_accumulated vars\<rparr>, u) })"

section \<open>The periodic task\<close>

text \<open>The code is pushed to the first agent only: the flag is set inside the loop over the agents.\<close>

definition push_once :: "'q ext \<Rightarrow> host \<Rightarrow> 'q app_state \<Rightarrow> int \<Rightarrow> 'q app_state option" where
  "push_once X H = (\<lambda>(app, u) agent_id.
     if fs_code_pushed app then Some (app, u)
     else do {
       u \<leftarrow> push_code X H agent_id ''flexran_schedule_ue_spec_remote'' (delegation_path H @ ''libremote_sched.so'') u;
       u \<leftarrow> push_code X H agent_id ''flexran_schedule_ue_spec_default'' (delegation_path H @ ''libdefault_sched.so'') u;
       Some (app\<lparr>fs_code_pushed := True\<rparr>, u) })"

definition flex_run_periodic_task :: "(ue_stats list \<Rightarrow> ue_stats list) \<Rightarrow> junk \<Rightarrow> 'q ext \<Rightarrow> host \<Rightarrow> 'q app_state \<Rightarrow>
    'q app_state option" where
  "flex_run_periodic_task srt jk X H st = do {
     st \<leftarrow> foldo (push_once X H) st (get_available_agents (ru_rib (snd st)));
     if fs_central_scheduling (fst st) then run_central_scheduler srt jk X st else Some st }"

end
