(* ===== verification/FlexCoding.thy ===== *)
theory FlexCoding
  imports UeBlocks FlexScheduler
begin

text \<open>
  The coding of a transmission to one UE never faults: whatever is chosen, the groups of the
  transmission are among those the UE holds, and the record of the UE keeps its invariant.
\<close>

section \<open>The groups of a transmission\<close>

lemma fits_give:
  assumes "ue_fits c s" and "set_rballoc_sub_scheduled (cell_id16 c) p j v s = Some s'"
    and "v = 0 \<or> v = 1 \<and> si_rballoc_sub s ! unat (cell_id16 c) ! j = 1"
  shows "ue_fits c s'" and "si_rballoc_sub s' = si_rballoc_sub s"
proof -
  let ?k = "unat (cell_id16 c)"
  have eq: "s' = s\<lparr>si_rballoc_sub_scheduled := (si_rballoc_sub_scheduled s)[?k :=
      (si_rballoc_sub_scheduled s ! ?k)[unat p := (si_rballoc_sub_scheduled s ! ?k ! unat p)[j := v]]]\<rparr>"
    and in_range: "?k < length (si_rballoc_sub_scheduled s)" "unat p < length (si_rballoc_sub_scheduled s ! ?k)"
      "j < length (si_rballoc_sub_scheduled s ! ?k ! unat p)"
    using assms(2) by (auto simp: set_rballoc_sub_scheduled_def Option.bind_eq_Some_conv access_iffs)
  have new: "si_rballoc_sub_scheduled s' ! ?k ! q ! i = v \<and> i = j \<or>
      si_rballoc_sub_scheduled s' ! ?k ! q ! i = si_rballoc_sub_scheduled s ! ?k ! q ! i" for q i
    using in_range by (cases "unat p = q"; cases "i = j") (simp_all add: eq nth_list_update)
  show "ue_fits c s'"
    using assms(1) ue_sched_wf_set(8) [OF assms(2) ue_fitsD(2) [OF assms(1)]] new assms(3)
    unfolding ue_fits_def blocks_ok_def Let_def by (simp add: eq) metis
  show "si_rballoc_sub s' = si_rballoc_sub s" by (simp add: eq)
qed

definition same_groups :: "flex_cell_config \<Rightarrow> ue_scheduling_info \<Rightarrow> ue_scheduling_info \<Rightarrow> bool" where
  "same_groups c s s' \<longleftrightarrow> ue_fits c s' \<and> si_rballoc_sub s' = si_rballoc_sub s"

lemma same_groups_trans: "same_groups c s s1 \<Longrightarrow> same_groups c s1 s2 \<Longrightarrow> same_groups c s s2"
  by (simp add: same_groups_def)

lemma copy_rballoc_ok:
  assumes "ue_fits c s" and "unat (cell_id16 c) < MAX_NUM_CC" and "unat p < MAX_NUM_HARQ"
  shows "\<exists>s'. copy_rballoc c p s = Some s' \<and> same_groups c s s'"
  unfolding copy_rballoc_def
proof (rule foldo_total [where I = "same_groups c s"])
  show "same_groups c s s" using assms(1) by (simp add: same_groups_def)
  fix s1 j assume j: "j \<in> set [0..<unat (get_nb_rbg c)]" and s1: "same_groups c s s1"
  let ?v = "si_rballoc_sub s1 ! unat (cell_id16 c) ! j"
  have fit: "ue_fits c s1" and j25: "j < N_RBG_MAX"
    using s1 j nb_rbg_le [of c] by (auto simp: same_groups_def)
  obtain s2 where s2: "set_rballoc_sub_scheduled (cell_id16 c) p j ?v s1 = Some s2"
    using ue_access_total(8) [OF ue_fitsD(2) [OF fit] assms(2,3) j25] by blast
  have "?v = 0 \<or> ?v = 1" using fit j25 by (auto simp: ue_fits_def Let_def)
  then have "same_groups c s1 s2" using fits_give [OF fit s2] by (auto simp: same_groups_def)
  then show "\<exists>s'. copy_group (cell_id16 c) p s1 j = Some s' \<and> same_groups c s s'"
    using s1 s2 ue_read_total(5) [OF ue_fitsD(2) [OF fit] assms(2) j25] same_groups_trans
    by (auto simp: copy_group_def)
qed

lemma take_rballoc_ok:
  assumes "ue_fits c s" and "unat (cell_id16 c) < MAX_NUM_CC" and "unat p < MAX_NUM_HARQ"
  shows "\<exists>s'. take_rballoc c p n j s = Some s' \<and> same_groups c s s'"
  using assms(1)
proof (induction "unat (get_nb_rbg c) - j" arbitrary: n j s)
  case 0
  then show ?case by (subst take_rballoc.simps) (simp add: same_groups_def)
next
  case (Suc m)
  then have j: "j < unat (get_nb_rbg c)" "j < N_RBG_MAX" and m: "m = unat (get_nb_rbg c) - Suc j"
    using nb_rbg_le [of c] by linarith+
  note get = ue_read_total(5) [OF ue_fitsD(2) [OF Suc.prems] assms(2) j(2)]
  show ?case
  proof (cases "n > 0 \<and> si_rballoc_sub s ! unat (cell_id16 c) ! j = 1")
    case True
    obtain s1 where s1: "set_rballoc_sub_scheduled (cell_id16 c) p j 1 s = Some s1"
      using ue_access_total(8) [OF ue_fitsD(2) [OF Suc.prems] assms(2,3) j(2)] by blast
    note f1 = fits_give [OF Suc.prems s1]
    obtain s' where "take_rballoc c p (n - group_blocks c j) (Suc j) s1 = Some s'" "same_groups c s1 s'"
      using Suc.hyps(1) [OF m f1(1)] True by blast
    then show ?thesis
      using True get s1 j f1 by (subst take_rballoc.simps) (auto simp: same_groups_def)
  next
    case False
    obtain s' where "take_rballoc c p n (Suc j) s = Some s'" "same_groups c s s'"
      using Suc.hyps(1) [OF m Suc.prems] by blast
    then show ?thesis
      using False get j Suc.prems by (subst take_rballoc.simps) (auto simp: same_groups_def)
  qed
qed

lemma give_groups_ok:
  assumes "ue_fits c s" and "unat (cell_id16 c) < MAX_NUM_CC" and "unat p < MAX_NUM_HARQ"
  shows "\<exists>s'. give_groups c p nb_rb av s = Some s' \<and> same_groups c s s'"
  using copy_rballoc_ok [OF assms] take_rballoc_ok [OF assms] by (simp add: give_groups_def)

section \<open>Blocks and coding scheme\<close>

lemma TBS_total: "unat n \<le> 110 \<Longrightarrow> \<exists>t. get_TBS_DL m n = Some t"
  using get_TBS_DL_fault_iff [of m n] by (cases "get_TBS_DL m n") auto

lemma fit_blocks_total:
  assumes "unat av \<le> 110" and "unat nb_rb \<le> 110"
  shows "\<exists>n t. fit_blocks c mcs av wanted nb_rb TBS = Some (n, t) \<and> unat n \<le> max (unat nb_rb) (unat av)"
  using assms(2)
proof (induction "114 - unat nb_rb" arbitrary: nb_rb TBS rule: less_induct)
  case less
  let ?n = "nb_rb + get_min_rb_unit c"
  have n: "unat ?n = unat nb_rb + unat (get_min_rb_unit c)"
    using less.prems min_rb_unit_pos [of c] by (simp add: unat_word_ariths)
  show ?case
  proof (cases "uint TBS < wanted")
    case False
    then show ?thesis by (subst fit_blocks.simps) simp
  next
    case True
    show ?thesis
    proof (cases "?n > av")
      case big: True
      obtain t where "get_TBS_DL (word_of_int mcs) av = Some t" using TBS_total [OF assms(1)] by blast
      then show ?thesis using True big by (subst fit_blocks.simps) (simp add: Let_def)
    next
      case False
      then have le: "unat ?n \<le> unat av" by (simp add: word_less_nat_alt)
      obtain t where t: "get_TBS_DL (word_of_int mcs) ?n = Some t" using TBS_total le assms(1) by (meson le_trans)
      have "114 - unat ?n < 114 - unat nb_rb" "unat ?n \<le> 110"
        using n le assms(1) less.prems min_rb_unit_pos [of c] by linarith+
      from less.hyps [OF this, of "ucast t"] obtain k tt
        where "fit_blocks c mcs av wanted ?n (ucast t) = Some (k, tt)" "unat k \<le> max (unat ?n) (unat av)" by blast
      then show ?thesis using True False t le by (subst fit_blocks.simps) (auto simp: Let_def)
    qed
  qed
qed

lemma choose_blocks_total:
  assumes "unat av \<le> 110"
  shows "\<exists>n t. choose_blocks c mcs av wanted = Some (n, t) \<and> unat n \<le> max 4 (unat av)"
proof -
  define nb_rb where "nb_rb = (if mcs = 0 then 4 else get_min_rb_unit c)"
  have nb: "unat nb_rb \<le> 4" using min_rb_unit_pos [of c] by (simp add: nb_rb_def)
  then obtain t where "get_TBS_DL (word_of_int mcs) nb_rb = Some t" using TBS_total [of nb_rb] by auto
  moreover obtain n tt where "fit_blocks c mcs av wanted nb_rb (ucast t) = Some (n, tt)" "unat n \<le> max (unat nb_rb) (unat av)"
    using fit_blocks_total [OF assms, of nb_rb c mcs wanted "ucast t"] nb by auto
  ultimately show ?thesis using nb by (auto simp: choose_blocks_def nb_rb_def)
qed

lemma lower_mcs_total:
  "unat nb_rb \<le> 110 \<Longrightarrow> \<exists>m t. lower_mcs nb_rb wanted mcs TBS = Some (m, t)"
proof (induction nb_rb wanted mcs TBS rule: lower_mcs.induct)
  case (1 nb_rb wanted mcs TBS)
  obtain t where t: "get_TBS_DL (word_of_int (mcs - 1)) nb_rb = Some t" using TBS_total 1 by blast
  then show ?case
    using 1 by (subst lower_mcs.simps) auto
qed

lemma raise_mcs_total:
  "unat nb_rb \<le> 110 \<Longrightarrow> \<exists>m t. raise_mcs nb_rb wanted mcs TBS = Some (m, t)"
proof (induction nb_rb wanted mcs TBS rule: raise_mcs.induct)
  case (1 nb_rb wanted mcs TBS)
  obtain t where t: "get_TBS_DL (word_of_int (mcs + 1)) nb_rb = Some t" using TBS_total 1 by blast
  then show ?case
    using 1 by (subst raise_mcs.simps) auto
qed

lemma choose_mcs_total: "unat nb_rb \<le> 110 \<Longrightarrow> \<exists>m t. choose_mcs nb_rb wanted mcs TBS = Some (m, t)"
  using lower_mcs_total [of nb_rb wanted mcs TBS] raise_mcs_total [of nb_rb wanted]
  by (auto simp: choose_mcs_def)

section \<open>Coding a transmission\<close>

lemma csi_aggregation_ok:
  assumes "csi_mcs c r 0 \<noteq> None" and "d \<le> 3"
  shows "\<exists>a. csi_aggregation c r d = Some a \<and> a \<le> 3"
proof (cases "find_csi c r")
  case None
  then show ?thesis using assms(2) by (simp add: csi_aggregation_def)
next
  case (Some i)
  let ?q = "p10csi_wb_cqi i" and ?b = "get_bw_index (to_i32 (uint (cc_dl_bandwidth c)))"
  have "unat ?q < 16" using assms(1) Some by (auto simp: csi_mcs_def arr_simps split: if_splits)
  then have q: "unat (ucast ?q :: u8) < 16" by (simp add: unsigned_ucast_eq take_bit_nat_eq_self)
  have b: "unat (word_of_int ?b :: u8) < 16" by (simp add: get_bw_index_def)
  let ?a = "cqi2fmt1x_agg ! unat (word_of_int ?b :: u8) ! unat (ucast ?q :: u8)"
  have len: "length cqi2fmt1x_agg = 16" "length (cqi2fmt1x_agg ! unat (word_of_int ?b :: u8)) = 16"
    using b dim2_agg_tables(2) by (simp_all add: dim_lengths)
  then have "?a \<in> set (concat cqi2fmt1x_agg)" using b q by (auto intro!: bexI [of _ "cqi2fmt1x_agg ! unat (word_of_int ?b :: u8)"] nth_mem)
  then have "?a \<le> 3" by (rule agg_values)
  then show ?thesis using Some b q len by (simp add: csi_aggregation_def get_aggregation_def aget2_if)
qed

lemma csi_mcs_total: "csi_mcs c r 0 \<noteq> None \<Longrightarrow> \<exists>m. csi_mcs c r d = Some m"
  by (auto simp: csi_mcs_def split: option.splits)

text \<open>What the coding of a transmission may change: the request to the channels and the local variables.\<close>

definition coding_ok :: "flex_cell_config \<Rightarrow> ue_scheduling_info \<Rightarrow> ue_mac_rib_info \<Rightarrow> coding \<Rightarrow> bool" where
  "coding_ok c s u co \<longleftrightarrow> same_groups c s (co_sched co) \<and>
     (\<exists>bs. co_ue co = u\<lparr>um_mac_stats_report := (um_mac_stats_report u)\<lparr>us_rlc_report := bs\<rparr>\<rparr>) \<and>
     lv_aggregation (co_vars co) \<le> 3"

lemma reads_ok:
  assumes "ue_sched_wf s" and "unat k < MAX_NUM_CC" and "unat p < MAX_NUM_HARQ"
  shows "\<exists>v. get_mcs s k p = Some v" and "\<exists>v. get_ndi s k p = Some v" and "\<exists>v. get_tpc s k p = Some v"
    and "\<exists>v. get_rballoc_sub_scheduled s k p = Some v"
  using assms by (simp_all add: ue_getter_defs arr_simps)

lemma retransmit_ok:
  assumes "coding_ok c s u co" and "unat (cell_id16 c) < MAX_NUM_CC" and "unat p < MAX_NUM_HARQ"
    and "csi_mcs c (um_mac_stats_report u) 0 \<noteq> None"
  shows "\<exists>co'. retransmit c p av co = Some co' \<and> coding_ok c s u co'"
proof -
  let ?s = "co_sched co"
  have fit: "ue_fits c ?s" and agg: "lv_aggregation (co_vars co) \<le> 3"
    using assms(1) by (simp_all add: coding_ok_def same_groups_def)
  note wf = ue_fitsD(2) [OF fit]
  obtain mcs where mcs: "get_mcs ?s (cell_id16 c) p = Some mcs" using reads_ok [OF wf assms(2,3)] by blast
  define n where "n = si_nb_rbs_required ?s ! unat (cell_id16 c)"
  have n: "get_nb_rbs_required ?s (cell_id16 c) = Some n" "unat n \<le> 110"
    using ue_read_total(1) [OF wf assms(2)] ue_fitsD(5) [OF fit] by (simp_all add: n_def)
  obtain t where t: "get_TBS_DL (word_of_int mcs) n = Some t" using TBS_total [OF n(2)] by blast
  show ?thesis
  proof (cases "n \<le> av")
    case False
    then show ?thesis using assms(1) mcs n(1) t by (simp add: retransmit_def coding_ok_def Let_def)
  next
    case True
    obtain s1 where s1: "give_groups c p n av ?s = Some s1" "same_groups c ?s s1"
      using give_groups_ok [OF fit assms(2,3)] by blast
    have wf1: "ue_sched_wf s1" using s1(2) ue_fitsD(2) unfolding same_groups_def by blast
    have "csi_mcs c (um_mac_stats_report (co_ue co)) 0 \<noteq> None"
      using assms(1,4) by (auto simp: coding_ok_def csi_mcs_def find_csi_def)
    then obtain a where a: "csi_aggregation c (um_mac_stats_report (co_ue co)) (lv_aggregation (co_vars co)) = Some a" "a \<le> 3"
      using csi_aggregation_ok agg by blast
    obtain ndi tpc where "get_ndi s1 (cell_id16 c) p = Some ndi" "get_tpc s1 (cell_id16 c) p = Some tpc"
      using reads_ok [OF wf1 assms(2,3)] by blast
    then show ?thesis
      using True mcs n(1) t s1 a assms(1) same_groups_trans
      by (auto simp: retransmit_def coding_ok_def Let_def)
  qed
qed

lemma power_control_ok:
  "\<exists>tpc s' acc'. power_control k f sf cr r s acc = (tpc, s', acc') \<and> (s' = s \<or> s' = set_pucch_tpc_tx f sf s)"
  by (auto simp: power_control_def Let_def split: option.split)

text \<open>From the choice of the blocks to the number that is stored for the HARQ process.\<close>

lemma payload_steps_ok:
  assumes "ue_fits c s" and "unat (cell_id16 c) < MAX_NUM_CC" and "unat p < MAX_NUM_HARQ" and "unat av \<le> 100"
  shows "\<exists>nb TBS s1 mcs t s2 s3. choose_blocks c m av wanted = Some (nb, TBS) \<and> give_groups c p nb av s = Some s1 \<and>
     choose_mcs nb wanted m TBS = Some (mcs, t) \<and> set_mcs (cell_id16 c) p mcs s1 = Some s2 \<and>
     set_nb_scheduled_rbs (cell_id16 c) p nb s2 = Some s3 \<and> same_groups c s s3"
proof -
  let ?k = "cell_id16 c"
  obtain nb TBS where blocks: "choose_blocks c m av wanted = Some (nb, TBS)" "unat nb \<le> 110"
    using choose_blocks_total [of av c m wanted] assms(4) by auto
  obtain s1 where s1: "give_groups c p nb av s = Some s1" "same_groups c s s1"
    using give_groups_ok [OF assms(1-3)] by blast
  then have fit1: "ue_fits c s1" by (simp add: same_groups_def)
  obtain mcs t where mcs: "choose_mcs nb wanted m TBS = Some (mcs, t)"
    using choose_mcs_total [OF blocks(2)] by blast
  obtain s2 where s2: "set_mcs ?k p mcs s1 = Some s2"
    using ue_access_total(9) [OF ue_fitsD(2) [OF fit1] assms(2,3)] by blast
  note fit2 = fits_simple(4) [OF fit1 s2]
  obtain s3 where s3: "set_nb_scheduled_rbs ?k p nb s2 = Some s3"
    using ue_access_total(7) [OF ue_fitsD(2) [OF fit2] assms(2,3)] by blast
  note fit3 = fits_scheduled [OF fit2 s3 blocks(2)]
  have "si_rballoc_sub s3 = si_rballoc_sub s1"
    using fit_fields_setters(4) [OF s2] setters_keep_groups(4) [OF s3] by (simp add: fit_fields_def)
  then have "same_groups c s s3" using s1(2) fit3 by (simp add: same_groups_def)
  then show ?thesis using blocks(1) s1(1) mcs s2 s3 by blast
qed

text \<open>The end of a new transmission: time of the power command and new-data indicator.\<close>

lemma toggle_ndi_ok:
  assumes "same_groups c s s3" and "unat (cell_id16 c) < MAX_NUM_CC" and "unat p < MAX_NUM_HARQ"
    and "s4 = s3 \<or> s4 = set_pucch_tpc_tx f sf s3"
  shows "\<exists>s5 ndi. toggle_ndi (cell_id16 c) p s4 = Some s5 \<and> get_ndi s5 (cell_id16 c) p = Some ndi \<and> same_groups c s s5"
proof -
  have fit3: "ue_fits c s3" using assms(1) by (simp add: same_groups_def)
  have fit4: "ue_fits c s4" using assms(4) fit3 fits_simple(9) [OF fit3] by auto
  obtain s5 where s5: "toggle_ndi (cell_id16 c) p s4 = Some s5"
    using ue_access_total(11) [OF ue_fitsD(2) [OF fit4] assms(2,3)] by blast
  note fit5 = fits_simple(5) [OF fit4 s5]
  obtain ndi where ndi: "get_ndi s5 (cell_id16 c) p = Some ndi"
    using reads_ok(2) [OF ue_fitsD(2) [OF fit5] assms(2,3)] by blast
  have "si_rballoc_sub s5 = si_rballoc_sub s3"
    using fit_fields_setters(5) [OF s5] assms(4) by (auto simp: fit_fields_def set_pucch_tpc_tx_def)
  then show ?thesis using s5 ndi assms(1) fit5 by (auto simp: same_groups_def)
qed

lemma code_payload_ok:
  assumes "coding_ok c s u co" and "unat (cell_id16 c) < MAX_NUM_CC" and "unat p < MAX_NUM_HARQ"
    and "unat av \<le> 100" and "enb_wf e"
  shows "\<exists>co'. code_payload c f sf p av wanted e co = Some co' \<and> coding_ok c s u co'"
proof -
  let ?k = "cell_id16 c"
  have fit0: "ue_fits c (co_sched co)" using assms(1) by (simp add: coding_ok_def same_groups_def)
  obtain nb TBS s1 mcs t s2 s3 where steps: "choose_blocks c (lv_mcs (co_vars co)) av wanted = Some (nb, TBS)"
    "give_groups c p nb av (co_sched co) = Some s1" "choose_mcs nb wanted (lv_mcs (co_vars co)) TBS = Some (mcs, t)"
    "set_mcs ?k p mcs s1 = Some s2" "set_nb_scheduled_rbs ?k p nb s2 = Some s3" "same_groups c (co_sched co) s3"
    using payload_steps_ok [OF fit0 assms(2-4)] by blast
  obtain cell where cell: "get_cell_mac_rib_info e ?k = Some cell"
    using enb_wfD(3) [OF assms(5)] assms(2) by (simp add: get_cell_mac_rib_info_def arr_simps)
  obtain tpc s4 acc where pc: "power_control ?k f sf (cm_cell_stats_report cell) (um_mac_stats_report (co_ue co)) s3
      (lv_tpc_accumulated (co_vars co)) = (tpc, s4, acc)" "s4 = s3 \<or> s4 = set_pucch_tpc_tx f sf s3"
    using power_control_ok by blast
  obtain s5 ndi where ndi: "toggle_ndi ?k p s4 = Some s5" "get_ndi s5 ?k p = Some ndi" "same_groups c (co_sched co) s5"
    using toggle_ndi_ok [OF steps(6) assms(2,3) pc(2)] by blast
  have fit5: "ue_fits c s5" using ndi(3) by (simp add: same_groups_def)
  obtain s6 where s6: "set_tpc ?k p (word_of_int tpc) s5 = Some s6"
    using ue_access_total(10) [OF ue_fitsD(2) [OF fit5] assms(2,3)] by blast
  have "same_groups c s5 s6"
    using fits_simple(6) [OF fit5 s6] fit_fields_setters(6) [OF s6] by (simp add: same_groups_def fit_fields_def)
  then have groups: "same_groups c s s6"
    using assms(1) ndi(3) same_groups_trans unfolding coding_ok_def by blast
  have "code_payload c f sf p av wanted e co = Some (co\<lparr>
      co_tx := Some \<lparr>tx_nb_rb = nb, tx_mcs = mcs, tx_tbs = ucast t, tx_ndi = ndi, tx_tpc = tpc\<rparr>, co_sched := s6,
      co_vars := (co_vars co)\<lparr>lv_mcs := mcs, lv_tpc_accumulated := acc\<rparr>\<rparr>)"
    by (simp add: code_payload_def Let_def steps(1-5) cell pc(1) ndi(1,2) s6)
  then show ?thesis using assms(1) groups by (simp add: coding_ok_def)
qed

lemma ta_update_ok:
  "\<exists>n s'. ta_update r s = (n, s') \<and> (s' = s \<or> s' = set_ta_timer 20 s \<or> s' = decr_ta_timer s)"
  by (simp add: ta_update_def)

lemma new_transmission_ok:
  assumes "coding_ok c s u co" and "unat (cell_id16 c) < MAX_NUM_CC" and "unat p < MAX_NUM_HARQ"
    and "unat av \<le> 100" and "enb_wf e"
  shows "\<exists>co'. new_transmission c f sf p av e co = Some co' \<and> coding_ok c s u co'"
proof -
  let ?r = "um_mac_stats_report (co_ue co)"
  obtain t where t: "get_TBS_DL (word_of_int (lv_mcs (co_vars co))) av = Some t" using TBS_total [of av] assms(4) by auto
  obtain n s1 where ta: "ta_update ?r (co_sched co) = (n, s1)"
    and s1: "s1 = co_sched co \<or> s1 = set_ta_timer 20 (co_sched co) \<or> s1 = decr_ta_timer (co_sched co)"
    using ta_update_ok by blast
  have fit: "ue_fits c (co_sched co)" using assms(1) by (simp add: coding_ok_def same_groups_def)
  have same: "same_groups c (co_sched co) s1"
    using s1 fit fits_simple(7,8) [OF fit] by (auto simp: same_groups_def set_ta_timer_def decr_ta_timer_def)
  let ?vars = "if n > 0 then (co_vars co)\<lparr>lv_ce_flags := lv_ce_flags (co_vars co) OR FLPCET_TA\<rparr> else co_vars co"
  obtain q bs where q: "request_channels (ucast (ucast t :: u16)) n no_request (us_rlc_report ?r) = (q, bs)" by fastforce
  define co1 where "co1 = co\<lparr>co_tx := None, co_ue := (co_ue co)\<lparr>um_mac_stats_report := ?r\<lparr>us_rlc_report := bs\<rparr>\<rparr>,
      co_sched := s1, co_vars := ?vars, co_pdus := rq_pdus q\<rparr>"
  have ok: "coding_ok c s u co1"
    using assms(1) same same_groups_trans by (auto simp: coding_ok_def co1_def)
  show ?thesis
  proof (cases "rq_pdus q = []")
    case True
    then show ?thesis using ok t ta q by (simp add: new_transmission_def Let_def co1_def)
  next
    case False
    then have "new_transmission c f sf p av e co = code_payload c f sf p av
        (uint (rq_sdu_length_total q) + uint (final_header_len q) + uint n) e co1"
      using t ta q by (simp add: new_transmission_def Let_def co1_def)
    then show ?thesis using code_payload_ok [OF ok assms(2-5)] by simp
  qed
qed

end
