(* ===== verification/CellFrame.thy ===== *)
theory CellFrame
  imports FlexCoding
begin

text \<open>
  Scheduling one cell leaves the other cells of the eNB alone: of the scheduling records only those of the cell's
  UEs change, and of the maps and the control regions only the rows of the cell.
\<close>

section \<open>The frame of a step\<close>

definition confined :: "nat \<Rightarrow> rnti_t set \<Rightarrow> enb_scheduling_info \<Rightarrow> enb_scheduling_info \<Rightarrow> bool" where
  "confined k Q e e' \<longleftrightarrow>
     (sm_inv (es_scheduling_info e) \<longrightarrow> sm_inv (es_scheduling_info e') \<and>
        (\<forall>q. q \<notin> Q \<longrightarrow> get_ue_scheduling_info e' q = get_ue_scheduling_info e q)) \<and>
     (\<forall>j. j \<noteq> k \<longrightarrow> es_vrb_map e' ! j = es_vrb_map e ! j \<and>
        aget (es_num_pdcch_symbols e') j = aget (es_num_pdcch_symbols e) j \<and>
        aget (es_nCCE_rem e') j = aget (es_nCCE_rem e) j)"

lemma confined_refl [simp, intro]: "confined k Q e e"
  by (simp add: confined_def)

lemma confined_trans [trans]: "confined k Q a b \<Longrightarrow> confined k Q b c \<Longrightarrow> confined k Q a c"
  unfolding confined_def by simp

lemma confined_put: "r \<in> Q \<Longrightarrow> confined k Q e (put_ue_sched r s e)"
  by (auto simp: confined_def put_ue_sched_def get_ue_scheduling_info_def sm.inv_put sm.find_put)

lemma confined_rows:
  assumes "es_scheduling_info e' = es_scheduling_info e"
    and "\<And>j. j \<noteq> k \<Longrightarrow> es_vrb_map e' ! j = es_vrb_map e ! j"
    and "\<And>j. j \<noteq> k \<Longrightarrow> aget (es_num_pdcch_symbols e') j = aget (es_num_pdcch_symbols e) j"
    and "\<And>j. j \<noteq> k \<Longrightarrow> aget (es_nCCE_rem e') j = aget (es_nCCE_rem e) j"
  shows "confined k Q e e'"
  using assms by (simp add: confined_def get_ue_scheduling_info_def)

lemma aget_aset_other: "aset xs k v = Some ys \<Longrightarrow> j \<noteq> k \<Longrightarrow> aget ys j = aget xs j"
  by (auto simp: access_iffs aget_def)

lemma confined_toggle: "toggle_vrb_map c i e = Some e' \<Longrightarrow> confined (unat c) Q e e'"
  by (rule confined_rows) (auto simp: toggle_vrb_map_def Option.bind_eq_Some_conv access_iffs)

lemma confined_increase: "increase_num_pdcch_symbols c sf e = Some e' \<Longrightarrow> confined (unat (cc_cell_id c)) Q e e'"
  by (rule confined_rows)
     (auto simp: increase_num_pdcch_symbols_def Let_def Option.bind_eq_Some_conv dest: aget_aset_other)

lemma confined_assign: "assign_CCE c n e = Some e' \<Longrightarrow> confined (unat c) Q e e'"
  by (rule confined_rows) (auto simp: assign_CCE_def Option.bind_eq_Some_conv dest: aget_aset_other)

lemma confined_set_vrb: "set_vrb k e i = Some e' \<Longrightarrow> confined k Q e e'"
  by (rule confined_rows) (auto simp: set_vrb_def Option.bind_eq_Some_conv access_iffs)

lemma confined_start:
  assumes "enb_start_new_scheduling_round sf c e = Some e'"
  shows "confined (unat (cc_cell_id c)) Q e e'"
proof -
  let ?k = "unat (cc_cell_id c)"
  have loop: "confined ?k Q a b" if "foldo (set_vrb ?k) a xs = Some b" for a b xs
    by (rule foldo_invariant [where I = "confined ?k Q a", OF that confined_refl])
       (blast intro: confined_trans confined_set_vrb)
  obtain vs ns rs a where 1: "aset (es_vrb_map e) ?k (replicate N_RBG_MAX 0) = Some vs"
    "aset (es_num_pdcch_symbols e) ?k 0 = Some ns" "aset (es_nCCE_rem e) ?k (ucast (get_nCCE_max 0 c sf)) = Some rs"
    and a: "a = e\<lparr>es_vrb_map := vs, es_num_pdcch_symbols := ns, es_nCCE_rem := rs\<rparr>"
    and run: "do { a \<leftarrow> (if sf = 0 \<or> sf = 5
             then do { ns \<leftarrow> aset (es_num_pdcch_symbols a) ?k 3;
               foldo (set_vrb ?k) (a\<lparr>es_num_pdcch_symbols := ns\<rparr>) [0, 1, 2, 3] }
             else Some a);
        if sf = 5
        then let i = si_index (uint (cc_dl_bandwidth c)) in foldo (set_vrb ?k) a [i, i + 1, i + 2, i + 3]
        else Some a } = Some e'"
    using assms unfolding enb_start_new_scheduling_round_def Let_def Option.bind_eq_Some_conv by blast
  have "confined ?k Q e a"
    by (rule confined_rows) (use 1 in \<open>auto simp: a access_iffs aget_def\<close>)
  also have "confined ?k Q a b"
    if h: "(if sf = 0 \<or> sf = 5 then do { ns \<leftarrow> aset (es_num_pdcch_symbols a) ?k 3;
               foldo (set_vrb ?k) (a\<lparr>es_num_pdcch_symbols := ns\<rparr>) [0, 1, 2, 3] } else Some a) = Some b" for b
  proof (cases "sf = 0 \<or> sf = 5")
    case True
    then obtain ns where ns: "aset (es_num_pdcch_symbols a) ?k 3 = Some ns"
      "foldo (set_vrb ?k) (a\<lparr>es_num_pdcch_symbols := ns\<rparr>) [0, 1, 2, 3] = Some b"
      using h by (auto simp: Option.bind_eq_Some_conv simp del: foldo.simps One_nat_def)
    have "confined ?k Q a (a\<lparr>es_num_pdcch_symbols := ns\<rparr>)"
      by (rule confined_rows) (use ns(1) in \<open>auto dest: aget_aset_other\<close>)
    then show ?thesis using loop [OF ns(2)] by (rule confined_trans)
  qed (use h in simp)
  finally show ?thesis
    using run loop unfolding Option.bind_eq_Some_conv by (auto simp: Let_def simp del: foldo.simps split: if_splits intro: confined_trans)
qed

section \<open>The preprocessor\<close>

lemma confined_fresh: "r \<in> Q \<Longrightarrow> confined k Q e (fresh_sched r e)"
  by (auto simp: fresh_sched_def create_is_put confined_put split: option.split)

lemma confined_with_sched: "with_sched r f e = Some e' \<Longrightarrow> r \<in> Q \<Longrightarrow> confined k Q e e'"
  by (auto simp: with_sched_def Option.bind_eq_Some_conv confined_put)

lemma confined_prepare:
  assumes "prepare_ue c e ue a = Some b" and "uc_rnti ue \<in> Q"
  shows "confined k Q a b"
  using assms confined_trans [OF confined_fresh [OF assms(2)] confined_with_sched [OF _ assms(2)]] confined_fresh
  by (auto simp: prepare_ue_def Let_def split: option.splits)

lemma confined_count: "count_ue c e ue (a, n) = Some (b, m) \<Longrightarrow> uc_rnti ue \<in> Q \<Longrightarrow> confined k Q a b"
  by (auto simp: count_ue_def Let_def Option.bind_eq_Some_conv split: if_splits intro: confined_with_sched)

lemma confined_alloc_step:
  assumes "alloc_step c es i = Some es'"
  shows "confined (unat (cell_id16 c)) Q (fst es) (fst es')"
  using assms
  by (cases es; cases es')
     (auto simp: alloc_step_def take_group_def Let_def Option.bind_eq_Some_conv split: if_splits intro: confined_toggle)

lemma confined_allocate:
  assumes "allocate_ue c high ue a = Some b" and "uc_rnti ue \<in> Q"
  shows "confined (unat (cell_id16 c)) Q a b"
proof (cases "b = a")
  case False
  then obtain s a1 s1 where run: "perform_pre_processor_allocation c (a, s) = Some (a1, s1)"
    and b: "b = put_ue_sched (uc_rnti ue) s1 a1"
    using assms(1) by (auto simp: allocate_ue_def Option.bind_eq_Some_conv split: if_splits)
  have "confined (unat (cell_id16 c)) Q a (fst (a1, s1))"
    by (rule foldo_invariant [where I = "\<lambda>es. confined (unat (cell_id16 c)) Q a (fst es)",
          OF run [unfolded perform_pre_processor_allocation_def]])
       (auto intro: confined_trans confined_alloc_step)
  then show ?thesis unfolding b by (auto intro: confined_trans confined_put [OF assms(2)])
qed simp

text \<open>A pass over the UEs of a cell.\<close>

lemma confined_pass:
  assumes "for_cell_ues c e f order a = Some b"
    and "\<And>ue a b. uc_rnti ue \<in> cell_rntis c e \<Longrightarrow> f ue a = Some b \<Longrightarrow> confined k (cell_rntis c e) (g a) (g b)"
  shows "confined k (cell_rntis c e) (g a) (g b)"
proof (rule for_cell_ues_invariant [where I = "\<lambda>s. confined k (cell_rntis c e) (g a) (g s)", OF assms(1) confined_refl])
  fix ue x y
  assume ue: "ue \<in> set (cell_ues c e)" and x: "confined k (cell_rntis c e) (g a) (g x)" and step: "f ue x = Some y"
  have "uc_rnti ue \<in> cell_rntis c e" using ue by (simp add: cell_rntis_def)
  from confined_trans [OF x assms(2) [OF this step]] show "confined k (cell_rntis c e) (g a) (g y)" .
qed

lemma confined_preprocessor:
  assumes "run_dlsch_scheduler_preprocessor srt c e f sf a = Some b"
  shows "confined (unat (cell_id16 c)) (cell_rntis c e) a b"
proof -
  let ?C = "confined (unat (cell_id16 c)) (cell_rntis c e)"
  obtain s1 order s2 n s3 where
    s1: "for_cell_ues c e (prepare_ue c e) (map int [0..<length (ue_configs e)]) a = Some s1"
    and s2: "for_cell_ues c e (count_ue c e) order (s1, 0) = Some (s2, n)"
    and s3: "for_cell_ues c e (demand_ue c (average_rbs_per_user c sf n)) order s2 = Some s3"
    and s4: "foldo (allocation_round c e order n) s3 [0, 1] = Some b"
    using assms by (auto simp: run_dlsch_scheduler_preprocessor_def Option.bind_eq_Some_conv Let_def simp del: foldo.simps)
  have "?C a s1" using confined_pass [where g = "\<lambda>x. x", OF s1] confined_prepare by blast
  moreover have "?C s1 s2" using confined_pass [where g = fst, OF s2] confined_count by fastforce
  moreover have "?C s2 s3"
    using confined_pass [where g = "\<lambda>x. x", OF s3] confined_with_sched unfolding demand_ue_def by blast
  moreover have "?C s3 b"
  proof (rule foldo_invariant [where I = "?C s3", OF s4 confined_refl])
    fix r1 x y assume "?C s3 x" and run: "allocation_round c e order n x r1 = Some y"
    have alloc: "?C x y" if "for_cell_ues c e (allocate_ue c h) order x = Some y" for h x y
      using confined_pass [where g = "\<lambda>x. x", OF that] confined_allocate by blast
    have "?C x y" if "for_cell_ues c e (remaining_ue c r1) order x = Some y" for x y
      using confined_pass [where g = "\<lambda>x. x", OF that] confined_with_sched unfolding remaining_ue_def Let_def by blast
    with alloc have "?C x y"
      using run unfolding allocation_round_def Option.bind_eq_Some_conv
      by (cases "n > 0") (auto simp: Option.bind_eq_Some_conv, blast intro: confined_trans)
    with \<open>?C s3 x\<close> show "?C s3 y" by (rule confined_trans)
  qed
  ultimately show ?thesis by (blast intro: confined_trans)
qed

section \<open>Control channel elements\<close>

lemma confined_cce_loop:
  assumes "cce_loop c r a sf rem e = Some res"
  shows "confined (unat (cc_cell_id c)) Q e (snd res)"
  using assms
proof (induction rule: cce_loop.raw_induct [rotated, consumes 1])
  case (1 loop c r a sf rem e res)
  obtain b e' where res: "res = (b, e')" by (cases res)
  have "confined (unat (cc_cell_id c)) Q e e'"
    if "increase_num_pdcch_symbols c sf e = Some e1" "loop c r a sf rem' e1 = Some (b, e')" for e1 rem'
    using confined_increase [OF that(1)] 1(1) [OF that(2)] by (auto intro: confined_trans)
  then show ?case
    using 1(2) unfolding res by (auto simp: Let_def Option.bind_eq_Some_conv split: if_splits)
qed

lemma confined_CCE:
  "CCE_allocation_infeasible c ue a sf e = Some (b, e') \<Longrightarrow> confined (unat (cc_cell_id c)) Q e e'"
  by (auto simp: CCE_allocation_infeasible_def Option.bind_eq_Some_conv dest: confined_cce_loop)

end
