(* ===== verification/FlexRound.thy ===== *)
theory FlexRound
  imports CellFrame
begin

text \<open>
  The central scheduler is safe up to ties: on an eNB with parameters in range a scheduling round of
  \<open>run_central_scheduler\<close> returns exactly when no two UEs tie in the sort of a cell, and then the resource blocks
  named in the DCIs of the message it builds belong to one UE each.
\<close>

section \<open>The state during a round\<close>

text \<open>A data element for the cell names only groups its UE holds there; the first group is the highest bit.\<close>

definition data_fits :: "flex_cell_config \<Rightarrow> enb_scheduling_info \<Rightarrow> flex_dl_data \<Rightarrow> bool" where
  "data_fits c sched d \<longleftrightarrow>
     dd_serv_cell_index d = cc_cell_id c \<and>
     (\<exists>dci s. dd_dl_dci d = Some dci \<and> dci_rnti dci = dd_rnti d \<and>
        get_ue_scheduling_info sched (dd_rnti d) = Some s \<and>
        (\<forall>b. bit (dci_rb_bitmap dci) b \<longrightarrow> b < unat (get_nb_rbg c) \<and> owns c s (unat (get_nb_rbg c) - 1 - b)))"

definition sched_ready :: "flex_cell_config \<Rightarrow> rnti_t set \<Rightarrow> enb_scheduling_info \<Rightarrow> bool" where
  "sched_ready c R sched \<longleftrightarrow> rbg_excl c R sched \<and> sched_fits c (cce_fields sched) R sched"

text \<open>The cells of an eNB are configured once each and their parameters and UEs are in range.\<close>

definition cells_ready :: "enb_rib_info \<Rightarrow> bool" where
  "cells_ready e \<longleftrightarrow> distinct (map cc_cell_id (cell_configs e)) \<and> (\<forall>c \<in> set (cell_configs e). cell_ready c e)"

definition sched_ok :: "enb_scheduling_info \<Rightarrow> bool" where
  "sched_ok sched \<longleftrightarrow> enb_sched_wf sched \<and> (\<forall>r s. get_ue_scheduling_info sched r = Some s \<longrightarrow> blocks_ok s)"

text \<open>
  The scheduling records while the eNB is scheduled: those of all cells are ready, and at most eight control channel
  elements per data element are in use.
\<close>

definition cells_scheduled :: "enb_rib_info \<Rightarrow> subframe_t \<Rightarrow> int \<Rightarrow> flex_cell_config set \<Rightarrow> enb_scheduling_info \<Rightarrow> bool" where
  "cells_scheduled e sf limit C sched \<longleftrightarrow> sched_ok sched \<and>
     (\<forall>c \<in> C. sched_ready c (cell_rntis c e) sched \<and> (\<exists>used. cce_used c sf sched used \<and> used \<le> limit))"

text \<open>\<open>e\<close> is the record of the eNB at the start, \<open>T\<close> the UEs that are not served yet.\<close>

definition flex_inv :: "enb_rib_info \<Rightarrow> subframe_t \<Rightarrow> rnti_t set \<Rightarrow> flex_state \<Rightarrow> bool" where
  "flex_inv e sf T st \<longleftrightarrow>
     en_ue_config (fl_enb st) = en_ue_config e \<and> en_eNB_config (fl_enb st) = en_eNB_config e \<and> cells_ready (fl_enb st) \<and>
     cells_scheduled e sf (8 * int (length (fl_data st))) (set (cell_configs e)) (fl_sched st) \<and>
     lv_aggregation (fl_vars st) \<le> 3 \<and> distinct (map dd_rnti (fl_data st)) \<and> dd_rnti ` set (fl_data st) \<inter> T = {} \<and>
     (\<forall>d \<in> set (fl_data st). \<exists>c \<in> set (cell_configs e). dd_rnti d \<in> cell_rntis c e \<and> data_fits c (fl_sched st) d)"

text \<open>The groups all UEs hold stay as they are.\<close>

definition keeps_groups :: "enb_scheduling_info \<Rightarrow> enb_scheduling_info \<Rightarrow> bool" where
  "keeps_groups sched sched' \<longleftrightarrow>
     (\<forall>q s0. get_ue_scheduling_info sched q = Some s0 \<longrightarrow>
        (\<exists>s1. get_ue_scheduling_info sched' q = Some s1 \<and> si_rballoc_sub s1 = si_rballoc_sub s0))"

text \<open>What a step for the UE \<open>r\<close> of the cell does to the records, with \<open>used\<close> elements in use before and \<open>n\<close> more at most after.\<close>

definition sched_step :: "flex_cell_config \<Rightarrow> subframe_t \<Rightarrow> rnti_t set \<Rightarrow> int \<Rightarrow> int \<Rightarrow> rnti_t \<Rightarrow>
    enb_scheduling_info \<Rightarrow> enb_scheduling_info \<Rightarrow> bool" where
  "sched_step c sf R used n r sched sched' \<longleftrightarrow> sched_ready c R sched' \<and>
     (\<exists>used'. cce_used c sf sched' used' \<and> used' \<le> used + n) \<and> keeps_groups sched sched' \<and>
     confined (unat (cc_cell_id c)) {r} sched sched'"

text \<open>What serving the UE \<open>r\<close> does to the state.\<close>

definition ue_step :: "flex_cell_config \<Rightarrow> subframe_t \<Rightarrow> rnti_t set \<Rightarrow> int \<Rightarrow> rnti_t \<Rightarrow> flex_state \<Rightarrow> flex_state \<Rightarrow> bool" where
  "ue_step c sf R used r st st' \<longleftrightarrow>
     en_ue_config (fl_enb st') = en_ue_config (fl_enb st) \<and> en_eNB_config (fl_enb st') = en_eNB_config (fl_enb st) \<and>
     (cells_ready (fl_enb st) \<longrightarrow> cells_ready (fl_enb st')) \<and> lv_aggregation (fl_vars st') \<le> 3 \<and>
     (fl_data st' = fl_data st \<and> sched_step c sf R used 0 r (fl_sched st) (fl_sched st') \<or>
      (\<exists>d. fl_data st' = fl_data st @ [d] \<and> dd_rnti d = r \<and> data_fits c (fl_sched st') d \<and>
         sched_step c sf R used 8 r (fl_sched st) (fl_sched st')))"

lemma flex_inv_fewer: "flex_inv e sf T st \<Longrightarrow> T' \<subseteq> T \<Longrightarrow> flex_inv e sf T' st"
  unfolding flex_inv_def by blast

lemma keeps_groups_trans: "keeps_groups a b \<Longrightarrow> keeps_groups b c \<Longrightarrow> keeps_groups a c"
  unfolding keeps_groups_def by (metis (no_types))

lemma sched_step_trans:
  assumes "sched_step c sf R used 0 r a b" and "\<And>u. cce_used c sf b u \<Longrightarrow> u \<le> used \<Longrightarrow> sched_step c sf R u n r b d"
  shows "sched_step c sf R used n r a d"
proof -
  obtain u where u: "cce_used c sf b u" "u \<le> used" using assms(1) by (auto simp: sched_step_def)
  then show ?thesis
    using assms(1) assms(2) [OF u] unfolding sched_step_def
    by (auto intro: keeps_groups_trans confined_trans order.trans)
qed

text \<open>The other cells: nothing they rely on changes.\<close>

lemma sched_ready_other:
  assumes "sched_ready c R sched" and "confined k Q sched sched'" and "sched_ok sched'"
    and "R \<inter> Q = {}" and "unat (cell_id16 c) \<noteq> k"
  shows "sched_ready c R sched'"
proof -
  have wf: "enb_sched_wf sched" using assms(1) by (simp add: sched_ready_def sched_fits_def)
  then have get: "get_ue_scheduling_info sched' r = get_ue_scheduling_info sched r" if "r \<in> R" for r
    using assms(2,4) that by (auto simp: confined_def enb_sched_wf_def)
  have taken: "map_taken c sched' = map_taken c sched"
    using assms(2,5) by (simp add: fun_eq_iff map_taken_def confined_def)
  show ?thesis
    using assms(1,3) unfolding sched_ready_def sched_fits_def rbg_excl_def sched_ok_def by (auto simp: get taken)
qed

lemma cce_used_other:
  assumes "cce_used c sf sched used" and "confined k Q sched sched'" and "unat (cell_id16 c) \<noteq> k"
  shows "cce_used c sf sched' used"
  using assms by (simp add: cce_used_def confined_def get_num_pdcch_symbols_def get_nCCE_rem_def)

text \<open>The UEs of two cells are different.\<close>

lemma cell_id_back: "unat (cc_cell_id c) < MAX_NUM_CC \<Longrightarrow> ucast (cell_id16 c) = cc_cell_id c"
  by (rule word_unat_eq_iff [THEN iffD2]) (simp add: unsigned_ucast_eq take_bit_nat_eq_self unsigned_take_bit_eq)

lemma cell_rntis_disjoint:
  assumes "cell_ready c e" and "cell_ready c' e" and "cc_cell_id c \<noteq> cc_cell_id c'"
  shows "cell_rntis c e \<inter> cell_rntis c' e = {}" and "unat (cell_id16 c) \<noteq> unat (cell_id16 c')"
proof -
  have ids: "unat (cc_cell_id c) < MAX_NUM_CC" "unat (cc_cell_id c') < MAX_NUM_CC"
    and ues: "distinct (map uc_rnti (ue_configs e))"
    using assms(1,2) by (simp_all add: cell_ready_def ue_view_consistent_def)
  show "unat (cell_id16 c) \<noteq> unat (cell_id16 c')"
    using assms(3) cell_index [OF ids(1)] cell_index [OF ids(2)] by (simp add: word_unat_eq_iff)
  show "cell_rntis c e \<inter> cell_rntis c' e = {}"
  proof (rule ccontr)
    assume "cell_rntis c e \<inter> cell_rntis c' e \<noteq> {}"
    then obtain ue ue' where ue: "ue \<in> set (ue_configs e)" "ue' \<in> set (ue_configs e)" "uc_rnti ue = uc_rnti ue'"
      "uc_pcell_carrier_index ue = cc_cell_id c" "uc_pcell_carrier_index ue' = cc_cell_id c'"
      using cell_id_back [OF ids(1)] cell_id_back [OF ids(2)] by (auto simp: cell_rntis_def cell_ues_def)
    then have "ue = ue'" using ues by (auto simp: distinct_map dest: inj_onD)
    then show False using ue(4,5) assms(3) by simp
  qed
qed

lemma sched_ready_same:
  assumes "sched_ready c R sched" and "enb_sched_wf sched'"
    and "es_scheduling_info sched' = es_scheduling_info sched" and "es_vrb_map sched' = es_vrb_map sched"
  shows "sched_ready c R sched'"
proof -
  have get: "get_ue_scheduling_info sched' = get_ue_scheduling_info sched"
    using assms(3) by (simp add: fun_eq_iff get_ue_scheduling_info_def)
  have taken: "map_taken c sched' = map_taken c sched" using assms(4) by (simp add: fun_eq_iff map_taken_def)
  show ?thesis
    using assms(1,2) unfolding sched_ready_def sched_fits_def rbg_excl_def by (simp add: get taken)
qed

lemma sched_ready_put:
  assumes "sched_ready c R sched" and "r \<in> R" and "get_ue_scheduling_info sched r = Some s"
    and "same_groups c s s'"
  shows "sched_ready c R (put_ue_sched r s' sched)"
proof -
  have s': "ue_fits c s'" "si_rballoc_sub s' = si_rballoc_sub s" using assms(4) by (simp_all add: same_groups_def)
  have "rbg_excl c R (put_ue_sched r s' sched)"
    using assms(1) s'(2) ue_fitsD(2) [OF s'(1)] by (intro excl_put_same [OF _ assms(3)]) (simp_all add: sched_ready_def)
  moreover have "sched_fits c (cce_fields (put_ue_sched r s' sched)) R (put_ue_sched r s' sched)"
    using assms(1) sched_fits_put [OF _ s'(1), of "cce_fields sched" R sched r]
    by (simp add: sched_ready_def insert_absorb [OF assms(2)])
  ultimately show ?thesis by (simp add: sched_ready_def)
qed

lemma data_fits_mono:
  assumes "data_fits c sched d"
    and "\<And>s. get_ue_scheduling_info sched (dd_rnti d) = Some s \<Longrightarrow>
         \<exists>s'. get_ue_scheduling_info sched' (dd_rnti d) = Some s' \<and> si_rballoc_sub s' = si_rballoc_sub s"
  shows "data_fits c sched' d"
proof -
  obtain dci s where d: "dd_serv_cell_index d = cc_cell_id c" "dd_dl_dci d = Some dci" "dci_rnti dci = dd_rnti d"
    "get_ue_scheduling_info sched (dd_rnti d) = Some s"
    "\<forall>b. bit (dci_rb_bitmap dci) b \<longrightarrow> b < unat (get_nb_rbg c) \<and> owns c s (unat (get_nb_rbg c) - 1 - b)"
    using assms(1) by (auto simp: data_fits_def)
  obtain s' where "get_ue_scheduling_info sched' (dd_rnti d) = Some s'" "si_rballoc_sub s' = si_rballoc_sub s"
    using assms(2) [OF d(4)] by blast
  then show ?thesis using d unfolding data_fits_def owns_def by (intro conjI exI [of _ dci] exI [of _ s']) simp_all
qed

lemma cell_ready_put:
  assumes "cell_ready c e" and "get_ue_mac_info e r = Some u" and "ue_mac_wf u'"
    and "find_csi c (um_mac_stats_report u') = find_csi c (um_mac_stats_report u)"
  shows "cell_ready c (put_ue_mac r u' e)"
proof -
  have wf: "enb_wf e" using assms(1) by (simp add: cell_ready_def)
  note D = enb_wfD [OF wf]
  have find: "sm_find (en_ue_mac_info (put_ue_mac r u' e)) = (sm_find (en_ue_mac_info e))(r \<mapsto> u')"
    by (simp add: put_ue_mac_def sm.find_put [OF D(1)])
  have "enb_wf (put_ue_mac r u' e)"
    using D assms(3) by (intro enb_wfI) (auto simp: sm.find_put [OF D(1)] put_ue_mac_def sm.inv_put split: if_splits)
  moreover have "mac_rntis (put_ue_mac r u' e) = mac_rntis e"
    using assms(2) by (auto simp: find get_ue_mac_info_def split: if_splits)
  moreover have "csi_mcs c (um_mac_stats_report u') 0 = csi_mcs c (um_mac_stats_report u) 0"
    by (simp add: csi_mcs_def assms(4))
  moreover have same: "en_ue_config (put_ue_mac r u' e) = en_ue_config e" by (simp add: put_ue_mac_def)
  moreover have "cell_ues c (put_ue_mac r u' e) = cell_ues c e" by (simp add: cell_ues_def same)
  ultimately show ?thesis
    using assms(1,2) by (auto simp: cell_ready_def ue_view_consistent_def get_ue_mac_info_def find)
qed

lemma assign_CCE_ok:
  assumes "enb_sched_wf sched" and "unat (cell_id16 c) < MAX_NUM_CC" and "cce_used c sf sched used"
    and "0 \<le> n" and "n \<le> 8" and "used + n < 2 ^ 30"
  shows "\<exists>sched'. assign_CCE (cell_id16 c) n sched = Some sched' \<and> enb_sched_wf sched' \<and> same_alloc sched sched' \<and>
     cce_used c sf sched' (used + n)"
proof -
  let ?k = "unat (cell_id16 c)"
  obtain m rem where rem: "get_num_pdcch_symbols sched (cell_id16 c) = Some m"
    "get_nCCE_rem sched (cell_id16 c) = Some rem" "sint rem = uint (get_nCCE_max m c sf) - used" "0 \<le> used"
    using assms(3) by (auto simp: cce_used_def)
  let ?s = "sched\<lparr>es_nCCE_rem := (es_nCCE_rem sched)[?k := rem - word_of_int n]\<rparr>"
  have in_range: "?k < length (es_nCCE_rem sched)" using assms(1,2) by (simp add: arr_simps)
  have run: "assign_CCE (cell_id16 c) n sched = Some ?s"
    using rem(2) in_range by (simp add: assign_CCE_def get_nCCE_rem_def arr_simps)
  have max: "uint (get_nCCE_max m c sf) < 2 ^ 16" "0 \<le> uint (get_nCCE_max m c sf)"
    using unsigned_less [of "get_nCCE_max m c sf", where ?'a = int] by simp_all
  have bound: "- (2 ^ 31) \<le> x - used - n \<and> x - used - n < 2 ^ 31" if "0 \<le> x" "x < 2 ^ 16" for x
    using that rem(4) assms(4,6) by simp
  have "rem = word_of_int (uint (get_nCCE_max m c sf) - used)" by (simp flip: rem(3))
  then have "rem - word_of_int n = word_of_int (uint (get_nCCE_max m c sf) - used - n)" by (simp only: wi_hom_sub)
  moreover have "- (2 ^ 31) \<le> uint (get_nCCE_max m c sf) - used - n" "uint (get_nCCE_max m c sf) - used - n < 2 ^ 31"
    using bound [OF max(2,1)] rem(4) assms(4,6) by simp_all
  ultimately have "sint (rem - word_of_int n) = uint (get_nCCE_max m c sf) - (used + n)"
    by (simp only: sint_of_small diff_diff_eq)
  then have "cce_used c sf ?s (used + n)"
    using rem(1,4) in_range assms(4,6)
    by (simp add: cce_used_def get_num_pdcch_symbols_def get_nCCE_rem_def arr_simps)
  moreover have "enb_sched_wf ?s" using assms(1) by (simp add: enb_sched_wf_def get_ue_scheduling_info_def)
  ultimately show ?thesis using run by (simp add: same_alloc_def)
qed

text \<open>The record of a UE is written back.\<close>

lemma write_back_ok:
  assumes "sched_ready c R sched" and "cce_used c sf sched used" and "r \<in> R"
    and "get_ue_scheduling_info sched r = Some s" and "same_groups c s s'"
  shows "sched_step c sf R used 0 r sched (put_ue_sched r s' sched)"
proof -
  have wf: "enb_sched_wf sched" using assms(1) by (simp add: sched_ready_def sched_fits_def)
  have "cce_used c sf (put_ue_sched r s' sched) used"
    using assms(2) by (simp add: cce_used_def put_ue_sched_def get_num_pdcch_symbols_def get_nCCE_rem_def)
  moreover have "keeps_groups sched (put_ue_sched r s' sched)"
    using assms(4,5) by (auto simp: keeps_groups_def get_put [OF wf] same_groups_def)
  ultimately show ?thesis
    using sched_ready_put [OF assms(1,3-5)] confined_put [of r "{r}"] by (auto simp: sched_step_def)
qed

text \<open>A grant for the UE: control channel elements are taken, and the bitmap names groups the UE holds.\<close>

lemma grant_ok:
  assumes "sched_ready c R sched" and "cce_used c sf sched used" and "used < 2 ^ 29"
    and "unat (cell_id16 c) < MAX_NUM_CC" and "r \<in> R" and "unat p < MAX_NUM_HARQ"
    and "get_ue_scheduling_info sched r = Some s" and "same_groups c s s'" and "0 \<le> n" and "n \<le> 8"
    and "unat (cc_cell_id c) < MAX_NUM_CC"
  shows "\<exists>sched' row w. assign_CCE (cell_id16 c) n (put_ue_sched r s' sched) = Some sched' \<and>
     get_rballoc_sub_scheduled s' (cell_id16 c) p = Some row \<and> allocate_prbs_sub nb row c = Some w \<and>
     sched_step c sf R used 8 r sched sched' \<and>
     (\<forall>d dci. dd_rnti d = r \<and> dd_dl_dci d = Some dci \<and> dci_rnti dci = r \<and> dci_rb_bitmap dci = w \<and>
        dd_serv_cell_index d = cc_cell_id c \<longrightarrow> data_fits c sched' d)"
proof -
  let ?k = "cell_id16 c"
  let ?sched = "put_ue_sched r s' sched"
  have wf: "enb_sched_wf sched" using assms(1) by (simp add: sched_ready_def sched_fits_def)
  note wb = write_back_ok [OF assms(1,2,5,7,8)]
  have ready1: "sched_ready c R ?sched" using wb by (simp add: sched_step_def)
  then have wf1: "enb_sched_wf ?sched" by (simp add: sched_ready_def sched_fits_def)
  have fit: "ue_fits c s'" using assms(8) by (simp add: same_groups_def)
  let ?row = "si_rballoc_sub_scheduled s' ! unat ?k ! unat p"
  have row: "get_rballoc_sub_scheduled s' ?k p = Some ?row" "length ?row = 25"
    using ue_fitsD(2) [OF fit] assms(4,6) by (simp_all add: get_rballoc_sub_scheduled_def arr_simps)
  obtain w k where w: "allocate_prbs_sub nb ?row c = Some w" and bits: "bitmap_of c ?row k w"
    using allocate_prbs_sub_spec [of c ?row nb] nb_rbg_le [of c] row(2) by auto
  have owned: "b < unat (get_nb_rbg c) \<and> owns c s' (unat (get_nb_rbg c) - 1 - b)" if "bit w b" for b
  proof -
    have b: "b < unat (get_nb_rbg c)" "?row ! (unat (get_nb_rbg c) - 1 - b) = 1"
      using bits that by (auto simp: bitmap_of_def)
    then have "unat (get_nb_rbg c) - 1 - b < N_RBG_MAX" using nb_rbg_le [of c] by linarith
    with b show ?thesis using ue_fitsD(6) [OF fit assms(6), of "unat (get_nb_rbg c) - 1 - b"] by simp
  qed
  obtain u1 where u1: "cce_used c sf ?sched u1" "u1 \<le> used" using wb by (auto simp: sched_step_def)
  have "u1 + n < 2 ^ 30" using u1(2) assms(3,10) by simp
  from assign_CCE_ok [OF wf1 assms(4) u1(1) assms(9,10) this] obtain sched' where
    sched': "assign_CCE ?k n ?sched = Some sched'" "enb_sched_wf sched'" "same_alloc ?sched sched'"
      "cce_used c sf sched' (u1 + n)" by blast
  have same: "es_scheduling_info sched' = es_scheduling_info ?sched" "es_vrb_map sched' = es_vrb_map ?sched"
    using sched'(3) by (simp_all add: same_alloc_def)
  have get: "get_ue_scheduling_info sched' = get_ue_scheduling_info ?sched"
    by (simp add: fun_eq_iff get_ue_scheduling_info_def same(1))
  have "sched_step c sf R used 8 r sched sched'"
  proof (rule sched_step_trans [OF wb])
    fix u assume "cce_used c sf ?sched u" "u \<le> used"
    then have u: "u = u1" using u1(1) by (auto simp: cce_used_def)
    have "confined (unat (cc_cell_id c)) {r} ?sched sched'"
      using confined_assign [OF sched'(1)] by (simp add: cell_index [OF assms(11)])
    then show "sched_step c sf R u 8 r ?sched sched'"
      using sched_ready_same [OF ready1 sched'(2) same] sched'(4) assms(10)
      by (auto simp: sched_step_def u keeps_groups_def get)
  qed
  moreover have "data_fits c sched' d"
    if "dd_rnti d = r \<and> dd_dl_dci d = Some dci \<and> dci_rnti dci = r \<and> dci_rb_bitmap dci = w \<and>
        dd_serv_cell_index d = cc_cell_id c" for d dci
    using that owned by (auto simp: data_fits_def get get_put [OF wf])
  ultimately show ?thesis
    using sched'(1) row(1) w by blast
qed

lemma cells_ready_put:
  assumes "get_ue_mac_info e r = Some u" and "ue_mac_wf u'"
    and "us_dl_cqi_report (um_mac_stats_report u') = us_dl_cqi_report (um_mac_stats_report u)" and "cells_ready e"
  shows "cells_ready (put_ue_mac r u' e)"
proof -
  have "find_csi c (um_mac_stats_report u') = find_csi c (um_mac_stats_report u)" for c
    using assms(3) by (simp add: find_csi_def)
  then show ?thesis
    using assms(4) cell_ready_put [OF _ assms(1,2)] by (simp add: cells_ready_def put_ue_mac_def)
qed

lemma finish_ue_ok:
  assumes "cell_ready c (fl_enb st)" and "sched_ready c R (fl_sched st)" and "cce_used c sf (fl_sched st) used"
    and "used < 2 ^ 29" and "uc_rnti ue \<in> R" and "unat p < MAX_NUM_HARQ"
    and "get_ue_mac_info (fl_enb st) (uc_rnti ue) = Some u" and "ue_mac_wf u"
    and "get_ue_scheduling_info (fl_sched st) (uc_rnti ue) = Some s" and "coding_ok c s u co"
  shows "\<exists>st'. finish_ue c ue p round co st = Some st' \<and> ue_step c sf R used (uc_rnti ue) st st'"
proof -
  let ?r = "uc_rnti ue" and ?k = "cell_id16 c"
  note cc = cell_readyD(1) [OF assms(1)]
  have id: "unat (cc_cell_id c) < MAX_NUM_CC" using assms(1) by (simp add: cell_ready_def)
  have groups: "same_groups c s (co_sched co)" and agg: "lv_aggregation (co_vars co) \<le> 3"
    using assms(10) by (simp_all add: coding_ok_def)
  obtain bs where u': "co_ue co = u\<lparr>um_mac_stats_report := (um_mac_stats_report u)\<lparr>us_rlc_report := bs\<rparr>\<rparr>"
    using assms(10) by (auto simp: coding_ok_def)
  have uwf: "ue_mac_wf (co_ue co)" using assms(8) by (simp add: u' ue_mac_wf_def)
  have csi: "us_dl_cqi_report (um_mac_stats_report (co_ue co)) = us_dl_cqi_report (um_mac_stats_report u)"
    by (simp add: u')
  show ?thesis
  proof (cases "co_tx co")
    case None
    then show ?thesis
      using cells_ready_put [OF assms(7) uwf csi] write_back_ok [OF assms(2,3,5,9) groups] agg
      by (simp add: finish_ue_def Let_def ue_step_def) (simp add: put_ue_mac_def)
  next
    case (Some t)
    have "\<exists>u2. harq_scheduled (co_ue co) ?k p = Some u2"
      using uwf cc assms(6) by (simp add: harq_scheduled_def arr_simps)
    then obtain u2 where u2: "harq_scheduled (co_ue co) ?k p = Some u2" by blast
    have u2wf: "ue_mac_wf u2" by (rule ue_mac_wf_scheduled [OF u2 uwf])
    have csi2: "us_dl_cqi_report (um_mac_stats_report u2) = us_dl_cqi_report (um_mac_stats_report u)"
      using u2 csi by (auto simp: harq_scheduled_def Option.bind_eq_Some_conv)
    let ?n = "2 ^ unat (lv_aggregation (co_vars co)) :: int"
    have n: "0 \<le> ?n" "?n \<le> 8"
      using agg power_increasing [of "unat (lv_aggregation (co_vars co))" 3 "2 :: int"] by (simp_all add: word_le_nat_alt)
    obtain sched' row w where g: "assign_CCE ?k ?n (put_ue_sched ?r (co_sched co) (fl_sched st)) = Some sched'"
      "get_rballoc_sub_scheduled (co_sched co) ?k p = Some row" "allocate_prbs_sub (uint (tx_nb_rb t)) row c = Some w"
      "sched_step c sf R used 8 ?r (fl_sched st) sched'"
      "\<And>d dci. dd_rnti d = ?r \<and> dd_dl_dci d = Some dci \<and> dci_rnti dci = ?r \<and> dci_rb_bitmap dci = w \<and>
         dd_serv_cell_index d = cc_cell_id c \<Longrightarrow> data_fits c sched' d"
      using grant_ok [OF assms(2-4) cc assms(5,6,9) groups n id, of "uint (tx_nb_rb t)"] by blast
    define d where "d = \<lparr>dd_rnti = ?r, dd_dl_dci = Some (dci_of ue p round (lv_aggregation (co_vars co)) t w),
      dd_ce_bitmap = [lv_ce_flags (co_vars co), lv_ce_flags (co_vars co)], dd_rlc_pdu = co_pdus co,
      dd_serv_cell_index = ucast ?k\<rparr>"
    have d: "dd_rnti d = ?r" "data_fits c sched' d"
      using g(5) [of d "dci_of ue p round (lv_aggregation (co_vars co)) t w"] cell_id_back [OF id]
      by (simp_all add: d_def dci_of_def)
    have run: "finish_ue c ue p round co st = Some (st\<lparr>fl_enb := put_ue_mac ?r u2 (fl_enb st), fl_sched := sched',
        fl_vars := co_vars co, fl_data := fl_data st @ [d]\<rparr>)"
      using Some u2 g(1-3) by (simp add: finish_ue_def Let_def d_def)
    then show ?thesis
      using cells_ready_put [OF assms(7) u2wf csi2] g(4) d agg
      by (simp add: ue_step_def) (simp add: put_ue_mac_def)
  qed
qed

lemma transmit_ue_ok:
  assumes "cell_ready c (fl_enb st)" and "sched_ready c R (fl_sched st)" and "cce_used c sf (fl_sched st) used"
    and "used < 2 ^ 29" and "uc_rnti ue \<in> R" and "ue \<in> set (cell_ues c (fl_enb st))"
    and "get_ue_mac_info (fl_enb st) (uc_rnti ue) = Some u" and "ue_mac_wf u"
    and "get_ue_scheduling_info (fl_sched st) (uc_rnti ue) = Some s" and "lv_aggregation (fl_vars st) \<le> 3"
    and "has_available_harq u (cell_id16 c) = Some True" and "unat av \<le> 100"
  shows "\<exists>st'. transmit_ue c f sf' ue u s av st = Some st' \<and> ue_step c sf R used (uc_rnti ue) st st'"
proof -
  let ?k = "cell_id16 c"
  note cc = cell_readyD(1) [OF assms(1)]
  obtain n where n: "get_next_available_harq u ?k = Some (int n)" "n < MAX_NUM_HARQ"
    using next_available_harq_active [OF assms(8) cc assms(11)] by metis
  define p where "p = (of_nat n :: u8)"
  have p: "unat p = n" "unat p < MAX_NUM_HARQ" using n(2) by (simp_all add: p_def unsigned_of_nat take_bit_nat_eq_self)
  obtain round where round: "get_harq_stats u ?k (unat p) = Some round"
    using assms(8) cc p(2) by (simp add: get_harq_stats_def arr_simps)
  have csi: "csi_mcs c (um_mac_stats_report u) 0 \<noteq> None" using assms(1,6,7) by (auto simp: cell_ready_def)
  then obtain mcs where mcs: "csi_mcs c (um_mac_stats_report u) (lv_mcs (fl_vars st)) = Some mcs"
    using csi_mcs_total by blast
  have fit: "ue_fits c s"
    using assms(2,5,9) sched_fitsD(4) unfolding sched_ready_def by blast
  define co where "co = \<lparr>co_tx = None, co_ue = u, co_sched = s, co_vars = (fl_vars st)\<lparr>lv_mcs := mcs\<rparr>, co_pdus = []\<rparr>"
  have "\<exists>bs. u = u\<lparr>um_mac_stats_report := (um_mac_stats_report u)\<lparr>us_rlc_report := bs\<rparr>\<rparr>"
    by (rule exI [of _ "us_rlc_report (um_mac_stats_report u)"]) simp
  then have ok: "coding_ok c s u co"
    using fit assms(10) by (simp add: coding_ok_def same_groups_def co_def)
  have wf: "enb_wf (fl_enb st)" using assms(1) by (simp add: cell_ready_def)
  obtain co' where co': "(if round > 0 then retransmit c p av co else new_transmission c f sf' p av (fl_enb st) co) = Some co'"
    "coding_ok c s u co'"
    using retransmit_ok [OF ok cc p(2) csi, of av] new_transmission_ok [OF ok cc p(2) assms(12) wf, of f sf']
    by (cases "round > 0") auto
  have "transmit_ue c f sf' ue u s av st = finish_ue c ue p round co' st"
    using round mcs co'(1) by (cases "round > 0") (simp_all add: transmit_ue_def Let_def n(1) flip: p_def co_def)
  then show ?thesis
    using finish_ue_ok [OF assms(1-5) p(2) assms(7-9) co'(2)] by simp
qed

text \<open>The UE of an entry, if it is served by the cell.\<close>

definition served :: "flex_cell_config \<Rightarrow> flex_ue_config \<Rightarrow> rnti_t set" where
  "served c ue = (if uc_pcell_carrier_index ue = ucast (cell_id16 c) then {uc_rnti ue} else {})"

lemma cell_rntis_served: "cell_rntis c e = (\<Union>ue \<in> set (ue_configs e). served c ue)"
  by (auto simp: cell_rntis_def cell_ues_def served_def split: if_splits)

lemma flex_inv_cells:
  assumes "flex_inv e sf T st"
  shows "cell_rntis c (fl_enb st) = cell_rntis c e" and "cell_ues c (fl_enb st) = cell_ues c e"
    and "cell_configs (fl_enb st) = cell_configs e" and "ue_configs (fl_enb st) = ue_configs e"
  using assms by (simp_all add: flex_inv_def cell_rntis_def cell_ues_def)

text \<open>There are no more data elements than UEs.\<close>

lemma flex_inv_data_length:
  assumes "flex_inv e sf T st" and "c \<in> set (cell_configs e)"
  shows "length (fl_data st) \<le> MAX_NUM_UE"
proof -
  have "cells_ready (fl_enb st)" using assms(1) by (simp add: flex_inv_def)
  then have "cell_ready c (fl_enb st)" using assms(2) flex_inv_cells(3) [OF assms(1)] by (simp add: cells_ready_def)
  then have len: "length (ue_configs e) \<le> MAX_NUM_UE" using flex_inv_cells(4) [OF assms(1)] by (simp add: cell_ready_def)
  have "dd_rnti ` set (fl_data st) \<subseteq> uc_rnti ` set (ue_configs e)"
  proof (rule image_subsetI)
    fix d assume "d \<in> set (fl_data st)"
    then obtain c where "dd_rnti d \<in> cell_rntis c e" using assms(1) unfolding flex_inv_def by blast
    then show "dd_rnti d \<in> uc_rnti ` set (ue_configs e)" by (auto simp: cell_rntis_def cell_ues_def)
  qed
  then have "card (dd_rnti ` set (fl_data st)) \<le> card (uc_rnti ` set (ue_configs e))" by (simp add: card_mono)
  also have "\<dots> \<le> length (ue_configs e)"
    using card_image_le [of "set (ue_configs e)" uc_rnti] card_length [of "ue_configs e"] by simp
  finally show ?thesis using assms(1) len distinct_card [of "map dd_rnti (fl_data st)"] by (simp add: flex_inv_def)
qed

text \<open>A step in one cell, for a UE of the cell that was not served yet, keeps the invariant of all cells.\<close>

lemma cells_scheduled_step:
  assumes "cells_scheduled e sf used (set (cell_configs e)) sched" and "cells_ready e" and "c \<in> set (cell_configs e)"
    and "sched_step c sf (cell_rntis c e) used n r sched sched'" and "r \<in> cell_rntis c e" and "0 \<le> n"
  shows "cells_scheduled e sf (used + n) (set (cell_configs e)) sched'"
proof -
  have ok: "sched_ok sched'" using assms(4) by (simp add: sched_step_def sched_ready_def sched_fits_def sched_ok_def)
  have "sched_ready d (cell_rntis d e) sched' \<and> (\<exists>u. cce_used d sf sched' u \<and> u \<le> used + n)"
    if d: "d \<in> set (cell_configs e)" for d
  proof (cases "d = c")
    case True
    then show ?thesis using assms(4) by (simp add: sched_step_def)
  next
    case False
    then have ne: "cc_cell_id d \<noteq> cc_cell_id c"
      using assms(2,3) d by (auto simp: cells_ready_def distinct_map dest: inj_onD)
    have ready: "cell_ready d e" "cell_ready c e" using assms(2,3) d by (simp_all add: cells_ready_def)
    note dis = cell_rntis_disjoint [OF ready ne]
    have id: "unat (cell_id16 d) \<noteq> unat (cc_cell_id c)"
      using dis(2) cell_index [of c] ready(2) by (simp add: cell_ready_def)
    have conf: "confined (unat (cc_cell_id c)) {r} sched sched'" using assms(4) by (simp add: sched_step_def)
    have "sched_ready d (cell_rntis d e) sched'"
      by (rule sched_ready_other [OF _ conf ok _ id]) (use assms(1,5) d dis(1) in \<open>auto simp: cells_scheduled_def\<close>)
    moreover obtain u where "cce_used d sf sched u" "u \<le> used" using assms(1) d by (auto simp: cells_scheduled_def)
    ultimately show ?thesis using cce_used_other [OF _ conf id] assms(6) by fastforce
  qed
  then show ?thesis using ok by (simp add: cells_scheduled_def)
qed

lemma data_fits_keeps: "data_fits c sched d \<Longrightarrow> keeps_groups sched sched' \<Longrightarrow> data_fits c sched' d"
  by (rule data_fits_mono) (auto simp: keeps_groups_def)

text \<open>One step of the loop over the UEs of a cell.\<close>

lemma ue_step_inv:
  assumes "flex_inv e sf T st" and "c \<in> set (cell_configs e)" and "r \<in> cell_rntis c e" and "r \<in> T" and "cells_ready e"
    and "sched_step c sf (cell_rntis c e) used 0 r (fl_sched st) sched"
    and "used \<le> 8 * int (length (fl_data st))"
    and "ue_step c sf (cell_rntis c e) used' r (st\<lparr>fl_sched := sched, fl_vars := v\<rparr>) st'"
    and "used' \<le> used"
  shows "flex_inv e sf (T - {r}) st'"
proof -
  let ?n = "8 * int (length (fl_data st))"
  have grow: "sched_step c sf (cell_rntis c e) ?n n r (fl_sched st) (fl_sched st')"
    if "sched_step c sf (cell_rntis c e) used' n r sched (fl_sched st')" for n
  proof -
    have "sched_step c sf (cell_rntis c e) ?n n r sched (fl_sched st')"
      using that assms(7,9) unfolding sched_step_def by (auto intro: order.trans)
    moreover have "sched_step c sf (cell_rntis c e) ?n 0 r (fl_sched st) sched"
      using assms(6,7) unfolding sched_step_def by (auto intro: order.trans)
    ultimately show ?thesis
      unfolding sched_step_def by (blast intro: keeps_groups_trans confined_trans)
  qed
  note I = assms(1) [unfolded flex_inv_def]
  consider (same) "fl_data st' = fl_data st" "sched_step c sf (cell_rntis c e) ?n 0 r (fl_sched st) (fl_sched st')"
    | (more) d where "fl_data st' = fl_data st @ [d]" "dd_rnti d = r" "data_fits c (fl_sched st') d"
        "sched_step c sf (cell_rntis c e) ?n 8 r (fl_sched st) (fl_sched st')"
    using assms(8) grow by (auto simp: ue_step_def)
  then show ?thesis
  proof cases
    case same
    have "cells_scheduled e sf ?n (set (cell_configs e)) (fl_sched st')"
      using cells_scheduled_step [OF _ assms(5,2) same(2) assms(3)] I by auto
    moreover have "keeps_groups (fl_sched st) (fl_sched st')" using same(2) by (simp add: sched_step_def)
    ultimately show ?thesis
      using I assms(8) same(1) data_fits_keeps unfolding flex_inv_def by (auto simp: ue_step_def) blast+
  next
    case more
    have "cells_scheduled e sf (?n + 8) (set (cell_configs e)) (fl_sched st')"
      using cells_scheduled_step [OF _ assms(5,2) more(4) assms(3)] I by auto
    moreover have "keeps_groups (fl_sched st) (fl_sched st')" using more(4) by (simp add: sched_step_def)
    ultimately show ?thesis
      using I assms(2,3,4,8) more(1-3) data_fits_keeps unfolding flex_inv_def by (auto simp: ue_step_def algebra_simps) blast+
  qed
qed

text \<open>The search for control channel elements takes none.\<close>

lemma CCE_step:
  assumes "sched_ready c R sched" and "cce_used c sf sched used" and "a \<le> 3" and "cell_ready c e"
  obtains b sched' where "CCE_allocation_infeasible c ue a sf sched = Some (b, sched')"
    and "sched_step c sf R used 0 r sched sched'" and "cce_used c sf sched' used"
    and "get_ue_scheduling_info sched' = get_ue_scheduling_info sched"
proof -
  have wf: "enb_sched_wf sched" using assms(1) by (simp add: sched_ready_def sched_fits_def)
  have id: "unat (cc_cell_id c) < MAX_NUM_CC" using assms(4) by (simp add: cell_ready_def)
  obtain b sched' where cce: "CCE_allocation_infeasible c ue a sf sched = Some (b, sched')"
    and wf': "enb_sched_wf sched'" and same: "same_alloc sched sched'" and used': "cce_used c sf sched' used"
    using cce_search [OF wf id assms(3,2)] by blast
  have get: "get_ue_scheduling_info sched' = get_ue_scheduling_info sched"
    using same by (simp add: fun_eq_iff get_ue_scheduling_info_def same_alloc_def)
  have "sched_step c sf R used 0 r sched sched'"
    using sched_ready_same [OF assms(1) wf'] same used' confined_CCE [OF cce]
    by (auto simp: sched_step_def same_alloc_def keeps_groups_def get)
  with cce used' get show thesis by (rule_tac that)
qed

lemma schedule_ue_inv:
  assumes "flex_inv e sf T st" and "cells_ready e" and "c \<in> set (cell_configs e)" and "ue \<in> set (ue_configs e)"
    and "served c ue \<subseteq> T"
  shows "\<exists>st'. schedule_ue c f sf st ue = Some st' \<and> flex_inv e sf (T - served c ue) st'"
proof (cases "uc_pcell_carrier_index ue = ucast (cell_id16 c)")
  case False
  then show ?thesis using assms(1) by (simp add: schedule_ue_def served_def)
next
  case True
  let ?R = "cell_rntis c e" and ?k = "cell_id16 c" and ?r = "uc_rnti ue" and ?n = "8 * int (length (fl_data st))"
  note C = flex_inv_cells [OF assms(1)]
  have ready: "cell_ready c (fl_enb st)" using assms(1,3) C(3) by (simp add: flex_inv_def cells_ready_def)
  have sched: "sched_ready c ?R (fl_sched st)" and agg: "lv_aggregation (fl_vars st) \<le> 3"
    using assms(1,3) by (auto simp: flex_inv_def cells_scheduled_def)
  obtain used where used: "cce_used c sf (fl_sched st) used" "used \<le> ?n"
    using assms(1,3) by (auto simp: flex_inv_def cells_scheduled_def)
  have ue: "ue \<in> set (cell_ues c (fl_enb st))" using True assms(4) C(4) by (simp add: cell_ues_def)
  then have r: "?r \<in> ?R" "?r \<in> T" using assms(5) True C(1) by (auto simp: cell_rntis_def served_def)
  note cc = cell_readyD(1) [OF ready]
  obtain u where u: "get_ue_mac_info (fl_enb st) ?r = Some u" "ue_mac_wf u"
    using cell_ready_ue [OF ready cell_ues_sub [OF ue]] by blast
  have csi: "csi_mcs c (um_mac_stats_report u) 0 \<noteq> None" using ready ue u(1) by (auto simp: cell_ready_def)
  obtain a where a: "csi_aggregation c (um_mac_stats_report u) (lv_aggregation (fl_vars st)) = Some a" "a \<le> 3"
    using csi_aggregation_ok [OF csi agg] by blast
  obtain b sched' where cce: "CCE_allocation_infeasible c ue a sf (fl_sched st) = Some (b, sched')"
    and step: "sched_step c sf ?R used 0 ?r (fl_sched st) sched'" and used': "cce_used c sf sched' used"
    using CCE_step [OF sched used(1) a(2) ready] by metis
  let ?st = "st\<lparr>fl_sched := sched', fl_vars := (fl_vars st)\<lparr>lv_aggregation := a\<rparr>\<rparr>"
  obtain s where s: "get_ue_scheduling_info sched' ?r = Some s"
    using rbg_exclD(2) [OF _ r(1)] step by (auto simp: sched_step_def sched_ready_def)
  then have fit: "ue_fits c s" using step r(1) sched_fitsD(4) unfolding sched_step_def sched_ready_def by blast
  let ?av = "si_pre_nb_rbs_available s ! unat ?k"
  have av: "get_pre_nb_rbs_available s ?k = Some ?av" "unat ?av \<le> 100"
    using ue_read_total(4) [OF ue_fitsD(2) [OF fit] cc] ue_fitsD(7) [OF fit] by simp_all
  have sv: "served c ue = {?r}" using True by (simp add: served_def)
  show ?thesis
  proof (cases "b \<or> has_available_harq u ?k \<noteq> Some True \<or> ?av = 0")
    case no: True
    have run: "schedule_ue c f sf st ue = Some ?st"
      using True u(1) a(1) cce s av(1) no has_available_harq_iff [OF u(2) cc]
      by (auto simp: schedule_ue_def Let_def split: if_splits)
    have "ue_step c sf ?R used ?r ?st ?st"
      using a(2) step by (simp add: ue_step_def sched_step_def keeps_groups_def)
    from ue_step_inv [OF assms(1,3) r assms(2) step used(2) this order_refl] run sv show ?thesis by auto
  next
    case yes: False
    have bound: "used < 2 ^ 29" using used(2) flex_inv_data_length [OF assms(1,3)] by simp
    obtain st' where st': "transmit_ue c f sf ue u s ?av ?st = Some st'" "ue_step c sf ?R used ?r ?st st'"
      using transmit_ue_ok [of c ?st ?R sf used ue u s ?av f sf] ready step used' bound r ue u s a(2) yes av(2)
      by (auto simp: sched_step_def)
    have "schedule_ue c f sf st ue = Some st'"
      using True u(1) a(1) cce s av(1) yes st'(1) by (simp add: schedule_ue_def Let_def)
    with ue_step_inv [OF assms(1,3) r assms(2) step used(2) st'(2) order_refl] sv show ?thesis by auto
  qed
qed

text \<open>
  A loop over cells with a loop over UEs in it, as all schedulers have it: if serving one UE keeps the invariant, the
  whole of it does. The invariant says which UEs are not served yet; it holds for fewer of them too.
\<close>

lemma serve_ues:
  assumes "\<And>T st ue. I T st \<Longrightarrow> ue \<in> set (ue_configs e) \<Longrightarrow> served c ue \<subseteq> T \<Longrightarrow>
       \<exists>st'. step st ue = Some st' \<and> I (T - served c ue) st'"
    and "I T st" and "set ues \<subseteq> set (ue_configs e)" and "distinct (map uc_rnti ues)"
    and "(\<Union>ue \<in> set ues. served c ue) \<subseteq> T"
  shows "\<exists>st'. foldo step st ues = Some st' \<and> I (T - (\<Union>ue \<in> set ues. served c ue)) st'"
  using assms(2-)
proof (induction ues arbitrary: T st)
  case (Cons ue ues)
  obtain st1 where st1: "step st ue = Some st1" "I (T - served c ue) st1"
    using assms(1) [OF Cons.prems(1), of ue] Cons.prems(2,4) by auto
  have "(\<Union>ue \<in> set ues. served c ue) \<subseteq> T - served c ue"
  proof -
    have "uc_rnti ue \<noteq> uc_rnti x" if "x \<in> set ues" for x using Cons.prems(3) that by (auto simp: image_iff)
    then have "served c x \<inter> served c ue = {}" if "x \<in> set ues" for x using that by (simp add: served_def)
    moreover have "served c x \<subseteq> T" if "x \<in> set ues" for x using Cons.prems(4) that by (simp add: UN_subset_iff)
    ultimately show ?thesis by blast
  qed
  from Cons.IH [OF st1(2) _ _ this] Cons.prems(2,3) obtain st' where
    "foldo step st1 ues = Some st'" "I (T - served c ue - (\<Union>ue \<in> set ues. served c ue)) st'" by auto
  then show ?case using st1(1) by (simp add: Diff_eq Int_assoc)
qed simp

lemma serve_cells:
  assumes "\<And>T T' st. I T st \<Longrightarrow> T' \<subseteq> T \<Longrightarrow> I T' st"
    and "\<And>c T st ue. c \<in> set (cell_configs e) \<Longrightarrow> I T st \<Longrightarrow> ue \<in> set (ue_configs e) \<Longrightarrow>
       served c ue \<subseteq> T \<Longrightarrow> \<exists>st'. step c st ue = Some st' \<and> I (T - served c ue) st'"
    and "\<And>c T st. I T st \<Longrightarrow> cell st c = foldo (step c) st (ue_configs e)"
    and "cells_ready e" and "I UNIV st"
  shows "\<exists>st'. foldo cell st (cell_configs e) = Some st' \<and> I {} st'"
proof -
  have loop: "\<exists>st'. foldo cell st cs = Some st' \<and> I {} st'"
    if "I T st" "set cs \<subseteq> set (cell_configs e)" "distinct (map cc_cell_id cs)"
      "(\<Union>c \<in> set cs. cell_rntis c e) \<subseteq> T" for T st cs
    using that
  proof (induction cs arbitrary: T st)
    case Nil
    then show ?case using assms(1) by auto
  next
    case (Cons c cs)
    have ready: "cell_ready d e" if "d \<in> set (c # cs)" for d
      using Cons.prems(2) assms(4) that by (auto simp: cells_ready_def)
    have c: "c \<in> set (cell_configs e)" using Cons.prems(2) by simp
    have ues: "distinct (map uc_rnti (ue_configs e))"
      using ready [of c] by (simp add: cell_ready_def ue_view_consistent_def)
    have "cell_rntis c e \<subseteq> T" using Cons.prems(4) by auto
    then have all: "(\<Union>ue \<in> set (ue_configs e). served c ue) \<subseteq> T" by (simp only: cell_rntis_served)
    have "\<exists>st1. foldo (step c) st (ue_configs e) = Some st1 \<and>
        I (T - cell_rntis c e) st1"
      unfolding cell_rntis_served
      by (rule serve_ues [where I = I, OF _ Cons.prems(1) order_refl ues all]) (erule (2) assms(2) [OF c])
    then obtain st1 where "foldo (step c) st (ue_configs e) = Some st1" "I (T - cell_rntis c e) st1"
      by (elim exE conjE)
    then have st1: "cell st c = Some st1" "I (T - cell_rntis c e) st1"
      using assms(3) [OF Cons.prems(1)] by simp_all
    have "cell_rntis d e \<subseteq> T - cell_rntis c e" if d: "d \<in> set cs" for d
    proof -
      have "cc_cell_id d \<noteq> cc_cell_id c" using Cons.prems(3) d by (auto simp: image_iff)
      then have "cell_rntis d e \<inter> cell_rntis c e = {}" using cell_rntis_disjoint(1) [OF ready ready] d by simp
      moreover have "cell_rntis d e \<subseteq> T" using Cons.prems(4) d by (simp add: UN_subset_iff)
      ultimately show ?thesis by blast
    qed
    then have "(\<Union>d \<in> set cs. cell_rntis d e) \<subseteq> T - cell_rntis c e" by blast
    from Cons.IH [OF st1(2) _ _ this] Cons.prems(2,3) st1(1) show ?case by auto
  qed
  have "distinct (map cc_cell_id (cell_configs e))" using assms(4) by (simp add: cells_ready_def)
  then show ?thesis using loop [OF assms(5)] by simp
qed

section \<open>A round of one eNB\<close>

lemma sched_ok_new [wf_intros]: "sched_ok (new_enb_scheduling_info jk a)"
  by (simp add: sched_ok_def enb_sched_wf_new) (simp add: get_ue_scheduling_info_def new_enb_scheduling_info_def sm.find_empty)

text \<open>Outside subframes 0 and 5 the round starts with all elements of the control region free.\<close>

lemma start_round_ok:
  assumes "sched_ok sched" and "unat (cc_cell_id c) < MAX_NUM_CC" and "sf \<noteq> 0" and "sf \<noteq> 5"
  shows "\<exists>sched'. enb_start_new_scheduling_round sf c sched = Some sched' \<and>
     sched_fits c (cce_fields sched') {} sched' \<and> cce_used c sf sched' 0"
proof -
  let ?k = "unat (cc_cell_id c)"
  have wf: "enb_sched_wf sched" using assms(1) by (simp add: sched_ok_def)
  define sched' where "sched' = sched\<lparr>es_vrb_map := (es_vrb_map sched)[?k := replicate N_RBG_MAX 0],
      es_num_pdcch_symbols := (es_num_pdcch_symbols sched)[?k := 0],
      es_nCCE_rem := (es_nCCE_rem sched)[?k := ucast (get_nCCE_max 0 c sf)]\<rparr>"
  have run: "enb_start_new_scheduling_round sf c sched = Some sched'"
    using wf assms(2-4) by (simp add: enb_start_new_scheduling_round_def Let_def arr_simps sched'_def)
  have get: "get_ue_scheduling_info sched' = get_ue_scheduling_info sched"
    by (simp add: fun_eq_iff get_ue_scheduling_info_def sched'_def)
  have "enb_sched_wf sched'"
    using wf unfolding enb_sched_wf_def get by (simp add: sched'_def dim2_update)
  then have "sched_fits c (cce_fields sched') {} sched'"
    using assms(1) by (simp add: sched_fits_def sched_ok_def get)
  moreover have "cce_used c sf sched' 0"
  proof -
    have "sint (ucast m :: u32) = uint m" if "uint m < 2 ^ 16" "0 \<le> uint m" for m :: u16
      unfolding ucast_eq by (rule sint_of_small) (use order.trans [OF _ that(2), of "- (2 ^ 31)"] that(1) in simp_all)
    from this [of "get_nCCE_max 0 c sf"]
    have "sint (ucast (get_nCCE_max 0 c sf) :: u32) = uint (get_nCCE_max 0 c sf)"
      using unsigned_less [of "get_nCCE_max 0 c sf", where ?'a = int] by simp
    then show ?thesis
      using wf assms(2)
      by (simp add: cce_used_def sched'_def get_num_pdcch_symbols_def get_nCCE_rem_def cell_index arr_simps)
  qed
  ultimately show ?thesis using run by blast
qed

lemma cce_used_fields: "cce_fields e' = cce_fields e \<Longrightarrow> cce_used c sf e' = cce_used c sf e"
  by (simp add: fun_eq_iff cce_used_def cce_fields_def get_num_pdcch_symbols_def get_nCCE_rem_def)

text \<open>The first loop: every cell gets its control region and its UEs their groups.\<close>

lemma prepare_cell_ok:
  assumes "std_sort srt" and "cell_ready c e" and "sched_ok sched" and "sf \<noteq> 0" and "sf \<noteq> 5" and "untied c e"
  shows "\<exists>sched'. prepare_cell srt e f sf sched c = Some sched' \<and> sched_ready c (cell_rntis c e) sched' \<and>
     cce_used c sf sched' 0 \<and> confined (unat (cc_cell_id c)) (cell_rntis c e) sched sched'"
proof -
  have id: "unat (cc_cell_id c) < MAX_NUM_CC" using assms(2) by (simp add: cell_ready_def)
  obtain s1 where s1: "enb_start_new_scheduling_round sf c sched = Some s1"
    "sched_fits c (cce_fields s1) {} s1" "cce_used c sf s1 0"
    using start_round_ok [OF assms(3) id assms(4,5)] by blast
  obtain s2 where s2: "run_dlsch_scheduler_preprocessor srt c e f sf s1 = Some s2"
    "rbg_excl c (cell_rntis c e) s2" "sched_fits c (cce_fields s1) (cell_rntis c e) s2"
    using preprocessor_fits [OF assms(1,2) s1(2) assms(6)] by blast
  note same = sched_fitsD(2) [OF s2(3)]
  have "confined (unat (cc_cell_id c)) (cell_rntis c e) sched s2"
    using confined_trans [OF confined_start [OF s1(1)]] confined_preprocessor [OF s2(1)] cell_index [OF id] by simp
  then show ?thesis
    using s1(1,3) s2 cce_used_fields [OF same] by (auto simp: prepare_cell_def sched_ready_def same)
qed

lemma prepare_cells_untied:
  "foldo (prepare_cell srt e f sf) sched cs = Some sched' \<Longrightarrow> list_all (\<lambda>c. untied c e) cs"
  by (induction cs arbitrary: sched)
     (auto simp: prepare_cell_def Option.bind_eq_Some_conv dest: preprocessor_untied)

lemma prepare_cells_ok:
  assumes "std_sort srt" and "cells_ready e" and "sched_ok sched" and "sf \<noteq> 0" and "sf \<noteq> 5" and "cells_untied e"
  shows "\<exists>sched'. foldo (prepare_cell srt e f sf) sched (cell_configs e) = Some sched' \<and>
     cells_scheduled e sf 0 (set (cell_configs e)) sched'"
proof -
  have loop: "\<exists>sched'. foldo (prepare_cell srt e f sf) sched cs = Some sched' \<and>
      cells_scheduled e sf 0 (set (before @ cs)) sched'"
    if "cells_scheduled e sf 0 (set before) sched" "distinct (map cc_cell_id (before @ cs))"
      "set (before @ cs) \<subseteq> set (cell_configs e)" for before cs sched
    using that
  proof (induction cs arbitrary: before sched)
    case (Cons c cs)
    have ready: "cell_ready d e" if "d \<in> set (before @ c # cs)" for d
      using Cons.prems(3) assms(2) that by (auto simp: cells_ready_def)
    have ok: "sched_ok sched" using Cons.prems(1) by (simp add: cells_scheduled_def)
    obtain s1 where s1: "prepare_cell srt e f sf sched c = Some s1" "sched_ready c (cell_rntis c e) s1"
      "cce_used c sf s1 0" "confined (unat (cc_cell_id c)) (cell_rntis c e) sched s1"
      using prepare_cell_ok [OF assms(1) ready ok assms(4,5), of c f] assms(6) Cons.prems(3)
      by (auto simp: cells_untied_def list_all_iff)
    have ok1: "sched_ok s1" using s1(2) by (simp add: sched_ready_def sched_fits_def sched_ok_def)
    have "sched_ready d (cell_rntis d e) s1 \<and> (\<exists>u. cce_used d sf s1 u \<and> u \<le> 0)" if d: "d \<in> set before" for d
    proof -
      have "cc_cell_id d \<noteq> cc_cell_id c" using Cons.prems(2) d by (auto simp: image_iff)
      note dis = cell_rntis_disjoint [OF ready ready this]
      have id: "unat (cell_id16 d) \<noteq> unat (cc_cell_id c)"
        using dis(2) d cell_index [of c] ready [of c] by (simp add: cell_ready_def)
      obtain u where "sched_ready d (cell_rntis d e) sched" "cce_used d sf sched u" "u \<le> 0"
        using Cons.prems(1) d by (auto simp: cells_scheduled_def)
      then show ?thesis
        using sched_ready_other [OF _ s1(4) ok1 _ id] cce_used_other [OF _ s1(4) id] dis(1) d by auto
    qed
    then have "cells_scheduled e sf 0 (set (before @ [c])) s1"
      using s1(2,3) ok1 by (auto simp: cells_scheduled_def)
    from Cons.IH [OF this] Cons.prems(2,3) s1(1) show ?case by auto
  qed simp
  show ?thesis using loop [of "[]" sched "cell_configs e"] assms(2,3) by (simp add: cells_scheduled_def cells_ready_def)
qed

lemma schedule_agent_inv:
  assumes "std_sort srt" and "cells_ready e" and "sched_ok sched" and "sf \<noteq> 0" and "sf \<noteq> 5"
    and "cells_untied e" and "lv_aggregation vars \<le> 3"
  shows "\<exists>st. schedule_agent srt f sf e sched vars = Some st \<and> flex_inv e sf {} st"
proof -
  obtain s1 where s1: "foldo (prepare_cell srt e f sf) sched (cell_configs e) = Some s1"
    "cells_scheduled e sf 0 (set (cell_configs e)) s1"
    using prepare_cells_ok [OF assms(1-6)] by blast
  let ?st = "\<lparr>fl_enb = e, fl_sched = s1, fl_vars = vars, fl_data = []\<rparr>"
  have start: "flex_inv e sf UNIV ?st" using assms(2,7) s1(2) by (simp add: flex_inv_def)
  have cell: "schedule_cell f sf st c = foldo (schedule_ue c f sf) st (ue_configs e)" if "flex_inv e sf T st" for c T st
    using flex_inv_cells(4) [OF that] by (simp add: schedule_cell_def)
  have "\<exists>st. foldo (schedule_cell f sf) ?st (cell_configs e) = Some st \<and> flex_inv e sf {} st"
    by (rule serve_cells [where I = "flex_inv e sf" and step = "\<lambda>c. schedule_ue c f sf", OF flex_inv_fewer _ cell assms(2) start])
       (auto intro: schedule_ue_inv assms(2))
  then show ?thesis using s1(1) by (simp add: schedule_agent_def)
qed

lemma schedule_agent_untied: "schedule_agent srt f sf e sched vars = Some st \<Longrightarrow> cells_untied e"
  by (auto simp: schedule_agent_def cells_untied_def Option.bind_eq_Some_conv dest: prepare_cells_untied)

definition dl_bitmap :: "flex_dl_data \<Rightarrow> u32" where
  "dl_bitmap d = (case dd_dl_dci d of None \<Rightarrow> 0 | Some dci \<Rightarrow> dci_rb_bitmap dci)"

lemma data_disjoint:
  assumes "rbg_excl c R sched" and "data_fits c sched d" and "data_fits c sched d'" and "dd_rnti d \<noteq> dd_rnti d'"
    and "dd_rnti d \<in> R" and "dd_rnti d' \<in> R"
  shows "dl_bitmap d AND dl_bitmap d' = 0"
proof (rule bit_eqI)
  fix b
  obtain s where s: "get_ue_scheduling_info sched (dd_rnti d) = Some s"
    "bit (dl_bitmap d) b \<Longrightarrow> owns c s (unat (get_nb_rbg c) - 1 - b)"
    using assms(2) by (auto simp: data_fits_def dl_bitmap_def)
  obtain s' where s': "get_ue_scheduling_info sched (dd_rnti d') = Some s'"
    "bit (dl_bitmap d') b \<Longrightarrow> owns c s' (unat (get_nb_rbg c) - 1 - b)"
    using assms(3) by (auto simp: data_fits_def dl_bitmap_def)
  show "bit (dl_bitmap d AND dl_bitmap d') b = bit 0 b"
    using rbg_exclD(4) [OF assms(1,5,6,4) s(1) s'(1)] s(2) s'(2) by (auto simp: bit_and_iff)
qed

text \<open>
  What a message that is safe to execute looks like: one element per UE, for the cell the UE is configured in, and
  two elements of one cell name different resource blocks.
\<close>

definition exclusive_data :: "enb_rib_info \<Rightarrow> flex_dl_data list \<Rightarrow> bool" where
  "exclusive_data e data \<longleftrightarrow> distinct (map dd_rnti data) \<and>
     list_all (\<lambda>d. \<exists>c \<in> set (cell_configs e). dd_serv_cell_index d = cc_cell_id c \<and> dd_rnti d \<in> cell_rntis c e) data \<and>
     pairwise (\<lambda>d d'. dd_serv_cell_index d = dd_serv_cell_index d' \<longrightarrow> dl_bitmap d AND dl_bitmap d' = 0) (set data)"

lemma flex_inv_exclusive:
  assumes "flex_inv e sf T st" and "cells_ready e"
  shows "sched_ok (fl_sched st)" and "exclusive_data e (fl_data st)"
proof -
  note I = assms(1) [unfolded flex_inv_def]
  show "sched_ok (fl_sched st)" using I by (simp add: cells_scheduled_def)
  have "dl_bitmap d AND dl_bitmap d' = 0"
    if d: "d \<in> set (fl_data st)" "d' \<in> set (fl_data st)" "d \<noteq> d'" "dd_serv_cell_index d = dd_serv_cell_index d'" for d d'
  proof -
    have ne: "dd_rnti d \<noteq> dd_rnti d'" using d I by (auto simp: distinct_map dest: inj_onD)
    obtain c where c: "c \<in> set (cell_configs e)" "dd_rnti d \<in> cell_rntis c e" "data_fits c (fl_sched st) d"
      using I d(1) by blast
    obtain c' where c': "c' \<in> set (cell_configs e)" "dd_rnti d' \<in> cell_rntis c' e" "data_fits c' (fl_sched st) d'"
      using I d(2) by blast
    have "cc_cell_id c = cc_cell_id c'" using c(3) c'(3) d(4) by (simp add: data_fits_def)
    then have "c = c'" using assms(2) c(1) c'(1) by (auto simp: cells_ready_def distinct_map dest: inj_onD)
    moreover have "rbg_excl c (cell_rntis c e) (fl_sched st)"
      using I c(1) by (simp add: cells_scheduled_def sched_ready_def)
    ultimately show ?thesis using data_disjoint [OF _ c(3) _ ne c(2)] c' by blast
  qed
  moreover have "\<exists>c \<in> set (cell_configs e). dd_serv_cell_index d = cc_cell_id c \<and> dd_rnti d \<in> cell_rntis c e"
    if "d \<in> set (fl_data st)" for d
    using I that by (auto simp: data_fits_def)
  ultimately show "exclusive_data e (fl_data st)"
    using I by (auto simp: exclusive_data_def list_all_iff pairwise_def)
qed

text \<open>
  C2: outside subframes 0 and 5 a scheduling round of an eNB with its one or two cells, each configured once with
  parameters in range (\<open>cells_ready\<close>), has one way to fault, the sort of \<open>sort_UEs\<close>: it returns exactly when no two UEs of the
  eNB tie in the sort of one of its cells, whatever the agent reported within range, whatever earlier rounds left in the
  scheduling records and whatever the uninitialised locals held. When it returns, the data elements of the message it
  builds are for distinct UEs, each for the cell its UE is configured in, and the resource block bitmaps of two
  elements of the same cell are disjoint.
\<close>

theorem central_round_exclusive:
  assumes "std_sort srt" and "cells_ready e" and "sched_ok sched" and "sf \<noteq> 0" and "sf \<noteq> 5" and "lv_aggregation vars \<le> 3"
  shows "(schedule_agent srt f sf e sched vars = None \<longleftrightarrow> \<not> cells_untied e) \<and>
     (\<forall>st. schedule_agent srt f sf e sched vars = Some st \<longrightarrow> sched_ok (fl_sched st) \<and> exclusive_data e (fl_data st))"
proof (cases "cells_untied e")
  case True
  then show ?thesis
    using schedule_agent_inv [OF assms(1-5) _ assms(6), of f] flex_inv_exclusive [OF _ assms(2)] by auto
next
  case False
  then show ?thesis using schedule_agent_untied [of srt f sf e sched vars] by (cases "schedule_agent srt f sf e sched vars") auto
qed

text \<open>Two UEs with 100 and 300 bytes queued in a cell of 25 resource blocks.\<close>

definition cell_enb :: enb_rib_info where
  "cell_enb = loaded_enb\<lparr>en_current_frame := 3, en_current_subframe := 1,
     en_eNB_config := \<lparr>er_header = no_header, er_eNB_id = 1, er_cell_config = [sample_cell]\<rparr>\<rparr>"

lemma cell_enb_ready: "cell_ready sample_cell cell_enb"
  using loaded_enb_ready
  by (simp add: cell_ready_def enb_wf_def ue_view_consistent_def cell_ues_def get_ue_mac_info_def cell_enb_def)

definition start_vars :: "junk \<Rightarrow> int \<Rightarrow> sched_vars" where
  "start_vars jk acc = \<lparr>lv_aggregation = 1, lv_mcs = jk_mcs jk, lv_ce_flags = 0, lv_tpc_accumulated = acc\<rparr>"

lemma collect_stats_cong:
  assumes "get_ue_mac_info e' = get_ue_mac_info e"
  shows "collect_stats c e' i ues = collect_stats c e i ues"
proof -
  have "stats_of_ue c e' i ue = stats_of_ue c e i ue" for i ue by (simp only: stats_of_ue_def assms)
  then show ?thesis by (induction ues arbitrary: i) simp_all
qed

lemma cell_enb_untied: "cells_untied cell_enb"
proof -
  have "collect_stats sample_cell cell_enb 0 (ue_configs loaded_enb) = Some [loaded_stats 0 100, loaded_stats 1 300]"
    using collect_stats_cong [of cell_enb loaded_enb] loaded_enb_stats
    by (simp add: fun_eq_iff get_ue_mac_info_def cell_enb_def)
  moreover have "ue_configs cell_enb = ue_configs loaded_enb" "cell_configs cell_enb = [sample_cell]"
    by (simp_all add: cell_enb_def)
  ultimately show ?thesis using loaded_stats_strict by (simp add: cells_untied_def untied_def)
qed

lemma cell_enb_cells: "cells_ready cell_enb"
  using cell_enb_ready by (simp add: cells_ready_def cell_enb_def)

text \<open>The same with a second cell, in which the second UE is configured.\<close>

definition second_cell :: flex_cell_config where
  "second_cell = sample_cell\<lparr>cc_cell_id := 1\<rparr>"

definition two_cell_enb :: enb_rib_info where
  "two_cell_enb = cell_enb
     \<lparr>en_ue_config := \<lparr>ur_header = no_header,
        ur_ue_config = [sample_ue_config 7, (sample_ue_config 9)\<lparr>uc_pcell_carrier_index := 1\<rparr>]\<rparr>,
      en_eNB_config := \<lparr>er_header = no_header, er_eNB_id = 1, er_cell_config = [sample_cell, second_cell]\<rparr>\<rparr>"

lemma two_cells_ready: "cells_ready two_cell_enb"
proof -
  have find: "sm_find (en_ue_mac_info two_cell_enb) = [7 \<mapsto> sample_mac 100, 9 \<mapsto> sample_mac 300]"
    by (simp add: two_cell_enb_def cell_enb_def loaded_enb_def sm_find_def fun_eq_iff)
  have "enb_wf two_cell_enb"
    using cell_enb_ready by (simp add: cell_ready_def enb_wf_def get_ue_mac_info_def two_cell_enb_def)
  moreover have "ue_view_consistent two_cell_enb"
    unfolding ue_view_consistent_def find by (simp add: two_cell_enb_def sample_ue_config_def)
  moreover have "csi_mcs second_cell (um_mac_stats_report (sample_mac bytes)) 0 = Some 0" for bytes
    by (simp add: csi_mcs_def find_csi_def second_cell_def sample_cell_def sample_mac_def)
  ultimately show ?thesis
    using sample_mac_mcs find
    by (simp add: cells_ready_def cell_ready_def two_cell_enb_def cell_ues_def get_ue_mac_info_def)
       (simp add: second_cell_def sample_cell_def sample_ue_config_def)
qed

text \<open>In each cell the UE of the other one has a key of zeros.\<close>

lemma two_cells_stats:
  "collect_stats sample_cell two_cell_enb 0 (ue_configs two_cell_enb) = Some [loaded_stats 0 100, new_ue_stats\<lparr>ue_id := 1\<rparr>]"
  "collect_stats second_cell two_cell_enb 0 (ue_configs two_cell_enb) =
     Some [new_ue_stats\<lparr>ue_id := 0\<rparr>, new_ue_stats\<lparr>ue_id := 1, total_bytes_in_buffers := 300\<rparr>]"
proof -
  have find: "get_ue_mac_info two_cell_enb 7 = Some (sample_mac 100)" "get_ue_mac_info two_cell_enb 9 = Some (sample_mac 300)"
    by (simp_all add: get_ue_mac_info_def sm_find_def two_cell_enb_def cell_enb_def loaded_enb_def)
  have harq: "has_available_harq (sample_mac bytes) 1 = Some True" "get_next_available_harq (sample_mac bytes) 1 = Some 0"
    "get_harq_stats (sample_mac bytes) 1 0 = Some 0" for bytes
    by (simp_all add: has_available_harq_def get_next_available_harq_def get_harq_stats_def sample_mac_def
        new_ue_mac_rib_info_def arr_simps upt_conv_Cons)
  show "collect_stats sample_cell two_cell_enb 0 (ue_configs two_cell_enb) = Some [loaded_stats 0 100, new_ue_stats\<lparr>ue_id := 1\<rparr>]"
    using find sample_mac_value
    by (simp add: two_cell_enb_def stats_of_ue_def sample_cell_def sample_ue_config_def find_csi_def new_ue_stats_def loaded_stats_def)
       (simp add: sample_mac_def add_rlc_stats_def tx_queue_size_def to_i32_id)
  show "collect_stats second_cell two_cell_enb 0 (ue_configs two_cell_enb) =
     Some [new_ue_stats\<lparr>ue_id := 0\<rparr>, new_ue_stats\<lparr>ue_id := 1, total_bytes_in_buffers := 300\<rparr>]"
    using find harq
    by (simp add: two_cell_enb_def stats_of_ue_def second_cell_def sample_cell_def sample_ue_config_def find_csi_def new_ue_stats_def)
       (simp add: sample_mac_def add_rlc_stats_def tx_queue_size_def to_i32_id)
qed

lemma two_cells_untied: "cells_untied two_cell_enb"
proof -
  have "cell_configs two_cell_enb = [sample_cell, second_cell]" by (simp add: two_cell_enb_def)
  then show ?thesis
    by (simp add: cells_untied_def untied_def two_cells_stats)
       (simp add: strict_on_def compare_stats_def loaded_stats_def new_ue_stats_def)
qed

lemma two_cells_rntis:
  "cell_configs two_cell_enb = [sample_cell, second_cell]" "cell_rntis sample_cell two_cell_enb = {7}"
  "cell_rntis second_cell two_cell_enb = {9}" "cc_cell_id sample_cell = 0" "cc_cell_id second_cell = 1"
  by (simp_all add: two_cell_enb_def cell_rntis_def cell_ues_def sample_cell_def second_cell_def sample_ue_config_def)

lemma central_round_witness:
  "\<exists>st. schedule_agent insertion_sort 3 1 two_cell_enb (new_enb_scheduling_info zero_junk 1) (start_vars zero_junk 0) = Some st \<and>
     distinct (map dd_rnti (fl_data st)) \<and>
     (\<lambda>d. (dd_rnti d, dd_serv_cell_index d)) ` set (fl_data st) \<subseteq> {(7, 0), (9, 1)}"
proof -
  note claim = central_round_exclusive [OF ins.std_sort_axioms two_cells_ready sched_ok_new [of zero_junk 1], of 1
      "start_vars zero_junk 0" 3]
  obtain st where "schedule_agent insertion_sort 3 1 two_cell_enb (new_enb_scheduling_info zero_junk 1)
      (start_vars zero_junk 0) = Some st"
    using claim two_cells_untied by (auto simp: start_vars_def)
  then show ?thesis
    using claim two_cells_rntis by (auto simp: start_vars_def exclusive_data_def list_all_iff)
qed

section \<open>A run of the central scheduler\<close>

definition rib_ready :: "rib \<Rightarrow> bool" where
  "rib_ready r \<longleftrightarrow> sm_inv (rb_eNB_configs r) \<and> (\<forall>a e. get_agent r a = Some e \<longrightarrow> cells_ready e)"

definition infos_ok :: "(int \<times> enb_scheduling_info) list \<Rightarrow> bool" where
  "infos_ok infos \<longleftrightarrow> sm_inv infos \<and> (\<forall>a s. sm_find infos a = Some s \<longrightarrow> sched_ok s)"

lemma ensure_info_ok:
  assumes "infos_ok infos"
  shows "infos_ok (ensure_scheduling_info jk a infos)"
    and "\<exists>s. sm_find (ensure_scheduling_info jk a infos) a = Some s \<and> sched_ok s"
  using assms sched_ok_new [of jk a]
  by (auto simp: infos_ok_def ensure_scheduling_info_def sm.inv_insert sm.find_insert split: option.splits if_splits)

lemma infos_ok_put: "infos_ok infos \<Longrightarrow> sched_ok s \<Longrightarrow> infos_ok (sm_put a s infos)"
  by (auto simp: infos_ok_def sm.inv_put sm.find_put split: if_splits)

lemma rib_ready_put:
  assumes "rib_ready (ru_rib u)" and "cells_ready e" and "a \<in> set (get_available_agents (ru_rib u))"
  shows "rib_ready (ru_rib (put_agent a e u))"
    and "get_available_agents (ru_rib (put_agent a e u)) = get_available_agents (ru_rib u)"
  using assms
  by (auto simp: rib_ready_def put_agent_def get_agent_def get_available_agents_def sm.inv_put sm.find_put sm.set_keys
      intro: sm.keys_put split: if_splits)

definition run_inv :: "int list \<Rightarrow> flexible_scheduler \<times> sched_vars \<times> 'q updater \<Rightarrow> bool" where
  "run_inv agents = (\<lambda>(app, vars, u).
     rib_ready (ru_rib u) \<and> get_available_agents (ru_rib u) = agents \<and>
     infos_ok (fs_scheduling_info app) \<and> lv_aggregation vars \<le> 3)"

text \<open>
  Whether the run schedules an agent, and the condition that the sort of its UEs is defined if so. Neither depends on
  what the run does for other agents.
\<close>

definition agent_due :: "junk \<Rightarrow> (int \<times> enb_scheduling_info) list \<Rightarrow> int \<Rightarrow> enb_rib_info \<Rightarrow> bool" where
  "agent_due jk infos a e \<longleftrightarrow>
     (let sched = (case sm_find infos a of None \<Rightarrow> new_enb_scheduling_info jk a | Some s \<Rightarrow> s);
          (tf, tsf) = target_time 0 (en_current_frame e) (en_current_subframe e)
      in needs_scheduling sched (en_current_frame e) (en_current_subframe e) \<and> tsf \<noteq> 0 \<and> tsf \<noteq> 5)"

definition agent_untied :: "junk \<Rightarrow> (int \<times> enb_scheduling_info) list \<Rightarrow> rib \<Rightarrow> int \<Rightarrow> bool" where
  "agent_untied jk infos r a \<longleftrightarrow>
     (case get_agent r a of None \<Rightarrow> True | Some e \<Rightarrow> agent_due jk infos a e \<longrightarrow> cells_untied e)"

definition due_untied :: "junk \<Rightarrow> (int \<times> enb_scheduling_info) list \<Rightarrow> rib \<Rightarrow> bool" where
  "due_untied jk infos r \<longleftrightarrow> list_all (agent_untied jk infos r) (get_available_agents r)"

lemma ensured_info:
  assumes "infos_ok infos"
  shows "sm_find (ensure_scheduling_info jk a infos) a =
     Some (case sm_find infos a of None \<Rightarrow> new_enb_scheduling_info jk a | Some s \<Rightarrow> s)"
    and "b \<noteq> a \<Longrightarrow> sm_find (ensure_scheduling_info jk a infos) b = sm_find infos b"
  using assms by (auto simp: infos_ok_def ensure_scheduling_info_def sm.find_insert split: option.splits)

lemma agent_due_ensured:
  assumes "infos_ok infos" and "sm_find (ensure_scheduling_info jk a infos) a = Some s"
    and "target_time 0 (en_current_frame e) (en_current_subframe e) = (tf, tsf)"
  shows "agent_due jk infos a e \<longleftrightarrow> needs_scheduling s (en_current_frame e) (en_current_subframe e) \<and> tsf \<noteq> 0 \<and> tsf \<noteq> 5"
  using ensured_info(1) [OF assms(1), of jk a] assms(2,3) by (simp add: agent_due_def)

lemma central_agent_untied:
  assumes "central_agent srt jk X (app, vars, u) a = Some st'" and "infos_ok (fs_scheduling_info app)"
  shows "agent_untied jk (fs_scheduling_info app) (ru_rib u) a"
proof -
  obtain e where e: "get_agent (ru_rib u) a = Some e"
    using assms(1) by (auto simp: central_agent_def Option.bind_eq_Some_conv)
  obtain s where s: "sm_find (ensure_scheduling_info jk a (fs_scheduling_info app)) a = Some s"
    using ensure_info_ok(2) [OF assms(2)] by blast
  obtain tf tsf where t: "target_time 0 (en_current_frame e) (en_current_subframe e) = (tf, tsf)" by fastforce
  have "agent_due jk (fs_scheduling_info app) a e \<longrightarrow> cells_untied e"
    using assms(1) e s t agent_due_ensured [OF assms(2) s t]
    by (auto simp: central_agent_def Let_def Option.bind_eq_Some_conv dest: schedule_agent_untied)
  then show ?thesis by (simp add: agent_untied_def e)
qed

lemma central_agent_local:
  assumes "central_agent srt jk X (app, vars, u) a = Some (app', vars', u')" and "run_inv agents (app, vars, u)" and "b \<noteq> a"
  shows "agent_untied jk (fs_scheduling_info app') (ru_rib u') b = agent_untied jk (fs_scheduling_info app) (ru_rib u) b"
proof -
  have infos: "infos_ok (fs_scheduling_info app)" and inv: "sm_inv (rb_eNB_configs (ru_rib u))"
    using assms(2) by (simp_all add: run_inv_def rib_ready_def)
  have inv': "sm_inv (ensure_scheduling_info jk a (fs_scheduling_info app))"
    using ensure_info_ok(1) [OF infos] by (simp add: infos_ok_def)
  have "sm_find (fs_scheduling_info app') b = sm_find (fs_scheduling_info app) b \<and> get_agent (ru_rib u') b = get_agent (ru_rib u) b"
    using assms(1,3) inv inv' ensured_info(2) [OF infos assms(3), of jk]
    by (auto simp: central_agent_def Let_def case_prod_beta Option.bind_eq_Some_conv put_agent_def get_agent_def sm.find_put
        dest!: send_to_frame(1) split: if_splits)
  then show ?thesis by (simp add: agent_untied_def agent_due_def split: option.split)
qed

lemma central_agent_inv:
  assumes "std_sort srt" and "\<And>m. sendable X m" and "run_inv agents st" and "a \<in> set agents"
    and "agent_untied jk (fs_scheduling_info (fst st)) (ru_rib (snd (snd st))) a"
  shows "\<exists>st'. central_agent srt jk X st a = Some st' \<and> run_inv agents st'"
proof -
  obtain app vars u where st: "st = (app, vars, u)" by (cases st)
  have rib: "rib_ready (ru_rib u)" and agents: "get_available_agents (ru_rib u) = agents"
    and infos: "infos_ok (fs_scheduling_info app)" and agg: "lv_aggregation vars \<le> 3"
    using assms(3) by (simp_all add: run_inv_def st)
  obtain e where e: "get_agent (ru_rib u) a = Some e"
    using assms(4) rib by (auto simp flip: agents simp: get_available_agents_def get_agent_def sm.set_keys rib_ready_def)
  then have c: "cells_ready e" using rib by (auto simp: rib_ready_def)
  let ?infos = "ensure_scheduling_info jk a (fs_scheduling_info app)"
  obtain s where s: "sm_find ?infos a = Some s" "sched_ok s" using ensure_info_ok(2) [OF infos] by blast
  obtain tf tsf where t: "target_time 0 (en_current_frame e) (en_current_subframe e) = (tf, tsf)" by fastforce
  show ?thesis
  proof (cases "\<not> needs_scheduling s (en_current_frame e) (en_current_subframe e) \<or> tsf = 0 \<or> tsf = 5")
    case True
    then have "central_agent srt jk X st a = Some (app\<lparr>fs_scheduling_info := ?infos\<rparr>, vars, u)"
      using e s t by (simp add: central_agent_def st Let_def)
    then show ?thesis using rib agents agg ensure_info_ok(1) [OF infos] by (simp add: run_inv_def)
  next
    case False
    have "cells_untied e"
      using assms(5) False agent_due_ensured [OF infos s(1) t] by (simp add: st agent_untied_def e)
    then obtain r where r: "schedule_agent srt tf tsf e s vars = Some r"
      "flex_inv e tsf {} r"
      using False schedule_agent_inv [OF assms(1) c s(2) _ _ _ agg] by blast
    have ready: "cells_ready (fl_enb r)" using r(2) by (simp add: flex_inv_def)
    have ok: "sched_ok (set_last_checked f sf (fl_sched r))" for f sf
      using flex_inv_exclusive(1) [OF r(2) c]
      by (simp add: sched_ok_def enb_sched_wf_def get_ue_scheduling_info_def set_last_checked_def)
    let ?app = "app\<lparr>fs_scheduling_info := sm_put a (set_last_checked (en_current_frame e) (en_current_subframe e) (fl_sched r)) ?infos\<rparr>"
    let ?u = "put_agent a (fl_enb r) u"
    obtain u1 where u1: "send_to X (dl_mac_config_out tf tsf (fl_data r)) a ?u = Some u1"
      using send_to_total [OF assms(2)] by blast
    obtain u' where u': "(if fl_data r \<noteq> [] then send_to X (dl_mac_config_out tf tsf (fl_data r)) a ?u else Some ?u) = Some u'"
      "ru_rib u' = ru_rib ?u"
      using u1 send_to_frame(1) [OF u1] by (cases "fl_data r = []") auto
    have "central_agent srt jk X st a = Some (?app, fl_vars r, u')"
      using False e s t r(1) u'(1) by (simp add: central_agent_def st Let_def)
    moreover have "run_inv agents (?app, fl_vars r, u')"
      using rib_ready_put [OF rib ready] assms(4) agents infos_ok_put [OF ensure_info_ok(1) [OF infos] ok] r(2) u'(2)
      by (simp add: run_inv_def flex_inv_def)
    ultimately show ?thesis by blast
  qed
qed

lemma central_agents_fault:
  fixes st :: "flexible_scheduler \<times> sched_vars \<times> 'q updater"
  assumes "std_sort srt" and "\<And>m. sendable X m" and "run_inv agents st" and "distinct agents"
  shows "foldo (central_agent srt jk X) st agents = None \<longleftrightarrow>
     \<not> list_all (agent_untied jk (fs_scheduling_info (fst st)) (ru_rib (snd (snd st)))) agents"
proof (rule foldo_local [where I = "run_inv agents" and
      P = "\<lambda>st. agent_untied jk (fs_scheduling_info (fst st)) (ru_rib (snd (snd st)))", OF assms(3,4)])
  fix s :: "flexible_scheduler \<times> sched_vars \<times> 'q updater" and a assume a: "a \<in> set agents" and I: "run_inv agents s"
  obtain app vars u where s: "s = (app, vars, u)" by (cases s)
  have infos: "infos_ok (fs_scheduling_info app)" using I by (simp add: run_inv_def s)
  let ?untied = "agent_untied jk (fs_scheduling_info (fst s)) (ru_rib (snd (snd s))) a"
  show fault: "central_agent srt jk X s a = None \<longleftrightarrow> \<not> ?untied"
    using central_agent_inv [OF assms(1,2) I a, of jk] central_agent_untied [OF _ infos, of srt jk X vars u a]
    by (cases "central_agent srt jk X s a") (auto simp: s)
  fix s' assume run: "central_agent srt jk X s a = Some s'"
  then have ?untied using fault by simp
  from central_agent_inv [OF assms(1,2) I a this] run have "run_inv agents s'" by simp
  moreover obtain app' vars' u' where s': "s' = (app', vars', u')" by (cases s')
  ultimately show "run_inv agents s' \<and> (\<forall>b. b \<noteq> a \<longrightarrow>
      agent_untied jk (fs_scheduling_info (fst s')) (ru_rib (snd (snd s'))) b =
      agent_untied jk (fs_scheduling_info (fst s)) (ru_rib (snd (snd s))) b)"
    using central_agent_local [OF run [unfolded s s'] I [unfolded s]] by (simp add: s s')
qed

lemma central_run_inv:
  assumes "std_sort srt" and "\<And>m. sendable X m" and "run_inv agents st" and "distinct agents"
    and "foldo (central_agent srt jk X) st agents = Some st'"
  shows "run_inv agents st'"
  using assms(5,3)
proof (rule foldo_invariant [where I = "run_inv agents"])
  fix s a s' assume "a \<in> set agents" "run_inv agents s" "central_agent srt jk X s a = Some s'"
  moreover obtain app vars u where "s = (app, vars, u)" by (cases s)
  ultimately show "run_inv agents s'"
    using central_agent_inv [OF assms(1,2), of agents s a jk] central_agent_untied [of srt jk X app vars u a s']
    by (auto simp: run_inv_def)
qed

lemma run_inv_start:
  "rib_ready (ru_rib u) \<Longrightarrow> infos_ok (fs_scheduling_info app) \<Longrightarrow>
   run_inv (get_available_agents (ru_rib u)) (app, start_vars jk acc, u) \<and> distinct (get_available_agents (ru_rib u))"
  by (simp add: run_inv_def start_vars_def rib_ready_def get_available_agents_def sm_inv_def sm_keys_def strict_sorted_iff)

lemma central_run_fault:
  assumes "std_sort srt" and "\<And>m. sendable X m" and "rib_ready (ru_rib u)" and "infos_ok (fs_scheduling_info app)"
  shows "run_central_scheduler srt jk X (app, u) = None \<longleftrightarrow> \<not> due_untied jk (fs_scheduling_info app) (ru_rib u)"
  using central_agents_fault [OF assms(1,2), of "get_available_agents (ru_rib u)" "(app, start_vars jk (fs_tpc_accumulated app), u)" jk]
    run_inv_start [OF assms(3,4), of jk "fs_tpc_accumulated app"]
  by (auto simp: run_central_scheduler_def Let_def start_vars_def due_untied_def)

text \<open>
  C12: a run of the central scheduler over all agents, each with its one or two cells and parameters in range
  (\<open>rib_ready\<close>), in any subframe, has one way to fault: it returns exactly when no UEs tie in the sorts of the agents
  it schedules in this run (\<open>due_untied\<close>). When it returns, it keeps what it relies on: the RIB stays ready, with the
  same agents, and the scheduling records stay usable. So it can be run once per period for ever, as long as the
  RIB updater keeps the RIB ready and no UEs tie.
\<close>

theorem central_run_safe:
  assumes "std_sort srt" and "\<And>m. sendable X m" and "rib_ready (ru_rib u)" and "infos_ok (fs_scheduling_info app)"
  shows "(run_central_scheduler srt jk X (app, u) = None \<longleftrightarrow> \<not> due_untied jk (fs_scheduling_info app) (ru_rib u)) \<and>
     (\<forall>app' u'. run_central_scheduler srt jk X (app, u) = Some (app', u') \<longrightarrow>
        rib_ready (ru_rib u') \<and> get_available_agents (ru_rib u') = get_available_agents (ru_rib u) \<and>
        infos_ok (fs_scheduling_info app'))"
  using central_run_fault [OF assms] run_inv_start [OF assms(3,4), of jk "fs_tpc_accumulated app"]
    central_run_inv [OF assms(1,2), of "get_available_agents (ru_rib u)" "(app, start_vars jk (fs_tpc_accumulated app), u)" jk]
  by (auto simp: run_central_scheduler_def Let_def run_inv_def start_vars_def Option.bind_eq_Some_conv)

definition cell_updater :: "tagged_message list updater" where
  "cell_updater = \<lparr>ru_rib = \<lparr>rb_eNB_configs = [(1, cell_enb)], rb_pending_agents = {}\<rparr>, ru_net = new_network []\<rparr>"

lemma central_run_witness:
  "\<exists>app' u'. run_central_scheduler insertion_sort zero_junk list_ext (new_flexible_scheduler, cell_updater) = Some (app', u') \<and>
     get_available_agents (ru_rib u') = [1]"
proof -
  have "sendable list_ext m" for m by (simp add: sendable_def list_ext_def split: flexran_body.split)
  moreover have "rib_ready (ru_rib cell_updater)"
    using cell_enb_cells
    by (auto simp: rib_ready_def cell_updater_def sm_inv_def get_agent_def sm_find_def split: if_splits)
  moreover have "infos_ok (fs_scheduling_info new_flexible_scheduler)"
    by (simp add: infos_ok_def new_flexible_scheduler_def sm.inv_empty sm.find_empty)
  moreover have "get_available_agents (ru_rib cell_updater) = [1]"
    by (simp add: get_available_agents_def cell_updater_def sm_keys_def)
  moreover have "due_untied zero_junk (fs_scheduling_info new_flexible_scheduler) (ru_rib cell_updater)"
    using cell_enb_untied
    by (simp add: due_untied_def agent_untied_def get_available_agents_def cell_updater_def sm_keys_def get_agent_def sm_find_def)
  ultimately show ?thesis
    using central_run_safe [OF ins.std_sort_axioms, of list_ext cell_updater new_flexible_scheduler zero_junk]
    by (cases "run_central_scheduler insertion_sort zero_junk list_ext (new_flexible_scheduler, cell_updater)") auto
qed

end
