(* ===== verification/RlcRequests.thy ===== *)
theory RlcRequests
  imports FlexRound
begin

text \<open>
  The bytes the central scheduler requests from the logical channels of a UE, and the flags it sends with
  them: no byte of a queue is lost or counted twice, one channel always fits, a second one need not.
\<close>

section \<open>Conservation\<close>

text \<open>The bytes requested: both transport blocks of a PDU carry the same size, the first counts.\<close>

definition requested :: "flex_rlc_pdu list \<Rightarrow> nat" where
  "requested pdus = sum_list (map (\<lambda>pdu. unat (tb_size (hd pdu))) pdus)"

definition queued :: "flex_rlc_bsr list \<Rightarrow> nat" where
  "queued bs = sum_list (map (\<lambda>b. unat (tx_queue_size b)) bs)"

lemma request_channel_bytes:
  assumes "request_channel tbs ta q b = (q', b')"
  shows "requested (rq_pdus q') + unat (tx_queue_size b') = requested (rq_pdus q) + unat (tx_queue_size b)"
    and "rb_lc_id b' = rb_lc_id b"
proof -
  have "unat (min room x) + unat (x - min room x) = unat x" for room x :: u32
    by (simp add: unat_sub min_def word_le_nat_alt)
  then show "requested (rq_pdus q') + unat (tx_queue_size b') = requested (rq_pdus q) + unat (tx_queue_size b)"
    and "rb_lc_id b' = rb_lc_id b"
    using assms
    by (auto simp: request_channel_def Let_def requested_def tx_queue_size_def get_u32_def split: if_splits)
qed

text \<open>
  C36: the requests to the logical channels of a UE conserve bytes: for every list of reports the bytes
  requested and the bytes left in the reports add up to the bytes that were reported, and the reports
  stay those of the same channels, in order.
\<close>

theorem rlc_bytes_conserved:
  "\<exists>q bs'. request_channels tbs ta no_request bs = (q, bs') \<and> map rb_lc_id bs' = map rb_lc_id bs \<and>
     requested (rq_pdus q) + queued bs' = queued bs"
proof -
  have "\<exists>q' bs'. request_channels tbs ta q bs = (q', bs') \<and> map rb_lc_id bs' = map rb_lc_id bs \<and>
     requested (rq_pdus q') + queued bs' = requested (rq_pdus q) + queued bs" for q
  proof (induction bs arbitrary: q)
    case (Cons b bs)
    obtain q1 b1 where 1: "request_channel tbs ta q b = (q1, b1)" by fastforce
    obtain q2 bs2 where "request_channels tbs ta q1 bs = (q2, bs2)" "map rb_lc_id bs2 = map rb_lc_id bs"
      "requested (rq_pdus q2) + queued bs2 = requested (rq_pdus q1) + queued bs"
      using Cons.IH [of q1] by blast
    then show ?case using 1 request_channel_bytes [OF 1] by (simp add: queued_def)
  qed simp
  from this [of no_request] show ?thesis by (simp add: no_request_def requested_def)
qed

lemma rlc_conserved_witness:
  "\<exists>q bs'. request_channels 200 2 no_request
       [\<lparr>rb_lc_id = 1, rb_tx_queue_size = Some 300, rb_tx_queue_hol_delay = None\<rparr>,
        \<lparr>rb_lc_id = 3, rb_tx_queue_size = Some 40, rb_tx_queue_hol_delay = None\<rparr>] = (q, bs') \<and>
     requested (rq_pdus q) + queued bs' = 340"
  using rlc_bytes_conserved [of 200 2
      "[\<lparr>rb_lc_id = 1, rb_tx_queue_size = Some 300, rb_tx_queue_hol_delay = None\<rparr>,
        \<lparr>rb_lc_id = 3, rb_tx_queue_size = Some 40, rb_tx_queue_hol_delay = None\<rparr>]"]
  by (auto simp: queued_def tx_queue_size_def get_u32_def)

section \<open>One channel fits\<close>

lemma rlc_room_value:
  assumes "unat ta + unat h + unat sdu \<le> unat tbs"
  shows "unat (rlc_room tbs ta h sdu) = unat tbs - unat ta - unat h - unat sdu"
proof -
  have small: "unat (ucast ta :: u32) = unat ta" "unat (ucast h :: u32) = unat h" "unat (ucast sdu :: u32) = unat sdu"
    by (simp_all add: unsigned_ucast_eq take_bit_nat_eq_self order.strict_trans [OF unsigned_less])
  have 1: "unat (tbs - ucast ta) = unat tbs - unat ta" using assms small by (simp add: unat_sub word_le_nat_alt)
  have 2: "unat (tbs - ucast ta - ucast h) = unat tbs - unat ta - unat h"
    using assms small 1 by (simp add: unat_sub word_le_nat_alt)
  show ?thesis
    unfolding rlc_room_def using assms small 2 by (simp add: unat_sub word_le_nat_alt)
qed

text \<open>The first channel, before anything is requested.\<close>

lemma first_request:
  assumes "unat ta + 3 < unat tbs" and "unat tbs < 2 ^ 16" and "0 < unat (tx_queue_size b)"
    and "n = min (unat tbs - unat ta - 3) (unat (tx_queue_size b))"
  shows "\<exists>q b'. request_channel tbs ta no_request b = (q, b') \<and>
     rq_header_len q = (if n < 128 then 2 else 3) \<and> rq_header_len_last q = (if n < 128 then 2 else 3) \<and>
     unat (rq_sdu_length_total q) = n \<and> requested (rq_pdus q) = n"
proof -
  let ?room = "rlc_room tbs ta 3 0"
  have room: "unat ?room = unat tbs - unat ta - 3" using rlc_room_value [of ta 3 0 tbs] assms(1) by simp
  define d where "d = min ?room (tx_queue_size b)"
  have d: "unat d = n" using room assms(4) by (simp add: d_def min_def word_le_nat_alt)
  have pos: "?room > 0" "tx_queue_size b > 0" using room assms(1,3) by (simp_all add: word_less_nat_alt)
  have "n < 2 ^ 16" using assms(2,4) by simp
  then have sdu: "unat (ucast d :: u16) = n" by (simp add: unsigned_ucast_eq take_bit_nat_eq_self d)
  have small: "d < 128 \<longleftrightarrow> n < 128" by (simp add: word_less_nat_alt d)
  obtain q b' where q: "request_channel tbs ta no_request b = (q, b')" by fastforce
  then have "q = \<lparr>rq_header_len = (if n < 128 then 2 else 3), rq_header_len_last = (if n < 128 then 2 else 3),
      rq_sdu_length_total = ucast d,
      rq_pdus = [[\<lparr>tb_logical_channel_id = rb_lc_id b, tb_size = d\<rparr>, \<lparr>tb_logical_channel_id = rb_lc_id b, tb_size = d\<rparr>]]\<rparr>"
    using pos small by (cases "n < 128") (auto simp: request_channel_def no_request_def Let_def simp flip: d_def)
  then show ?thesis using q sdu d by (simp add: requested_def)
qed

text \<open>
  C37: with a single logical channel and a transport block of more than three bytes beside the control elements,
  the bytes requested, the header and the control elements fit into the transport block.
\<close>

theorem one_channel_fits:
  assumes "unat ta + 3 < unat tbs" and "unat tbs < 2 ^ 16"
  shows "\<exists>q b'. request_channels tbs ta no_request [b] = (q, [b']) \<and>
     unat (rq_sdu_length_total q) + unat (final_header_len q) + unat ta \<le> unat tbs"
proof (cases "0 < unat (tx_queue_size b)")
  case True
  let ?n = "min (unat tbs - unat ta - 3) (unat (tx_queue_size b))"
  obtain q b' where q: "request_channel tbs ta no_request b = (q, b')"
    "rq_header_len q = (if ?n < 128 then 2 else 3)" "rq_header_len_last q = (if ?n < 128 then 2 else 3)"
    "unat (rq_sdu_length_total q) = ?n"
    using first_request [OF assms True refl] by blast
  have "final_header_len q = 1" using q(2,3) by (simp add: final_header_len_def)
  then show ?thesis using q assms(1) by simp
next
  case False
  then have "tx_queue_size b = 0" by (simp add: word_unat_eq_iff)
  then show ?thesis using assms(1) by (simp add: request_channel_def Let_def no_request_def final_header_len_def)
qed

lemma one_channel_fits_witness:
  "\<exists>q b'. request_channels 309 2 no_request [\<lparr>rb_lc_id = 3, rb_tx_queue_size = Some 5000, rb_tx_queue_hol_delay = None\<rparr>] =
     (q, [b']) \<and> unat (rq_sdu_length_total q) + unat (final_header_len q) + 2 \<le> 309"
  using one_channel_fits [of 2 309 "\<lparr>rb_lc_id = 3, rb_tx_queue_size = Some 5000, rb_tx_queue_hol_delay = None\<rparr>"]
  by simp

section \<open>A second channel overruns\<close>

text \<open>
  Once the first channel has filled the transport block, the room left for the next is computed without sign
  and wraps around: the whole queue of the second channel is requested as well, whatever its size.
\<close>

theorem second_channel_overruns:
  assumes "unat ta + 131 \<le> unat tbs" and "unat tbs < 2 ^ 16" and "unat tbs \<le> unat (tx_queue_size b1)"
    and "0 < unat (tx_queue_size b2)" and "unat (tx_queue_size b2) < 2 ^ 31"
  shows "\<exists>q bs'. request_channels tbs ta no_request [b1, b2] = (q, bs') \<and>
     requested (rq_pdus q) = unat tbs - unat ta - 3 + unat (tx_queue_size b2)"
proof -
  let ?n = "unat tbs - unat ta - 3"
  have "?n = min ?n (unat (tx_queue_size b1))" "\<not> ?n < 128" using assms(1,3) by simp_all
  then obtain q b' where q: "request_channel tbs ta no_request b1 = (q, b')" "rq_header_len q = 3"
    "unat (rq_sdu_length_total q) = ?n" "requested (rq_pdus q) = ?n"
    using first_request [of ta tbs b1 ?n] assms(1-3) by auto
  let ?room = "rlc_room tbs ta 6 (rq_sdu_length_total q)"
  have "unat (rlc_room tbs ta 3 (rq_sdu_length_total q)) = 0"
    using rlc_room_value [of ta 3 "rq_sdu_length_total q" tbs] q(3) assms(1) by simp
  moreover have "?room = rlc_room tbs ta 3 (rq_sdu_length_total q) - 3" by (simp add: rlc_room_def)
  ultimately have room: "?room = - 3" by (simp add: word_unat_eq_iff [of "rlc_room tbs ta 3 (rq_sdu_length_total q)"])
  have "unat (- 3 :: u32) = 2 ^ 32 - 3" by simp
  then have min: "min (- 3) (tx_queue_size b2) = tx_queue_size b2" "tx_queue_size b2 > 0"
    using assms(4,5) by (auto simp: min_def word_le_nat_alt word_less_nat_alt)
  obtain q2 b2' where 2: "request_channel tbs ta q b2 = (q2, b2')" by fastforce
  have "requested (rq_pdus q2) = requested (rq_pdus q) + unat (tx_queue_size b2)"
    using 2 q(2) room min word_gt_0 [of "- 3 :: u32"] by (auto simp: request_channel_def Let_def requested_def)
  then show ?thesis using q(1,4) 2 by simp
qed

lemma second_channel_witness:
  "\<exists>q bs'. request_channels 309 0 no_request
       [\<lparr>rb_lc_id = 1, rb_tx_queue_size = Some 400, rb_tx_queue_hol_delay = None\<rparr>,
        \<lparr>rb_lc_id = 3, rb_tx_queue_size = Some 70000, rb_tx_queue_hol_delay = None\<rparr>] = (q, bs') \<and>
     requested (rq_pdus q) = 70306"
  using second_channel_overruns [of 0 309 "\<lparr>rb_lc_id = 1, rb_tx_queue_size = Some 400, rb_tx_queue_hol_delay = None\<rparr>"
      "\<lparr>rb_lc_id = 3, rb_tx_queue_size = Some 70000, rb_tx_queue_hol_delay = None\<rparr>"]
  by (simp add: tx_queue_size_def get_u32_def)

section \<open>The timing advance flag leaks\<close>

text \<open>The flags of the control elements are one variable of the whole run: bits are added, never removed.\<close>

definition has_ta :: "flex_dl_data \<Rightarrow> bool" where
  "has_ta d \<longleftrightarrow> list_all (\<lambda>w. w AND FLPCET_TA = FLPCET_TA) (dd_ce_bitmap d)"

definition ta_sticks :: "flex_state \<Rightarrow> flex_state \<Rightarrow> bool" where
  "ta_sticks st st' \<longleftrightarrow>
     lv_ce_flags (fl_vars st') AND FLPCET_TA = FLPCET_TA \<and>
     (\<exists>ds. fl_data st' = fl_data st @ ds \<and> list_all has_ta ds)"

lemma finish_ue_ta:
  assumes "finish_ue c ue p round co st = Some st'" and "lv_ce_flags (co_vars co) AND FLPCET_TA = FLPCET_TA"
  shows "ta_sticks st st'"
  using assms
  by (auto simp: finish_ue_def Let_def ta_sticks_def has_ta_def Option.bind_eq_Some_conv split: option.splits)

lemma retransmit_flags:
  assumes "retransmit c p av co = Some co'"
  shows "lv_ce_flags (co_vars co') = lv_ce_flags (co_vars co)"
  using assms by (auto simp: retransmit_def Let_def Option.bind_eq_Some_conv split: if_splits)

lemma code_payload_flags:
  assumes "code_payload c f sf p av n e co = Some co'"
  shows "lv_ce_flags (co_vars co') = lv_ce_flags (co_vars co)"
  using assms by (auto simp: code_payload_def Let_def case_prod_beta Option.bind_eq_Some_conv)

lemma new_transmission_ta:
  assumes "new_transmission c f sf p av e co = Some co'" and "lv_ce_flags (co_vars co) AND FLPCET_TA = FLPCET_TA"
  shows "lv_ce_flags (co_vars co') AND FLPCET_TA = FLPCET_TA"
  using assms
  by (auto simp: new_transmission_def Let_def case_prod_beta Option.bind_eq_Some_conv bit.conj_disj_distrib2
      dest!: code_payload_flags split: if_splits)

lemma schedule_ue_ta:
  assumes "schedule_ue c f sf st ue = Some st'" and "lv_ce_flags (fl_vars st) AND FLPCET_TA = FLPCET_TA"
  shows "ta_sticks st st'"
proof -
  have skip: "ta_sticks st (st\<lparr>fl_sched := x, fl_vars := (fl_vars st)\<lparr>lv_aggregation := a\<rparr>\<rparr>)" for x a
    using assms(2) by (simp add: ta_sticks_def)
  have same: "ta_sticks st st" using assms(2) by (simp add: ta_sticks_def)
  have run: "ta_sticks st st'"
    if "transmit_ue c f sf ue u s av (st\<lparr>fl_sched := x, fl_vars := (fl_vars st)\<lparr>lv_aggregation := a\<rparr>\<rparr>) = Some st'"
    for u s av x a
  proof -
    from that obtain p round co where
      "finish_ue c ue p round co (st\<lparr>fl_sched := x, fl_vars := (fl_vars st)\<lparr>lv_aggregation := a\<rparr>\<rparr>) = Some st'"
      "lv_ce_flags (co_vars co) AND FLPCET_TA = FLPCET_TA"
      using assms(2)
      by (auto simp: transmit_ue_def Let_def Option.bind_eq_Some_conv dest!: retransmit_flags new_transmission_ta
          split: if_splits)
    from finish_ue_ta [OF this] show ?thesis by (simp add: ta_sticks_def)
  qed
  show ?thesis
    using assms(1) skip same
    by (auto simp: schedule_ue_def Let_def Option.bind_eq_Some_conv split: if_splits option.splits intro: run)
qed

lemma ta_sticks_trans: "ta_sticks a b \<Longrightarrow> ta_sticks b c \<Longrightarrow> ta_sticks a c"
  unfolding ta_sticks_def by fastforce

lemma ta_sticks_foldo:
  assumes "foldo f st xs = Some st'" and "lv_ce_flags (fl_vars st) AND FLPCET_TA = FLPCET_TA"
    and "\<And>x t t'. f t x = Some t' \<Longrightarrow> lv_ce_flags (fl_vars t) AND FLPCET_TA = FLPCET_TA \<Longrightarrow> ta_sticks t t'"
  shows "ta_sticks st st'"
  by (rule foldo_invariant [where I = "ta_sticks st", OF assms(1)])
     (use assms(2,3) ta_sticks_trans in \<open>auto simp: ta_sticks_def\<close>)

lemma schedule_cells_ta:
  assumes "foldo (schedule_cell f sf) st cs = Some st'" and "lv_ce_flags (fl_vars st) AND FLPCET_TA = FLPCET_TA"
  shows "ta_sticks st st'"
  by (rule ta_sticks_foldo [OF assms]) (auto simp: schedule_cell_def intro: ta_sticks_foldo schedule_ue_ta)

text \<open>
  Once the flag is set, by a UE of an earlier agent of the run with a timing advance command, the round of the next
  agent marks every data element with a timing advance control element, also those of UEs that have none
  pending and whose transport block has no room reserved for it.
\<close>

lemma ta_command_sets_flag:
  assumes "new_transmission c f sf p av e co = Some co'" and "si_ta_timer (co_sched co) = 0"
    and "us_pending_mac_ces (um_mac_stats_report (co_ue co)) AND FLPCET_TA \<noteq> 0"
  shows "lv_ce_flags (co_vars co') AND FLPCET_TA = FLPCET_TA"
  using assms
  by (auto simp: new_transmission_def ta_update_def Let_def case_prod_beta Option.bind_eq_Some_conv bit.conj_disj_distrib2
      dest!: code_payload_flags split: if_splits)

theorem ta_flag_leaks:
  assumes "schedule_agent srt f sf e sched vars = Some st" and "lv_ce_flags vars AND FLPCET_TA = FLPCET_TA"
  shows "list_all has_ta (fl_data st)" and "lv_ce_flags (fl_vars st) AND FLPCET_TA = FLPCET_TA"
proof -
  obtain s where
    "foldo (schedule_cell f sf) \<lparr>fl_enb = e, fl_sched = s, fl_vars = vars, fl_data = []\<rparr> (cell_configs e) = Some st"
    using assms(1) by (auto simp: schedule_agent_def Option.bind_eq_Some_conv)
  from schedule_cells_ta [OF this] assms(2)
  show "list_all has_ta (fl_data st)" and "lv_ce_flags (fl_vars st) AND FLPCET_TA = FLPCET_TA"
    by (auto simp: ta_sticks_def)
qed

end
