(* ===== verification/AgentSound.thy ===== *)
theory AgentSound
  imports FlexRound RlcRequests
begin

text \<open>
  The records of the agents as the scheduler needs them, as an invariant of both sides: every message whose
  values are in range keeps it, and so does a run of the central scheduler.
\<close>

section \<open>A sound record\<close>

definition csi_in_range :: "flex_ue_stats_report \<Rightarrow> bool" where
  "csi_in_range r \<longleftrightarrow> (\<forall>i \<in> set (dq_csi_report (us_dl_cqi_report r)). unat (p10csi_wb_cqi i) < 16)"

definition cell_in_range :: "flex_cell_config \<Rightarrow> bool" where
  "cell_in_range c \<longleftrightarrow> unat (cc_cell_id c) < MAX_NUM_CC \<and> unat (cc_dl_bandwidth c) \<le> 110"

text \<open>What a configuration may say of the cells: each is described once.\<close>

definition cells_in_range :: "flex_cell_config list \<Rightarrow> bool" where
  "cells_in_range cs \<longleftrightarrow> distinct (map cc_cell_id cs) \<and> list_all cell_in_range cs"

definition reports_ok :: "enb_rib_info \<Rightarrow> bool" where
  "reports_ok e \<longleftrightarrow> (\<forall>r u. get_ue_mac_info e r = Some u \<longrightarrow> csi_in_range (um_mac_stats_report u))"

definition agent_sound :: "enb_rib_info \<Rightarrow> bool" where
  "agent_sound e \<longleftrightarrow> enb_wf e \<and> ue_view_consistent e \<and> reports_ok e \<and> length (ue_configs e) \<le> MAX_NUM_UE \<and>
     cells_in_range (cell_configs e)"

lemma csi_in_range_mcs:
  assumes "csi_in_range r"
  shows "csi_mcs c r d \<noteq> None"
proof (cases "find_csi c r")
  case (Some i)
  then have "i \<in> set (dq_csi_report (us_dl_cqi_report r))" by (auto simp: find_csi_def find_Some_iff)
  then have "unat (p10csi_wb_cqi i) < 16" using assms unfolding csi_in_range_def by blast
  moreover have "length cqi_to_mcs = 16" by (simp add: cqi_to_mcs_def)
  ultimately show ?thesis using Some by (simp add: csi_mcs_def aget_def del: p10csi_wb_cqi.simps)
qed (simp add: csi_mcs_def)

lemma agent_sound_ready:
  assumes "agent_sound e"
  shows "cells_ready e"
  using assms csi_in_range_mcs
  unfolding cells_ready_def cell_ready_def agent_sound_def cells_in_range_def list_all_iff cell_in_range_def reports_ok_def
  by blast

section \<open>Messages in range\<close>

fun event_in_range :: "enb_rib_info \<Rightarrow> enb_event \<Rightarrow> bool" where
  "event_in_range e (EnbConfig r) \<longleftrightarrow> cells_in_range (er_cell_config r)"
| "event_in_range e (UeConfig r) \<longleftrightarrow> distinct (map uc_rnti (ur_ue_config r)) \<and> length (ur_ue_config r) \<le> MAX_NUM_UE"
| "event_in_range e (UeState sc) \<longleftrightarrow> (sc_type sc = FLUESC_ACTIVATED \<longrightarrow>
     uc_rnti (sc_config sc) \<notin> set (rntis e) \<and> length (ue_configs e) < MAX_NUM_UE)"
| "event_in_range e (SfTrigger t) \<longleftrightarrow>
     \<not> (\<exists>i \<in> set (st_dl_info t). di_rnti i \<in> mac_rntis e \<and> dl_info_out_of_range i) \<and>
     \<not> (\<exists>i \<in> set (st_ul_info t). ui_rnti i \<in> mac_rntis e \<and> ul_info_out_of_range i)"
| "event_in_range e (MacReport r) \<longleftrightarrow>
     list_all csi_in_range (sr_ue_report r) \<and> length (sr_cell_report r) \<le> MAX_NUM_CC"
| "event_in_range e _ \<longleftrightarrow> True"

lemma in_range_names_once: "event_in_range e ev \<Longrightarrow> names_ues_once e ev"
  by (cases ev) auto

lemma reports_ok_cong: "en_ue_mac_info e' = en_ue_mac_info e \<Longrightarrow> reports_ok e' = reports_ok e"
  by (simp add: reports_ok_def get_ue_mac_info_def)

lemma csi_in_range_empty: "csi_in_range empty_ue_stats_report"
  by (simp add: csi_in_range_def empty_ue_stats_report_def)

lemma reports_ok_insert:
  assumes "reports_ok e" and "sm_inv (en_ue_mac_info e)"
    and "en_ue_mac_info e' = sm_insert r (new_ue_mac_rib_info j r) (en_ue_mac_info e)"
  shows "reports_ok e'"
  using assms csi_in_range_empty
  by (auto simp: reports_ok_def get_ue_mac_info_def sm.find_insert new_ue_mac_rib_info_def split: if_splits)

lemma reports_ok_ensure:
  assumes "enb_wf e" and "reports_ok e"
  shows "reports_ok (foldl (ensure_ue_mac jk) e rs)"
  using assms
proof (induction rs arbitrary: e)
  case (Cons r rs)
  have "reports_ok (ensure_ue_mac jk e r)"
    using Cons.prems reports_ok_insert [OF _ enb_wfD(1)] by (auto simp: ensure_ue_mac_def split: option.split)
  then show ?case using Cons.IH ensure_ue_mac_wf(1) [OF Cons.prems(1)] by simp
qed simp

lemma reports_ok_with_ue:
  assumes "with_ue r f e = Some e'" and "enb_wf e" and "reports_ok e"
    and "\<And>u u'. f u = Some u' \<Longrightarrow> csi_in_range (um_mac_stats_report u) \<Longrightarrow> csi_in_range (um_mac_stats_report u')"
  shows "reports_ok e'"
  using assms
  by (auto simp: with_ue_def reports_ok_def get_ue_mac_info_def Option.bind_eq_Some_conv sm.find_put [OF enb_wfD(1)]
      split: option.splits if_splits)

lemma reports_ok_foldo:
  assumes "foldo (\<lambda>e i. with_ue (r i) (f i) e) e xs = Some e'" and "enb_wf e" and "reports_ok e"
    and "\<And>i u u'. f i u = Some u' \<Longrightarrow> ue_mac_wf u \<Longrightarrow> ue_mac_wf u'"
    and "\<And>i u u'. i \<in> set xs \<Longrightarrow> f i u = Some u' \<Longrightarrow> csi_in_range (um_mac_stats_report u) \<Longrightarrow>
         csi_in_range (um_mac_stats_report u')"
  shows "reports_ok e'"
proof -
  have "enb_wf e' \<and> reports_ok e'"
    using assms(1)
  proof (rule foldo_invariant [where I = "\<lambda>v. enb_wf v \<and> reports_ok v"])
    fix s x s'
    assume x: "x \<in> set xs" and s: "enb_wf s \<and> reports_ok s" and step: "with_ue (r x) (f x) s = Some s'"
    have "reports_ok s'"
      by (rule reports_ok_with_ue [OF step conjunct1 [OF s] conjunct2 [OF s]]) (rule assms(5) [OF x])
    then show "enb_wf s' \<and> reports_ok s'" using with_ue_wf [OF step] s assms(4) by blast
  qed (use assms in simp)
  then show ?thesis ..
qed

lemma dl_info_keeps_report: "update_dl_sf_info u i = Some u' \<Longrightarrow> um_mac_stats_report u' = um_mac_stats_report u"
  unfolding update_dl_sf_info_def Let_def
  by (erule foldo_invariant [where I = "\<lambda>v. um_mac_stats_report v = um_mac_stats_report u"])
     (auto simp: Option.bind_eq_Some_conv)

lemma ul_info_keeps_report: "update_ul_sf_info u i = Some u' \<Longrightarrow> um_mac_stats_report u' = um_mac_stats_report u"
  by (auto simp: update_ul_sf_info_def Let_def Option.bind_eq_Some_conv
      elim!: foldo_invariant [where I = "\<lambda>v. um_mac_stats_report v = um_mac_stats_report u"])

lemma stats_keep_range:
  "csi_in_range s \<Longrightarrow> csi_in_range (um_mac_stats_report u) \<Longrightarrow>
   csi_in_range (um_mac_stats_report (update_mac_stats_report u s))"
  by (simp add: update_mac_stats_report_def Let_def csi_in_range_def when_flag_def)

lemma reports_ok_state_change: "enb_wf e \<Longrightarrow> reports_ok e \<Longrightarrow> reports_ok (state_change_loop sc i e)"
proof (induction sc i e rule: state_change_loop.induct)
  case (1 sc i e)
  have upd: "enb_wf (e\<lparr>en_ue_config := c\<rparr>) = enb_wf e" "reports_ok (e\<lparr>en_ue_config := c\<rparr>) = reports_ok e" for c
    by (rule enb_wf_cong; simp) (rule reports_ok_cong; simp)
  have "reports_ok (deactivate_ue i r e)" for r
    using "1.prems" by (auto simp: reports_ok_def get_ue_mac_info_def deactivate_ue_def sm.find_erase enb_wfD split: if_splits)
  then show ?case
    by (subst state_change_loop.simps) (use 1 in \<open>simp add: Let_def upd\<close>)
qed

lemma state_change_frame:
  "length (ue_configs (state_change_loop sc i e)) \<le> length (ue_configs e) \<and>
   en_eNB_config (state_change_loop sc i e) = en_eNB_config e"
proof (induction sc i e rule: state_change_loop.induct)
  case (1 sc i e)
  then show ?case
    by (subst (1 2) state_change_loop.simps) (auto simp: Let_def deactivate_ue_def delete_at_def)
qed

text \<open>The parts of the invariant that an event keeps, beside the two that \<open>EnbRib\<close> proves.\<close>

definition cells_and_count :: "enb_rib_info \<Rightarrow> bool" where
  "cells_and_count e \<longleftrightarrow> length (ue_configs e) \<le> MAX_NUM_UE \<and> cells_in_range (cell_configs e)"

lemma agent_sound_alt:
  "agent_sound e \<longleftrightarrow> enb_wf e \<and> ue_view_consistent e \<and> reports_ok e \<and> cells_and_count e"
  by (auto simp: agent_sound_def cells_and_count_def)

lemma cells_and_count_step:
  assumes "enb_step jk now e ev = Some e'" and "event_in_range e ev" and "enb_wf e" and "cells_and_count e"
  shows "cells_and_count e'"
proof (cases ev)
  case (UeConfig r)
  then have "e' = update_UE_config jk now e r" using assms(1) by simp
  then have "ue_configs e' = ur_ue_config r" "en_eNB_config e' = en_eNB_config e"
  proof -
    have "en_ue_config (foldl (ensure_ue_mac jk) v rs) = en_ue_config v \<and>
        en_eNB_config (foldl (ensure_ue_mac jk) v rs) = en_eNB_config v" for v rs
      by (induction rs arbitrary: v) (simp_all add: ensure_ue_mac_def split: option.split)
    then show "e' = update_UE_config jk now e r \<Longrightarrow> ue_configs e' = ur_ue_config r"
      "e' = update_UE_config jk now e r \<Longrightarrow> en_eNB_config e' = en_eNB_config e"
      by (simp_all add: update_UE_config_def frame_simps)
  qed
  then show ?thesis using assms(2,4) UeConfig by (simp add: cells_and_count_def)
next
  case (UeState sc)
  then have e': "e' = update_UE_state jk e sc" using assms(1) by simp
  show ?thesis
  proof (cases "sc_type sc = FLUESC_ACTIVATED")
    case True
    then show ?thesis using assms(2,4) UeState by (simp add: e' update_UE_state_def Let_def cells_and_count_def)
  next
    case False
    then show ?thesis
      using assms(4) state_change_frame [of sc 0 e] by (auto simp: e' update_UE_state_def cells_and_count_def)
  qed
next
  case (SfTrigger t)
  then have "en_ue_config e' = en_ue_config e" "en_eNB_config e' = en_eNB_config e"
    using update_subframe_wf [OF _ assms(3), of now t e'] assms(1) by (auto simp: same_view_def)
  with assms(4) show ?thesis by (simp add: cells_and_count_def)
next
  case (MacReport r)
  then have "en_ue_config e' = en_ue_config e" "en_eNB_config e' = en_eNB_config e"
    using update_mac_stats_wf [OF _ assms(3), of r e'] assms(1) by (auto simp: same_view_def)
  with assms(4) show ?thesis by (simp add: cells_and_count_def)
qed (use assms in \<open>auto simp: cells_and_count_def update_eNB_config_def update_LC_config_def frame_simps\<close>)

lemma reports_ok_step:
  assumes "enb_step jk now e ev = Some e'" and "event_in_range e ev" and "enb_wf e" and "reports_ok e"
  shows "reports_ok e'"
proof (cases ev)
  case (UeConfig r)
  have "enb_wf (e\<lparr>en_ue_config := r\<rparr>)" using assms(3) by (simp add: enb_wf_cong [of "e\<lparr>en_ue_config := r\<rparr>" e])
  moreover have "reports_ok (e\<lparr>en_ue_config := r\<rparr>)" using assms(4) by (simp add: reports_ok_cong [of "e\<lparr>en_ue_config := r\<rparr>" e])
  ultimately have "reports_ok (foldl (ensure_ue_mac jk) (e\<lparr>en_ue_config := r\<rparr>) (map uc_rnti (ur_ue_config r)))"
    by (rule reports_ok_ensure)
  then show ?thesis
    using UeConfig assms(1) by (auto simp: update_UE_config_def reports_ok_def get_ue_mac_info_def frame_simps)
next
  case (UeState sc)
  then show ?thesis
    using assms reports_ok_state_change reports_ok_insert [OF assms(4) enb_wfD(1) [OF assms(3)]]
    by (auto simp: update_UE_state_def Let_def)
next
  case (SfTrigger t)
  let ?e = "e\<lparr>en_current_frame := get_frame (ucast (ucast (st_sfn_sf t) :: u16)),
            en_current_subframe := get_subframe (ucast (ucast (st_sfn_sf t) :: u16))\<rparr>"
  obtain e1 e2 where 1: "foldo (\<lambda>e i. with_ue (di_rnti i) (\<lambda>u. update_dl_sf_info u i) e) ?e (st_dl_info t) = Some e1"
    and 2: "foldo (\<lambda>e i. with_ue (ui_rnti i) (\<lambda>u. update_ul_sf_info u i) e) e1 (st_ul_info t) = Some e2"
    and 3: "e' = update_liveness now e2"
    using assms(1) SfTrigger by (auto simp: update_subframe_def Let_def Option.bind_eq_Some_conv)
  have wf: "enb_wf ?e" using assms(3) by (simp add: enb_wf_cong [of ?e e])
  have ok: "reports_ok ?e" using assms(4) by (simp add: reports_ok_cong [of ?e e])
  have wf1: "enb_wf e1" using foldo_with_ue [OF 1 wf] ue_mac_wf_dl by blast
  have ok1: "reports_ok e1"
    by (rule reports_ok_foldo [OF 1 wf ok]) (auto simp: dl_info_keeps_report intro: ue_mac_wf_dl)
  have "reports_ok e2"
    by (rule reports_ok_foldo [OF 2 wf1 ok1]) (auto simp: ul_info_keeps_report intro: ue_mac_wf_ul)
  then show ?thesis by (simp add: 3 reports_ok_def get_ue_mac_info_def frame_simps)
next
  case (MacReport r)
  obtain e1 where 1: "foldo (\<lambda>e s. with_ue (us_rnti s) (\<lambda>u. Some (update_mac_stats_report u s)) e) e
        (sr_ue_report r) = Some e1"
    and 2: "foldo (store_cell_report r) e1 [0..<length (sr_cell_report r)] = Some e'"
    using assms(1) MacReport by (auto simp: update_mac_stats_def Option.bind_eq_Some_conv)
  have range: "csi_in_range s" if "s \<in> set (sr_ue_report r)" for s
    using assms(2) MacReport that by (simp add: list_all_iff)
  have "reports_ok e1"
    by (rule reports_ok_foldo [OF 1 assms(3,4)]) (use range in \<open>auto simp: stats_keep_range intro: ue_mac_wf_stats\<close>)
  from 2 this show ?thesis
    by (rule foldo_invariant [where I = reports_ok])
       (auto simp: store_cell_report_def Option.bind_eq_Some_conv reports_ok_def get_ue_mac_info_def)
qed (use assms in \<open>auto simp: update_eNB_config_def update_LC_config_def reports_ok_def get_ue_mac_info_def frame_simps\<close>)

lemma enb_step_sound:
  assumes "agent_sound e" and "event_in_range e ev"
  shows "\<exists>e'. enb_step jk now e ev = Some e' \<and> agent_sound e'"
proof -
  have wf: "enb_wf e" using assms(1) by (simp add: agent_sound_def)
  have "enb_step jk now e ev \<noteq> None"
    using assms(2) update_subframe_fault_iff [OF wf] update_mac_stats_fault_iff [OF wf]
    by (cases ev) (auto simp: not_less)
  then obtain e' where e': "enb_step jk now e ev = Some e'" by blast
  then show ?thesis
    using assms enb_step_wf [OF e'] enb_step_view [OF e'] in_range_names_once reports_ok_step [OF e'] cells_and_count_step [OF e']
    by (auto simp: agent_sound_alt)
qed

text \<open>A record is created by the configuration it then holds.\<close>

lemma created_sound:
  assumes "cells_in_range (er_cell_config r)"
  shows "agent_sound (update_eNB_config now (new_enb_rib_info jk now a) r)"
proof -
  have "reports_ok (new_enb_rib_info jk now a)"
    by (simp add: reports_ok_def get_ue_mac_info_def new_enb_rib_info_def sm.find_empty)
  then have "reports_ok (update_eNB_config now (new_enb_rib_info jk now a) r)"
    by (simp add: reports_ok_def get_ue_mac_info_def update_eNB_config_def frame_simps)
  moreover have "ue_view_consistent (update_eNB_config now (new_enb_rib_info jk now a) r)"
    using ue_view_new [of jk now a] by (simp add: ue_view_consistent_def update_eNB_config_def frame_simps)
  ultimately show ?thesis
    using assms enb_wf_update_eNB_config [OF enb_wf_new, of now jk now a r]
    by (simp add: agent_sound_def update_eNB_config_def frame_simps new_enb_rib_info_def)
qed

section \<open>A round of the central scheduler keeps the record sound\<close>

text \<open>The scheduler writes to the queues and HARQ processes of the records, never to their channel quality.\<close>

definition same_cqi :: "ue_mac_rib_info \<Rightarrow> ue_mac_rib_info \<Rightarrow> bool" where
  "same_cqi u u' \<longleftrightarrow> us_dl_cqi_report (um_mac_stats_report u') = us_dl_cqi_report (um_mac_stats_report u)"

definition macs_ok :: "enb_rib_info \<Rightarrow> bool" where
  "macs_ok e \<longleftrightarrow> sm_inv (en_ue_mac_info e) \<and> reports_ok e"

lemma same_cqi_range: "same_cqi u u' \<Longrightarrow> csi_in_range (um_mac_stats_report u') = csi_in_range (um_mac_stats_report u)"
  by (simp add: same_cqi_def csi_in_range_def)

lemma macs_ok_put:
  assumes "macs_ok e" and "get_ue_mac_info e r = Some u" and "same_cqi u u'"
  shows "macs_ok (put_ue_mac r u' e)"
  using assms same_cqi_range [OF assms(3)]
  by (auto simp: macs_ok_def reports_ok_def get_ue_mac_info_def put_ue_mac_def sm.inv_put sm.find_put split: if_splits)

lemma retransmit_cqi: "retransmit c p av co = Some co' \<Longrightarrow> same_cqi (co_ue co) (co_ue co')"
  by (auto simp: retransmit_def Let_def Option.bind_eq_Some_conv same_cqi_def split: if_splits)

lemma code_payload_ue: "code_payload c f sf p av n e co = Some co' \<Longrightarrow> co_ue co' = co_ue co"
  by (auto simp: code_payload_def Let_def case_prod_beta Option.bind_eq_Some_conv)

lemma new_transmission_cqi: "new_transmission c f sf p av e co = Some co' \<Longrightarrow> same_cqi (co_ue co) (co_ue co')"
  by (auto simp: new_transmission_def Let_def case_prod_beta Option.bind_eq_Some_conv same_cqi_def
      dest!: code_payload_ue split: if_splits)

lemma finish_ue_macs:
  assumes "finish_ue c ue p round co st = Some st'" and "macs_ok (fl_enb st)"
    and "get_ue_mac_info (fl_enb st) (uc_rnti ue) = Some u" and "same_cqi u (co_ue co)"
  shows "macs_ok (fl_enb st')"
proof -
  have "same_cqi (co_ue co) u2" if "harq_scheduled (co_ue co) k p = Some u2" for k u2
    using that by (auto simp: harq_scheduled_def Option.bind_eq_Some_conv same_cqi_def)
  then show ?thesis
    using assms macs_ok_put [OF assms(2,3)]
    by (fastforce simp: finish_ue_def Let_def Option.bind_eq_Some_conv same_cqi_def split: option.splits)
qed

lemma schedule_ue_macs:
  assumes "schedule_ue c f sf st ue = Some st'" and "macs_ok (fl_enb st)"
  shows "macs_ok (fl_enb st')"
proof -
  have run: "macs_ok (fl_enb st')"
    if t: "transmit_ue c f sf ue u s av (st\<lparr>fl_sched := x, fl_vars := v\<rparr>) = Some st'"
      and u: "get_ue_mac_info (fl_enb st) (uc_rnti ue) = Some u" for u s av x v
  proof -
    from t obtain p round co where
      "finish_ue c ue p round co (st\<lparr>fl_sched := x, fl_vars := v\<rparr>) = Some st'" "same_cqi u (co_ue co)"
      by (auto simp: transmit_ue_def Let_def Option.bind_eq_Some_conv dest!: retransmit_cqi new_transmission_cqi
          split: if_splits)
    then show ?thesis using finish_ue_macs [of c ue p round co _ st' u] assms(2) u by simp
  qed
  show ?thesis
    using assms
    by (auto simp: schedule_ue_def Let_def Option.bind_eq_Some_conv split: if_splits option.splits intro: run)
qed

lemma schedule_agent_macs:
  assumes "schedule_agent srt f sf e sched vars = Some st" and "macs_ok e"
  shows "macs_ok (fl_enb st)"
proof -
  let ?I = "\<lambda>st. macs_ok (fl_enb st)"
  have cell: "?I t'" if "schedule_cell f sf t c = Some t'" "?I t" for t c t'
    by (rule foldo_invariant [where I = ?I, OF that [unfolded schedule_cell_def]]) (rule schedule_ue_macs)
  obtain s where "foldo (schedule_cell f sf) \<lparr>fl_enb = e, fl_sched = s, fl_vars = vars, fl_data = []\<rparr> (cell_configs e) = Some st"
    using assms(1) by (auto simp: schedule_agent_def Option.bind_eq_Some_conv)
  then show ?thesis by (rule foldo_invariant [where I = ?I]) (use assms(2) cell in auto)
qed

lemma schedule_agent_sound:
  assumes "std_sort srt" and "agent_sound e" and "sched_ok sched" and "sf \<noteq> 0" and "sf \<noteq> 5"
    and "lv_aggregation vars \<le> 3" and "schedule_agent srt f sf e sched vars = Some st"
  shows "agent_sound (fl_enb st)"
proof -
  note ready = agent_sound_ready [OF assms(2)]
  have inv: "flex_inv e sf {} st"
    using schedule_agent_inv [OF assms(1) ready assms(3-5) schedule_agent_untied [OF assms(7)] assms(6), of f] assms(7)
    by auto
  have macs: "macs_ok (fl_enb st)"
    using schedule_agent_macs [OF assms(7)] assms(2) by (simp add: macs_ok_def agent_sound_def enb_wf_def)
  show ?thesis
  proof (cases "cell_configs e")
    case Nil
    then have "fl_enb st = e" using assms(7) by (auto simp: schedule_agent_def Option.bind_eq_Some_conv)
    then show ?thesis using assms(2) by simp
  next
    case (Cons c cs)
    then have "cell_ready c (fl_enb st)" using inv flex_inv_cells(3) [OF inv] by (simp add: flex_inv_def cells_ready_def)
    then show ?thesis
      using inv macs assms(2) by (simp add: agent_sound_def macs_ok_def flex_inv_def cell_ready_def)
  qed
qed

end
