(* ===== verification/Sending.thy ===== *)
theory Sending
  imports RibUpdater
begin

text \<open>
  What the applications do to the network: they push messages for agents, in order, as far as the output queue
  has room (\<open>requests_manager::send_message\<close> ignores whether it had). Lemmas shared by all applications.
\<close>

section \<open>A batch of messages\<close>

definition wire :: "'q ext \<Rightarrow> int \<times> flexran_message \<Rightarrow> tagged_message" where
  "wire X = (\<lambda>(a, m). the (outgoing X m a))"

abbreviation out_contents :: "('q \<Rightarrow> tagged_message list) \<Rightarrow> 'q updater \<Rightarrow> tagged_message list" where
  "out_contents contents u \<equiv> contents (nx_out_queue (ru_net u))"

abbreviation in_contents :: "('q \<Rightarrow> tagged_message list) \<Rightarrow> 'q updater \<Rightarrow> tagged_message list" where
  "in_contents contents u \<equiv> contents (nx_in_queue (ru_net u))"

definition room :: "('q \<Rightarrow> tagged_message list) \<Rightarrow> 'q updater \<Rightarrow> nat" where
  "room contents u = queue_capacity - length (out_contents contents u)"

definition sends :: "'q ext \<Rightarrow> ('q \<Rightarrow> tagged_message list) \<Rightarrow> (int \<times> flexran_message) list \<Rightarrow>
    'q updater \<Rightarrow> 'q updater \<Rightarrow> bool" where
  "sends X contents ms u u' \<longleftrightarrow>
     ru_rib u' = ru_rib u \<and> nx_in_queue (ru_net u') = nx_in_queue (ru_net u) \<and>
     out_contents contents u' = out_contents contents u @ take (room contents u) (map (wire X) ms)"

lemma sends_none: "sends X contents [] u u"
  by (simp add: sends_def)

lemma sends_append:
  assumes "sends X contents ms u v" and "sends X contents ns v w"
  shows "sends X contents (ms @ ns) u w"
  using assms by (auto simp: sends_def room_def min_def not_le)

lemma sends_same_view:
  assumes "sends X contents ms u u'"
  shows "ru_rib u' = ru_rib u" and "in_contents contents u' = in_contents contents u"
  using assms by (simp_all add: sends_def)

lemma send_to_sends:
  assumes "ext_ok X contents" and "sendable X m"
  shows "\<exists>u'. send_to X m a u = Some u' \<and> sends X contents [(a, m)] u u'"
proof -
  obtain t where t: "outgoing X m a = Some t" using outgoing_total [OF assms(2)] by blast
  note fifo = ext_okD(1) [OF assms(1)]
  have wire: "wire X (a, m) = t" by (simp add: wire_def t)
  show ?thesis
  proof (cases "q_push X t (nx_out_queue (ru_net u))")
    case None
    then have "room contents u = 0" using bounded_fifo.push_None_iff [OF fifo] by (simp add: room_def)
    then show ?thesis using t None by (auto simp: send_to_def send_msg_def send_push_def sends_def)
  next
    case (Some q)
    then have "contents q = out_contents contents u @ [t]" "0 < room contents u"
      using bounded_fifo.push_SomeD [OF fifo] by (auto simp: room_def)
    then show ?thesis
      using t Some wire
      by (simp add: send_to_def send_msg_def send_push_def send_post_def sends_def take_Cons')
  qed
qed

text \<open>A loop that sends messages: what element \<open>x\<close> sends may depend on nothing but \<open>x\<close>.\<close>

lemma foldo_sends:
  assumes "\<And>x u. x \<in> set xs \<Longrightarrow> \<exists>u'. f u x = Some u' \<and> sends X contents (g x) u u'"
  shows "\<exists>u'. foldo f u xs = Some u' \<and> sends X contents (concat (map g xs)) u u'"
  using assms
proof (induction xs arbitrary: u)
  case Nil
  then show ?case by (simp add: sends_none)
next
  case (Cons x xs)
  obtain v where v: "f u x = Some v" "sends X contents (g x) u v" using Cons.prems by (meson list.set_intros(1))
  obtain w where "foldo f v xs = Some w" "sends X contents (concat (map g xs)) v w"
    using Cons.IH [of v] Cons.prems by (meson list.set_intros(2))
  then show ?case using v sends_append [OF v(2)] by simp
qed

text \<open>Nothing of what is sent arrives in a queue that is full.\<close>

lemma sends_full:
  assumes "sends X contents ms u u'" and "room contents u = 0"
  shows "out_contents contents u' = out_contents contents u"
  using assms by (simp add: sends_def)

lemma wire_tag:
  assumes "sendable X m"
  shows "tm_tag (wire X (a, m)) = a" and "tm_contents (wire X (a, m)) = ext_serialize X m"
  using outgoing_total [OF assms, of a] by (auto simp: wire_def)

end
