(* ===== verification/StatsManager.thy ===== *)
theory StatsManager
  imports Sending
begin

text \<open>
  \<open>src/app/stats_manager.{h,cc}\<close>: the application that asks every agent, once, for periodic statistics. The
  strings it makes from the RIB for the north-bound interface are in \<open>NorthApi\<close>.
\<close>

section \<open>The application\<close>

text \<open>\<open>agent_list_\<close>.\<close>

type_synonym stats_manager = "int set"

definition stats_request_out :: flexran_message where
  "stats_request_out =
     \<lparr>msg_dir = INITIATING_MESSAGE,
      msg_body = StatsRequestMsg
        \<lparr>sq_header = header FLPT_STATS_REQUEST (Some 0) 0,
         sq_type = FLST_COMPLETE_STATS,
         sq_complete_stats_request =
           \<lparr>cr_report_frequency = FLSRF_PERIODICAL, cr_sf = 4,
            cr_cell_report_flags = FLCST_NOISE_INTERFERENCE,
            cr_ue_report_flags = FLUST_PRH OR FLUST_DL_CQI OR FLUST_BSR OR FLUST_RLC_BS OR
              FLUST_MAC_CE_BS OR FLUST_UL_CQI\<rparr>\<rparr>\<rparr>"

definition request_stats :: "'q ext \<Rightarrow> stats_manager \<times> 'q updater \<Rightarrow> int \<Rightarrow> (stats_manager \<times> 'q updater) option" where
  "request_stats X = (\<lambda>(agent_list, u) agent_id.
     if agent_id \<in> agent_list then Some (agent_list, u)
     else do {
       u \<leftarrow> send_to X stats_request_out agent_id u;
       Some (insert agent_id agent_list, u) })"

definition stats_run_periodic_task :: "'q ext \<Rightarrow> stats_manager \<times> 'q updater \<Rightarrow> (stats_manager \<times> 'q updater) option" where
  "stats_run_periodic_task X st = foldo (request_stats X) st (get_available_agents (ru_rib (snd st)))"

section \<open>What a run sends\<close>

lemma request_stats_loop:
  assumes "ext_ok X contents" and "sendable X stats_request_out" and "distinct agents"
  shows "\<exists>u'. foldo (request_stats X) (agent_list, u) agents = Some (agent_list \<union> set agents, u') \<and>
     sends X contents (map (\<lambda>a. (a, stats_request_out)) (filter (\<lambda>a. a \<notin> agent_list) agents)) u u'"
  using assms(3)
proof (induction agents arbitrary: agent_list u)
  case Nil
  then show ?case by (simp add: sends_none)
next
  case (Cons a agents)
  show ?case
  proof (cases "a \<in> agent_list")
    case True
    then show ?thesis using Cons by (simp add: request_stats_def insert_absorb)
  next
    case False
    obtain v where v: "send_to X stats_request_out a u = Some v" "sends X contents [(a, stats_request_out)] u v"
      using send_to_sends [OF assms(1,2)] by blast
    obtain w where w: "foldo (request_stats X) (insert a agent_list, v) agents = Some (insert a agent_list \<union> set agents, w)"
      "sends X contents (map (\<lambda>a. (a, stats_request_out)) (filter (\<lambda>b. b \<notin> insert a agent_list) agents)) v w"
      using Cons.IH [of "insert a agent_list" v] Cons.prems by auto
    have "filter (\<lambda>b. b \<notin> insert a agent_list) agents = filter (\<lambda>b. b \<notin> agent_list) agents"
      using Cons.prems by (auto intro: filter_cong)
    then show ?thesis
      using False v(1) w sends_append [OF v(2) w(2)] by (simp add: request_stats_def)
  qed
qed

lemma stats_run_sends:
  assumes "ext_ok X contents" and "sendable X stats_request_out" and "rib_wf (ru_rib u)"
  shows "\<exists>u'. stats_run_periodic_task X (agent_list, u) = Some (agent_list \<union> set (get_available_agents (ru_rib u)), u') \<and>
     sends X contents (map (\<lambda>a. (a, stats_request_out))
       (filter (\<lambda>a. a \<notin> agent_list) (get_available_agents (ru_rib u)))) u u'"
  using request_stats_loop [OF assms(1,2)] available_agents_sorted [OF assms(3)]
  by (simp add: stats_run_periodic_task_def)

text \<open>
  C31: a run of the statistics manager asks exactly the agents it has not asked before, in the order of their
  numbers and as far as the output queue has room, and remembers all agents it has seen, those whose request found
  the queue full included: the run never faults, the RIB and the input queue stay as they are.
\<close>

theorem stats_asked_once:
  assumes "ext_ok X contents" and "sendable X stats_request_out" and "rib_wf (ru_rib u)"
  shows "\<exists>u'. stats_run_periodic_task X (asked, u) = Some (asked \<union> set (get_available_agents (ru_rib u)), u') \<and>
     ru_rib u' = ru_rib u \<and> in_contents contents u' = in_contents contents u \<and>
     out_contents contents u' = out_contents contents u @ take (room contents u)
       (map (\<lambda>a. wire X (a, stats_request_out)) (filter (\<lambda>a. a \<notin> asked) (get_available_agents (ru_rib u))))"
proof -
  obtain u' where u': "stats_run_periodic_task X (asked, u) = Some (asked \<union> set (get_available_agents (ru_rib u)), u')"
    "sends X contents (map (\<lambda>a. (a, stats_request_out))
       (filter (\<lambda>a. a \<notin> asked) (get_available_agents (ru_rib u)))) u u'"
    using stats_run_sends [OF assms(1-3)] by blast
  then show ?thesis using sends_same_view [OF u'(2)] by (simp add: sends_def comp_def)
qed

text \<open>Two agents, the first already asked.\<close>

definition two_agents :: "tagged_message list updater" where
  "two_agents = \<lparr>ru_rib = \<lparr>rb_eNB_configs = [(1, new_enb_rib_info zero_junk 0 1), (4, new_enb_rib_info zero_junk 0 4)],
     rb_pending_agents = {}\<rparr>, ru_net = new_network []\<rparr>"

lemma two_agents_facts:
  "rib_wf (ru_rib two_agents)" "get_available_agents (ru_rib two_agents) = [1, 4]"
  "sendable list_ext m" "room (\<lambda>q. q) two_agents = 10000" "nx_out_queue (ru_net two_agents) = []"
  by (auto simp: two_agents_def rib_wf_def sm_inv_def get_agent_def sm_find_def get_available_agents_def sm_keys_def
      enb_wf_new sendable_def list_ext_def room_def new_network_def queue_capacity_def split: flexran_body.split if_splits)

lemma stats_asked_witness:
  "\<exists>u'. stats_run_periodic_task list_ext ({1}, two_agents) = Some ({1, 4}, u') \<and>
     nx_out_queue (ru_net u') = [wire list_ext (4, stats_request_out)]"
  using stats_asked_once [OF ext_ok_list _ two_agents_facts(1), of "{1}"]
  by (auto simp: two_agents_facts insert_commute)

section \<open>The lost request\<close>

text \<open>
  An agent whose record appears while the output queue is full is never asked for statistics: the request is
  dropped, but the agent is remembered as asked, so that every later run, whatever the queue then holds, sends it
  nothing.
\<close>

lemma stats_request_lost:
  assumes "ext_ok X contents" and "sendable X stats_request_out" and "rib_wf (ru_rib u)"
    and "queue_capacity \<le> length (out_contents contents u)" and "a \<in> set (get_available_agents (ru_rib u))"
  shows "\<exists>asked' u'. stats_run_periodic_task X (asked, u) = Some (asked', u') \<and>
     out_contents contents u' = out_contents contents u \<and> a \<in> asked' \<and>
     (\<forall>v. request_stats X (asked', v) a = Some (asked', v))"
proof -
  obtain u' where u': "stats_run_periodic_task X (asked, u) = Some (asked \<union> set (get_available_agents (ru_rib u)), u')"
    "sends X contents (map (\<lambda>a. (a, stats_request_out))
       (filter (\<lambda>a. a \<notin> asked) (get_available_agents (ru_rib u)))) u u'"
    using stats_run_sends [OF assms(1-3)] by blast
  have "room contents u = 0" using assms(4) by (simp add: room_def)
  from sends_full [OF u'(2) this] u'(1) assms(5) show ?thesis by (auto simp: request_stats_def)
qed

definition full_updater :: "tagged_message list updater" where
  "full_updater = two_agents\<lparr>ru_net := (new_network [])\<lparr>nx_out_queue := replicate queue_capacity (sample_tagged 1 [])\<rparr>\<rparr>"

lemma stats_lost_witness:
  "\<exists>asked' u'. stats_run_periodic_task list_ext ({}, full_updater) = Some (asked', u') \<and>
     nx_out_queue (ru_net u') = nx_out_queue (ru_net full_updater) \<and> 4 \<in> asked' \<and>
     request_stats list_ext (asked', two_agents) 4 = Some (asked', two_agents)"
proof -
  have "ru_rib full_updater = ru_rib two_agents" by (simp add: full_updater_def)
  then show ?thesis
    using stats_request_lost [OF ext_ok_list, of full_updater 4 "{}"] two_agents_facts(1-3)
    by (fastforce simp: full_updater_def)
qed

end
