(* ===== verification/RibDump.thy ===== *)
theory RibDump
  imports Rib
begin

text \<open>
  The text dumps of the RIB: \<open>dump_stats\<close>, \<open>dump_mac_stats\<close>, \<open>dump_configs\<close> and their string versions in
  \<open>src/rib/ue_mac_rib_info.cc\<close>, \<open>enb_rib_info.cc\<close> and \<open>rib.cc\<close>. What protobuf's \<open>DebugString\<close> returns is the
  parameter \<open>debug\<close>. The versions that write to \<open>std::cout\<close> are the text they write.
\<close>

section \<open>Text\<close>

record debug =
  dbg_stats :: "flex_ue_stats_report \<Rightarrow> string"
  dbg_enb :: "flex_enb_config_reply \<Rightarrow> string"
  dbg_ue :: "flex_ue_config_reply \<Rightarrow> string"
  dbg_lc :: "flex_lc_config_reply \<Rightarrow> string"

abbreviation newline :: char where
  "newline \<equiv> CHR 0x0A"

text \<open>\<open>std::to_string\<close> and \<open>operator<<\<close>.\<close>

fun decimal :: "nat \<Rightarrow> string" where
  "decimal n = (if n < 10 then [char_of (48 + n)] else decimal (n div 10) @ [char_of (48 + n mod 10)])"

declare decimal.simps [simp del]

definition int_decimal :: "int \<Rightarrow> string" where
  "int_decimal i = (if i < 0 then CHR ''-'' # decimal (nat (- i)) else decimal (nat i))"

text \<open>\<open>str += i\<close> with an \<open>int\<close> converts it to a \<open>char\<close>.\<close>

definition appended_int :: "int \<Rightarrow> char" where
  "appended_int i = char_of (nat (i mod 256))"

section \<open>The dumps\<close>

definition harq_word :: "ue_mac_rib_info \<Rightarrow> nat \<Rightarrow> string option" where
  "harq_word u i = do {
     status \<leftarrow> aget3 (um_harq_stats u) 0 i 0;
     Some (if status = FLHS_ACK then '' | '' @ ''ACK'' else '' | '' @ ''NACK'') }"

definition harq_words :: "ue_mac_rib_info \<Rightarrow> string \<Rightarrow> string option" where
  "harq_words u str = foldo (\<lambda>str i. do { w \<leftarrow> harq_word u i; Some (str @ w) }) str [0..<8]"

definition dump_stats :: "debug \<Rightarrow> ue_mac_rib_info \<Rightarrow> string option" where
  "dump_stats D u = do {
     let out = ''Rnti: '' @ decimal (unat (um_rnti u)) @ [newline];
     let out = out @ dbg_stats D (um_mac_stats_report u) @ [newline];
     let out = out @ ''Harq status'' @ [newline];
     let out = out @ concat (map (\<lambda>i. ''  |  '' @ decimal i) [0..<8]);
     out \<leftarrow> harq_words u (out @ ''   |   '' @ [newline] @ '' '');
     Some (out @ ''  |'' @ [newline]) }"

definition dump_stats_to_string :: "debug \<Rightarrow> ue_mac_rib_info \<Rightarrow> string option" where
  "dump_stats_to_string D u = do {
     let str = ''Rnti: '' @ decimal (unat (um_rnti u)) @ [newline];
     let str = str @ dbg_stats D (um_mac_stats_report u) @ [newline];
     let str = str @ ''Harq status'' @ [newline];
     let str = str @ concat (map (\<lambda>i. ''  |   '' @ [appended_int (int i)]) [0..<8]);
     str \<leftarrow> harq_words u (str @ ''   |   '' @ [newline] @ '' '');
     Some (str @ ''  |'' @ [newline]) }"

definition enb_dump_mac_stats :: "debug \<Rightarrow> enb_rib_info \<Rightarrow> string option" where
  "enb_dump_mac_stats D e =
     foldo (\<lambda>out p. do { s \<leftarrow> dump_stats D (snd p); Some (out @ s) })
       (''UE MAC stats for agent '' @ int_decimal (en_agent_id e) @ [newline]) (en_ue_mac_info e)"

definition enb_dump_mac_stats_to_string :: "debug \<Rightarrow> enb_rib_info \<Rightarrow> string option" where
  "enb_dump_mac_stats_to_string D e =
     foldo (\<lambda>str p. do { s \<leftarrow> dump_stats_to_string D (snd p); Some (str @ s @ [newline]) })
       (''UE MAC stats for agent '' @ [appended_int (en_agent_id e)] @ [newline]) (en_ue_mac_info e)"

definition dump_configs :: "debug \<Rightarrow> enb_rib_info \<Rightarrow> string" where
  "dump_configs D e = dbg_enb D (en_eNB_config e) @ [newline] @ dbg_ue D (en_ue_config e) @ [newline] @
     dbg_lc D (en_lc_config e) @ [newline]"

definition dump_configs_to_string :: "debug \<Rightarrow> enb_rib_info \<Rightarrow> string" where
  "dump_configs_to_string D e = dbg_enb D (en_eNB_config e) @ [newline] @ dbg_ue D (en_ue_config e) @ [newline] @
     dbg_lc D (en_lc_config e) @ [newline]"

definition dump_mac_stats :: "debug \<Rightarrow> rib \<Rightarrow> string option" where
  "dump_mac_stats D r =
     foldo (\<lambda>out p. do { s \<leftarrow> enb_dump_mac_stats D (snd p); Some (out @ s) }) [] (rb_eNB_configs r)"

definition dump_mac_stats_to_string :: "debug \<Rightarrow> rib \<Rightarrow> string option" where
  "dump_mac_stats_to_string D r =
     foldo (\<lambda>str p. do { s \<leftarrow> enb_dump_mac_stats_to_string D (snd p); Some (str @ s @ [newline]) }) [] (rb_eNB_configs r)"

definition dump_enb_configurations :: "debug \<Rightarrow> rib \<Rightarrow> string" where
  "dump_enb_configurations D r = concat (map (\<lambda>p. dump_configs D (snd p)) (rb_eNB_configs r))"

definition dump_enb_configurations_to_string :: "debug \<Rightarrow> rib \<Rightarrow> string" where
  "dump_enb_configurations_to_string D r =
     concat (map (\<lambda>p. dump_configs_to_string D (snd p) @ [newline]) (rb_eNB_configs r))"

section \<open>The dumps never fault\<close>

lemma harq_words_total: "ue_mac_wf u \<Longrightarrow> \<exists>w. harq_words u str = Some (str @ w)"
proof -
  assume wf: "ue_mac_wf u"
  have "\<exists>str'. harq_words u str = Some str' \<and> (\<exists>w. str' = str @ w)"
    unfolding harq_words_def
  proof (rule foldo_total)
    show "\<exists>w. str = str @ w" by (rule exI [of _ "[]"]) simp
    fix s i assume "i \<in> set [0..<8 :: nat]" and s: "\<exists>w. s = str @ w"
    then have "\<exists>v. harq_word u i = Some v" using wf by (simp add: harq_word_def arr_simps)
    then show "\<exists>s'. (do { w \<leftarrow> harq_word u i; Some (s @ w) }) = Some s' \<and> (\<exists>w. s' = str @ w)" using s by auto
  qed
  then show ?thesis by auto
qed

lemma dump_stats_shape:
  assumes "ue_mac_wf u"
  shows "\<exists>t. dump_stats_to_string D u = Some (''Rnti: '' @ decimal (unat (um_rnti u)) @ newline # t)"
proof -
  have "\<exists>w. harq_words u str = Some (str @ w)" for str by (rule harq_words_total [OF assms])
  then obtain w where "\<And>str. harq_words u str = Some (str @ w str)" by metis
  then show ?thesis by (simp add: dump_stats_to_string_def Let_def)
qed

lemma find_entry: "sm_inv m \<Longrightarrow> p \<in> set m \<Longrightarrow> sm_find m (fst p) = Some (snd p)"
  by (simp add: sm_find_def sm_inv_def strict_sorted_iff)

lemma enb_dump_total:
  assumes "enb_wf e"
  shows "\<exists>s. enb_dump_mac_stats_to_string D e = Some s"
proof -
  have "\<exists>s. dump_stats_to_string D (snd p) = Some s" if "p \<in> set (en_ue_mac_info e)" for p
  proof -
    have "sm_find (en_ue_mac_info e) (fst p) = Some (snd p)"
      by (rule find_entry [OF enb_wfD(1) [OF assms] that])
    then show ?thesis using enb_wfD(2) [OF assms] dump_stats_shape by blast
  qed
  then have "\<exists>s. enb_dump_mac_stats_to_string D e = Some s \<and> True"
    unfolding enb_dump_mac_stats_to_string_def by (intro foldo_total) fastforce+
  then show ?thesis by blast
qed

lemma dump_mac_stats_total:
  assumes "rib_wf r"
  shows "\<exists>s. dump_mac_stats_to_string D r = Some s"
proof -
  have "\<exists>s. enb_dump_mac_stats_to_string D (snd p) = Some s" if "p \<in> set (rb_eNB_configs r)" for p
  proof -
    have "get_agent r (fst p) = Some (snd p)"
      using find_entry [OF rib_wfD(1) [OF assms] that] by (simp add: get_agent_def)
    then show ?thesis using rib_wfD(2) [OF assms] enb_dump_total by blast
  qed
  then have "\<exists>s. dump_mac_stats_to_string D r = Some s \<and> True"
    unfolding dump_mac_stats_to_string_def by (intro foldo_total) fastforce+
  then show ?thesis by blast
qed

section \<open>Reading a dump back\<close>

definition of_decimal :: "string \<Rightarrow> nat" where
  "of_decimal s = foldl (\<lambda>n c. 10 * n + (of_char c - 48)) 0 s"

lemma of_char_digit: "n < 10 \<Longrightarrow> (of_char (char_of (48 + n :: nat)) :: nat) = 48 + n"
  by simp

lemma of_decimal_decimal: "of_decimal (decimal n) = n"
proof (induction n rule: decimal.induct)
  case (1 n)
  show ?case
  proof (cases "n < 10")
    case False
    have "of_decimal (decimal n) = 10 * of_decimal (decimal (n div 10)) + n mod 10"
      using False by (subst decimal.simps) (simp add: of_decimal_def)
    then show ?thesis using 1 False by simp
  qed (subst decimal.simps, simp add: of_decimal_def)
qed

lemma digit_not_newline: "n < 10 \<Longrightarrow> char_of (48 + n :: nat) \<noteq> newline"
proof
  assume "n < 10" "char_of (48 + n) = newline"
  then have "(of_char (char_of (48 + n :: nat)) :: nat) = of_char newline" by simp
  with \<open>n < 10\<close> show False by simp
qed

lemma decimal_not_newline: "newline \<notin> set (decimal n)"
proof (induction n rule: decimal.induct)
  case (1 n)
  have "char_of (48 + n mod 10) \<noteq> newline" by (rule digit_not_newline) simp
  then show ?case using 1 digit_not_newline [of n] by (subst decimal.simps) auto
qed

definition dumped_rnti :: "string \<Rightarrow> nat" where
  "dumped_rnti s = of_decimal (takeWhile (\<lambda>c. c \<noteq> newline) (drop 6 s))"

text \<open>
  The dump of the MAC record of a UE never faults, and the RNTI of the UE can be read back from its first
  line, whatever protobuf prints of the report.
\<close>

lemma dump_names_rnti:
  assumes "ue_mac_wf u"
  shows "\<exists>s. dump_stats_to_string D u = Some s \<and> dumped_rnti s = unat (um_rnti u)"
proof -
  obtain t where t: "dump_stats_to_string D u = Some (''Rnti: '' @ decimal (unat (um_rnti u)) @ newline # t)"
    using dump_stats_shape [OF assms] by blast
  have "takeWhile (\<lambda>c. c \<noteq> newline) (decimal n @ newline # xs) = decimal n" for n xs
    using decimal_not_newline [of n] by (subst takeWhile_append2) auto
  then have "dumped_rnti (''Rnti: '' @ decimal (unat (um_rnti u)) @ newline # t) = unat (um_rnti u)"
    by (simp add: dumped_rnti_def of_decimal_decimal)
  with t show ?thesis by blast
qed

lemma dump_names_rnti_witness:
  "\<exists>s. dump_stats_to_string \<lparr>dbg_stats = \<lambda>_. ''flags: 1'', dbg_enb = \<lambda>_. [], dbg_ue = \<lambda>_. [], dbg_lc = \<lambda>_. []\<rparr>
        (new_ue_mac_rib_info 0 4660) = Some s \<and> dumped_rnti s = 4660"
  using dump_names_rnti [OF ue_mac_wf_new [of 0 4660]] by (simp add: new_ue_mac_rib_info_def)

text \<open>
  The heading of an agent's dump does not identify the agent: \<open>str += agent_id_\<close> appends the character with
  that code, so the dumps of two agents whose numbers differ by 256 are the same text.
\<close>

lemma dump_heading_ambiguous:
  "enb_dump_mac_stats_to_string D (e\<lparr>en_agent_id := a + 256\<rparr>) = enb_dump_mac_stats_to_string D (e\<lparr>en_agent_id := a\<rparr>)"
  by (simp add: enb_dump_mac_stats_to_string_def appended_int_def)

end
