(* ===== verification/NorthApi.thy ===== *)
theory NorthApi
  imports FlexScheduler StatsManager RibDump
begin

text \<open>
  The north-bound interface: \<open>src/north_api/flexible_sched_calls.cc\<close> and \<open>stats_manager_calls.cc\<close>, the handlers
  of the REST calls on the scheduling application and the statistics manager. Pistache's parsing of the request is
  done when a call arrives here; a call is one step.
\<close>

section \<open>Calls\<close>

datatype http_code = Http_Ok | Http_Not_Found | Http_Method_Not_Allowed

type_synonym response = "http_code \<times> string"

datatype north_call =
    ChangeScheduler int
  | ApplyPolicy string
  | ApplyPolicyString "u8 list"
  | ObtainStats string

definition change_scheduler :: "'q ext \<Rightarrow> host \<Rightarrow> int \<Rightarrow> 'q app_state \<Rightarrow> (response \<times> 'q app_state) option" where
  "change_scheduler X H sched_type st =
     (if sched_type = 0
      then do { st \<leftarrow> enable_central_scheduling X H False st; Some ((Http_Ok, ''Loaded Local Scheduler''), st) }
      else if sched_type = 1
      then do { st \<leftarrow> enable_central_scheduling X H True st; Some ((Http_Ok, ''Loaded Remote Scheduler''), st) }
      else Some ((Http_Not_Found, ''Scheduler type does not exist''), st))"

definition apply_policy :: "'q ext \<Rightarrow> host \<Rightarrow> string \<Rightarrow> 'q app_state \<Rightarrow> (response \<times> 'q app_state) option" where
  "apply_policy X H policy_name st =
     (if policy_name \<noteq> []
      then do {
        (done, st) \<leftarrow> apply_agent_rrm_policy X H policy_name st;
        Some (if done then (Http_Ok, ''Set the policy to the agent'' @ [newline])
              else (Http_Method_Not_Allowed, ''Agent-side scheduling is currently inactive'' @ [newline]), st) }
      else Some ((Http_Not_Found, ''Policy not set'' @ [newline]), st))"

definition apply_policy_string :: "'q ext \<Rightarrow> u8 list \<Rightarrow> 'q app_state \<Rightarrow> (response \<times> 'q app_state) option" where
  "apply_policy_string X policy st =
     (if length policy \<noteq> 0
      then do {
        (done, st) \<leftarrow> apply_agent_rrm_policy_string X policy st;
        Some (if done then (Http_Ok, ''Set the policy to the agent'' @ [newline])
              else (Http_Method_Not_Allowed,
                ''Agent-side scheduling is currently inactive. Cannot set policy'' @ [newline]), st) }
      else Some ((Http_Not_Found, ''No policy defined in request'' @ [newline]), st))"

section \<open>Statistics as text\<close>

definition enb_config_to_string :: "debug \<Rightarrow> rib \<Rightarrow> string" where
  "enb_config_to_string D r =
     ''*********************'' @ [newline] @ ''Agent Configurations'' @ [newline] @
     ''*********************'' @ [newline] @ dump_enb_configurations_to_string D r"

definition mac_config_to_string :: "debug \<Rightarrow> rib \<Rightarrow> string option" where
  "mac_config_to_string D r = do {
     s \<leftarrow> dump_mac_stats_to_string D r;
     Some (''***************'' @ [newline] @ ''MAC statistics'' @ [newline] @ ''****************'' @ [newline] @ s) }"

definition all_stats_to_string :: "debug \<Rightarrow> rib \<Rightarrow> string option" where
  "all_stats_to_string D r = do {
     s \<leftarrow> mac_config_to_string D r;
     Some (enb_config_to_string D r @ [newline, newline, newline] @ s @ [newline]) }"

definition obtain_stats :: "debug \<Rightarrow> string \<Rightarrow> rib \<Rightarrow> response option" where
  "obtain_stats D stats_type r =
     (if stats_type = ''all'' then map_option (Pair Http_Ok) (all_stats_to_string D r)
      else if stats_type = ''enb_config'' then Some (Http_Ok, enb_config_to_string D r)
      else if stats_type = ''mac_stats'' then map_option (Pair Http_Ok) (mac_config_to_string D r)
      else Some (Http_Not_Found, ''Statistics type does not exist''))"

fun handle_call :: "'q ext \<Rightarrow> host \<Rightarrow> debug \<Rightarrow> north_call \<Rightarrow> 'q app_state \<Rightarrow> (response \<times> 'q app_state) option" where
  "handle_call X H D (ChangeScheduler t) st = change_scheduler X H t st"
| "handle_call X H D (ApplyPolicy name) st = apply_policy X H name st"
| "handle_call X H D (ApplyPolicyString policy) st = apply_policy_string X policy st"
| "handle_call X H D (ObtainStats t) st = map_option (\<lambda>resp. (resp, st)) (obtain_stats D t (ru_rib (snd st)))"

section \<open>What the applications send on a call\<close>

lemma for_agents_sends:
  assumes "\<And>a u. \<exists>u'. f a u = Some u' \<and> sends X contents (g a) u u'"
  shows "\<exists>u'. for_agents f u = Some u' \<and>
     sends X contents (concat (map g (get_available_agents (ru_rib u)))) u u'"
  unfolding for_agents_def by (rule foldo_sends) (use assms in blast)

definition file_policy :: "host \<Rightarrow> string \<Rightarrow> int \<Rightarrow> (int \<times> flexran_message) list" where
  "file_policy H name a =
     (case read_nonempty H name of None \<Rightarrow> [] | Some policy \<Rightarrow> [(a, reconfiguration_out policy)])"

lemma reconfigure_file_sends:
  assumes "ext_ok X contents" and "\<And>m. sendable X m"
  shows "\<exists>u'. reconfigure_agent_file X H a name u = Some u' \<and> sends X contents (file_policy H name a) u u'"
  using send_to_sends [OF assms]
  by (auto simp: reconfigure_agent_file_def reconfigure_agent_string_def file_policy_def sends_none split: option.split)

lemma reconfigure_string_sends:
  assumes "ext_ok X contents" and "\<And>m. sendable X m"
  shows "\<exists>u'. reconfigure_agent_string X a policy u = Some u' \<and> sends X contents [(a, reconfiguration_out policy)] u u'"
  using send_to_sends [OF assms] by (simp add: reconfigure_agent_string_def)

lemma all_files_send:
  assumes "ext_ok X contents" and "\<And>m. sendable X m"
  shows "\<exists>u'. for_agents (\<lambda>a. reconfigure_agent_file X H a name) u = Some u' \<and>
     sends X contents (concat (map (file_policy H name) (get_available_agents (ru_rib u)))) u u'"
  by (rule for_agents_sends, rule reconfigure_file_sends [OF assms])

lemma all_strings_send:
  assumes "ext_ok X contents" and "\<And>m. sendable X m"
  shows "\<exists>u'. for_agents (\<lambda>a. reconfigure_agent_string X a policy) u = Some u' \<and>
     sends X contents (map (\<lambda>a. (a, reconfiguration_out policy)) (get_available_agents (ru_rib u))) u u'"
proof -
  have one: "concat (map (\<lambda>a. [(a, reconfiguration_out policy)]) as) = map (\<lambda>a. (a, reconfiguration_out policy)) as" for as
    by (induction as) simp_all
  show ?thesis
    by (subst one [symmetric], rule for_agents_sends, rule reconfigure_string_sends [OF assms])
qed

definition scheduler_policy :: "bool \<Rightarrow> string" where
  "scheduler_policy central = (if central then ''remote_policy.yaml'' else ''local_policy.yaml'')"

lemma enable_central_sends:
  assumes "ext_ok X contents" and "\<And>m. sendable X m"
  shows "\<exists>u'. enable_central_scheduling X H b (app, u) = Some (app\<lparr>fs_central_scheduling := b\<rparr>, u') \<and>
     sends X contents (concat (map (file_policy H (delegation_path H @ scheduler_policy b))
       (get_available_agents (ru_rib u)))) u u'"
  using all_files_send [OF assms, of H "delegation_path H @ scheduler_policy b" u]
  by (auto simp: enable_central_scheduling_def scheduler_policy_def Let_def)

text \<open>
  C25: a policy in the body of a request reaches the agents exactly when the agents schedule themselves: then each
  agent is sent one reconfiguration with that policy, as far as the queue has room, and the answer is 200; under
  central scheduling nothing is sent and the answer is 405; an empty policy is answered with 404 and sends nothing.
  The answer does not tell whether the queue had room.
  The call never faults and changes neither the RIB nor the scheduler's mode.
\<close>

theorem policy_reaches_agents:
  assumes "ext_ok X contents" and "\<And>m. sendable X m"
  shows "\<exists>code text u'. apply_policy_string X policy (app, u) = Some ((code, text), app, u') \<and> ru_rib u' = ru_rib u \<and>
     code = (if policy = [] then Http_Not_Found
             else if fs_central_scheduling app then Http_Method_Not_Allowed else Http_Ok) \<and>
     out_contents contents u' = out_contents contents u @
       (if code = Http_Ok
        then take (room contents u)
          (map (\<lambda>a. wire X (a, reconfiguration_out policy)) (get_available_agents (ru_rib u)))
        else [])"
proof (cases "policy = [] \<or> fs_central_scheduling app")
  case True
  then show ?thesis by (auto simp: apply_policy_string_def apply_agent_rrm_policy_string_def)
next
  case False
  obtain u' where u': "for_agents (\<lambda>a. reconfigure_agent_string X a policy) u = Some u'"
    "sends X contents (map (\<lambda>a. (a, reconfiguration_out policy)) (get_available_agents (ru_rib u))) u u'"
    using all_strings_send [OF assms] by blast
  then show ?thesis
    using False u' by (simp add: apply_policy_string_def apply_agent_rrm_policy_string_def sends_def comp_def)
qed

lemma policy_reaches_witness:
  "\<exists>text u'. apply_policy_string list_ext [109, 97, 99] (new_flexible_scheduler, two_agents) =
       Some ((Http_Ok, text), new_flexible_scheduler, u') \<and>
     nx_out_queue (ru_net u') = map (\<lambda>a. wire list_ext (a, reconfiguration_out [109, 97, 99])) [1, 4]"
  using policy_reaches_agents [OF ext_ok_list two_agents_facts(3), of "[109, 97, 99]" new_flexible_scheduler two_agents]
  by (auto simp: two_agents_facts new_flexible_scheduler_def)

section \<open>Calls keep what the tasks rely on\<close>

lemma handle_call_safe:
  assumes "ext_ok X contents" and "\<And>m. sendable X m" and "rib_wf (ru_rib u)"
  shows "\<exists>resp app' u'. handle_call X H D call (app, u) = Some (resp, app', u') \<and> ru_rib u' = ru_rib u \<and>
     in_contents contents u' = in_contents contents u \<and> fs_scheduling_info app' = fs_scheduling_info app"
proof (cases call)
  case (ChangeScheduler t)
  then show ?thesis
    using enable_central_sends [OF assms(1,2), of H True app u] enable_central_sends [OF assms(1,2), of H False app u]
    by (auto simp: change_scheduler_def sends_def)
next
  case (ApplyPolicy name)
  then show ?thesis
    using all_files_send [OF assms(1,2), of H "delegation_path H @ name" u]
    by (auto simp: apply_policy_def apply_agent_rrm_policy_def sends_def)
next
  case (ApplyPolicyString policy)
  then show ?thesis
    using all_strings_send [OF assms(1,2), of policy u]
    by (auto simp: apply_policy_string_def apply_agent_rrm_policy_string_def sends_def)
next
  case (ObtainStats t)
  obtain s where "mac_config_to_string D (ru_rib u) = Some s" "all_stats_to_string D (ru_rib u) \<noteq> None"
    using dump_mac_stats_total [OF assms(3), of D] by (auto simp: all_stats_to_string_def mac_config_to_string_def)
  then have "\<exists>resp. obtain_stats D t (ru_rib u) = Some resp" by (auto simp: obtain_stats_def)
  then show ?thesis using ObtainStats by auto
qed

text \<open>
  C26: a switch of the scheduler is announced: for type 0 or 1 the flag that the periodic task reads is set
  accordingly, and every agent is sent the policy file of that mode, if it can be read and as far as the output queue
  has room; any other number is answered with 404 and changes nothing. The call never faults.
\<close>

theorem scheduler_switch:
  assumes "ext_ok X contents" and "\<And>m. sendable X m"
  shows "\<exists>code text app' u'. change_scheduler X H t (app, u) = Some ((code, text), app', u') \<and>
     (code, app') = (if t = 0 then (Http_Ok, app\<lparr>fs_central_scheduling := False\<rparr>)
                     else if t = 1 then (Http_Ok, app\<lparr>fs_central_scheduling := True\<rparr>)
                     else (Http_Not_Found, app)) \<and>
     sends X contents
       (if code = Http_Ok
        then concat (map (file_policy H (delegation_path H @ scheduler_policy (t = 1))) (get_available_agents (ru_rib u)))
        else []) u u'"
  using enable_central_sends [OF assms, of H True app u] enable_central_sends [OF assms, of H False app u]
  by (auto simp: change_scheduler_def sends_none)

lemma scheduler_switch_witness:
  "\<exists>code text app' u'. change_scheduler list_ext \<lparr>ho_env = None, ho_file = \<lambda>_. Some [7]\<rparr> 1
       (new_flexible_scheduler, two_agents) = Some ((code, text), app', u') \<and>
     fs_central_scheduling app' \<and>
     nx_out_queue (ru_net u') = map (\<lambda>a. wire list_ext (a, reconfiguration_out [7])) [1, 4]"
  using scheduler_switch [OF ext_ok_list two_agents_facts(3),
      of "\<lparr>ho_env = None, ho_file = \<lambda>_. Some [7]\<rparr>" 1 new_flexible_scheduler two_agents]
  by (auto simp: two_agents_facts sends_def file_policy_def read_nonempty_def to_i32_def)

end
