(* ===== verification/Controller.thy ===== *)
theory Controller
  imports AgentSound NorthApi
begin

text \<open>
  The controller as a whole: the task manager's cycle (\<open>src/core/task_manager.cc\<close>) over the updater and the two
  applications that \<open>src/core/rt_controller.cc\<close> registers, with the calls of the north-bound interface and the
  network in between. An application's run is one step; the threads of a cycle run in any order.
\<close>

section \<open>State and cycle\<close>

record 'q controller =
  ct_up :: "'q updater"
  ct_stats :: stats_manager
  ct_flex :: flexible_scheduler

datatype app = Stats_app | Flex_app

text \<open>\<open>main\<close>: the applications in the order of their registration.\<close>

definition registered_apps :: "app list" where
  "registered_apps = [Stats_app, Flex_app]"

definition new_controller :: "'q network \<Rightarrow> 'q controller" where
  "new_controller n = \<lparr>ct_up = \<lparr>ru_rib = new_rib, ru_net = n\<rparr>, ct_stats = {}, ct_flex = new_flexible_scheduler\<rparr>"

definition run_app :: "(ue_stats list \<Rightarrow> ue_stats list) \<Rightarrow> junk \<Rightarrow> 'q ext \<Rightarrow> host \<Rightarrow> 'q controller \<Rightarrow> app \<Rightarrow>
    'q controller option" where
  "run_app srt jk X H ct a =
     (case a of
        Stats_app \<Rightarrow> do {
          (agents, u) \<leftarrow> stats_run_periodic_task X (ct_stats ct, ct_up ct);
          Some (ct\<lparr>ct_up := u, ct_stats := agents\<rparr>) }
      | Flex_app \<Rightarrow> do {
          (app, u) \<leftarrow> flex_run_periodic_task srt jk X H (ct_flex ct, ct_up ct);
          Some (ct\<lparr>ct_up := u, ct_flex := app\<rparr>) })"

text \<open>The array of the threads has 100 entries.\<close>

definition manage_rt_tasks :: "(ue_stats list \<Rightarrow> ue_stats list) \<Rightarrow> junk \<Rightarrow> 'q ext \<Rightarrow> host \<Rightarrow> (nat \<Rightarrow> int) \<Rightarrow>
    app list \<Rightarrow> 'q controller \<Rightarrow> 'q controller option" where
  "manage_rt_tasks srt jk X H clk apps ct = do {
     u \<leftarrow> update_rib X jk clk default_messages_to_check (ct_up ct);
     if length apps > 100 then None else foldo (run_app srt jk X H) (ct\<lparr>ct_up := u\<rparr>) apps }"

lemma cycle_apps: "manage_rt_tasks srt jk X H clk apps ct = Some ct' \<Longrightarrow> length apps \<le> 100"
  by (auto simp: manage_rt_tasks_def Option.bind_eq_Some_conv split: if_splits)

definition north_call :: "'q ext \<Rightarrow> host \<Rightarrow> debug \<Rightarrow> north_call \<Rightarrow> 'q controller \<Rightarrow> (response \<times> 'q controller) option" where
  "north_call X H D call ct = do {
     (resp, app, u) \<leftarrow> handle_call X H D call (ct_flex ct, ct_up ct);
     Some (resp, ct\<lparr>ct_up := u, ct_flex := app\<rparr>) }"

section \<open>The invariant\<close>

definition rib_sound :: "rib \<Rightarrow> bool" where
  "rib_sound r \<longleftrightarrow> sm_inv (rb_eNB_configs r) \<and> (\<forall>a e. get_agent r a = Some e \<longrightarrow> agent_sound e)"

definition ctl_sound :: "'q controller \<Rightarrow> bool" where
  "ctl_sound ct \<longleftrightarrow> rib_sound (ru_rib (ct_up ct)) \<and> infos_ok (fs_scheduling_info (ct_flex ct))"

lemma rib_soundD:
  assumes "rib_sound r"
  shows "rib_wf r" and "rib_ready r" and "get_agent r a = Some e \<Longrightarrow> agent_sound e"
  using assms agent_sound_ready by (auto simp: rib_sound_def rib_wf_def rib_ready_def agent_sound_def)

lemma ctl_sound_new: "ctl_sound (new_controller n)"
  using rib_wf_new_rib
  by (simp add: ctl_sound_def new_controller_def rib_sound_def rib_wf_def infos_ok_def new_flexible_scheduler_def
      sm.inv_empty sm.find_empty)

section \<open>The updater keeps the RIB sound\<close>

definition message_in_range :: "'q ext \<Rightarrow> 'q updater \<Rightarrow> tagged_message \<Rightarrow> bool" where
  "message_in_range X u tm \<longleftrightarrow>
     (case tagged_event X tm of
        None \<Rightarrow> True
      | Some (EnbConfig r) \<Rightarrow> cells_in_range (er_cell_config r)
      | Some ev \<Rightarrow> (case get_agent (ru_rib u) (tm_tag tm) of None \<Rightarrow> True | Some e \<Rightarrow> event_in_range e ev))"

lemma agent_spec_sound:
  assumes "\<And>e. old = Some e \<Longrightarrow> agent_sound e"
    and "\<And>e v. old = Some e \<Longrightarrow> ev = Some v \<Longrightarrow> event_in_range e v"
    and "\<And>r. ev = Some (EnbConfig r) \<Longrightarrow> cells_in_range (er_cell_config r)"
  shows "\<exists>new. agent_spec jk now a p ev old = Some new \<and> (\<forall>e. new = Some e \<longrightarrow> agent_sound e)"
proof (cases ev)
  case None
  then show ?thesis using assms(1) by simp
next
  case (Some v)
  have step: "\<exists>f. enb_step jk now e v = Some f \<and> agent_sound f" if "old = Some e" for e
    using enb_step_sound assms(1,2) that Some by blast
  show ?thesis
  proof (cases "\<exists>r. v = EnbConfig r")
    case True
    then obtain r where r: "v = EnbConfig r" by blast
    then have "cells_in_range (er_cell_config r)" using assms(3) Some by blast
    from created_sound [OF this, of now jk a] show ?thesis
      using Some r step assms(1) by (cases old) (auto split: if_splits)
  next
    case False
    then show ?thesis using Some step by (cases old) auto
  qed
qed

lemma handle_tagged_sound:
  assumes "rib_sound (ru_rib u)" and "can_send X" and "message_in_range X u tm"
  shows "\<exists>u'. handle_tagged X jk now tm u = Some u' \<and> rib_sound (ru_rib u')"
proof -
  note wf = rib_soundD(1) [OF assms(1)]
  let ?a = "tm_tag tm"
  have "\<exists>new. agent_spec jk now ?a (agent_is_pending (ru_rib u) ?a) (tagged_event X tm) (get_agent (ru_rib u) ?a) = Some new \<and>
      (\<forall>e. new = Some e \<longrightarrow> agent_sound e)"
  proof (rule agent_spec_sound)
    show "agent_sound e" if "get_agent (ru_rib u) ?a = Some e" for e using rib_soundD(3) [OF assms(1) that] .
    show "event_in_range e v" if "get_agent (ru_rib u) ?a = Some e" "tagged_event X tm = Some v" for e v
      using assms(3) that by (cases v) (simp_all add: message_in_range_def)
    show "cells_in_range (er_cell_config r)" if "tagged_event X tm = Some (EnbConfig r)" for r
      using assms(3) that by (simp add: message_in_range_def)
  qed
  then obtain u' where u': "handle_tagged X jk now tm u = Some u'"
    "\<And>e. get_agent (ru_rib u') ?a = Some e \<Longrightarrow> agent_sound e"
    using handle_tagged_view [OF wf assms(2), of tm jk now] by (cases "handle_tagged X jk now tm u") auto
  have "agent_sound e" if "get_agent (ru_rib u') b = Some e" for b e
    using that u'(2) handle_tagged_touches [OF u'(1)] wf rib_soundD(3) [OF assms(1)]
    by (cases "b = ?a") (auto simp: touches_def)
  moreover have "sm_inv (rb_eNB_configs (ru_rib u'))"
    using handle_tagged_touches [OF u'(1)] wf by (simp add: touches_def rib_wf_def)
  ultimately show ?thesis using u'(1) by (simp add: rib_sound_def)
qed

text \<open>All messages that a run of the updater handles are in range when their turn comes.\<close>

fun run_in_range :: "'q ext \<Rightarrow> junk \<Rightarrow> (nat \<Rightarrow> int) \<Rightarrow> nat \<Rightarrow> 'q updater \<Rightarrow> bool" where
  "run_in_range X jk clk 0 u \<longleftrightarrow> True"
| "run_in_range X jk clk (Suc k) u \<longleftrightarrow>
     (case get_msg_from_network X (ru_net u) of
        None \<Rightarrow> True
      | Some (tm, n) \<Rightarrow> message_in_range X (u\<lparr>ru_net := n\<rparr>) tm \<and>
          (case handle_tagged X jk (clk (Suc k)) tm (u\<lparr>ru_net := n\<rparr>) of
             None \<Rightarrow> True | Some u \<Rightarrow> run_in_range X jk clk k u))"

lemma update_loop_sound:
  assumes "can_send X"
  shows "rib_sound (ru_rib u) \<Longrightarrow> run_in_range X jk clk k u \<Longrightarrow>
     \<exists>u'. update_loop X jk clk k u = Some u' \<and> rib_sound (ru_rib u')"
proof (induction k arbitrary: u)
  case 0
  then show ?case by (subst update_loop.simps) (auto split: option.splits)
next
  case (Suc k)
  show ?case
  proof (cases "get_msg_from_network X (ru_net u)")
    case None
    then show ?thesis using Suc.prems by (subst update_loop.simps) simp
  next
    case (Some p)
    then obtain tm n where p: "get_msg_from_network X (ru_net u) = Some (tm, n)" by (cases p) simp
    let ?u = "u\<lparr>ru_net := n\<rparr>"
    obtain v where v: "handle_tagged X jk (clk (Suc k)) tm ?u = Some v" "rib_sound (ru_rib v)"
      using handle_tagged_sound [OF _ assms, of ?u tm] Suc.prems p by auto
    moreover have "run_in_range X jk clk k v" using Suc.prems(2) p v(1) by simp
    ultimately obtain u' where u': "update_loop X jk clk k v = Some u'" "rib_sound (ru_rib u')"
      using Suc.IH by blast
    have "update_loop X jk clk (Suc k) u = Some u'"
      by (subst update_loop.simps) (simp add: p v(1) u'(1) del: update_loop.simps)
    then show ?thesis using u'(2) by blast
  qed
qed

section \<open>The applications keep the RIB sound\<close>

lemma rib_sound_put:
  assumes "rib_sound (ru_rib u)" and "agent_sound e"
  shows "rib_sound (ru_rib (put_agent a e u))"
  using assms by (auto simp: rib_sound_def put_agent_def get_agent_def sm.inv_put sm.find_put split: if_splits)

lemma central_agent_sound:
  assumes "std_sort srt" and "run_inv agents (app, vars, u)" and "rib_sound (ru_rib u)"
    and "central_agent srt jk X (app, vars, u) a = Some (app', vars', u')"
  shows "rib_sound (ru_rib u')"
proof -
  have infos: "infos_ok (fs_scheduling_info app)" and agg: "lv_aggregation vars \<le> 3"
    using assms(2) by (simp_all add: run_inv_def)
  obtain e where e: "get_agent (ru_rib u) a = Some e"
    using assms(4) by (auto simp: central_agent_def Option.bind_eq_Some_conv)
  obtain s where s: "sm_find (ensure_scheduling_info jk a (fs_scheduling_info app)) a = Some s" "sched_ok s"
    using ensure_info_ok(2) [OF infos] by blast
  obtain tf tsf where t: "target_time 0 (en_current_frame e) (en_current_subframe e) = (tf, tsf)" by fastforce
  show ?thesis
  proof (cases "\<not> needs_scheduling s (en_current_frame e) (en_current_subframe e) \<or> tsf = 0 \<or> tsf = 5")
    case True
    then show ?thesis using assms(3,4) e s(1) t by (simp add: central_agent_def Let_def)
  next
    case False
    then obtain st v where st: "schedule_agent srt tf tsf e s vars = Some st"
      and v: "(if fl_data st \<noteq> [] then send_to X (dl_mac_config_out tf tsf (fl_data st)) a (put_agent a (fl_enb st) u)
               else Some (put_agent a (fl_enb st) u)) = Some v" and u': "u' = v"
      using assms(4) e s(1) t by (auto simp: central_agent_def Let_def Option.bind_eq_Some_conv)
    have "agent_sound (fl_enb st)"
      using schedule_agent_sound [OF assms(1) _ s(2) _ _ agg st] rib_soundD(3) [OF assms(3) e] False by blast
    from rib_sound_put [OF assms(3) this] show ?thesis
      using v send_to_frame(1) by (fastforce simp: u' split: if_splits)
  qed
qed

lemma central_run_sound:
  fixes u :: "'q updater"
  assumes "std_sort srt" and "\<And>m. sendable X m" and "rib_sound (ru_rib u)" and "infos_ok (fs_scheduling_info app)"
  shows "run_central_scheduler srt jk X (app, u) = None \<longleftrightarrow> \<not> due_untied jk (fs_scheduling_info app) (ru_rib u)"
    and "run_central_scheduler srt jk X (app, u) = Some (app', u') \<Longrightarrow>
      rib_sound (ru_rib u') \<and> infos_ok (fs_scheduling_info app')"
proof -
  note ready = rib_soundD(2) [OF assms(3)]
  show "run_central_scheduler srt jk X (app, u) = None \<longleftrightarrow> \<not> due_untied jk (fs_scheduling_info app) (ru_rib u)"
    by (rule central_run_fault [OF assms(1,2) ready assms(4)])
  let ?agents = "get_available_agents (ru_rib u)"
  let ?st = "(app, start_vars jk (fs_tpc_accumulated app), u)"
  let ?I = "\<lambda>st. run_inv ?agents st \<and> rib_sound (ru_rib (snd (snd st)))"
  assume "run_central_scheduler srt jk X (app, u) = Some (app', u')"
  then obtain st' where st': "foldo (central_agent srt jk X) ?st ?agents = Some st'"
    "fs_scheduling_info app' = fs_scheduling_info (fst st')" "u' = snd (snd st')"
    by (auto simp: run_central_scheduler_def Let_def start_vars_def Option.bind_eq_Some_conv)
  have "?I st'"
    using st'(1)
  proof (rule foldo_invariant [where I = ?I])
    show "?I ?st" using assms(3,4) ready by (simp add: run_inv_def start_vars_def)
    fix s a t assume a: "a \<in> set ?agents" and I: "?I s" and run: "central_agent srt jk X s a = Some t"
    obtain app vars u app1 vars1 u1 where eq: "s = (app, vars, u)" "t = (app1, vars1, u1)" by (cases s; cases t)
    have "agent_untied jk (fs_scheduling_info (fst s)) (ru_rib (snd (snd s))) a"
      using central_agent_untied [OF run [unfolded eq(1)]] I by (simp add: eq run_inv_def)
    from central_agent_inv [OF assms(1,2) conjunct1 [OF I] a this] run have "run_inv ?agents t" by auto
    moreover have "rib_sound (ru_rib u1)"
      using central_agent_sound [OF assms(1) conjunct1 [OF I, unfolded eq(1)] _ run [unfolded eq]] I by (simp add: eq)
    ultimately show "?I t" by (simp add: eq)
  qed
  then show "rib_sound (ru_rib u') \<and> infos_ok (fs_scheduling_info app')"
    using st'(2,3) by (cases st') (simp add: run_inv_def)
qed

lemma push_code_sends:
  assumes "ext_ok X contents" and "\<And>m. sendable X m"
  shows "\<exists>u' ms. push_code X H a f name u = Some u' \<and> sends X contents ms u u'"
  using send_to_sends [OF assms] sends_none
  by (cases "read_nonempty H name") (fastforce simp: push_code_def)+

lemma push_once_sends:
  assumes "ext_ok X contents" and "\<And>m. sendable X m"
  shows "\<exists>app' u' ms. push_once X H (app, u) a = Some (app', u') \<and> sends X contents ms u u' \<and>
     fs_scheduling_info app' = fs_scheduling_info app \<and> fs_central_scheduling app' = fs_central_scheduling app"
proof (cases "fs_code_pushed app")
  case True
  then show ?thesis using sends_none by (fastforce simp: push_once_def)
next
  case False
  obtain v ms where v: "push_code X H a ''flexran_schedule_ue_spec_remote'' (delegation_path H @ ''libremote_sched.so'') u = Some v"
    "sends X contents ms u v" using push_code_sends [OF assms] by blast
  obtain w ns where w: "push_code X H a ''flexran_schedule_ue_spec_default'' (delegation_path H @ ''libdefault_sched.so'') v = Some w"
    "sends X contents ns v w" using push_code_sends [OF assms] by blast
  have "push_once X H (app, u) a = Some (app\<lparr>fs_code_pushed := True\<rparr>, w)"
    using False v(1) w(1) by (simp add: push_once_def)
  then show ?thesis using sends_append [OF v(2) w(2)] by auto
qed

lemma push_loop_sends:
  assumes "ext_ok X contents" and "\<And>m. sendable X m"
  shows "\<exists>app' u' ms. foldo (push_once X H) (app, u) agents = Some (app', u') \<and> sends X contents ms u u' \<and>
     fs_scheduling_info app' = fs_scheduling_info app \<and> fs_central_scheduling app' = fs_central_scheduling app"
proof (induction agents arbitrary: app u)
  case Nil
  then show ?case using sends_none by fastforce
next
  case (Cons a agents)
  obtain app1 u1 ms where 1: "push_once X H (app, u) a = Some (app1, u1)" "sends X contents ms u u1"
    "fs_scheduling_info app1 = fs_scheduling_info app" "fs_central_scheduling app1 = fs_central_scheduling app"
    using push_once_sends [OF assms] by blast
  obtain app2 u2 ns where 2: "foldo (push_once X H) (app1, u1) agents = Some (app2, u2)" "sends X contents ns u1 u2"
    "fs_scheduling_info app2 = fs_scheduling_info app1" "fs_central_scheduling app2 = fs_central_scheduling app1"
    using Cons.IH by blast
  show ?case using 1 2 sends_append [OF 1(2) 2(2)] by auto
qed

text \<open>
  The condition on the state an application starts from: the central scheduler, when it is on, finds no tie
  among the UEs of the agents it schedules.
\<close>

definition app_untied :: "junk \<Rightarrow> 'q controller \<Rightarrow> app \<Rightarrow> bool" where
  "app_untied jk ct a \<longleftrightarrow>
     (case a of
        Stats_app \<Rightarrow> True
      | Flex_app \<Rightarrow> fs_central_scheduling (ct_flex ct) \<longrightarrow>
          due_untied jk (fs_scheduling_info (ct_flex ct)) (ru_rib (ct_up ct)))"

lemma flex_task_sound:
  assumes "std_sort srt" and "ext_ok X contents" and "\<And>m. sendable X m" and "rib_sound (ru_rib u)"
    and "infos_ok (fs_scheduling_info app)"
  shows "flex_run_periodic_task srt jk X H (app, u) = None \<longleftrightarrow>
       fs_central_scheduling app \<and> \<not> due_untied jk (fs_scheduling_info app) (ru_rib u)"
    and "flex_run_periodic_task srt jk X H (app, u) = Some (app', u') \<Longrightarrow>
       rib_sound (ru_rib u') \<and> infos_ok (fs_scheduling_info app')"
proof -
  obtain app1 u1 ms where 1: "foldo (push_once X H) (app, u) (get_available_agents (ru_rib u)) = Some (app1, u1)"
    "sends X contents ms u u1" "fs_scheduling_info app1 = fs_scheduling_info app"
    "fs_central_scheduling app1 = fs_central_scheduling app"
    using push_loop_sends [OF assms(2,3)] by blast
  note same = sends_same_view [OF 1(2)]
  have rib: "rib_sound (ru_rib u1)" and infos: "infos_ok (fs_scheduling_info app1)"
    using assms(4,5) 1(3) same by simp_all
  note run = central_run_sound [OF assms(1,3) rib infos, of jk]
  show "flex_run_periodic_task srt jk X H (app, u) = None \<longleftrightarrow>
       fs_central_scheduling app \<and> \<not> due_untied jk (fs_scheduling_info app) (ru_rib u)"
    using 1(1,3,4) same run(1) by (auto simp: flex_run_periodic_task_def)
  show "flex_run_periodic_task srt jk X H (app, u) = Some (app', u') \<Longrightarrow>
       rib_sound (ru_rib u') \<and> infos_ok (fs_scheduling_info app')"
    using 1(1) rib infos run(2) by (auto simp: flex_run_periodic_task_def split: if_splits)
qed

lemma run_app_sound:
  assumes "std_sort srt" and "ext_ok X contents" and "\<And>m. sendable X m" and "ctl_sound ct"
  shows "run_app srt jk X H ct a = None \<longleftrightarrow> \<not> app_untied jk ct a"
    and "run_app srt jk X H ct a = Some ct' \<Longrightarrow> ctl_sound ct'"
proof -
  have rib: "rib_sound (ru_rib (ct_up ct))" and infos: "infos_ok (fs_scheduling_info (ct_flex ct))"
    using assms(4) by (simp_all add: ctl_sound_def)
  obtain u' l ms where stats: "stats_run_periodic_task X (ct_stats ct, ct_up ct) = Some (l, u')" "sends X contents ms (ct_up ct) u'"
    using stats_run_sends [OF assms(2,3) rib_soundD(1) [OF rib]] by blast
  note flex = flex_task_sound [OF assms(1-3) rib infos, of jk H]
  show "run_app srt jk X H ct a = None \<longleftrightarrow> \<not> app_untied jk ct a"
    using stats(1) flex(1) by (cases a) (auto simp: run_app_def app_untied_def)
  show "ctl_sound ct'" if run: "run_app srt jk X H ct a = Some ct'"
  proof (cases a)
    case Stats_app
    then show ?thesis
      using run stats(1) rib infos sends_same_view(1) [OF stats(2)] by (simp add: run_app_def ctl_sound_def) auto
  next
    case Flex_app
    then obtain app u where "flex_run_periodic_task srt jk X H (ct_flex ct, ct_up ct) = Some (app, u)"
      "ct' = ct\<lparr>ct_up := u, ct_flex := app\<rparr>"
      using run by (auto simp: run_app_def Option.bind_eq_Some_conv)
    then show ?thesis using flex(2) by (simp add: ctl_sound_def)
  qed
qed

section \<open>The input queue belongs to the updater\<close>

lemma central_agent_queue:
  "central_agent srt jk X (app, vars, u) a = Some (app', vars', u') \<Longrightarrow> nx_in_queue (ru_net u') = nx_in_queue (ru_net u)"
  by (auto simp: central_agent_def Let_def case_prod_beta Option.bind_eq_Some_conv put_agent_def
      dest!: send_to_frame(2) split: if_splits)

lemma central_run_queue:
  assumes "run_central_scheduler srt jk X (app, u) = Some (app', u')"
  shows "nx_in_queue (ru_net u') = nx_in_queue (ru_net u)"
proof -
  obtain st where st: "foldo (central_agent srt jk X) (app, start_vars jk (fs_tpc_accumulated app), u)
      (get_available_agents (ru_rib u)) = Some st" "u' = snd (snd st)"
    using assms by (auto simp: run_central_scheduler_def Let_def start_vars_def Option.bind_eq_Some_conv)
  have "nx_in_queue (ru_net (snd (snd st))) = nx_in_queue (ru_net u)"
    using st(1)
    by (rule foldo_invariant [where I = "\<lambda>st. nx_in_queue (ru_net (snd (snd st))) = nx_in_queue (ru_net u)"])
       (auto dest: central_agent_queue)
  with st(2) show ?thesis by simp
qed

lemma run_app_queue:
  assumes "ext_ok X contents" and "\<And>m. sendable X m" and "ctl_sound ct" and "run_app srt jk X H ct a = Some ct'"
  shows "nx_in_queue (ru_net (ct_up ct')) = nx_in_queue (ru_net (ct_up ct))"
proof (cases a)
  case Stats_app
  have rib: "rib_sound (ru_rib (ct_up ct))" using assms(3) by (simp add: ctl_sound_def)
  obtain u' l ms where "stats_run_periodic_task X (ct_stats ct, ct_up ct) = Some (l, u')" "sends X contents ms (ct_up ct) u'"
    using stats_run_sends [OF assms(1,2) rib_soundD(1) [OF rib]] by blast
  then show ?thesis using assms(4) by (auto simp: Stats_app run_app_def sends_def)
next
  case Flex_app
  obtain app1 u1 ms where 1: "foldo (push_once X H) (ct_flex ct, ct_up ct)
      (get_available_agents (ru_rib (ct_up ct))) = Some (app1, u1)" "sends X contents ms (ct_up ct) u1"
    using push_loop_sends [OF assms(1,2)] by blast
  show ?thesis
    using assms(4) 1 central_run_queue [of srt jk X app1 u1]
    by (auto simp: Flex_app run_app_def flex_run_periodic_task_def sends_def Option.bind_eq_Some_conv split: if_splits)
qed

section \<open>The interface of the applications\<close>

text \<open>
  What the task manager relies on when it runs the objects of class \<open>component\<close> in any order and any number of
  times: a run returns exactly from the states that are \<open>fine\<close> for the application, keeps the invariant, and leaves
  what belongs to the updater as it is.
\<close>

locale application =
  fixes run :: "'c \<Rightarrow> 'a \<Rightarrow> 'c option" and inv :: "'c \<Rightarrow> bool" and fine :: "'c \<Rightarrow> 'a \<Rightarrow> bool" and view :: "'c \<Rightarrow> 'v"
  assumes run_returns: "inv c \<Longrightarrow> run c a = None \<longleftrightarrow> \<not> fine c a"
    and run_keeps: "inv c \<Longrightarrow> run c a = Some c' \<Longrightarrow> inv c' \<and> view c' = view c"
begin

lemma all_return: "inv c \<Longrightarrow> foldo run c apps = None \<longleftrightarrow> \<not> along fine run c apps"
  by (rule foldo_along [where I = inv]) (use run_returns run_keeps in blast)+

lemma all_keep:
  assumes "inv c" and "foldo run c apps = Some c'"
  shows "inv c' \<and> view c' = view c"
  by (rule foldo_invariant [where I = "\<lambda>x. inv x \<and> view x = view c", OF assms(2)])
     (use assms(1) run_keeps in fastforce)+

end

definition app_env :: "(ue_stats list \<Rightarrow> ue_stats list) \<Rightarrow> 'q ext \<Rightarrow> ('q \<Rightarrow> tagged_message list) \<Rightarrow> bool" where
  "app_env srt X contents \<longleftrightarrow> std_sort srt \<and> ext_ok X contents \<and> (\<forall>m. sendable X m)"

interpretation apps: application "run_app srt jk X H" "\<lambda>ct. app_env srt X contents \<and> ctl_sound ct"
    "app_untied jk" "\<lambda>ct. nx_in_queue (ru_net (ct_up ct))" for srt jk and X :: "'q ext" and H contents
proof
  fix ct ct' :: "'q controller" and a assume inv: "app_env srt X contents \<and> ctl_sound ct"
  then have env: "std_sort srt" "ext_ok X contents" "\<And>m. sendable X m" "ctl_sound ct" by (simp_all add: app_env_def)
  show "run_app srt jk X H ct a = None \<longleftrightarrow> \<not> app_untied jk ct a" by (rule run_app_sound(1) [OF env])
  assume run: "run_app srt jk X H ct a = Some ct'"
  show "(app_env srt X contents \<and> ctl_sound ct') \<and> nx_in_queue (ru_net (ct_up ct')) = nx_in_queue (ru_net (ct_up ct))"
    using inv run_app_sound(2) [OF env run] run_app_queue [OF env(2-4) run] by simp
qed

lemma can_send_all: "(\<And>m. sendable X m) \<Longrightarrow> can_send X"
  by (simp add: can_send_def)

text \<open>
  No UEs tie when the applications of a cycle run, in this order, after the updater: each of them finds the
  state its predecessors left free of ties.
\<close>

definition cycle_untied :: "(ue_stats list \<Rightarrow> ue_stats list) \<Rightarrow> junk \<Rightarrow> 'q ext \<Rightarrow> host \<Rightarrow> (nat \<Rightarrow> int) \<Rightarrow> app list \<Rightarrow>
    'q controller \<Rightarrow> bool" where
  "cycle_untied srt jk X H clk apps ct \<longleftrightarrow>
     (case update_rib X jk clk default_messages_to_check (ct_up ct) of
        None \<Rightarrow> True
      | Some u \<Rightarrow> along (app_untied jk) (run_app srt jk X H) (ct\<lparr>ct_up := u\<rparr>) apps)"

lemma cycle_sound:
  assumes "std_sort srt" and "ext_ok X contents" and "\<And>m. sendable X m" and "ctl_sound ct"
    and "run_in_range X jk clk 350 (ct_up ct)" and "length apps \<le> 100"
  shows "manage_rt_tasks srt jk X H clk apps ct = None \<longleftrightarrow> \<not> cycle_untied srt jk X H clk apps ct"
    and "manage_rt_tasks srt jk X H clk apps ct = Some ct' \<Longrightarrow> ctl_sound ct' \<and>
       in_contents contents (ct_up ct') = drop 351 (in_contents contents (ct_up ct))"
proof -
  have "rib_sound (ru_rib (ct_up ct))" using assms(4) by (simp add: ctl_sound_def)
  from update_loop_sound [OF can_send_all this assms(5)] assms(3) obtain u where
    u: "update_loop X jk clk 350 (ct_up ct) = Some u" "rib_sound (ru_rib u)" by blast
  then have upd: "update_rib X jk clk default_messages_to_check (ct_up ct) = Some u"
    by (simp add: update_rib_def default_messages_to_check_def)
  have queue: "in_contents contents u = drop 351 (in_contents contents (ct_up ct))"
    using update_loop_queue [OF assms(2) u(1)] by simp
  have inv: "app_env srt X contents \<and> ctl_sound (ct\<lparr>ct_up := u\<rparr>)"
    using assms(1-4) u(2) by (simp add: ctl_sound_def app_env_def)
  show "manage_rt_tasks srt jk X H clk apps ct = None \<longleftrightarrow> \<not> cycle_untied srt jk X H clk apps ct"
    using upd assms(6) apps.all_return [OF inv, of jk H apps] by (simp add: manage_rt_tasks_def cycle_untied_def)
  assume "manage_rt_tasks srt jk X H clk apps ct = Some ct'"
  then have "foldo (run_app srt jk X H) (ct\<lparr>ct_up := u\<rparr>) apps = Some ct'"
    using upd assms(6) by (simp add: manage_rt_tasks_def)
  from apps.all_keep [OF inv this] queue
  show "ctl_sound ct' \<and> in_contents contents (ct_up ct') = drop 351 (in_contents contents (ct_up ct))" by simp
qed

lemma north_call_sound:
  assumes "ext_ok X contents" and "\<And>m. sendable X m" and "ctl_sound ct"
  shows "\<exists>resp ct'. north_call X H D call ct = Some (resp, ct') \<and> ctl_sound ct'"
proof -
  have "rib_wf (ru_rib (ct_up ct))" using assms(3) rib_soundD(1) by (simp add: ctl_sound_def)
  from handle_call_safe [OF assms(1,2) this, of H D call "ct_flex ct"] assms(3) show ?thesis
    by (auto simp: north_call_def ctl_sound_def)
qed

end
