(* ===== verification/Threads.thy ===== *)
theory Threads
  imports Controller
begin

text \<open>
  The threads of a cycle. The task manager starts the two applications in threads of their own, and these
  overlap. Here each thread takes steps between which the other one may run: reading the set of agents, one agent of
  a loop, one push to the output queue, which is the only object both change. Whatever the order of the steps, the
  applications end in the state that running one after the other gives, and the output queue gets their messages
  shuffled, each application's in its own order.
\<close>

section \<open>Runs that differ in the network only\<close>

definition pushes :: "'q ext \<Rightarrow> ('q \<Rightarrow> tagged_message list) \<Rightarrow> (int \<times> flexran_message) list \<Rightarrow>
    'q updater \<Rightarrow> 'q updater \<Rightarrow> bool" where
  "pushes X contents ms u u' \<longleftrightarrow> nx_in_queue (ru_net u') = nx_in_queue (ru_net u) \<and>
     out_contents contents u' = out_contents contents u @ take (room contents u) (map (wire X) ms)"

lemma pushes_none: "ru_net u' = ru_net u \<Longrightarrow> pushes X contents [] u u'"
  by (simp add: pushes_def)

lemma pushes_refl [simp]: "pushes X contents [] u u"
  by (simp add: pushes_none)

lemma pushes_append: "pushes X contents ms u v \<Longrightarrow> pushes X contents ns v w \<Longrightarrow> pushes X contents (ms @ ns) u w"
  by (auto simp: pushes_def room_def min_def not_le)

lemma sends_pushes: "sends X contents ms u u' \<longleftrightarrow> ru_rib u' = ru_rib u \<and> pushes X contents ms u u'"
  by (auto simp: sends_def pushes_def)

section \<open>The applications do not look at the network\<close>

text \<open>Whatever the network of a state, the same is done to the RIB and the same is pushed.\<close>

lemma send_to_pushes:
  assumes "ext_ok X contents" and "sendable X m"
  shows "\<exists>v. send_to X m a u = Some v \<and> ru_rib v = ru_rib u \<and> pushes X contents [(a, m)] u v"
  using send_to_sends [OF assms, of a u] by (auto simp: sends_pushes)

lemma push_code_pushes:
  assumes "ext_ok X contents" and "\<And>m. sendable X m"
  shows "\<exists>ms. \<forall>u. \<exists>v. push_code X H a f name u = Some v \<and> ru_rib v = ru_rib u \<and> pushes X contents ms u v"
proof (cases "read_nonempty H name")
  case None
  then show ?thesis using pushes_none by (fastforce simp: push_code_def)
next
  case (Some payload)
  then show ?thesis
    using send_to_pushes [OF assms(1,2), of "delegation_out f payload" a] by (auto simp: push_code_def)
qed

lemma put_agent_net: "ru_net (put_agent a e u) = ru_net u"
  by (simp add: put_agent_def)

lemma pushes_put: "pushes X contents ms (put_agent a e u) v \<longleftrightarrow> pushes X contents ms u v"
  by (simp add: pushes_def room_def put_agent_net)

lemma central_agent_pushes:
  assumes "ext_ok X contents" and "\<And>m. sendable X m"
    and "central_agent srt jk X (app, vars, u) a = Some (app1, vars1, v)"
  shows "\<exists>ms. \<forall>u'. ru_rib u' = ru_rib u \<longrightarrow>
     (\<exists>v'. central_agent srt jk X (app, vars, u') a = Some (app1, vars1, v') \<and> ru_rib v' = ru_rib v \<and> pushes X contents ms u' v')"
proof -
  let ?infos = "ensure_scheduling_info jk a (fs_scheduling_info app)"
  obtain e s where e: "get_agent (ru_rib u) a = Some e" "sm_find ?infos a = Some s"
    using assms(3) by (auto simp: central_agent_def Let_def Option.bind_eq_Some_conv)
  obtain tf tsf where t: "target_time 0 (en_current_frame e) (en_current_subframe e) = (tf, tsf)" by fastforce
  show ?thesis
  proof (cases "\<not> needs_scheduling s (en_current_frame e) (en_current_subframe e) \<or> tsf = 0 \<or> tsf = 5")
    case True
    then show ?thesis using assms(3) e t
      by (intro exI [of _ "[]"]) (auto simp: central_agent_def Let_def pushes_none)
  next
    case False
    then obtain st where st: "schedule_agent srt tf tsf e s vars = Some st"
      and rest: "(if fl_data st \<noteq> [] then send_to X (dl_mac_config_out tf tsf (fl_data st)) a (put_agent a (fl_enb st) u)
          else Some (put_agent a (fl_enb st) u)) = Some v"
      and res: "app1 = app\<lparr>fs_scheduling_info := sm_put a (set_last_checked (en_current_frame e) (en_current_subframe e) (fl_sched st)) ?infos\<rparr>"
        "vars1 = fl_vars st"
      using assms(3) e t by (auto simp: central_agent_def Let_def Option.bind_eq_Some_conv)
    let ?m = "dl_mac_config_out tf tsf (fl_data st)"
    let ?send = "\<lambda>w. if fl_data st \<noteq> [] then send_to X ?m a w else Some w"
    let ?ms = "if fl_data st \<noteq> [] then [(a, ?m)] else []"
    have send: "\<exists>v. ?send w = Some v \<and> ru_rib v = ru_rib w \<and> pushes X contents ?ms w v" for w
      using send_to_pushes [OF assms(1,2), of ?m a w] by (auto simp: pushes_none)
    have rib: "ru_rib v = ru_rib (put_agent a (fl_enb st) u)" using rest send [of "put_agent a (fl_enb st) u"] by auto
    have "\<exists>v'. central_agent srt jk X (app, vars, u') a = Some (app1, vars1, v') \<and> ru_rib v' = ru_rib v \<and>
        pushes X contents ?ms u' v'" if same: "ru_rib u' = ru_rib u" for u'
    proof -
      obtain v' where v': "?send (put_agent a (fl_enb st) u') = Some v'" "ru_rib v' = ru_rib (put_agent a (fl_enb st) u')"
        "pushes X contents ?ms (put_agent a (fl_enb st) u') v'" using send by blast
      have "central_agent srt jk X (app, vars, u') a = Some (app1, vars1, v')"
        using False e t st v'(1) res same by (simp add: central_agent_def Let_def)
      moreover have "ru_rib v' = ru_rib v" using v'(2) rib same by (simp add: put_agent_def)
      ultimately show ?thesis using v'(3) by (auto simp: pushes_put)
    qed
    then show ?thesis by blast
  qed
qed

lemma central_agent_rib:
  assumes "central_agent srt jk X (app, vars, u) a = Some (app', vars', v)" and "sm_inv (rb_eNB_configs (ru_rib u))"
  shows "sm_inv (rb_eNB_configs (ru_rib v)) \<and> get_available_agents (ru_rib v) = get_available_agents (ru_rib u)"
proof -
  obtain e where e: "get_agent (ru_rib u) a = Some e" using assms(1) by (auto simp: central_agent_def Option.bind_eq_Some_conv)
  have put: "sm_inv (rb_eNB_configs (ru_rib (put_agent a f u))) \<and>
      get_available_agents (ru_rib (put_agent a f u)) = get_available_agents (ru_rib u)" for f
    using e assms(2) by (simp add: put_agent_def get_available_agents_def get_agent_def sm.inv_put sm.keys_put dom_def)
  obtain f w where f: "ru_rib w = ru_rib u \<or> ru_rib w = ru_rib (put_agent a f u)" "v = w"
    using assms(1)
    by (auto simp: central_agent_def Let_def case_prod_beta Option.bind_eq_Some_conv dest!: send_to_frame(1) split: if_splits)
  then show ?thesis using put assms(2) by metis
qed

section \<open>The threads, step by step\<close>

datatype stats_pc = Stats_start | Stats_loop "int list"

datatype flex_pc = Flex_start | Flex_push "int list" | Flex_push_second int "int list" |
  Flex_central sched_vars "int list" | Flex_done

fun stats_step :: "'q ext \<Rightarrow> stats_pc \<Rightarrow> stats_manager \<times> 'q updater \<Rightarrow> (stats_pc \<times> stats_manager \<times> 'q updater) option" where
  "stats_step X Stats_start (l, u) = Some (Stats_loop (get_available_agents (ru_rib u)), l, u)"
| "stats_step X (Stats_loop []) (l, u) = Some (Stats_loop [], l, u)"
| "stats_step X (Stats_loop (a # agents)) (l, u) = do { (l, u) \<leftarrow> request_stats X (l, u) a; Some (Stats_loop agents, l, u) }"

fun flex_step :: "(ue_stats list \<Rightarrow> ue_stats list) \<Rightarrow> junk \<Rightarrow> 'q ext \<Rightarrow> host \<Rightarrow> flex_pc \<Rightarrow> 'q app_state \<Rightarrow>
    (flex_pc \<times> 'q app_state) option" where
  "flex_step srt jk X H Flex_start (app, u) = Some (Flex_push (get_available_agents (ru_rib u)), app, u)"
| "flex_step srt jk X H (Flex_push []) (app, u) =
     (if fs_central_scheduling app
      then Some (Flex_central (start_vars jk (fs_tpc_accumulated app)) (get_available_agents (ru_rib u)), app, u)
      else Some (Flex_done, app, u))"
| "flex_step srt jk X H (Flex_push (a # agents)) (app, u) =
     (if fs_code_pushed app then Some (Flex_push agents, app, u)
      else do {
        u \<leftarrow> push_code X H a ''flexran_schedule_ue_spec_remote'' (delegation_path H @ ''libremote_sched.so'') u;
        Some (Flex_push_second a agents, app, u) })"
| "flex_step srt jk X H (Flex_push_second a agents) (app, u) = do {
     u \<leftarrow> push_code X H a ''flexran_schedule_ue_spec_default'' (delegation_path H @ ''libdefault_sched.so'') u;
     Some (Flex_push agents, app\<lparr>fs_code_pushed := True\<rparr>, u) }"
| "flex_step srt jk X H (Flex_central vars (a # agents)) (app, u) = do {
     (app, vars, u) \<leftarrow> central_agent srt jk X (app, vars, u) a;
     Some (Flex_central vars agents, app, u) }"
| "flex_step srt jk X H (Flex_central vars []) (app, u) =
     Some (Flex_done, app\<lparr>fs_tpc_accumulated := lv_tpc_accumulated vars\<rparr>, u)"
| "flex_step srt jk X H Flex_done (app, u) = Some (Flex_done, app, u)"

text \<open>What a thread has still to do, as one step; from the start, this is the run of the application.\<close>

fun stats_rest :: "'q ext \<Rightarrow> stats_pc \<Rightarrow> stats_manager \<times> 'q updater \<Rightarrow> (stats_manager \<times> 'q updater) option" where
  "stats_rest X Stats_start s = stats_run_periodic_task X s"
| "stats_rest X (Stats_loop agents) s = foldo (request_stats X) s agents"

definition pushes_rest :: "(ue_stats list \<Rightarrow> ue_stats list) \<Rightarrow> junk \<Rightarrow> 'q ext \<Rightarrow> host \<Rightarrow> int list \<Rightarrow> 'q app_state \<Rightarrow>
    'q app_state option" where
  "pushes_rest srt jk X H agents s = do {
     s \<leftarrow> foldo (push_once X H) s agents;
     if fs_central_scheduling (fst s) then run_central_scheduler srt jk X s else Some s }"

fun flex_rest :: "(ue_stats list \<Rightarrow> ue_stats list) \<Rightarrow> junk \<Rightarrow> 'q ext \<Rightarrow> host \<Rightarrow> flex_pc \<Rightarrow> 'q app_state \<Rightarrow>
    'q app_state option" where
  "flex_rest srt jk X H Flex_start s = flex_run_periodic_task srt jk X H s"
| "flex_rest srt jk X H (Flex_push agents) s = pushes_rest srt jk X H agents s"
| "flex_rest srt jk X H (Flex_push_second a agents) (app, u) = do {
     u \<leftarrow> push_code X H a ''flexran_schedule_ue_spec_default'' (delegation_path H @ ''libdefault_sched.so'') u;
     pushes_rest srt jk X H agents (app\<lparr>fs_code_pushed := True\<rparr>, u) }"
| "flex_rest srt jk X H (Flex_central vars agents) (app, u) = do {
     (app, vars, u) \<leftarrow> foldo (central_agent srt jk X) (app, vars, u) agents;
     Some (app\<lparr>fs_tpc_accumulated := lv_tpc_accumulated vars\<rparr>, u) }"
| "flex_rest srt jk X H Flex_done s = Some s"

lemma stats_rest_step: "stats_rest X pc s = do { (pc', s') \<leftarrow> stats_step X pc s; stats_rest X pc' s' }"
  by (cases "(X, pc, s)" rule: stats_step.cases) (auto simp: stats_run_periodic_task_def split: Option.bind_splits)

lemma flex_rest_step: "flex_rest srt jk X H pc s = do { (pc', s') \<leftarrow> flex_step srt jk X H pc s; flex_rest srt jk X H pc' s' }"
  by (cases "(srt, jk, X, H, pc, s)" rule: flex_step.cases)
     (auto simp: flex_run_periodic_task_def pushes_rest_def run_central_scheduler_def start_vars_def push_once_def Let_def
       split: Option.bind_splits)

lemma stats_step_pushes:
  assumes "ext_ok X contents" and "\<And>m. sendable X m" and "stats_step X pc (l, u) = Some (pc1, l1, v)"
  shows "\<exists>ms. \<forall>u'. get_available_agents (ru_rib u') = get_available_agents (ru_rib u) \<longrightarrow>
     (\<exists>v'. stats_step X pc (l, u') = Some (pc1, l1, v') \<and> ru_rib v' = ru_rib u' \<and> pushes X contents ms u' v')"
proof (cases "\<exists>a agents. pc = Stats_loop (a # agents) \<and> a \<notin> l")
  case True
  then obtain a agents where a: "pc = Stats_loop (a # agents)" "a \<notin> l" by blast
  then have "pc1 = Stats_loop agents" "l1 = insert a l" using assms(3) by (auto simp: request_stats_def Option.bind_eq_Some_conv)
  moreover have "\<exists>v'. stats_step X pc (l, u') = Some (Stats_loop agents, insert a l, v') \<and> ru_rib v' = ru_rib u' \<and>
      pushes X contents [(a, stats_request_out)] u' v'" for u'
  proof -
    obtain v' where "send_to X stats_request_out a u' = Some v'" "ru_rib v' = ru_rib u'" "pushes X contents [(a, stats_request_out)] u' v'"
      using send_to_pushes [OF assms(1,2)] by blast
    then show ?thesis using a by (simp add: request_stats_def)
  qed
  ultimately show ?thesis by blast
next
  case False
  then show ?thesis using assms(3)
    by (intro exI [of _ "[]"], cases pc; cases "pc = Stats_loop []")
       (auto simp: request_stats_def neq_Nil_conv pushes_none)
qed

lemma flex_step_pushes:
  assumes "ext_ok X contents" and "\<And>m. sendable X m" and "flex_step srt jk X H pc (app, u) = Some (pc1, app1, v)"
  shows "\<exists>ms. \<forall>u'. ru_rib u' = ru_rib u \<longrightarrow>
     (\<exists>v'. flex_step srt jk X H pc (app, u') = Some (pc1, app1, v') \<and> ru_rib v' = ru_rib v \<and> pushes X contents ms u' v')"
proof -
  have still: ?thesis if "\<And>u'. ru_rib u' = ru_rib u \<Longrightarrow> flex_step srt jk X H pc (app, u') = Some (pc1, app1, u')" and "v = u"
    using that by (intro exI [of _ "[]"]) auto
  have push: ?thesis if step: "\<And>u. flex_step srt jk X H pc (app, u) = do { v \<leftarrow> push_code X H a f name u; Some (pc2, app2, v) }"
    for a f name pc2 app2
  proof -
    obtain ms where ms: "\<And>u. \<exists>v. push_code X H a f name u = Some v \<and> ru_rib v = ru_rib u \<and> pushes X contents ms u v"
      using push_code_pushes [OF assms(1,2), of H a f name] by blast
    have "pc1 = pc2 \<and> app1 = app2 \<and> ru_rib v = ru_rib u" using ms [of u] assms(3) by (auto simp: step)
    moreover have "\<exists>v'. flex_step srt jk X H pc (app, u') = Some (pc2, app2, v') \<and> ru_rib v' = ru_rib u' \<and> pushes X contents ms u' v'"
      for u' using ms [of u'] by (auto simp: step)
    ultimately show ?thesis by (intro exI [of _ ms]) metis
  qed
  show ?thesis
  proof (cases pc)
    case (Flex_push agents)
    show ?thesis
    proof (cases agents)
      case Nil
      then show ?thesis using Flex_push assms(3) by (intro still) (auto split: if_splits)
    next
      case (Cons a as)
      show ?thesis
      proof (cases "fs_code_pushed app")
        case True
        then show ?thesis using Flex_push Cons assms(3) by (intro still) auto
      next
        case False
        then show ?thesis by (intro push) (simp add: Flex_push Cons)
      qed
    qed
  next
    case (Flex_central vars agents)
    show ?thesis
    proof (cases agents)
      case Nil
      then show ?thesis using Flex_central assms(3) by (intro still) auto
    next
      case (Cons a as)
      then obtain vars1 where c: "central_agent srt jk X (app, vars, u) a = Some (app1, vars1, v)" "pc1 = Flex_central vars1 as"
        using Flex_central assms(3) by (auto simp: Option.bind_eq_Some_conv)
      obtain ms where ms: "\<And>u'. ru_rib u' = ru_rib u \<Longrightarrow> \<exists>v'. central_agent srt jk X (app, vars, u') a = Some (app1, vars1, v') \<and>
          ru_rib v' = ru_rib v \<and> pushes X contents ms u' v'"
        using central_agent_pushes [OF assms(1,2) c(1)] by blast
      show ?thesis using ms by (intro exI [of _ ms]) (fastforce simp: Flex_central Cons c(2))
    qed
  next
    case (Flex_push_second a agents)
    then show ?thesis by (intro push) simp
  qed (use assms(3) in \<open>auto intro: exI [of _ "[]"]\<close>)
qed

lemma flex_step_rib:
  assumes "ext_ok X contents" and "\<And>m. sendable X m" and "flex_step srt jk X H pc (app, u) = Some (pc1, app1, v)"
    and "sm_inv (rb_eNB_configs (ru_rib u))"
  shows "sm_inv (rb_eNB_configs (ru_rib v)) \<and> get_available_agents (ru_rib v) = get_available_agents (ru_rib u)"
proof -
  have push: "ru_rib w = ru_rib u" if "push_code X H a f name u = Some w" for H a f name u w
    using that push_code_sends [OF assms(1,2), of H a f name u] by (auto simp: sends_def)
  show ?thesis
    using assms(3,4) push
    by (cases "(srt, jk, X, H, pc, (app, u))" rule: flex_step.cases)
       (auto simp: Option.bind_eq_Some_conv dest: central_agent_rib split: if_splits)
qed

section \<open>The two threads together\<close>

record 'q threads =
  th_ct :: "'q controller"
  th_stats :: stats_pc
  th_flex :: flex_pc

definition start_threads :: "'q controller \<Rightarrow> 'q threads" where
  "start_threads ct = \<lparr>th_ct = ct, th_stats = Stats_start, th_flex = Flex_start\<rparr>"

definition thread_step :: "(ue_stats list \<Rightarrow> ue_stats list) \<Rightarrow> junk \<Rightarrow> 'q ext \<Rightarrow> host \<Rightarrow> 'q threads \<Rightarrow> app \<Rightarrow>
    'q threads option" where
  "thread_step srt jk X H t a =
     (let ct = th_ct t in
      case a of
        Stats_app \<Rightarrow> do {
          (pc, l, u) \<leftarrow> stats_step X (th_stats t) (ct_stats ct, ct_up ct);
          Some (t\<lparr>th_ct := ct\<lparr>ct_up := u, ct_stats := l\<rparr>, th_stats := pc\<rparr>) }
      | Flex_app \<Rightarrow> do {
          (pc, app, u) \<leftarrow> flex_step srt jk X H (th_flex t) (ct_flex ct, ct_up ct);
          Some (t\<lparr>th_ct := ct\<lparr>ct_up := u, ct_flex := app\<rparr>, th_flex := pc\<rparr>) })"

definition finished :: "'q threads \<Rightarrow> bool" where
  "finished t \<longleftrightarrow> th_stats t = Stats_loop [] \<and> th_flex t = Flex_done"

text \<open>The steps that a thread has at most to take, with \<open>n\<close> agents connected.\<close>

fun stats_left :: "nat \<Rightarrow> stats_pc \<Rightarrow> nat" where
  "stats_left n Stats_start = n + 1"
| "stats_left n (Stats_loop agents) = length agents"

fun flex_left :: "nat \<Rightarrow> flex_pc \<Rightarrow> nat" where
  "flex_left n Flex_start = 3 * n + 3"
| "flex_left n (Flex_push agents) = 2 * length agents + n + 2"
| "flex_left n (Flex_push_second a agents) = 2 * length agents + n + 3"
| "flex_left n (Flex_central vars agents) = length agents + 1"
| "flex_left n Flex_done = 0"

lemma stats_left_step:
  "stats_step X pc (l, u) = Some (pc', l', u') \<Longrightarrow> n = length (get_available_agents (ru_rib u)) \<Longrightarrow>
   stats_left n pc' \<le> stats_left n pc - 1"
  by (cases "(X, pc, (l, u))" rule: stats_step.cases) (auto simp: Option.bind_eq_Some_conv)

lemma flex_left_step:
  "flex_step srt jk X H pc (app, u) = Some (pc', app', u') \<Longrightarrow> n = length (get_available_agents (ru_rib u)) \<Longrightarrow>
   flex_left n pc' \<le> flex_left n pc - 1"
  by (cases "(srt, jk, X, H, pc, (app, u))" rule: flex_step.cases) (auto simp: Option.bind_eq_Some_conv split: if_splits)

lemma stats_left_0: "stats_left n pc = 0 \<longleftrightarrow> pc = Stats_loop []"
  by (cases pc) auto

lemma flex_left_0: "flex_left n pc = 0 \<longleftrightarrow> pc = Flex_done"
  by (cases pc) auto

lemma shuffles_append_left: "zs \<in> shuffles xs ys \<Longrightarrow> zs @ as \<in> shuffles (xs @ as) ys"
proof (induction zs arbitrary: xs ys)
  case Nil
  then show ?case by (cases as) auto
next
  case (Cons z zs)
  then show ?case by (auto simp: Cons_in_shuffles_iff) 
qed

lemma shuffles_append_right: "zs \<in> shuffles xs ys \<Longrightarrow> zs @ as \<in> shuffles xs (ys @ as)"
  using shuffles_append_left by (metis shuffles_commutes)

text \<open>
  The invariant: each thread is where it would be alone, the statistics manager started in \<open>u0\<close>, where it ends with
  \<open>l\<close> and \<open>u1\<close>, and the scheduler started in \<open>u1\<close>, where it ends with \<open>p\<close> and \<open>u2\<close>.
\<close>

definition th_inv :: "(ue_stats list \<Rightarrow> ue_stats list) \<Rightarrow> junk \<Rightarrow> 'q ext \<Rightarrow> ('q \<Rightarrow> tagged_message list) \<Rightarrow> host \<Rightarrow>
    'q updater \<Rightarrow> stats_manager \<Rightarrow> 'q updater \<Rightarrow> flexible_scheduler \<Rightarrow> 'q updater \<Rightarrow> 'q threads \<Rightarrow> bool" where
  "th_inv srt jk X contents H u0 l u1 p u2 t \<longleftrightarrow>
     (\<exists>u v ms ns zs. stats_rest X (th_stats t) (ct_stats (th_ct t), u) = Some (l, u1) \<and> sends X contents ms u0 u \<and>
        flex_rest srt jk X H (th_flex t) (ct_flex (th_ct t), v) = Some (p, u2) \<and> pushes X contents ns u1 v \<and>
        zs \<in> shuffles ms ns \<and> pushes X contents zs u0 (ct_up (th_ct t)) \<and>
        ru_rib (ct_up (th_ct t)) = ru_rib v \<and> sm_inv (rb_eNB_configs (ru_rib v)) \<and>
        get_available_agents (ru_rib v) = get_available_agents (ru_rib u0))"

lemma thread_step_inv:
  fixes t :: "'q threads"
  assumes "ext_ok X contents" and "\<And>m. sendable X m" and "th_inv srt jk X contents H u0 l u1 p u2 t"
    and "n = length (get_available_agents (ru_rib u0))"
  shows "\<exists>t'. thread_step srt jk X H t a = Some t' \<and> th_inv srt jk X contents H u0 l u1 p u2 t' \<and>
     stats_left n (th_stats t') \<le> stats_left n (th_stats t) - count_list [a] Stats_app \<and>
     flex_left n (th_flex t') \<le> flex_left n (th_flex t) - count_list [a] Flex_app"
proof -
  let ?c = "th_ct t"
  obtain u v ms ns zs where
    s: "stats_rest X (th_stats t) (ct_stats ?c, u) = Some (l, u1)" "sends X contents ms u0 u" and
    f: "flex_rest srt jk X H (th_flex t) (ct_flex ?c, v) = Some (p, u2)" "pushes X contents ns u1 v" and
    z: "zs \<in> shuffles ms ns" "pushes X contents zs u0 (ct_up ?c)" and
    rib: "ru_rib (ct_up ?c) = ru_rib v" "sm_inv (rb_eNB_configs (ru_rib v))"
      "get_available_agents (ru_rib v) = get_available_agents (ru_rib u0)"
    using assms(3) by (auto simp: th_inv_def)
  show ?thesis
  proof (cases a)
    case Stats_app
    obtain pc l' w where w: "stats_step X (th_stats t) (ct_stats ?c, u) = Some (pc, l', w)" "stats_rest X pc (l', w) = Some (l, u1)"
      using s(1) by (subst (asm) stats_rest_step) (auto simp: Option.bind_eq_Some_conv)
    have agents: "get_available_agents (ru_rib (ct_up ?c)) = get_available_agents (ru_rib u)"
      using rib s(2) by (simp add: sends_def)
    obtain ms' where step: "\<And>u'. get_available_agents (ru_rib u') = get_available_agents (ru_rib u) \<Longrightarrow>
        \<exists>v'. stats_step X (th_stats t) (ct_stats ?c, u') = Some (pc, l', v') \<and> ru_rib v' = ru_rib u' \<and> pushes X contents ms' u' v'"
      using stats_step_pushes [OF assms(1,2) w(1)] by blast
    obtain w' where w': "stats_step X (th_stats t) (ct_stats ?c, ct_up ?c) = Some (pc, l', w')"
      "sends X contents ms' u w" "sends X contents ms' (ct_up ?c) w'"
      using step [OF agents] step [OF refl] w(1) by (auto simp: sends_pushes)
    let ?t = "t\<lparr>th_ct := ?c\<lparr>ct_up := w', ct_stats := l'\<rparr>, th_stats := pc\<rparr>"
    have "thread_step srt jk X H t a = Some ?t" using w'(1) by (simp add: Stats_app thread_step_def)
    moreover have "pushes X contents (zs @ ms') u0 w'" "ru_rib w' = ru_rib v"
      using z(2) w'(3) rib(1) pushes_append by (auto simp: sends_pushes)
    then have "th_inv srt jk X contents H u0 l u1 p u2 ?t"
      using w(2) f rib(2,3) sends_append [OF s(2) w'(2)] shuffles_append_left [OF z(1), of ms']
      by (fastforce simp: th_inv_def)
    moreover have "stats_left n pc \<le> stats_left n (th_stats t) - 1"
      using stats_left_step [OF w'(1)] rib assms(4) by simp
    ultimately show ?thesis by (simp add: Stats_app)
  next
    case Flex_app
    obtain pc p' w where w: "flex_step srt jk X H (th_flex t) (ct_flex ?c, v) = Some (pc, p', w)"
      "flex_rest srt jk X H pc (p', w) = Some (p, u2)"
      using f(1) by (subst (asm) flex_rest_step) (auto simp: Option.bind_eq_Some_conv)
    obtain ns' where step: "\<And>u'. ru_rib u' = ru_rib v \<Longrightarrow> \<exists>w'. flex_step srt jk X H (th_flex t) (ct_flex ?c, u') = Some (pc, p', w') \<and>
        ru_rib w' = ru_rib w \<and> pushes X contents ns' u' w'"
      using flex_step_pushes [OF assms(1,2) w(1)] by blast
    obtain w' where w': "flex_step srt jk X H (th_flex t) (ct_flex ?c, ct_up ?c) = Some (pc, p', w')"
      "ru_rib w' = ru_rib w" "pushes X contents ns' v w" "pushes X contents ns' (ct_up ?c) w'"
      using step [OF rib(1)] step [OF refl] w(1) by auto
    let ?t = "t\<lparr>th_ct := ?c\<lparr>ct_up := w', ct_flex := p'\<rparr>, th_flex := pc\<rparr>"
    have "thread_step srt jk X H t a = Some ?t" using w'(1) by (simp add: Flex_app thread_step_def)
    moreover have "th_inv srt jk X contents H u0 l u1 p u2 ?t"
      using s w(2) pushes_append [OF f(2) w'(3)] shuffles_append_right [OF z(1), of ns'] pushes_append [OF z(2) w'(4)]
        w'(2) flex_step_rib [OF assms(1,2) w(1) rib(2)] rib(3)
      by (fastforce simp: th_inv_def)
    moreover have "flex_left n pc \<le> flex_left n (th_flex t) - 1"
      using flex_left_step [OF w'(1)] rib assms(4) by simp
    ultimately show ?thesis by (simp add: Flex_app)
  qed
qed

lemma threads_inv:
  assumes "ext_ok X contents" and "\<And>m. sendable X m" and "th_inv srt jk X contents H u0 l u1 p u2 t"
    and "n = length (get_available_agents (ru_rib u0))"
  shows "\<exists>t'. foldo (thread_step srt jk X H) t sched = Some t' \<and> th_inv srt jk X contents H u0 l u1 p u2 t' \<and>
     stats_left n (th_stats t') \<le> stats_left n (th_stats t) - count_list sched Stats_app \<and>
     flex_left n (th_flex t') \<le> flex_left n (th_flex t) - count_list sched Flex_app"
  using assms(3)
proof (induction sched arbitrary: t)
  case (Cons a sched)
  obtain t1 where t1: "thread_step srt jk X H t a = Some t1" "th_inv srt jk X contents H u0 l u1 p u2 t1"
    "stats_left n (th_stats t1) \<le> stats_left n (th_stats t) - count_list [a] Stats_app"
    "flex_left n (th_flex t1) \<le> flex_left n (th_flex t) - count_list [a] Flex_app"
    using thread_step_inv [OF assms(1,2) Cons.prems assms(4)] by blast
  obtain t2 where "foldo (thread_step srt jk X H) t1 sched = Some t2" "th_inv srt jk X contents H u0 l u1 p u2 t2"
    "stats_left n (th_stats t2) \<le> stats_left n (th_stats t1) - count_list sched Stats_app"
    "flex_left n (th_flex t2) \<le> flex_left n (th_flex t1) - count_list sched Flex_app"
    using Cons.IH [OF t1(2)] by blast
  then show ?case using t1 by (auto split: if_splits)
qed simp

text \<open>
  C10: the overlap of the application threads cannot be seen in the controller's state. When no UEs tie in a sort of the
  central scheduler (\<open>app_untied\<close>, read off the state in which the threads start), then in whatever order the threads
  of a cycle take their steps, when each got its turn often enough (one step per agent and one more for the statistics
  manager, three per agent and three more for the scheduler), both have returned, nothing faulted, and the states of
  both applications and the RIB are the ones that running the applications one after the other gives. The output queue
  gets the same messages, the ones of each application in their order, shuffled, up to its capacity.
\<close>

theorem threads_run_as_in_sequence:
  fixes ct :: "'q controller"
  assumes "app_env srt X contents" and "ctl_sound ct" and "n = length (get_available_agents (ru_rib (ct_up ct)))"
    and "n + 1 \<le> count_list sched Stats_app" and "3 * n + 3 \<le> count_list sched Flex_app" and "app_untied jk ct Flex_app"
  shows "\<exists>t mid seq ms ns zs.
     foldo (thread_step srt jk X H) (start_threads ct) sched = Some t \<and> finished t \<and>
     run_app srt jk X H ct Stats_app = Some mid \<and> run_app srt jk X H mid Flex_app = Some seq \<and>
     ct_stats (th_ct t) = ct_stats seq \<and> ct_flex (th_ct t) = ct_flex seq \<and> ru_rib (ct_up (th_ct t)) = ru_rib (ct_up seq) \<and>
     pushes X contents ms (ct_up ct) (ct_up mid) \<and> pushes X contents ns (ct_up mid) (ct_up seq) \<and>
     zs \<in> shuffles ms ns \<and> pushes X contents zs (ct_up ct) (ct_up (th_ct t))"
proof -
  have env: "std_sort srt" "ext_ok X contents" "\<And>m. sendable X m" using assms(1) by (auto simp: app_env_def)
  have wf: "rib_wf (ru_rib (ct_up ct))" using assms(2) rib_soundD(1) by (simp add: ctl_sound_def)
  let ?u0 = "ct_up ct"
  obtain l u1 ms0 where s: "stats_run_periodic_task X (ct_stats ct, ?u0) = Some (l, u1)" "sends X contents ms0 ?u0 u1"
    using stats_run_sends [OF env(2,3) wf] by blast
  let ?mid = "ct\<lparr>ct_up := u1, ct_stats := l\<rparr>"
  have mid: "run_app srt jk X H ct Stats_app = Some ?mid" using s(1) by (simp add: run_app_def)
  have rib: "rib_sound (ru_rib u1)" "infos_ok (fs_scheduling_info (ct_flex ct))"
    using assms(2) s(2) by (simp_all add: ctl_sound_def sends_def)
  have "flex_run_periodic_task srt jk X H (ct_flex ct, u1) \<noteq> None"
    using flex_task_sound(1) [OF env rib] assms(6) sends_same_view(1) [OF s(2)] by (simp add: app_untied_def)
  then obtain p u2 where f: "flex_run_periodic_task srt jk X H (ct_flex ct, u1) = Some (p, u2)" by auto
  let ?seq = "?mid\<lparr>ct_up := u2, ct_flex := p\<rparr>"
  have seq: "run_app srt jk X H ?mid Flex_app = Some ?seq" using f by (simp add: run_app_def)
  have "th_inv srt jk X contents H ?u0 l u1 p u2 (start_threads ct)"
    unfolding th_inv_def
    by (rule exI [of _ ?u0], rule exI [of _ u1], rule exI [of _ "[]"], rule exI [of _ "[]"], rule exI [of _ "[]"])
       (use s f wf in \<open>simp add: start_threads_def sends_def pushes_none rib_wf_def\<close>)
  from threads_inv [OF env(2,3) this assms(3)] obtain t where
    t: "foldo (thread_step srt jk X H) (start_threads ct) sched = Some t" "th_inv srt jk X contents H ?u0 l u1 p u2 t"
      "stats_left n (th_stats t) \<le> n + 1 - count_list sched Stats_app"
      "flex_left n (th_flex t) \<le> 3 * n + 3 - count_list sched Flex_app"
    by (auto simp: start_threads_def)
  have "stats_left n (th_stats t) = 0" "flex_left n (th_flex t) = 0" using t(3,4) assms(4,5) by simp_all
  then have fin: "th_stats t = Stats_loop []" "th_flex t = Flex_done" using stats_left_0 flex_left_0 by blast+
  obtain ms ns zs where "ct_stats (th_ct t) = l" "ct_flex (th_ct t) = p" "ru_rib (ct_up (th_ct t)) = ru_rib u2"
    and m: "sends X contents ms ?u0 u1" "pushes X contents ns u1 u2" "zs \<in> shuffles ms ns"
      "pushes X contents zs ?u0 (ct_up (th_ct t))"
    using t(2) by (auto simp: th_inv_def fin)
  moreover have "pushes X contents ms ?u0 u1" using m(1) sends_pushes by blast
  ultimately show ?thesis
    by (intro exI [of _ t] exI [of _ ?mid] exI [of _ ?seq] exI [of _ ms] exI [of _ ns] exI [of _ zs])
       (simp add: t(1) fin mid seq finished_def)
qed

text \<open>Two agents, the program files of the first one not pushed yet, and a schedule in which the threads overlap.\<close>

definition busy_enb :: "int \<Rightarrow> enb_rib_info" where
  "busy_enb a = update_eNB_config 0 (new_enb_rib_info zero_junk 0 a)
     \<lparr>er_header = no_header, er_eNB_id = 0, er_cell_config = []\<rparr>"

definition busy :: "tagged_message list controller" where
  "busy = (new_controller (new_network []))
     \<lparr>ct_up := \<lparr>ru_rib = \<lparr>rb_eNB_configs = [(1, busy_enb 1), (4, busy_enb 4)], rb_pending_agents = {}\<rparr>, ru_net = new_network []\<rparr>,
      ct_flex := new_flexible_scheduler\<lparr>fs_central_scheduling := True\<rparr>\<rparr>"

definition overlap :: "app list" where
  "overlap = [Stats_app, Flex_app, Flex_app, Stats_app, Flex_app, Stats_app, Flex_app, Flex_app, Flex_app, Flex_app, Flex_app, Flex_app]"

definition code_host :: host where
  "code_host = \<lparr>ho_env = None, ho_file = \<lambda>_. Some [7]\<rparr>"

lemma busy_sound: "ctl_sound busy"
proof -
  have "agent_sound (busy_enb a)" for a unfolding busy_enb_def by (rule created_sound) (simp add: cells_in_range_def)
  then show ?thesis
    by (auto simp: ctl_sound_def rib_sound_def busy_def sm_inv_def get_agent_def sm_find_def infos_ok_def
        new_flexible_scheduler_def split: if_splits)
qed

text \<open>The agents of the instance have no cells yet, so there is nothing to sort.\<close>

lemma busy_untied: "due_untied zero_junk (fs_scheduling_info (ct_flex busy)) (ru_rib (ct_up busy))"
proof -
  have "cells_untied (busy_enb a)" for a by (simp add: cells_untied_def busy_enb_def update_eNB_config_def frame_simps)
  then show ?thesis
    by (simp add: due_untied_def agent_untied_def busy_def get_available_agents_def sm_keys_def get_agent_def sm_find_def)
qed

lemma threads_run_as_in_sequence_witness:
  "\<exists>t mid seq. foldo (thread_step insertion_sort zero_junk list_ext code_host) (start_threads busy) overlap = Some t \<and>
     finished t \<and> run_app insertion_sort zero_junk list_ext code_host busy Stats_app = Some mid \<and>
     run_app insertion_sort zero_junk list_ext code_host mid Flex_app = Some seq \<and>
     ct_flex (th_ct t) = ct_flex seq \<and> ru_rib (ct_up (th_ct t)) = ru_rib (ct_up seq)"
proof -
  have env: "app_env insertion_sort list_ext (\<lambda>q. q)"
    using ext_ok_list two_agents_facts(3) by (simp add: app_env_def ins.std_sort_axioms)
  have n: "2 = length (get_available_agents (ru_rib (ct_up busy)))"
    by (simp add: busy_def get_available_agents_def sm_keys_def)
  have "app_untied zero_junk busy Flex_app" using busy_untied by (simp add: app_untied_def)
  from threads_run_as_in_sequence [OF env busy_sound n _ _ this, of overlap code_host] show ?thesis
    by (auto simp: overlap_def)
qed

end
