(* ===== verification/ControllerRuns.thy ===== *)
theory ControllerRuns
  imports Controller
begin

text \<open>
  The runs of the controller: a state machine of cycles, north-bound calls and network activity. As long as what the
  agents send is in range, a cycle can fault in one way, by two UEs that tie in a sort of the central scheduler; in
  cycles without ties no message waits for ever.
\<close>

section \<open>Reachable states\<close>

text \<open>
  \<open>network\<close> is whatever the network thread does to queues and sessions. A cycle is taken when the messages
  it handles are in range; \<open>apps\<close> is the order in which the threads of the applications happen to run.
\<close>

inductive ctl_reach :: "(ue_stats list \<Rightarrow> ue_stats list) \<Rightarrow> junk \<Rightarrow> 'q ext \<Rightarrow> host \<Rightarrow> debug \<Rightarrow> 'q controller \<Rightarrow> bool"
  for srt jk X H D where
  started: "ctl_reach srt jk X H D (new_controller n)"
| network: "ctl_reach srt jk X H D ct \<Longrightarrow> ctl_reach srt jk X H D (ct\<lparr>ct_up := (ct_up ct)\<lparr>ru_net := n\<rparr>\<rparr>)"
| cycle: "ctl_reach srt jk X H D ct \<Longrightarrow> run_in_range X jk clk 350 (ct_up ct) \<Longrightarrow>
    manage_rt_tasks srt jk X H clk apps ct = Some ct' \<Longrightarrow> ctl_reach srt jk X H D ct'"
| call: "ctl_reach srt jk X H D ct \<Longrightarrow> north_call X H D c ct = Some (resp, ct') \<Longrightarrow> ctl_reach srt jk X H D ct'"

lemma ctl_reach_sound:
  assumes "ctl_reach srt jk X H D ct" and "std_sort srt" and "ext_ok X contents" and "\<And>m. sendable X m"
  shows "ctl_sound ct"
  using assms(1)
proof induction
  case (started n)
  then show ?case by (rule ctl_sound_new)
next
  case (network ct n)
  then show ?case by (simp add: ctl_sound_def)
next
  case (cycle ct clk apps ct')
  then show ?case using cycle_sound(2) [OF assms(2-4) cycle.IH cycle.hyps(2) cycle_apps [OF cycle.hyps(3)] cycle.hyps(3)] by simp
next
  case (call ct c resp ct')
  then show ?case using north_call_sound [OF assms(3,4) call.IH, of H D c] by auto
qed

text \<open>
  C1: what can go wrong in a running controller is one thing. In every state it reaches, by cycles over messages
  in range, north-bound calls and network activity in any order, the next cycle of at most 100 applications returns
  exactly when the central scheduler, if it is on, meets no two UEs that tie in a sort (\<open>cycle_untied\<close>), whatever order
  the applications run in and whatever the uninitialised variables hold; every north-bound call returns. Both
  lead to a reachable state again. While scheduling is delegated to the agents, as it is at the start, nothing is
  sorted and every cycle returns.
\<close>

theorem controller_never_stuck:
  assumes "std_sort srt" and "ext_ok X contents" and "\<And>m. sendable X m" and "ctl_reach srt jk X H D ct"
    and "run_in_range X jk clk 350 (ct_up ct)" and "length apps \<le> 100"
  shows "(manage_rt_tasks srt jk X H clk apps ct = None \<longleftrightarrow> \<not> cycle_untied srt jk X H clk apps ct) \<and>
     (\<forall>ct'. manage_rt_tasks srt jk X H clk apps ct = Some ct' \<longrightarrow> ctl_reach srt jk X H D ct') \<and>
     (\<exists>resp ct'. north_call X H D c ct = Some (resp, ct') \<and> ctl_reach srt jk X H D ct')"
proof -
  note sound = ctl_reach_sound [OF assms(4,1-3)]
  show ?thesis
    using cycle_sound(1) [OF assms(1-3) sound assms(5,6)] north_call_sound [OF assms(2,3) sound, of H D c]
      ctl_reach.cycle [OF assms(4,5)] ctl_reach.call [OF assms(4)] by metis
qed

section \<open>Runs of several cycles\<close>

type_synonym cycle = "(nat \<Rightarrow> int) \<times> app list"

definition run_cycle :: "(ue_stats list \<Rightarrow> ue_stats list) \<Rightarrow> junk \<Rightarrow> 'q ext \<Rightarrow> host \<Rightarrow> 'q controller \<Rightarrow> cycle \<Rightarrow>
    'q controller option" where
  "run_cycle srt jk X H ct = (\<lambda>(clk, apps). manage_rt_tasks srt jk X H clk apps ct)"

fun cycles_in_range :: "(ue_stats list \<Rightarrow> ue_stats list) \<Rightarrow> junk \<Rightarrow> 'q ext \<Rightarrow> host \<Rightarrow> cycle list \<Rightarrow> 'q controller \<Rightarrow> bool" where
  "cycles_in_range srt jk X H [] ct \<longleftrightarrow> True"
| "cycles_in_range srt jk X H (c # cs) ct \<longleftrightarrow>
     run_in_range X jk (fst c) 350 (ct_up ct) \<and> length (snd c) \<le> 100 \<and>
     (case run_cycle srt jk X H ct c of None \<Rightarrow> True | Some ct' \<Rightarrow> cycles_in_range srt jk X H cs ct')"

definition cycles_untied :: "(ue_stats list \<Rightarrow> ue_stats list) \<Rightarrow> junk \<Rightarrow> 'q ext \<Rightarrow> host \<Rightarrow> cycle list \<Rightarrow> 'q controller \<Rightarrow> bool" where
  "cycles_untied srt jk X H cs ct \<longleftrightarrow>
     along (\<lambda>ct (clk, apps). cycle_untied srt jk X H clk apps ct) (run_cycle srt jk X H) ct cs"

lemma cycles_in_range_append: "cycles_in_range srt jk X H (cs @ ds) ct \<Longrightarrow> cycles_in_range srt jk X H cs ct"
  by (induction cs arbitrary: ct) (auto simp del: run_in_range.simps split: option.splits)

lemma cycles_sound:
  assumes "std_sort srt" and "ext_ok X contents" and "\<And>m. sendable X m"
  shows "ctl_sound ct \<Longrightarrow> cycles_in_range srt jk X H cs ct \<Longrightarrow>
     (foldo (run_cycle srt jk X H) ct cs = None \<longleftrightarrow> \<not> cycles_untied srt jk X H cs ct) \<and>
     (\<forall>ct'. foldo (run_cycle srt jk X H) ct cs = Some ct' \<longrightarrow> ctl_sound ct' \<and>
       in_contents contents (ct_up ct') = drop (351 * length cs) (in_contents contents (ct_up ct)))"
proof (induction cs arbitrary: ct)
  case Nil
  then show ?case by (simp add: cycles_untied_def)
next
  case (Cons c cs)
  obtain clk apps where c: "c = (clk, apps)" by (cases c)
  have range: "run_in_range X jk clk 350 (ct_up ct)" "length apps \<le> 100" using Cons.prems(2) by (simp_all add: c)
  note cycle = cycle_sound [OF assms Cons.prems(1) range, of H]
  show ?case
  proof (cases "manage_rt_tasks srt jk X H clk apps ct")
    case None
    then show ?thesis using cycle(1) by (simp add: c run_cycle_def cycles_untied_def)
  next
    case (Some ct1)
    have "cycles_in_range srt jk X H cs ct1" using Cons.prems(2) Some by (simp add: c run_cycle_def)
    from Cons.IH [OF conjunct1 [OF cycle(2) [OF Some]] this] cycle(1) cycle(2) [OF Some] Some show ?thesis
      by (simp add: c run_cycle_def cycles_untied_def add.commute)
  qed
qed

text \<open>What the cycle after the first ones handles: the next 350 messages of the backlog, in their order.\<close>

lemma cycle_handles:
  assumes "std_sort srt" and "ext_ok X contents" and "\<And>m. sendable X m" and "ctl_sound ct"
    and "cycles_in_range srt jk X H cs ct" and "foldo (run_cycle srt jk X H) ct cs = Some ct'" and "i < length cs"
  shows "\<exists>cti u. foldo (run_cycle srt jk X H) ct (take i cs) = Some cti \<and>
     update_rib X jk (fst (cs ! i)) default_messages_to_check (ct_up cti) = Some u \<and>
     handle_all X jk (fst (cs ! i)) 350 (drop (351 * i) (in_contents contents (ct_up ct))) (ct_up cti) =
       Some (with_in_queue (nx_in_queue (ru_net (ct_up cti))) u)"
proof -
  have cs: "cs = take i cs @ cs ! i # drop (Suc i) cs" using assms(7) by (rule id_take_nth_drop)
  then have "foldo (run_cycle srt jk X H) ct (take i cs @ cs ! i # drop (Suc i) cs) = Some ct'" using assms(6) by simp
  then obtain cti ct2 where run: "foldo (run_cycle srt jk X H) ct (take i cs) = Some cti" "run_cycle srt jk X H cti (cs ! i) = Some ct2"
    by (auto simp: foldo_append Option.bind_eq_Some_conv)
  have "cycles_in_range srt jk X H (take i cs) ct" using assms(5) cycles_in_range_append cs by metis
  from cycles_sound [OF assms(1-4) this] run(1) assms(7)
  have queue: "in_contents contents (ct_up cti) = drop (351 * i) (in_contents contents (ct_up ct))" by simp
  obtain u where u: "update_rib X jk (fst (cs ! i)) default_messages_to_check (ct_up cti) = Some u"
    using run(2) by (auto simp: run_cycle_def case_prod_beta manage_rt_tasks_def Option.bind_eq_Some_conv)
  then have "update_loop X jk (fst (cs ! i)) 350 (ct_up cti) = Some u"
    by (simp add: update_rib_def default_messages_to_check_def)
  then show ?thesis using update_loop_handles [OF assms(2), of jk "fst (cs ! i)" 350 "ct_up cti"] run(1) u queue by auto
qed

text \<open>
  C14: no message waits for ever. From any reachable state, cycles over messages in range in which no UEs tie
  return, and once there were enough of them for the backlog the input queue is empty. A cycle works off 351 messages
  of it: the updater of cycle \<open>i\<close> starts from the state the cycles before it left and does what handling messages
  \<open>351 * i\<close> to \<open>351 * i + 349\<close> of the backlog does, in their order; the one after them is dropped.
\<close>

theorem backlog_served:
  assumes "std_sort srt" and "ext_ok X contents" and "\<And>m. sendable X m" and "ctl_reach srt jk X H D ct"
    and "cycles_in_range srt jk X H cs ct" and "cycles_untied srt jk X H cs ct"
    and "tms = in_contents contents (ct_up ct)" and "length tms \<le> 351 * length cs"
  shows "(\<exists>ct'. foldo (run_cycle srt jk X H) ct cs = Some ct' \<and> in_contents contents (ct_up ct') = []) \<and>
     (\<forall>i < length cs. \<exists>cti u. foldo (run_cycle srt jk X H) ct (take i cs) = Some cti \<and>
        update_rib X jk (fst (cs ! i)) default_messages_to_check (ct_up cti) = Some u \<and>
        handle_all X jk (fst (cs ! i)) 350 (drop (351 * i) tms) (ct_up cti) =
          Some (with_in_queue (nx_in_queue (ru_net (ct_up cti))) u))"
proof -
  note sound = ctl_reach_sound [OF assms(4,1-3)]
  obtain ct' where ct': "foldo (run_cycle srt jk X H) ct cs = Some ct'"
    using cycles_sound [OF assms(1-3) sound assms(5)] assms(6) by auto
  moreover have "in_contents contents (ct_up ct') = []"
    using cycles_sound [OF assms(1-3) sound assms(5)] ct' assms(7,8) by simp
  ultimately show ?thesis
    using cycle_handles [OF assms(1-3) sound assms(5) ct'] unfolding assms(7) by simp
qed

section \<open>An instance\<close>

text \<open>Messages that are in range whenever they arrive.\<close>

lemma run_in_range_always:
  assumes "ext_ok X contents"
  shows "(\<And>tm v. tm \<in> set (in_contents contents u) \<Longrightarrow> message_in_range X v tm) \<Longrightarrow> run_in_range X jk clk k u"
proof (induction k arbitrary: u)
  case (Suc k)
  show ?case
  proof (cases "get_msg_from_network X (ru_net u)")
    case (Some p)
    then obtain tm n where p: "get_msg_from_network X (ru_net u) = Some (tm, n)" by (cases p) simp
    note queue = get_msg_contents(2) [OF assms p]
    have "run_in_range X jk clk k v" if "handle_tagged X jk (clk (Suc k)) tm (u\<lparr>ru_net := n\<rparr>) = Some v" for v
    proof (rule Suc.IH)
      fix t w assume "t \<in> set (in_contents contents v)"
      then show "message_in_range X w t"
        using Suc.prems queue handle_tagged_touches [OF that] by (simp add: touches_def)
    qed
    then show ?thesis using p Suc.prems queue by (simp split: option.split)
  qed simp
qed simp

text \<open>An agent connects and reports its cells; \<open>cell_ext\<close> reads the message 3 as a configuration with two of them.\<close>

definition cell_ext :: "tagged_message list ext" where
  "cell_ext = list_ext\<lparr>ext_parse := \<lambda>b. \<lparr>msg_dir = SUCCESSFUL_OUTCOME,
     msg_body = (if b = [3] then EnbConfigReplyMsg \<lparr>er_header = no_header, er_eNB_id = 1, er_cell_config = [sample_cell, second_cell]\<rparr>
                 else NoMsg)\<rparr>\<rparr>"

lemma cell_ext_ok: "ext_ok cell_ext (\<lambda>q. q)" "sendable cell_ext m"
  using ext_ok_list two_agents_facts(3) [of m] by (simp_all add: cell_ext_def ext_ok_def sendable_def)

definition connecting :: "tagged_message list network" where
  "connecting = (new_network [])\<lparr>nx_in_queue := [sample_tagged 4 [], sample_tagged 4 [3]]\<rparr>"

lemma connecting_in_range: "run_in_range cell_ext zero_junk clk k (ct_up (new_controller connecting))"
proof (rule run_in_range_always [OF cell_ext_ok(1)])
  fix tm v assume "tm \<in> set (in_contents (\<lambda>q. q) (ct_up (new_controller connecting)))"
  then have "tm = sample_tagged 4 [] \<or> tm = sample_tagged 4 [3]" by (auto simp: new_controller_def connecting_def)
  then show "message_in_range cell_ext v tm"
    by (auto simp: message_in_range_def tagged_event_def sample_tagged_def getSize_def tm_contents_def cell_ext_def
        cells_in_range_def cell_in_range_def second_cell_def sample_cell_def)
qed

text \<open>While the controller delegates no sort takes place.\<close>

lemma delegating_untied:
  assumes "\<not> fs_central_scheduling (ct_flex ct)"
  shows "cycle_untied srt jk X H clk registered_apps ct"
proof -
  have "app_untied jk (ct\<lparr>ct_up := u\<rparr>) a" for u a using assms by (simp add: app_untied_def split: app.split)
  moreover have "app_untied jk ct1 a" if "run_app srt jk X H (ct\<lparr>ct_up := u\<rparr>) Stats_app = Some ct1" for u ct1 a
    using that assms by (auto simp: app_untied_def run_app_def Option.bind_eq_Some_conv split: app.split)
  ultimately show ?thesis by (simp add: cycle_untied_def registered_apps_def split: option.split)
qed

lemma connecting_untied: "cycle_untied srt jk X H clk registered_apps (new_controller connecting)"
  by (rule delegating_untied) (simp add: new_controller_def new_flexible_scheduler_def)

lemma never_stuck_witness:
  "\<exists>ct' resp ct''. manage_rt_tasks insertion_sort zero_junk cell_ext \<lparr>ho_env = None, ho_file = \<lambda>_. None\<rparr> (\<lambda>_. 0)
        registered_apps (new_controller connecting) = Some ct' \<and>
     north_call cell_ext \<lparr>ho_env = None, ho_file = \<lambda>_. None\<rparr>
        \<lparr>dbg_stats = \<lambda>_. [], dbg_enb = \<lambda>_. [], dbg_ue = \<lambda>_. [], dbg_lc = \<lambda>_. []\<rparr> (ChangeScheduler 1)
        (new_controller connecting) = Some (resp, ct'')"
proof -
  let ?H = "\<lparr>ho_env = None, ho_file = \<lambda>_. None\<rparr>"
  let ?D = "\<lparr>dbg_stats = \<lambda>_. [], dbg_enb = \<lambda>_. [], dbg_ue = \<lambda>_. [], dbg_lc = \<lambda>_. []\<rparr>"
  have "ctl_reach insertion_sort zero_junk cell_ext ?H ?D (new_controller connecting)" by (rule ctl_reach.started)
  note claim = controller_never_stuck [OF ins.std_sort_axioms cell_ext_ok this connecting_in_range,
      where apps = registered_apps and c = "ChangeScheduler 1" and clk = "\<lambda>_. 0"]
  have "length registered_apps \<le> 100" by (simp add: registered_apps_def)
  from claim [OF this] connecting_untied [of insertion_sort zero_junk cell_ext ?H "\<lambda>_. 0"] show ?thesis
    by (cases "manage_rt_tasks insertion_sort zero_junk cell_ext ?H (\<lambda>_. 0) registered_apps (new_controller connecting)") auto
qed

lemma backlog_witness:
  "\<exists>ct'. foldo (run_cycle insertion_sort zero_junk cell_ext \<lparr>ho_env = None, ho_file = \<lambda>_. None\<rparr>)
        (new_controller connecting) [(\<lambda>_. 0, registered_apps)] = Some ct' \<and> nx_in_queue (ru_net (ct_up ct')) = []"
proof -
  let ?H = "\<lparr>ho_env = None, ho_file = \<lambda>_. None\<rparr>"
  let ?D = "\<lparr>dbg_stats = \<lambda>_. [], dbg_enb = \<lambda>_. [], dbg_ue = \<lambda>_. [], dbg_lc = \<lambda>_. []\<rparr>"
  have "cycles_in_range insertion_sort zero_junk cell_ext ?H [(\<lambda>_. 0, registered_apps)] (new_controller connecting)"
    using connecting_in_range by (simp add: registered_apps_def del: run_in_range.simps split: option.split)
  moreover have "ctl_reach insertion_sort zero_junk cell_ext ?H ?D (new_controller connecting)" by (rule ctl_reach.started)
  moreover have "length (in_contents (\<lambda>q. q) (ct_up (new_controller connecting))) \<le>
      351 * length [((\<lambda>_. 0) :: nat \<Rightarrow> int, registered_apps)]"
    by (simp add: new_controller_def connecting_def)
  moreover have "cycles_untied insertion_sort zero_junk cell_ext ?H [(\<lambda>_. 0, registered_apps)] (new_controller connecting)"
    using connecting_untied by (simp add: cycles_untied_def split: option.split)
  ultimately show ?thesis using backlog_served [OF ins.std_sort_axioms cell_ext_ok _ _ _ refl] by blast
qed

end
