(* ===== verification/MessageTypes.thy ===== *)
theory MessageTypes
  imports ControllerRuns
begin

text \<open>
  The types of what the controller sends. A protobuf message has a header with a type of its own beside the member
  of the \<open>oneof\<close> that is set, and repeated fields of any length; nothing but the code keeps them together.
\<close>

section \<open>Well-typed messages\<close>

definition typed_header :: "flex_type \<Rightarrow> flex_header \<Rightarrow> bool" where
  "typed_header t h \<longleftrightarrow> hdr_type h = Some t \<and> hdr_xid h \<noteq> None"

text \<open>Both transport blocks of a PDU ask the same positive number of bytes of the same channel.\<close>

definition typed_pdu :: "flex_rlc_pdu \<Rightarrow> bool" where
  "typed_pdu pdu \<longleftrightarrow> (\<exists>tb. pdu = [tb, tb] \<and> tb_size tb > 0)"

text \<open>One assignment of one transport block, for the UE the data element names.\<close>

definition typed_dci :: "u32 \<Rightarrow> flex_dl_dci \<Rightarrow> bool" where
  "typed_dci rnti dci \<longleftrightarrow> dci_rnti dci = rnti \<and> dci_format dci = FLDCIF_1 \<and> length (dci_mcs dci) = 1 \<and>
     length (dci_tbs_size dci) = 1 \<and> length (dci_ndi dci) = 1 \<and> (\<exists>v. dci_rv dci = [v] \<and> v < 4)"

definition typed_data :: "flex_dl_data \<Rightarrow> bool" where
  "typed_data d \<longleftrightarrow> (\<exists>dci. dd_dl_dci d = Some dci \<and> typed_dci (dd_rnti d) dci) \<and>
     (\<exists>flags. dd_ce_bitmap d = [flags, flags]) \<and> list_all typed_pdu (dd_rlc_pdu d)"

definition well_typed :: "flexran_message \<Rightarrow> bool" where
  "well_typed m \<longleftrightarrow>
     (case msg_body m of
        HelloMsg h \<Rightarrow> typed_header FLPT_HELLO h \<and> msg_dir m = INITIATING_MESSAGE
      | EchoReplyMsg h \<Rightarrow> typed_header FLPT_ECHO_REPLY h \<and> msg_dir m = SUCCESSFUL_OUTCOME
      | EnbConfigRequestMsg h \<Rightarrow> typed_header FLPT_GET_ENB_CONFIG_REQUEST h \<and> msg_dir m = INITIATING_MESSAGE
      | UeConfigRequestMsg h \<Rightarrow> typed_header FLPT_GET_UE_CONFIG_REQUEST h \<and> msg_dir m = INITIATING_MESSAGE
      | LcConfigRequestMsg h \<Rightarrow> typed_header FLPT_GET_LC_CONFIG_REQUEST h \<and> msg_dir m = INITIATING_MESSAGE
      | StatsRequestMsg q \<Rightarrow> typed_header FLPT_STATS_REQUEST (sq_header q) \<and> msg_dir m = INITIATING_MESSAGE
      | DlMacConfigMsg q \<Rightarrow> typed_header FLPT_DL_MAC_CONFIG (dm_header q) \<and> msg_dir m = INITIATING_MESSAGE \<and>
          dm_dl_ue_data q \<noteq> [] \<and> list_all typed_data (dm_dl_ue_data q)
      | ControlDelegationMsg q \<Rightarrow> typed_header FLPT_DELEGATE_CONTROL (cd_header q) \<and> msg_dir m = INITIATING_MESSAGE
      | AgentReconfigurationMsg q \<Rightarrow> typed_header FLPT_RECONFIGURE_AGENT (ar_header q) \<and> msg_dir m = INITIATING_MESSAGE
      | _ \<Rightarrow> False)"

lemmas out_defs = hello_out_def enb_config_request_out_def ue_config_request_out_def lc_config_request_out_def
  echo_reply_out_def stats_request_out_def delegation_out_def reconfiguration_out_def

lemma well_typed_out [simp]:
  "well_typed hello_out" "well_typed enb_config_request_out" "well_typed ue_config_request_out"
  "well_typed lc_config_request_out" "well_typed (echo_reply_out h)" "well_typed stats_request_out"
  "well_typed (delegation_out name code)" "well_typed (reconfiguration_out policy)"
  by (simp_all add: well_typed_def typed_header_def out_defs)

section \<open>Steps of the network\<close>

text \<open>
  What a thread of the controller does to the network: it consumes what arrived and sends well-typed messages, as
  steps of the network interface.
\<close>

definition typed_event :: "net_event \<Rightarrow> bool" where
  "typed_event ev \<longleftrightarrow> (case ev of SendPush m a \<Rightarrow> well_typed m | SendPost \<Rightarrow> True | Consume \<Rightarrow> True | _ \<Rightarrow> False)"

definition acts :: "'q ext \<Rightarrow> 'q updater \<Rightarrow> 'q updater \<Rightarrow> bool" where
  "acts X u u' \<longleftrightarrow> (\<exists>h. net_path X typed_event (ru_net u) h (ru_net u'))"

lemma acts_same [intro]: "ru_net u' = ru_net u \<Longrightarrow> acts X u u'"
  using net_path.here by (auto simp: acts_def)

lemma acts_trans [trans]:
  assumes "acts X u v" and "acts X v w"
  shows "acts X u w"
  using assms net_path_trans unfolding acts_def by blast

lemma acts_consume:
  assumes "get_msg_from_network X (ru_net u) = Some (tm, n)"
  shows "acts X u (u\<lparr>ru_net := n\<rparr>)"
proof -
  have "net_path X typed_event (ru_net u) (accepted X (ru_net u) Consume) n"
    using assms by (intro net_path_one) (simp_all add: typed_event_def)
  then show ?thesis by (auto simp: acts_def)
qed

text \<open>\<open>send_msg\<close> is the push and, when that succeeds, the post.\<close>

lemma acts_send:
  assumes "\<And>m. sendable X m" and "well_typed m" and "send_to X m a u = Some u'"
  shows "acts X u u'"
proof -
  obtain ok n where push: "send_push X m a (ru_net u) = Some (ok, n)"
    and u': "ru_net u' = (if ok then send_post n else n)"
    using assms(3) by (auto simp: send_to_def send_msg_def Option.bind_eq_Some_conv)
  let ?h = "accepted X (ru_net u) (SendPush m a)"
  have 1: "net_path X typed_event (ru_net u) ?h n"
    using push assms(1,2) by (intro net_path_one) (simp_all add: typed_event_def)
  show ?thesis
  proof (cases ok)
    case True
    then have "0 < nx_pushed n" using push by (auto simp: send_push_def Option.bind_eq_Some_conv split: option.splits)
    then have "net_path X typed_event n (accepted X n SendPost) (send_post n)"
      by (intro net_path_one) (simp_all add: typed_event_def)
    from net_path_trans [OF 1 this] show ?thesis using u' True by (auto simp: acts_def)
  next
    case False
    then show ?thesis using 1 u' by (auto simp: acts_def)
  qed
qed

lemma acts_foldo:
  assumes "foldo f s xs = Some s'" and "\<And>s x s'. f s x = Some s' \<Longrightarrow> acts X (g s) (g s')"
  shows "acts X (g s) (g s')"
  using assms(1)
  by (rule foldo_invariant [where I = "\<lambda>t. acts X (g s) (g t)"])
     (use assms(2) acts_trans in \<open>blast+\<close>)

section \<open>The updater\<close>

lemma on_rib_output: "on_rib f u = Some u' \<Longrightarrow> ru_net u' = ru_net u"
  by (auto simp: on_rib_eq_Some)

lemma if_configured_output:
  assumes "if_configured a f u = Some u'" and "\<And>v. f u = Some v \<Longrightarrow> acts X u v"
  shows "acts X u u'"
  using assms by (auto simp: if_configured_def split: if_splits)

lemma handle_tagged_output:
  assumes "\<And>m. sendable X m" and "handle_tagged X jk now tm u = Some u'"
  shows "acts X u u'"
proof -
  note send = acts_send [OF assms(1)]
  let ?a = "tm_tag tm"
  have hello: "acts X u v" if hello: "handle_hello X ?a d u = Some v" for d v
  proof (cases "d = SUCCESSFUL_OUTCOME")
    case True
    then obtain v1 v2 where "send_to X enb_config_request_out ?a u = Some v1"
      "send_to X ue_config_request_out ?a v1 = Some v2" "send_to X lc_config_request_out ?a v2 = Some v"
      using hello by (auto simp: handle_hello_def Option.bind_eq_Some_conv)
    then have "acts X u v1" "acts X v1 v2" "acts X v2 v"
      using send [of enb_config_request_out ?a u v1] send [of ue_config_request_out ?a v1 v2]
        send [of lc_config_request_out ?a v2 v] by simp_all
    then show ?thesis using acts_trans by blast
  next
    case False
    then show ?thesis using hello by (auto simp: handle_hello_def)
  qed
  have new: "acts X u v" if "handle_new_connection X ?a u = Some v" for v
    using send [of hello_out ?a "u\<lparr>ru_rib := add_pending_agent ?a (ru_rib u)\<rparr>" v] that
    by (simp add: handle_new_connection_def acts_def)
  have state: "acts X u v" if "handle_ue_state_change X jk ?a m u = Some v" for m v
    using that unfolding handle_ue_state_change_def
  proof (rule if_configured_output)
    fix w assume "(do { u \<leftarrow> on_rib (ue_state_update jk ?a m) u; send_to X lc_config_request_out ?a u }) = Some w"
    then obtain y where "on_rib (ue_state_update jk ?a m) u = Some y" "send_to X lc_config_request_out ?a y = Some w"
      by (auto simp: Option.bind_eq_Some_conv)
    then have "acts X u y" "acts X y w"
      using on_rib_output [of _ u y] send [of lc_config_request_out ?a y w] by auto
    then show "acts X u w" by (rule acts_trans)
  qed
  have enb: "acts X u v" if "handle_enb_config_reply jk now ?a m u = Some v" for m v
    using that by (auto simp: handle_enb_config_reply_def Let_def dest!: on_rib_output split: if_splits)
  have quiet: "acts X u v" if "if_configured ?a (on_rib f) u = Some v" for f v
    using that by (rule if_configured_output) (auto dest: on_rib_output)
  show ?thesis
    using assms(2) new hello state enb quiet send [of "echo_reply_out _" ?a u]
    by (auto simp: handle_tagged_def handle_message_def handle_echo_request_def handle_echo_reply_def
        handle_sf_trigger_def handle_ue_config_reply_def handle_lc_config_reply_def handle_stats_reply_def
        split: if_splits flexran_body.splits)
qed

lemma update_loop_output:
  assumes "\<And>m. sendable X m"
  shows "update_loop X jk clk k u = Some u' \<Longrightarrow> acts X u u'"
proof (induction k arbitrary: u)
  case 0
  then show ?case
    using acts_consume [of X u]
    by (subst (asm) update_loop.simps) (auto split: option.splits)
next
  case (Suc k)
  show ?case
  proof (cases "get_msg_from_network X (ru_net u)")
    case None
    then show ?thesis using Suc.prems by (subst (asm) update_loop.simps) auto
  next
    case (Some p)
    then obtain tm n where p: "get_msg_from_network X (ru_net u) = Some (tm, n)" by (cases p) simp
    obtain v where v: "handle_tagged X jk (clk (Suc k)) tm (u\<lparr>ru_net := n\<rparr>) = Some v" "update_loop X jk clk k v = Some u'"
      using Suc.prems p by (subst (asm) update_loop.simps) (auto simp: Option.bind_eq_Some_conv)
    have "acts X u (u\<lparr>ru_net := n\<rparr>)"
      using acts_consume [OF p] .
    also have "acts X \<dots> v" by (rule handle_tagged_output [OF assms v(1)])
    also have "acts X v u'" by (rule Suc.IH [OF v(2)])
    finally show ?thesis .
  qed
qed

section \<open>The central scheduler\<close>

lemma request_channel_typed:
  assumes "list_all typed_pdu (rq_pdus q)"
  shows "list_all typed_pdu (rq_pdus (fst (request_channel t l q b)))"
  using assms by (auto simp: request_channel_def Let_def typed_pdu_def)

lemma request_channels_typed:
  "list_all typed_pdu (rq_pdus q) \<Longrightarrow> list_all typed_pdu (rq_pdus (fst (request_channels t l q bs)))"
proof (induction bs arbitrary: q)
  case (Cons b bs)
  then show ?case using request_channel_typed [OF Cons.prems, of t l b] by (simp add: case_prod_beta Let_def)
qed simp

lemma coding_typed:
  assumes "(if round > 0 then retransmit c p av co else new_transmission c f sf p av e co) = Some co'"
    and "co_pdus co = []"
  shows "list_all typed_pdu (co_pdus co')"
proof -
  have "list_all typed_pdu (rq_pdus (fst (request_channels t l no_request bs)))" for t l bs
    by (rule request_channels_typed) (simp add: no_request_def)
  then show ?thesis
    using assms
    by (auto simp: retransmit_def new_transmission_def code_payload_def Let_def case_prod_beta
        Option.bind_eq_Some_conv split: if_splits)
qed

abbreviation typed_list :: "flex_state \<Rightarrow> bool" where
  "typed_list st \<equiv> list_all typed_data (fl_data st)"

lemma rv_less_4: "(ucast (r mod 4 :: u8) :: u32) < 4"
proof -
  have "r mod 4 < 4" by (rule word_mod_less_divisor) simp
  then show ?thesis by (simp add: word_less_nat_alt unsigned_ucast_eq take_bit_eq_mod)
qed

lemma finish_ue_typed:
  assumes "finish_ue c ue p round co st = Some st'" and "list_all typed_pdu (co_pdus co)" and "typed_list st"
  shows "typed_list st'"
  using assms rv_less_4
  by (auto simp: finish_ue_def Let_def Option.bind_eq_Some_conv typed_data_def typed_dci_def dci_of_def split: option.splits)

lemma schedule_ue_typed:
  assumes "schedule_ue c f sf st ue = Some st'" and "typed_list st"
  shows "typed_list st'"
proof -
  have "typed_list st'" if "transmit_ue c f sf ue u s av st0 = Some st'" "typed_list st0" for u s av st0
    using that finish_ue_typed
    by (auto simp: transmit_ue_def Let_def Option.bind_eq_Some_conv dest!: coding_typed simp del: if_split_asm)
  then show ?thesis
    using assms by (auto simp: schedule_ue_def Let_def Option.bind_eq_Some_conv split: option.splits if_splits)
qed

lemma schedule_agent_typed:
  assumes "schedule_agent srt f sf e sched vars = Some st"
  shows "typed_list st"
proof -
  have cell: "typed_list st2" if "schedule_cell f sf st1 c = Some st2" "typed_list st1" for st1 st2 c
    using that(1) unfolding schedule_cell_def
    by (rule foldo_invariant [where I = typed_list]) (use that(2) schedule_ue_typed in blast)+
  obtain s where "foldo (schedule_cell f sf) \<lparr>fl_enb = e, fl_sched = s, fl_vars = vars, fl_data = []\<rparr> (cell_configs e) = Some st"
    using assms by (auto simp: schedule_agent_def Option.bind_eq_Some_conv)
  then show ?thesis
    by (rule foldo_invariant [where I = typed_list]) (use cell in auto)
qed

section \<open>The applications\<close>

lemma dl_mac_config_typed:
  "data \<noteq> [] \<Longrightarrow> list_all typed_data data \<Longrightarrow> well_typed (dl_mac_config_out f sf data)"
  by (simp add: well_typed_def typed_header_def dl_mac_config_out_def)

lemma put_agent_output: "acts X (put_agent a e u) v \<longleftrightarrow> acts X u v"
  by (simp add: acts_def put_agent_def)

lemma central_agent_output:
  assumes "\<And>m. sendable X m" and "central_agent srt jk X (app, vars, u) a = Some (app', vars', u')"
  shows "acts X u u'"
proof -
  obtain e sched where e: "get_agent (ru_rib u) a = Some e"
    and s: "sm_find (ensure_scheduling_info jk a (fs_scheduling_info app)) a = Some sched"
    using assms(2) by (auto simp: central_agent_def Let_def Option.bind_eq_Some_conv)
  obtain tf tsf where t: "target_time 0 (en_current_frame e) (en_current_subframe e) = (tf, tsf)" by fastforce
  show ?thesis
  proof (cases "\<not> needs_scheduling sched (en_current_frame e) (en_current_subframe e) \<or> tsf = 0 \<or> tsf = 5")
    case True
    then show ?thesis using assms(2) e s t by (auto simp: central_agent_def Let_def)
  next
    case False
    then obtain st where st: "schedule_agent srt tf tsf e sched vars = Some st"
      and u': "(if fl_data st \<noteq> [] then send_to X (dl_mac_config_out tf tsf (fl_data st)) a (put_agent a (fl_enb st) u)
               else Some (put_agent a (fl_enb st) u)) = Some u'"
      using assms(2) e s t by (auto simp: central_agent_def Let_def Option.bind_eq_Some_conv)
    show ?thesis
    proof (cases "fl_data st = []")
      case True
      then show ?thesis using u' by (auto simp: put_agent_def)
    next
      case False
      from acts_send [OF assms(1) dl_mac_config_typed [OF False schedule_agent_typed [OF st]], of tf tsf a] u' False
      show ?thesis using put_agent_output [of X a "fl_enb st" u u'] by auto
    qed
  qed
qed

lemma central_run_output:
  assumes "\<And>m. sendable X m" and "run_central_scheduler srt jk X (app, u) = Some (app', u')"
  shows "acts X u u'"
proof -
  obtain st where st: "foldo (central_agent srt jk X) (app, start_vars jk (fs_tpc_accumulated app), u)
      (get_available_agents (ru_rib u)) = Some st" "u' = snd (snd st)"
    using assms(2) by (auto simp: run_central_scheduler_def Let_def start_vars_def Option.bind_eq_Some_conv)
  from acts_foldo [OF st(1), where g = "\<lambda>s. snd (snd s)"]
  show ?thesis using central_agent_output [OF assms(1)] st(2) by (cases st) force
qed

lemma push_code_output:
  assumes "\<And>m. sendable X m" and "push_code X H a f name u = Some u'"
  shows "acts X u u'"
  using assms(2) acts_send [OF assms(1), of "delegation_out f _" a u u']
  by (auto simp: push_code_def split: option.splits)

lemma push_once_output:
  assumes "\<And>m. sendable X m" and "push_once X H (app, u) a = Some (app', u')"
  shows "acts X u u'"
proof (cases "fs_code_pushed app")
  case True
  then show ?thesis using assms(2) by (auto simp: push_once_def)
next
  case False
  then obtain v where "push_code X H a ''flexran_schedule_ue_spec_remote'' (delegation_path H @ ''libremote_sched.so'') u = Some v"
    "push_code X H a ''flexran_schedule_ue_spec_default'' (delegation_path H @ ''libdefault_sched.so'') v = Some u'"
    using assms(2) by (auto simp: push_once_def Option.bind_eq_Some_conv)
  from this [THEN push_code_output [OF assms(1)]] show ?thesis by (rule acts_trans)
qed

lemma flex_task_output:
  assumes "\<And>m. sendable X m" and "flex_run_periodic_task srt jk X H (app, u) = Some (app', u')"
  shows "acts X u u'"
proof -
  obtain app1 u1 where 1: "foldo (push_once X H) (app, u) (get_available_agents (ru_rib u)) = Some (app1, u1)"
    and 2: "(if fs_central_scheduling app1 then run_central_scheduler srt jk X (app1, u1) else Some (app1, u1)) = Some (app', u')"
    using assms(2) by (auto simp: flex_run_periodic_task_def Option.bind_eq_Some_conv)
  from acts_foldo [OF 1, where g = snd] push_once_output [OF assms(1)]
  have "acts X u u1" by force
  also have "acts X u1 u'"
    using 2 central_run_output [OF assms(1)] by (auto split: if_splits)
  finally show ?thesis .
qed

lemma request_stats_output:
  assumes "\<And>m. sendable X m" and "request_stats X (l, u) a = Some (l', u')"
  shows "acts X u u'"
  using assms(2) acts_send [OF assms(1), of stats_request_out a u]
  by (auto simp: request_stats_def Option.bind_eq_Some_conv split: if_splits)

lemma run_app_output:
  assumes "\<And>m. sendable X m" and "run_app srt jk X H ct a = Some ct'"
  shows "acts X (ct_up ct) (ct_up ct')"
proof (cases a)
  case Stats_app
  then obtain l u where u: "foldo (request_stats X) (ct_stats ct, ct_up ct) (get_available_agents (ru_rib (ct_up ct))) = Some (l, u)"
    "ct_up ct' = u"
    using assms(2) by (auto simp: run_app_def stats_run_periodic_task_def Option.bind_eq_Some_conv)
  from acts_foldo [OF u(1), where g = snd] request_stats_output [OF assms(1)]
  show ?thesis using u(2) by force
next
  case Flex_app
  then show ?thesis
    using assms(2) flex_task_output [OF assms(1)] by (auto simp: run_app_def Option.bind_eq_Some_conv)
qed

lemma cycle_output:
  assumes "\<And>m. sendable X m" and "manage_rt_tasks srt jk X H clk apps ct = Some ct'"
  shows "acts X (ct_up ct) (ct_up ct')"
proof -
  obtain u where u: "update_loop X jk clk 350 (ct_up ct) = Some u"
    and apps: "foldo (run_app srt jk X H) (ct\<lparr>ct_up := u\<rparr>) apps = Some ct'"
    using assms(2)
    by (auto simp: manage_rt_tasks_def update_rib_def default_messages_to_check_def Option.bind_eq_Some_conv split: if_splits)
  have "acts X (ct_up ct) u" by (rule update_loop_output [OF assms(1) u])
  also have "acts X u (ct_up ct')"
    using acts_foldo [OF apps, where g = ct_up] run_app_output [OF assms(1)] by force
  finally show ?thesis .
qed

section \<open>The calls\<close>

lemma for_agents_output:
  assumes "for_agents f u = Some u'" and "\<And>a v w. f a v = Some w \<Longrightarrow> acts X v w"
  shows "acts X u u'"
  using acts_foldo [OF assms(1) [unfolded for_agents_def], where g = "\<lambda>u. u"] assms(2) by blast

lemma handle_call_output:
  assumes "\<And>m. sendable X m" and "handle_call X H D c (app, u) = Some (resp, app', u')"
  shows "acts X u u'"
proof -
  have one_string: "acts X v w" if "reconfigure_agent_string X a p v = Some w" for a p v w
    using that acts_send [OF assms(1), of "reconfiguration_out p"] by (auto simp: reconfigure_agent_string_def)
  have one_file: "acts X v w" if "reconfigure_agent_file X H a n v = Some w" for a n v w
    using that one_string by (auto simp: reconfigure_agent_file_def split: option.splits)
  have strings: "acts X v w" if "for_agents (\<lambda>a. reconfigure_agent_string X a p) v = Some w" for p v w
    using that by (rule for_agents_output) (rule one_string)
  have files: "acts X v w" if "for_agents (\<lambda>a. reconfigure_agent_file X H a n) v = Some w" for n v w
    using that by (rule for_agents_output) (rule one_file)
  show ?thesis
    using assms(2)
    by (cases c) (auto simp: change_scheduler_def apply_policy_def apply_policy_string_def enable_central_scheduling_def
        apply_agent_rrm_policy_def apply_agent_rrm_policy_string_def Let_def Option.bind_eq_Some_conv
        intro: strings files split: if_splits)
qed

section \<open>All that is sent is well-typed\<close>

text \<open>The frame of a well-typed message.\<close>

definition typed_frame :: "'q ext \<Rightarrow> tagged_message \<Rightarrow> bool" where
  "typed_frame X t \<longleftrightarrow> (\<exists>m. well_typed m \<and> outgoing X m (tm_tag t) = Some t)"

text \<open>
  What the steps of a thread of the controller leave in the output queue: what they pushed, as far as there was
  room, after what was there; and that is what \<open>send_msg\<close> accepted.
\<close>

lemma typed_path_output:
  assumes "net_path X typed_event n h n'" and "ext_ok X contents"
  shows "contents (nx_out_queue n') = contents (nx_out_queue n) @ h \<and> list_all (typed_frame X) h \<and>
     (\<exists>ms. list_all (\<lambda>(a, m). well_typed m) ms \<and>
        h = take (queue_capacity - length (contents (nx_out_queue n))) (map (wire X) ms))"
  using assms(1)
proof induction
  case here
  then show ?case by (auto intro: exI [of _ "[]"])
next
  case (more h n1 ev n2)
  obtain ms where ms: "list_all (\<lambda>(a, m). well_typed m) ms"
    "h = take (queue_capacity - length (contents (nx_out_queue n))) (map (wire X) ms)" using more.IH by blast
  note fifo = ext_okD(1) [OF assms(2)]
  show ?case
  proof (cases ev)
    case (SendPush m a)
    then have m: "well_typed m" "sendable X m" using more.hyps(2,3) by (simp_all add: typed_event_def)
    obtain t where t: "outgoing X m a = Some t" "tm_tag t = a" using outgoing_total [OF m(2)] by blast
    have wire: "wire X (a, m) = t" by (simp add: wire_def t)
    have ms': "list_all (\<lambda>(a, m). well_typed m) (ms @ [(a, m)])" using ms(1) m(1) by simp
    have len: "length (contents (nx_out_queue n1)) = length (contents (nx_out_queue n)) + length h" using more.IH by simp
    show ?thesis
    proof (cases "q_push X t (nx_out_queue n1)")
      case None
      then have full: "queue_capacity \<le> length (contents (nx_out_queue n1))"
        using bounded_fifo.push_None_iff [OF fifo] by simp
      then have "h = take (queue_capacity - length (contents (nx_out_queue n))) (map (wire X) (ms @ [(a, m)]))"
        using ms(2) len by (simp add: min_def split: if_splits)
      moreover have "accepted X n1 ev = []" "n2 = n1"
        using more.hyps(4) SendPush None t by (auto simp: send_push_def accepted_def)
      ultimately show ?thesis using more.IH ms' by simp
    next
      case (Some q)
      then have q: "contents q = contents (nx_out_queue n1) @ [t]" "length (contents (nx_out_queue n1)) < queue_capacity"
        using bounded_fifo.push_SomeD [OF fifo] by auto
      have "accepted X n1 ev = [t]" "nx_out_queue n2 = q"
        using more.hyps(4) SendPush Some t by (auto simp: send_push_def accepted_def)
      moreover have "typed_frame X t" using m(1) t by (auto simp: typed_frame_def)
      then have "list_all (typed_frame X) (h @ [t])" using more.IH by simp
      moreover have "contents q = contents (nx_out_queue n) @ h @ [t]" using more.IH q(1) by simp
      moreover have "h @ [t] = take (queue_capacity - length (contents (nx_out_queue n))) (map (wire X) (ms @ [(a, m)]))"
        using ms(2) len q(2) wire by (simp add: min_def split: if_splits)
      ultimately show ?thesis using ms' by metis
    qed
  qed (use more in \<open>auto simp: typed_event_def accepted_def send_post_def get_msg_from_network_def split: option.splits\<close>)
qed

lemma acts_output:
  assumes "acts X u u'" and "ext_ok X contents"
  obtains h where "net_path X typed_event (ru_net u) h (ru_net u')" and "list_all (typed_frame X) h"
    and "out_contents contents u' = out_contents contents u @ h"
    and "\<exists>ms. list_all (\<lambda>(a, m). well_typed m) ms \<and> h = take (room contents u) (map (wire X) ms)"
  using assms typed_path_output unfolding acts_def room_def by blast

text \<open>
  C5: what the controller sends is well-typed. In every reachable state a cycle over messages in range, which returns
  exactly when no UEs tie in a sort of the central scheduler, and a call of the north-bound interface, which always
  returns, append to the output queue the frames of well-typed messages and nothing else, as far as it has room: the
  type in the header is that of the body, the direction fits, a command is never empty, each of its data elements
  carries one DCI of format 1 for its own UE, with one transport block and a redundancy version below 4, and each
  of its PDUs asks both transport blocks for the same positive number of bytes.
\<close>

theorem output_well_typed:
  assumes "std_sort srt" and "ext_ok X contents" and "\<And>m. sendable X m" and "ctl_reach srt jk X H D ct"
    and "run_in_range X jk clk 350 (ct_up ct)" and "length apps \<le> 100"
  shows "(manage_rt_tasks srt jk X H clk apps ct = None \<longleftrightarrow> \<not> cycle_untied srt jk X H clk apps ct) \<and>
     (\<forall>ct'. manage_rt_tasks srt jk X H clk apps ct = Some ct' \<longrightarrow> (\<exists>ms. list_all (\<lambda>(a, m). well_typed m) ms \<and>
       out_contents contents (ct_up ct') =
         out_contents contents (ct_up ct) @ take (room contents (ct_up ct)) (map (wire X) ms))) \<and>
     (\<exists>resp ct' ms. north_call X H D c ct = Some (resp, ct') \<and> list_all (\<lambda>(a, m). well_typed m) ms \<and>
       out_contents contents (ct_up ct') =
         out_contents contents (ct_up ct) @ take (room contents (ct_up ct)) (map (wire X) ms))"
proof (intro conjI allI impI)
  note sound = ctl_reach_sound [OF assms(4,1-3)]
  show "manage_rt_tasks srt jk X H clk apps ct = None \<longleftrightarrow> \<not> cycle_untied srt jk X H clk apps ct"
    by (rule cycle_sound(1) [OF assms(1-3) sound assms(5,6)])
  show "\<exists>ms. list_all (\<lambda>(a, m). well_typed m) ms \<and>
       out_contents contents (ct_up ct') =
         out_contents contents (ct_up ct) @ take (room contents (ct_up ct)) (map (wire X) ms)"
    if "manage_rt_tasks srt jk X H clk apps ct = Some ct'" for ct'
    using cycle_output [OF assms(3) that] by (metis acts_output [OF _ assms(2)])
  obtain resp ct2 where 2: "north_call X H D c ct = Some (resp, ct2)"
    using north_call_sound [OF assms(2,3) sound] by blast
  then have "acts X (ct_up ct) (ct_up ct2)"
    by (auto simp: north_call_def Option.bind_eq_Some_conv dest!: handle_call_output [OF assms(3)])
  with 2 show "\<exists>resp ct' ms. north_call X H D c ct = Some (resp, ct') \<and> list_all (\<lambda>(a, m). well_typed m) ms \<and>
       out_contents contents (ct_up ct') =
         out_contents contents (ct_up ct) @ take (room contents (ct_up ct)) (map (wire X) ms)"
    by (metis acts_output [OF _ assms(2)])
qed

lemma output_typed_witness:
  "\<exists>ct' ms resp ct''. manage_rt_tasks insertion_sort zero_junk cell_ext \<lparr>ho_env = None, ho_file = \<lambda>_. None\<rparr> (\<lambda>_. 0)
        registered_apps (new_controller connecting) = Some ct' \<and> list_all (\<lambda>(a, m). well_typed m) ms \<and>
     nx_out_queue (ru_net (ct_up ct')) = take 10000 (map (wire cell_ext) ms) \<and>
     north_call cell_ext \<lparr>ho_env = None, ho_file = \<lambda>_. None\<rparr>
        \<lparr>dbg_stats = \<lambda>_. [], dbg_enb = \<lambda>_. [], dbg_ue = \<lambda>_. [], dbg_lc = \<lambda>_. []\<rparr> (ChangeScheduler 1)
        (new_controller connecting) = Some (resp, ct'')"
proof -
  let ?H = "\<lparr>ho_env = None, ho_file = \<lambda>_. None\<rparr>"
  let ?D = "\<lparr>dbg_stats = \<lambda>_. [], dbg_enb = \<lambda>_. [], dbg_ue = \<lambda>_. [], dbg_lc = \<lambda>_. []\<rparr>"
  let ?run = "manage_rt_tasks insertion_sort zero_junk cell_ext ?H (\<lambda>_. 0) registered_apps (new_controller connecting)"
  have "ctl_reach insertion_sort zero_junk cell_ext ?H ?D (new_controller connecting)" by (rule ctl_reach.started)
  note claim = output_well_typed [OF ins.std_sort_axioms cell_ext_ok this connecting_in_range,
        where apps = registered_apps and c = "ChangeScheduler 1" and clk = "\<lambda>_. 0"]
  have "length registered_apps \<le> 100" by (simp add: registered_apps_def)
  note claim = claim [OF this]
  obtain ct' where ct': "?run = Some ct'" using claim connecting_untied by auto
  have "room (\<lambda>q. q) (ct_up (new_controller connecting)) = 10000"
    "nx_out_queue (ru_net (ct_up (new_controller connecting))) = []"
    by (simp_all add: room_def new_controller_def connecting_def new_network_def queue_capacity_def)
  then show ?thesis using claim ct' by auto
qed

end
