(* ===== verification/System.thy ===== *)
theory System
  imports MessageTypes
begin

text \<open>
  The controller and its network together: the cycles and calls of \<open>ControllerRuns\<close> with the network thread's own
  steps of \<open>Network\<close> in between. A cycle and a call are one step here; each of them is a sequence of the network
  interface's steps, so all that is proved of the interface holds of the whole system.
\<close>

section \<open>The steps of the system\<close>

text \<open>\<open>sys_reach h ct\<close>: \<open>ct\<close> is reached, and \<open>h\<close> are the messages \<open>send_msg\<close> accepted so far, in order.\<close>

definition ct_net :: "'q controller \<Rightarrow> 'q network" where
  "ct_net ct = ru_net (ct_up ct)"

definition with_net :: "'q network \<Rightarrow> 'q controller \<Rightarrow> 'q controller" where
  "with_net n ct = ct\<lparr>ct_up := (ct_up ct)\<lparr>ru_net := n\<rparr>\<rparr>"

text \<open>The controller's threads only add to the output queue: what is behind the old contents is new.\<close>

definition newly_sent :: "('q \<Rightarrow> tagged_message list) \<Rightarrow> 'q controller \<Rightarrow> 'q controller \<Rightarrow> tagged_message list" where
  "newly_sent contents ct ct' =
     drop (length (contents (nx_out_queue (ct_net ct)))) (contents (nx_out_queue (ct_net ct')))"

definition network_event :: "net_event \<Rightarrow> bool" where
  "network_event ev \<longleftrightarrow> (case ev of SendPush _ _ \<Rightarrow> False | SendPost \<Rightarrow> False | Consume \<Rightarrow> False | _ \<Rightarrow> True)"

inductive sys_reach :: "(ue_stats list \<Rightarrow> ue_stats list) \<Rightarrow> junk \<Rightarrow> 'q ext \<Rightarrow> host \<Rightarrow> debug \<Rightarrow>
    ('q \<Rightarrow> tagged_message list) \<Rightarrow> tagged_message list \<Rightarrow> 'q controller \<Rightarrow> bool"
  for srt jk X H D contents where
  started: "contents q = [] \<Longrightarrow> sys_reach srt jk X H D contents [] (new_controller (new_network q))"
| network: "sys_reach srt jk X H D contents h ct \<Longrightarrow> network_event ev \<Longrightarrow> enabled X (ct_net ct) ev \<Longrightarrow>
    net_step X (ct_net ct) ev = Some n \<Longrightarrow> sys_reach srt jk X H D contents h (with_net n ct)"
| cycle: "sys_reach srt jk X H D contents h ct \<Longrightarrow> run_in_range X jk clk 350 (ct_up ct) \<Longrightarrow>
    manage_rt_tasks srt jk X H clk apps ct = Some ct' \<Longrightarrow>
    sys_reach srt jk X H D contents (h @ newly_sent contents ct ct') ct'"
| call: "sys_reach srt jk X H D contents h ct \<Longrightarrow> north_call X H D c ct = Some (resp, ct') \<Longrightarrow>
    sys_reach srt jk X H D contents (h @ newly_sent contents ct ct') ct'"

section \<open>The system refines the network interface\<close>

lemma acts_newly_sent:
  assumes "acts X (ct_up ct) (ct_up ct')" and "ext_ok X contents"
  shows "net_path X typed_event (ct_net ct) (newly_sent contents ct ct') (ct_net ct') \<and>
     list_all (typed_frame X) (newly_sent contents ct ct')"
  using assms by (rule acts_output) (simp add: newly_sent_def ct_net_def)

lemma north_call_acts:
  assumes "\<And>m. sendable X m" and "north_call X H D c ct = Some (resp, ct')"
  shows "acts X (ct_up ct) (ct_up ct')"
  using assms(2) by (auto simp: north_call_def Option.bind_eq_Some_conv dest!: handle_call_output [OF assms(1)])

lemma network_event_silent: "network_event ev \<Longrightarrow> accepted X n ev = []"
  by (cases ev) (simp_all add: network_event_def accepted_def)

lemma system_reach:
  assumes "sys_reach srt jk X H D contents h ct" and "ext_ok X contents" and "\<And>m. sendable X m"
  shows "net_reach X contents h (ct_net ct) \<and> list_all (typed_frame X) h \<and> ctl_reach srt jk X H D ct"
  using assms(1)
proof induction
  case (started q)
  then show ?case
    by (simp add: ct_net_def new_controller_def net_reach.started) (metis ctl_reach.started new_controller_def)
next
  case (network h ct ev n)
  then have "net_reach X contents (h @ accepted X (ct_net ct) ev) n" by (intro net_reach.step) simp_all
  then have "net_reach X contents h (ct_net (with_net n ct))"
    using network_event_silent [OF network.hyps(2), of X "ct_net ct"] by (simp add: ct_net_def with_net_def)
  moreover have "ctl_reach srt jk X H D (with_net n ct)"
    using network.IH ctl_reach.network unfolding with_net_def by blast
  ultimately show ?case using network.IH by simp
next
  case (cycle h ct clk apps ct')
  note new = acts_newly_sent [OF cycle_output [OF assms(3) cycle.hyps(3)] assms(2)]
  have "net_reach X contents (h @ newly_sent contents ct ct') (ct_net ct')"
    using net_reach_path new cycle.IH by blast
  then show ?case using new cycle.IH ctl_reach.cycle [OF _ cycle.hyps(2,3)] by simp
next
  case (call h ct c resp ct')
  note new = acts_newly_sent [OF north_call_acts [OF assms(3) call.hyps(2)] assms(2)]
  have "net_reach X contents (h @ newly_sent contents ct ct') (ct_net ct')"
    using net_reach_path new call.IH by blast
  then show ?case using new call.IH ctl_reach.call [OF _ call.hyps(2)] by simp
qed

section \<open>From the controller's decision to the agent's reader\<close>

lemma outgoing_frame:
  assumes "sendable X m" and "outgoing X m i = Some t"
  shows "tm_contents t = ext_serialize X m \<and> framed (the (frame_of X t)) \<and>
     pm_body (the (frame_of X t)) = take max_body_length (ext_serialize X m)"
proof -
  let ?b = "ext_serialize X m"
  have len: "length ?b < 2 ^ 31" using assms(1) by (simp add: sendable_def)
  have "outgoing X m i = tagged_message_of (ext_mem X) ?b (of_nat (length ?b)) i"
    by (simp add: outgoing_def tagged_message_of_def Let_def)
  then have t: "tm_wf t" "tm_size t = of_nat (length ?b)" "tm_contents t = ?b"
    using assms(2) tagged_message_of_total [of "of_nat (length ?b)" ?b "ext_mem X" i] small_size(1) [OF len] by auto
  have sz: "word_of_int (getSize t) = (of_nat (length ?b) :: u64)"
    using t(2) small_size(2) [OF len] by (simp add: getSize_def)
  obtain w where w: "frame_of X t = Some w" using outgoing_total [OF assms(1), of i] assms(2) by auto
  then have "set_message (tm_buf t) (of_nat (length ?b)) (new_protocol_message (ext_mem X)) = Some w"
    by (simp add: frame_of_def sz)
  moreover have "body_size (of_nat (length ?b)) = min (length ?b) max_body_length"
    using small_size(1) [OF len] len by (simp add: body_size_eq del: take_bit_eq_mod)
  moreover have "take (min (length ?b) max_body_length) (tm_buf t) = take max_body_length (take (length ?b) (tm_buf t))"
    by (simp add: take_take min.commute)
  ultimately show ?thesis
    using set_message_fields(2) framed_set_message w t small_size(1) [OF len] by (metis option.sel tm_contents_def)
qed

text \<open>The messages of typed frames, in their order.\<close>

lemma typed_frames_messages:
  assumes "\<And>m. sendable X m" and "list_all (typed_frame X) ts"
  shows "\<exists>ms. list_all well_typed ms \<and> map tm_contents ts = map (ext_serialize X) ms \<and>
     map (\<lambda>t. pm_body (the (frame_of X t))) ts = map (\<lambda>m. take max_body_length (ext_serialize X m)) ms \<and>
     (\<forall>w \<in> set (map (\<lambda>t. the (frame_of X t)) ts). framed w)"
  using assms(2)
proof (induction ts)
  case (Cons t ts)
  obtain ms where ms: "list_all well_typed ms" "map tm_contents ts = map (ext_serialize X) ms"
    "map (\<lambda>t. pm_body (the (frame_of X t))) ts = map (\<lambda>m. take max_body_length (ext_serialize X m)) ms"
    "\<forall>w \<in> set (map (\<lambda>t. the (frame_of X t)) ts). framed w"
    using Cons by auto
  obtain m where m: "well_typed m" "outgoing X m (tm_tag t) = Some t"
    using Cons.prems by (auto simp: typed_frame_def)
  from outgoing_frame [OF assms(1) m(2)] ms m(1) show ?case by (intro exI [of _ "m # ms"]) auto
qed simp

text \<open>
  C6: end to end. In every state the whole system reaches, over any interleaving of cycles, calls of the north-bound
  interface and steps of the network thread, each agent with a live session gets what was decided for it: the
  messages accepted for it are well-typed messages, in their order; the bytes its session wrote or still has queued
  are read back, by the read loop of such a session, as the serialisations of the first of them, each cut to
  the 240000 bytes a frame holds; and the others are in the output queue. (\<open>sendable\<close>: no message serialises to \<open>2 ^ 31\<close>
  bytes or more, the limit of the serialisation library.)
\<close>

theorem agents_get_what_was_sent:
  assumes "ext_ok X contents" and "\<And>m. sendable X m"
    and "sys_reach srt jk X H D contents h ct" and "nx_sessions (ct_net ct) i = Some s"
  shows "\<exists>ms rest ths. list_all well_typed (ms @ rest) \<and>
     map tm_contents (filter (\<lambda>t. tm_tag t = i) h) = map (ext_serialize X) (ms @ rest) \<and>
     read_stream mem i m (as_sent s @ concat (map wire_bytes (as_write_queue s))) = Some (ths, []) \<and>
     map tm_contents ths = map (\<lambda>m. take max_body_length (ext_serialize X m)) ms \<and>
     map tm_contents (filter (\<lambda>t. tm_tag t = i) (contents (nx_out_queue (ct_net ct)))) = map (ext_serialize X) rest"
proof -
  note reach = system_reach [OF assms(3,1,2)]
  then obtain sent where h: "h = sent @ contents (nx_out_queue (ct_net ct))" and iv: "net_inv X contents sent (ct_net ct)"
    using net_reach_cases [OF assms(1)] by blast
  let ?mine = "filter (\<lambda>t. tm_tag t = i)"
  have "session_inv X sent i s" using iv assms(4) by (simp add: net_inv_def)
  then have bytes: "as_sent s @ concat (map wire_bytes (as_write_queue s)) = frames X (?mine sent)"
    by (simp add: session_inv_def session_bytes_def)
  have typed: "list_all (typed_frame X) (?mine sent)" "list_all (typed_frame X) (?mine (contents (nx_out_queue (ct_net ct))))"
    using reach by (auto simp: h list_all_iff)
  obtain ms where ms: "list_all well_typed ms" "map tm_contents (?mine sent) = map (ext_serialize X) ms"
    "map (\<lambda>t. pm_body (the (frame_of X t))) (?mine sent) = map (\<lambda>m. take max_body_length (ext_serialize X m)) ms"
    "\<forall>w \<in> set (map (\<lambda>t. the (frame_of X t)) (?mine sent)). framed w"
    using typed_frames_messages [OF assms(2) typed(1)] by blast
  obtain rest where rest: "list_all well_typed rest"
    "map tm_contents (?mine (contents (nx_out_queue (ct_net ct)))) = map (ext_serialize X) rest"
    using typed_frames_messages [OF assms(2) typed(2)] by blast
  have "\<exists>ths. read_stream mem i m (concat (map wire_bytes (map (\<lambda>t. the (frame_of X t)) (?mine sent))) @ []) = Some (ths, []) \<and>
      map tm_contents ths = map pm_body (map (\<lambda>t. the (frame_of X t)) (?mine sent)) \<and>
      (\<forall>th \<in> set ths. tm_wf th \<and> tm_tag th = i)"
    by (rule read_stream_frames [OF ms(4)]) simp
  then obtain ths where "read_stream mem i m (frames X (?mine sent)) = Some (ths, [])"
    "map tm_contents ths = map (\<lambda>m. take max_body_length (ext_serialize X m)) ms"
    using ms(3) by (auto simp: frames_def comp_def)
  then show ?thesis using ms(1,2) rest bytes by (intro exI [of _ ms] exI [of _ rest] exI [of _ ths]) (simp add: h)
qed

section \<open>An instance\<close>

definition no_host :: host where
  "no_host = \<lparr>ho_env = None, ho_file = \<lambda>_. None\<rparr>"

definition no_debug :: debug where
  "no_debug = \<lparr>dbg_stats = \<lambda>_. [], dbg_enb = \<lambda>_. [], dbg_ue = \<lambda>_. [], dbg_lc = \<lambda>_. []\<rparr>"

definition one_session :: "tagged_message list network" where
  "one_session = \<lparr>nx_in_queue = [new_tagged_message (\<lambda>_. 0) 0 0], nx_out_queue = [], nx_pushed = 0, nx_posted = 0,
     nx_sessions = [0 \<mapsto> session_start (new_session list_ext 0)], nx_next_id = 1, nx_aborted = []\<rparr>"

lemma one_session_step: "net_step list_ext (new_network []) Accepted = Some one_session"
  by (simp add: new_network_def on_accept_def Let_def initialize_connection_def forward_message_def list_ext_queues
      list_push_def queue_capacity_def one_session_def) (simp add: list_ext_def)

lemma hello_wire: "outgoing list_ext hello_out 0 = Some (wire list_ext (0, hello_out))"
  using outgoing_total [OF two_agents_facts(3), of hello_out 0] by (auto simp: wire_def)

definition greeted :: "tagged_message list controller" where
  "greeted = \<lparr>ct_up = \<lparr>ru_rib = add_pending_agent 0 new_rib,
       ru_net = one_session\<lparr>nx_in_queue := [], nx_out_queue := [wire list_ext (0, hello_out)], nx_posted := 1\<rparr>\<rparr>,
     ct_stats = {}, ct_flex = new_flexible_scheduler\<rparr>"

lemma greeting: "manage_rt_tasks srt jk list_ext H clk [] (with_net one_session (new_controller (new_network []))) = Some greeted"
proof -
  let ?u = "ct_up (with_net one_session (new_controller (new_network [])))"
  have get: "get_msg_from_network list_ext (ru_net ?u) =
      Some (new_tagged_message (\<lambda>_. 0) 0 0, one_session\<lparr>nx_in_queue := []\<rparr>)"
    by (simp add: get_msg_from_network_def with_net_def one_session_def list_ext_queues)
  have handle: "handle_tagged list_ext jk now (new_tagged_message (\<lambda>_. 0) 0 0) (?u\<lparr>ru_net := one_session\<lparr>nx_in_queue := []\<rparr>\<rparr>) =
      Some (ct_up greeted)" for now
    using hello_wire
    by (simp add: handle_tagged_def new_tagged_message_def getSize_def handle_new_connection_def send_to_def send_msg_def
        send_push_def send_post_def list_ext_queues list_push_def queue_capacity_def with_net_def new_controller_def
        greeted_def one_session_def)
  have empty: "get_msg_from_network list_ext (ru_net (ct_up greeted)) = None"
    by (simp add: get_msg_from_network_def greeted_def list_ext_queues)
  have "update_loop list_ext jk clk (Suc 349) ?u = update_loop list_ext jk clk 349 (ct_up greeted)"
    by (subst update_loop.simps) (simp add: get handle)
  also have "\<dots> = Some (ct_up greeted)" by (subst update_loop.simps) (simp add: empty)
  finally have "update_loop list_ext jk clk 350 ?u = Some (ct_up greeted)" by simp
  then show ?thesis
    by (simp add: manage_rt_tasks_def update_rib_def default_messages_to_check_def with_net_def new_controller_def greeted_def)
qed

lemma greeted_reach:
  "sys_reach insertion_sort zero_junk list_ext no_host no_debug (\<lambda>q. q) [wire list_ext (0, hello_out)] greeted"
proof -
  let ?S = "sys_reach insertion_sort zero_junk list_ext no_host no_debug (\<lambda>q. q)"
  have "?S [] (new_controller (new_network []))" by (rule sys_reach.started) simp
  then have 1: "?S [] (with_net one_session (new_controller (new_network [])))"
    by (rule sys_reach.network [where ev = Accepted])
       (simp_all only: network_event_def ct_net_def new_controller_def one_session_step enabled.simps net_event.case
         controller.simps updater.simps)
  have range: "run_in_range list_ext zero_junk clk 350 (ct_up (with_net one_session (new_controller (new_network []))))" for clk
  proof (rule run_in_range_always [OF ext_ok_list])
    fix tm v
    assume "tm \<in> set (in_contents (\<lambda>q. q) (ct_up (with_net one_session (new_controller (new_network [])))))"
    then have "tm = new_tagged_message (\<lambda>_. 0) 0 0" by (simp add: with_net_def one_session_def)
    then show "message_in_range list_ext v tm"
      by (simp add: message_in_range_def tagged_event_def new_tagged_message_def getSize_def)
  qed
  have "newly_sent (\<lambda>q. q) (with_net one_session (new_controller (new_network []))) greeted = [wire list_ext (0, hello_out)]"
    by (simp add: newly_sent_def ct_net_def with_net_def one_session_def greeted_def)
  with sys_reach.cycle [OF 1 range greeting] show ?thesis by simp
qed

text \<open>An agent connects, the next cycle greets it, and the network thread hands the greeting to its session.\<close>

lemma system_witness:
  "\<exists>ct s ths. sys_reach insertion_sort zero_junk list_ext no_host no_debug (\<lambda>q. q) [wire list_ext (0, hello_out)] ct \<and>
     nx_sessions (ct_net ct) 0 = Some s \<and>
     read_stream (\<lambda>_. 0) 0 (new_protocol_message (\<lambda>_. 7)) (as_sent s @ concat (map wire_bytes (as_write_queue s))) =
       Some (ths, []) \<and> map tm_contents ths = [[1]]"
proof -
  let ?S = "sys_reach insertion_sort zero_junk list_ext no_host no_debug (\<lambda>q. q)"
  let ?t = "wire list_ext (0, hello_out)"
  have t: "tm_tag ?t = 0" "tm_contents ?t = [1]"
    using wire_tag [OF two_agents_facts(3), of 0 hello_out] by (simp_all add: list_ext_def hello_out_def)
  obtain w where w: "frame_of list_ext ?t = Some w"
    using outgoing_total [OF two_agents_facts(3), of hello_out 0] hello_wire by auto
  obtain n s where n: "net_step list_ext (ct_net greeted) RunForward = Some n" "nx_sessions n 0 = Some s" "nx_out_queue n = []"
    using t(1) w
    by (simp add: greeted_def ct_net_def one_session_def list_ext_queues forward_msg_to_agent_def send_msg_to_agent_def
        deliver_def do_write_def session_start_def do_read_header_def new_session_def)
  have reach: "?S [?t] (with_net n greeted)"
    by (rule sys_reach.network [OF greeted_reach, where ev = RunForward])
       (use n(1) in \<open>simp_all add: network_event_def ct_net_def greeted_def\<close>)
  have small: "take max_body_length (ext_serialize list_ext m) = ext_serialize list_ext m" for m
    by (simp add: list_ext_def split: flexran_body.split)
  obtain ms rest ths where r: "map tm_contents (filter (\<lambda>t. tm_tag t = 0) [?t]) = map (ext_serialize list_ext) (ms @ rest)"
    "read_stream (\<lambda>_. 0) 0 (new_protocol_message (\<lambda>_. 7)) (as_sent s @ concat (map wire_bytes (as_write_queue s))) =
       Some (ths, [])" "map tm_contents ths = map (ext_serialize list_ext) ms"
    "map tm_contents (filter (\<lambda>t. tm_tag t = 0) (nx_out_queue (ct_net (with_net n greeted)))) = map (ext_serialize list_ext) rest"
    using agents_get_what_was_sent [OF ext_ok_list two_agents_facts(3) reach, of 0 s "\<lambda>_. 0" "new_protocol_message (\<lambda>_. 7)"] n(2)
    unfolding small by (auto simp: ct_net_def with_net_def)
  have "rest = []" using r(4) n(3) by (simp add: ct_net_def with_net_def)
  then have "map tm_contents ths = [[1]]" using r(1,3) t by simp
  then show ?thesis using reach n(2) r(2) by (intro exI [of _ "with_net n greeted"]) (simp add: ct_net_def with_net_def)
qed

end
