(* ===== verification/CallThreads.thy ===== *)
theory CallThreads
  imports Threads System
begin

text \<open>
  A call of the north-bound interface while the applications of a cycle run. The handlers that change the scheduler run in the thread of the
  HTTP server. What they share with the application threads is the atomic \<open>central_scheduling\<close>, the set of agents
  and the output queue. Here a call is a third thread: it reads or writes the flag, takes the set of agents and sends to
  one agent per step. It takes effect when it touches the flag: the result is that of a call made between the two
  applications or after them. A call that comes while the updater of a cycle runs is not covered here: the updater
  changes the map of agents that the handler goes through, which is a data race.
\<close>

section \<open>The call, step by step\<close>

datatype policy_source = Policy_file string | Policy_string "u8 list"

datatype call_pc =
    Call_start north_call
  | Call_agents policy_source response
  | Call_push policy_source response "int list"
  | Call_done response

text \<open>
  What a handler does with the flag, before it looks at the agents. A call for the statistics reads the records of the
  agents while the scheduler changes them, which is a data race.
\<close>

fun call_begin :: "host \<Rightarrow> north_call \<Rightarrow> bool \<Rightarrow> (call_pc \<times> bool) option" where
  "call_begin H (ChangeScheduler sched_type) central =
     (if sched_type = 0
      then Some (Call_agents (Policy_file (delegation_path H @ ''local_policy.yaml'')) (Http_Ok, ''Loaded Local Scheduler''), False)
      else if sched_type = 1
      then Some (Call_agents (Policy_file (delegation_path H @ ''remote_policy.yaml'')) (Http_Ok, ''Loaded Remote Scheduler''), True)
      else Some (Call_done (Http_Not_Found, ''Scheduler type does not exist''), central))"
| "call_begin H (ApplyPolicy policy_name) central =
     Some (if policy_name = [] then Call_done (Http_Not_Found, ''Policy not set'' @ [newline])
           else if central
           then Call_done (Http_Method_Not_Allowed, ''Agent-side scheduling is currently inactive'' @ [newline])
           else Call_agents (Policy_file (delegation_path H @ policy_name)) (Http_Ok, ''Set the policy to the agent'' @ [newline]),
           central)"
| "call_begin H (ApplyPolicyString policy) central =
     Some (if policy = [] then Call_done (Http_Not_Found, ''No policy defined in request'' @ [newline])
           else if central
           then Call_done (Http_Method_Not_Allowed, ''Agent-side scheduling is currently inactive. Cannot set policy'' @ [newline])
           else Call_agents (Policy_string policy) (Http_Ok, ''Set the policy to the agent'' @ [newline]),
           central)"
| "call_begin H (ObtainStats stats_type) central = None"

fun push_policy :: "'q ext \<Rightarrow> host \<Rightarrow> policy_source \<Rightarrow> int \<Rightarrow> 'q updater \<Rightarrow> 'q updater option" where
  "push_policy X H (Policy_file name) a u = reconfigure_agent_file X H a name u"
| "push_policy X H (Policy_string policy) a u = reconfigure_agent_string X a policy u"

definition set_mode :: "bool \<Rightarrow> flexible_scheduler \<Rightarrow> flexible_scheduler" where
  "set_mode central app = app\<lparr>fs_central_scheduling := central\<rparr>"

text \<open>
  One step of a handler in the application phase of a cycle. The agents it reads are those of the RIB the updater left;
  the applications change the records of agents but not the set of them.
\<close>

fun call_step :: "'q ext \<Rightarrow> host \<Rightarrow> call_pc \<Rightarrow> 'q app_state \<Rightarrow> (call_pc \<times> 'q app_state) option" where
  "call_step X H (Call_start call) (app, u) = do {
     (pc, central) \<leftarrow> call_begin H call (fs_central_scheduling app);
     Some (pc, set_mode central app, u) }"
| "call_step X H (Call_agents src resp) (app, u) = Some (Call_push src resp (get_available_agents (ru_rib u)), app, u)"
| "call_step X H (Call_push src resp []) (app, u) = Some (Call_done resp, app, u)"
| "call_step X H (Call_push src resp (a # agents)) (app, u) = do {
     u \<leftarrow> push_policy X H src a u;
     Some (Call_push src resp agents, app, u) }"
| "call_step X H (Call_done resp) (app, u) = Some (Call_done resp, app, u)"

fun call_rest :: "'q ext \<Rightarrow> host \<Rightarrow> debug \<Rightarrow> call_pc \<Rightarrow> 'q app_state \<Rightarrow> (response \<times> 'q app_state) option" where
  "call_rest X H D (Call_start call) s = handle_call X H D call s"
| "call_rest X H D (Call_agents src resp) (app, u) = do { u \<leftarrow> for_agents (push_policy X H src) u; Some (resp, app, u) }"
| "call_rest X H D (Call_push src resp agents) (app, u) = do {
     u \<leftarrow> foldo (\<lambda>u a. push_policy X H src a u) u agents; Some (resp, app, u) }"
| "call_rest X H D (Call_done resp) s = Some (resp, s)"

lemma push_policy_eta:
  "push_policy X H (Policy_file name) = (\<lambda>a. reconfigure_agent_file X H a name)"
  "push_policy X H (Policy_string policy) = (\<lambda>a. reconfigure_agent_string X a policy)"
  by (simp_all add: fun_eq_iff)

lemma call_begins:
  assumes "call_begin H call (fs_central_scheduling app) = Some (pc, central)"
  shows "handle_call X H D call (app, u) = call_rest X H D pc (set_mode central app, u)"
    and "\<not> (\<exists>c. pc = Call_start c)"
proof -
  have same: "set_mode (fs_central_scheduling app) app = app" by (simp add: set_mode_def)
  show "handle_call X H D call (app, u) = call_rest X H D pc (set_mode central app, u)"
    using assms same
    by (cases call)
       (auto simp: change_scheduler_def apply_policy_def apply_policy_string_def enable_central_scheduling_def
         apply_agent_rrm_policy_def apply_agent_rrm_policy_string_def push_policy_eta set_mode_def split: if_splits Option.bind_splits)
  show "\<not> (\<exists>c. pc = Call_start c)" using assms by (cases call) (auto split: if_splits)
qed

lemma call_rest_step:
  assumes "\<not> (\<exists>c. pc = Call_start c)"
  shows "call_rest X H D pc s = do { (pc', s') \<leftarrow> call_step X H pc s; call_rest X H D pc' s' }"
  using assms by (cases "(X, H, pc, s)" rule: call_step.cases) (auto simp: for_agents_def split: Option.bind_splits)

lemma push_policy_pushes:
  assumes "ext_ok X contents" and "\<And>m. sendable X m"
  shows "\<exists>ms. \<forall>u. \<exists>v. push_policy X H src a u = Some v \<and> ru_rib v = ru_rib u \<and> pushes X contents ms u v"
proof (cases src)
  case (Policy_file name)
  then show ?thesis
    using reconfigure_file_sends [OF assms, of H a name] by (intro exI [of _ "file_policy H name a"]) (auto simp: sends_pushes)
next
  case (Policy_string policy)
  then show ?thesis
    using reconfigure_string_sends [OF assms, of a policy]
    by (intro exI [of _ "[(a, reconfiguration_out policy)]"]) (auto simp: sends_pushes)
qed

lemma call_step_pushes:
  assumes "ext_ok X contents" and "\<And>m. sendable X m" and "\<not> (\<exists>c. pc = Call_start c)"
  shows "\<exists>pc1 ms. \<forall>app u. get_available_agents (ru_rib u) = agents \<longrightarrow>
     (\<exists>v. call_step X H pc (app, u) = Some (pc1, app, v) \<and> ru_rib v = ru_rib u \<and> pushes X contents ms u v) \<and>
     \<not> (\<exists>c. pc1 = Call_start c)"
proof (cases "\<exists>src resp a as. pc = Call_push src resp (a # as)")
  case True
  then obtain src resp a as where pc: "pc = Call_push src resp (a # as)" by blast
  obtain ms where ms: "\<And>u. \<exists>v. push_policy X H src a u = Some v \<and> ru_rib v = ru_rib u \<and> pushes X contents ms u v"
    using push_policy_pushes [OF assms(1,2)] by blast
  have "\<exists>v. call_step X H pc (app, u) = Some (Call_push src resp as, app, v) \<and> ru_rib v = ru_rib u \<and> pushes X contents ms u v"
    for app u using ms [of u] by (auto simp: pc)
  then show ?thesis by blast
next
  case False
  have "\<exists>pc1. (\<forall>app (u :: 'a updater). get_available_agents (ru_rib u) = agents \<longrightarrow> call_step X H pc (app, u) = Some (pc1, app, u)) \<and>
      \<not> (\<exists>c. pc1 = Call_start c)"
  proof (cases pc)
    case (Call_agents src resp)
    then show ?thesis by (intro exI [of _ "Call_push src resp agents"]) simp
  next
    case (Call_push src resp as)
    then show ?thesis using False by (intro exI [of _ "Call_done resp"]) (cases as; simp)
  next
    case (Call_done resp)
    then show ?thesis by (intro exI [of _ "Call_done resp"]) simp
  qed (use assms(3) in blast)
  then obtain pc1 where pc1: "\<And>app u. get_available_agents (ru_rib u) = agents \<Longrightarrow> call_step X H pc (app, u) = Some (pc1, app, u)"
    "\<not> (\<exists>c. pc1 = Call_start c)" by blast
  then show ?thesis by (intro exI [of _ pc1] exI [of _ "[]"]) simp
qed

section \<open>The scheduler and its flag\<close>

lemma set_mode_simps [simp]:
  "fs_central_scheduling (set_mode b app) = b" "fs_scheduling_info (set_mode b app) = fs_scheduling_info app"
  "fs_code_pushed (set_mode b app) = fs_code_pushed app" "fs_tpc_accumulated (set_mode b app) = fs_tpc_accumulated app"
  "set_mode b (set_mode c app) = set_mode b app" "set_mode (fs_central_scheduling app) app = app"
  by (simp_all add: set_mode_def)

lemma set_mode_commutes:
  "(set_mode b app)\<lparr>fs_scheduling_info := i\<rparr> = set_mode b (app\<lparr>fs_scheduling_info := i\<rparr>)"
  "(set_mode b app)\<lparr>fs_code_pushed := p\<rparr> = set_mode b (app\<lparr>fs_code_pushed := p\<rparr>)"
  "(set_mode b app)\<lparr>fs_tpc_accumulated := t\<rparr> = set_mode b (app\<lparr>fs_tpc_accumulated := t\<rparr>)"
  by (cases app; simp add: set_mode_def)+

lemma central_agent_mode:
  "central_agent srt jk X (set_mode b app, vars, u) a =
     map_option (\<lambda>(app', vars', u'). (set_mode b app', vars', u')) (central_agent srt jk X (app, vars, u) a)"
  by (auto simp: central_agent_def Let_def case_prod_beta set_mode_commutes map_option_case
      split: Option.bind_splits option.splits)

lemma flex_step_mode:
  "pc \<noteq> Flex_push [] \<Longrightarrow> flex_step srt jk X H pc (set_mode b app, u) =
     map_option (\<lambda>(pc', app', u'). (pc', set_mode b app', u')) (flex_step srt jk X H pc (app, u))"
  by (cases "(srt, jk, X, H, pc, (app, u))" rule: flex_step.cases)
     (auto simp: set_mode_commutes central_agent_mode map_option_case split: Option.bind_splits option.splits)

lemma flex_step_keeps_mode:
  assumes "flex_step srt jk X H pc (app, u) = Some (pc', app', u')"
  shows "fs_central_scheduling app' = fs_central_scheduling app"
  using assms
  by (cases "(srt, jk, X, H, pc, (app, u))" rule: flex_step.cases)
     (auto simp: central_agent_def Let_def case_prod_beta Option.bind_eq_Some_conv split: if_splits)

fun before_flag :: "flex_pc \<Rightarrow> bool" where
  "before_flag Flex_start = True"
| "before_flag (Flex_push agents) = True"
| "before_flag (Flex_push_second a agents) = True"
| "before_flag (Flex_central vars agents) = False"
| "before_flag Flex_done = False"

lemma before_flag_step:
  assumes "flex_step srt jk X H pc (app, u) = Some (pc', app', u')" and "before_flag pc" and "pc \<noteq> Flex_push []"
  shows "before_flag pc'"
  using assms
  by (cases "(srt, jk, X, H, pc, (app, u))" rule: flex_step.cases) (auto simp: Option.bind_eq_Some_conv split: if_splits)

section \<open>Three threads\<close>

text \<open>
  What is true of the scheduler's thread at \<open>pc\<close> with the state \<open>app\<close> and the RIB \<open>r\<close>, when the cycle started with
  \<open>app0\<close> and \<open>r0\<close>: alone, from any network, it would push \<open>ns\<close> and be here too. As long as it has not looked at the flag
  this holds whatever the flag is, and then for the value \<open>seen\<close> it found.
\<close>

definition flex_alone :: "(ue_stats list \<Rightarrow> ue_stats list) \<Rightarrow> junk \<Rightarrow> 'q ext \<Rightarrow> ('q \<Rightarrow> tagged_message list) \<Rightarrow> host \<Rightarrow>
    rib \<Rightarrow> flexible_scheduler \<Rightarrow> bool \<Rightarrow> flex_pc \<Rightarrow> flexible_scheduler \<Rightarrow> rib \<Rightarrow> (int \<times> flexran_message) list \<Rightarrow> bool" where
  "flex_alone srt jk X contents H r0 app0 seen pc app r ns \<longleftrightarrow>
     (\<forall>w b. ru_rib w = r0 \<and> (before_flag pc \<or> b = seen) \<longrightarrow>
        (\<exists>v. pushes X contents ns w v \<and> ru_rib v = r \<and>
           flex_rest srt jk X H Flex_start (set_mode b app0, w) = flex_rest srt jk X H pc (set_mode b app, v)))"

lemma flex_alone_mode:
  "flex_alone srt jk X contents H r0 app0 seen pc (set_mode c app) r ns \<longleftrightarrow>
   flex_alone srt jk X contents H r0 app0 seen pc app r ns"
  by (simp add: flex_alone_def)

lemma flex_alone_start: "flex_alone srt jk X contents H r0 app0 seen Flex_start app0 r0 []"
  unfolding flex_alone_def
proof (intro allI impI, elim conjE)
  fix w :: "'a updater" and b assume "ru_rib w = r0"
  then show "\<exists>v. pushes X contents [] w v \<and> ru_rib v = r0 \<and>
      flex_rest srt jk X H Flex_start (set_mode b app0, w) = flex_rest srt jk X H Flex_start (set_mode b app0, v)"
    by (intro exI [of _ w]) simp
qed

lemma flex_alone_step:
  fixes u :: "'q updater"
  assumes env: "ext_ok X contents" "\<And>m. sendable X m"
    and alone: "flex_alone srt jk X contents H r0 app0 seen pc app (ru_rib u) ns"
    and total: "\<And>b (w :: 'q updater). ru_rib w = r0 \<Longrightarrow> flex_run_periodic_task srt jk X H (set_mode b app0, w) \<noteq> None"
    and now: "seen' = (if pc = Flex_push [] then fs_central_scheduling app else seen)"
  shows "\<exists>pc' app' u' ns'. flex_step srt jk X H pc (app, u) = Some (pc', app', u') \<and> pushes X contents ns' u u' \<and>
     flex_alone srt jk X contents H r0 app0 seen' pc' app' (ru_rib u') (ns @ ns')"
proof -
  let ?step = "flex_step srt jk X H pc"
  let ?run = "\<lambda>b w. flex_rest srt jk X H Flex_start (set_mode b app0, w)"
  obtain b where b: "before_flag pc \<or> b = seen" "set_mode b app = app \<or> pc \<noteq> Flex_push []"
    by (metis before_flag.simps(2) set_mode_simps(6))
  define w0 :: "'q updater" where "w0 = u\<lparr>ru_rib := r0\<rparr>"
  have w0: "ru_rib w0 = r0" by (simp add: w0_def)
  obtain v0 where v0: "ru_rib v0 = ru_rib u" "?run b w0 = flex_rest srt jk X H pc (set_mode b app, v0)"
    using alone w0 b(1) unfolding flex_alone_def by blast
  then have "flex_rest srt jk X H pc (set_mode b app, v0) \<noteq> None" using total [OF w0, of b] by simp
  then have "?step (set_mode b app, v0) \<noteq> None" by (subst (asm) flex_rest_step) (auto simp: bind_eq_None_conv)
  then obtain pc' app' v1 where v1: "?step (app, v0) = Some (pc', app', v1)"
  proof (cases "pc = Flex_push []")
    case True
    then have "set_mode b app = app" using b(2) by simp
    then show thesis using that \<open>?step (set_mode b app, v0) \<noteq> None\<close> by (cases "?step (app, v0)") auto
  next
    case False
    then show thesis using that flex_step_mode [of pc srt jk X H b app v0] \<open>?step (set_mode b app, v0) \<noteq> None\<close> by auto
  qed
  obtain ns' where step: "\<And>u'. ru_rib u' = ru_rib u \<Longrightarrow>
      \<exists>v'. ?step (app, u') = Some (pc', app', v') \<and> ru_rib v' = ru_rib v1 \<and> pushes X contents ns' u' v'"
    using flex_step_pushes [OF env v1] v0(1) by auto
  obtain u' where u': "?step (app, u) = Some (pc', app', u')" "ru_rib u' = ru_rib v1" "pushes X contents ns' u u'"
    using step by blast
  have "flex_alone srt jk X contents H r0 app0 seen' pc' app' (ru_rib u') (ns @ ns')"
    unfolding flex_alone_def
  proof (intro allI impI, elim conjE)
    fix w :: "'q updater" and c assume w: "ru_rib w = r0" and c: "before_flag pc' \<or> c = seen'"
    have c': "before_flag pc \<or> c = seen" "pc = Flex_push [] \<Longrightarrow> c = fs_central_scheduling app"
      using c now u'(1) by (cases "(srt, jk, X, H, pc, (app, u))" rule: flex_step.cases;
        auto simp: Option.bind_eq_Some_conv split: if_splits)+
    obtain v where v: "pushes X contents ns w v" "ru_rib v = ru_rib u" "?run c w = flex_rest srt jk X H pc (set_mode c app, v)"
      using alone w c'(1) unfolding flex_alone_def by blast
    obtain v' where v': "?step (app, v) = Some (pc', app', v')" "ru_rib v' = ru_rib v1" "pushes X contents ns' v v'"
      using step [OF v(2)] by blast
    have "?step (set_mode c app, v) = Some (pc', set_mode c app', v')"
    proof (cases "pc = Flex_push []")
      case True
      then show ?thesis using c'(2) v'(1) flex_step_keeps_mode [OF v'(1)] by simp
    next
      case False
      then show ?thesis using flex_step_mode [of pc srt jk X H c app v] v'(1) by simp
    qed
    then have "flex_rest srt jk X H pc (set_mode c app, v) = flex_rest srt jk X H pc' (set_mode c app', v')"
      by (subst flex_rest_step) simp
    then show "\<exists>v. pushes X contents (ns @ ns') w v \<and> ru_rib v = ru_rib u' \<and>
        ?run c w = flex_rest srt jk X H pc' (set_mode c app', v)"
      using v(3) v'(2) u'(2) pushes_append [OF v(1) v'(3)] by auto
  qed
  then show ?thesis using u'(1,3) by blast
qed

text \<open>The same for the call, which saw the flag the cycle started with; \<open>after\<close> is what it left it at.\<close>

definition call_alone :: "'q ext \<Rightarrow> ('q \<Rightarrow> tagged_message list) \<Rightarrow> host \<Rightarrow> debug \<Rightarrow> north_call \<Rightarrow> int list \<Rightarrow> bool \<Rightarrow> bool \<Rightarrow>
    call_pc \<Rightarrow> (int \<times> flexran_message) list \<Rightarrow> bool" where
  "call_alone X contents H D call agents central after pc cs \<longleftrightarrow>
     (\<forall>w app. get_available_agents (ru_rib w) = agents \<and> fs_central_scheduling app = central \<longrightarrow>
        (\<exists>v. pushes X contents cs w v \<and> ru_rib v = ru_rib w \<and>
           handle_call X H D call (app, w) = call_rest X H D pc (set_mode after app, v)))"

lemma call_alone_begin:
  "call_begin H call central = Some (pc, after) \<Longrightarrow> call_alone X contents H D call agents central after pc []"
  unfolding call_alone_def
proof (intro allI impI, elim conjE)
  fix w :: "'a updater" and app :: flexible_scheduler
  assume "call_begin H call central = Some (pc, after)" and "fs_central_scheduling app = central"
  then show "\<exists>v. pushes X contents [] w v \<and> ru_rib v = ru_rib w \<and>
      handle_call X H D call (app, w) = call_rest X H D pc (set_mode after app, v)"
    by (intro exI [of _ w]) (simp add: call_begins(1))
qed

lemma call_alone_step:
  fixes u :: "'q updater"
  assumes env: "ext_ok X contents" "\<And>m. sendable X m"
    and alone: "call_alone X contents H D call agents central after pc cs" and pc: "\<not> (\<exists>c. pc = Call_start c)"
    and u: "get_available_agents (ru_rib u) = agents"
  shows "\<exists>pc' u' cs'. call_step X H pc (app, u) = Some (pc', app, u') \<and> ru_rib u' = ru_rib u \<and> pushes X contents cs' u u' \<and>
     \<not> (\<exists>c. pc' = Call_start c) \<and> call_alone X contents H D call agents central after pc' (cs @ cs')"
proof -
  obtain pc' cs' where step: "\<And>app u. get_available_agents (ru_rib u) = agents \<Longrightarrow>
      (\<exists>v. call_step X H pc (app, u) = Some (pc', app, v) \<and> ru_rib v = ru_rib u \<and> pushes X contents cs' u v) \<and>
      \<not> (\<exists>c. pc' = Call_start c)"
    using call_step_pushes [OF env pc, of agents H] by blast
  have "call_alone X contents H D call agents central after pc' (cs @ cs')"
    unfolding call_alone_def
  proof (intro allI impI, elim conjE)
    fix w :: "'q updater" and app :: flexible_scheduler assume w: "get_available_agents (ru_rib w) = agents" "fs_central_scheduling app = central"
    obtain v where v: "pushes X contents cs w v" "ru_rib v = ru_rib w"
      "handle_call X H D call (app, w) = call_rest X H D pc (set_mode after app, v)"
      using alone w unfolding call_alone_def by blast
    have "get_available_agents (ru_rib v) = agents" using v(2) w(1) by simp
    then obtain v' where v': "call_step X H pc (set_mode after app, v) = Some (pc', set_mode after app, v')" "ru_rib v' = ru_rib v"
      "pushes X contents cs' v v'" using step by blast
    have "call_rest X H D pc (set_mode after app, v) = call_rest X H D pc' (set_mode after app, v')"
      by (subst call_rest_step [OF pc]) (simp add: v'(1))
    then show "\<exists>v. pushes X contents (cs @ cs') w v \<and> ru_rib v = ru_rib w \<and>
        handle_call X H D call (app, w) = call_rest X H D pc' (set_mode after app, v)"
      using v v'(2) pushes_append [OF v(1) v'(3)] by auto
  qed
  then show ?thesis using step [OF u] by blast
qed

datatype turn = App_turn app | Call_turn

fun take_turn :: "(ue_stats list \<Rightarrow> ue_stats list) \<Rightarrow> junk \<Rightarrow> 'q ext \<Rightarrow> host \<Rightarrow> 'q threads \<times> call_pc \<Rightarrow> turn \<Rightarrow>
    ('q threads \<times> call_pc) option" where
  "take_turn srt jk X H (t, pc) (App_turn a) = do { t \<leftarrow> thread_step srt jk X H t a; Some (t, pc) }"
| "take_turn srt jk X H (t, pc) Call_turn = do {
     (pc, app, u) \<leftarrow> call_step X H pc (ct_flex (th_ct t), ct_up (th_ct t));
     Some (t\<lparr>th_ct := (th_ct t)\<lparr>ct_up := u, ct_flex := app\<rparr>\<rparr>, pc) }"

fun call_left :: "nat \<Rightarrow> call_pc \<Rightarrow> nat" where
  "call_left n (Call_start call) = n + 3"
| "call_left n (Call_agents src resp) = n + 2"
| "call_left n (Call_push src resp agents) = length agents + 1"
| "call_left n (Call_done resp) = 0"

lemma call_left_step:
  assumes "call_step X H pc (app, u) = Some (pc', app', u')" and "n = length (get_available_agents (ru_rib u))"
  shows "call_left n pc' \<le> call_left n pc - 1"
proof (cases "\<exists>call. pc = Call_start call")
  case True
  then obtain call where pc: "pc = Call_start call" by blast
  then obtain b where "call_begin H call (fs_central_scheduling app) = Some (pc', b)"
    using assms(1) by (auto simp: Option.bind_eq_Some_conv)
  then show ?thesis by (cases call) (auto simp: pc split: if_splits)
next
  case False
  then show ?thesis using assms
    by (cases "(X, H, pc, (app, u))" rule: call_step.cases) (auto simp: Option.bind_eq_Some_conv)
qed

definition calls_inv :: "(ue_stats list \<Rightarrow> ue_stats list) \<Rightarrow> junk \<Rightarrow> 'q ext \<Rightarrow> ('q \<Rightarrow> tagged_message list) \<Rightarrow> host \<Rightarrow> debug \<Rightarrow>
    north_call \<Rightarrow> 'q controller \<Rightarrow> stats_manager \<Rightarrow> 'q updater \<Rightarrow> bool \<Rightarrow> 'q threads \<times> call_pc \<Rightarrow> bool" where
  "calls_inv srt jk X contents H D call ct l u1 after = (\<lambda>(t, pc).
     let c = th_ct t; r0 = ru_rib (ct_up ct); agents = get_available_agents r0; central = fs_central_scheduling (ct_flex ct)
     in sm_inv (rb_eNB_configs (ru_rib (ct_up c))) \<and> get_available_agents (ru_rib (ct_up c)) = agents \<and>
        (\<exists>seen u ms ns cs ws zs.
          stats_rest X (th_stats t) (ct_stats c, u) = Some (l, u1) \<and> ru_rib u = r0 \<and> pushes X contents ms (ct_up ct) u \<and>
          flex_alone srt jk X contents H r0 (ct_flex ct) seen (th_flex t) (ct_flex c) (ru_rib (ct_up c)) ns \<and>
          (before_flag (th_flex t) \<or> seen = central \<or> (seen = after \<and> pc \<noteq> Call_start call)) \<and>
          (if pc = Call_start call then cs = [] \<and> fs_central_scheduling (ct_flex c) = central
           else \<not> (\<exists>c. pc = Call_start c) \<and> fs_central_scheduling (ct_flex c) = after \<and>
             call_alone X contents H D call agents central after pc cs) \<and>
          ws \<in> shuffles ms ns \<and> zs \<in> shuffles ws cs \<and> pushes X contents zs (ct_up ct) (ct_up c)))"

lemma calls_invI:
  assumes "sm_inv (rb_eNB_configs (ru_rib (ct_up (th_ct t))))"
    and "get_available_agents (ru_rib (ct_up (th_ct t))) = get_available_agents (ru_rib (ct_up ct))"
    and "stats_rest X (th_stats t) (ct_stats (th_ct t), u) = Some (l, u1)" and "ru_rib u = ru_rib (ct_up ct)"
    and "pushes X contents ms (ct_up ct) u"
    and "flex_alone srt jk X contents H (ru_rib (ct_up ct)) (ct_flex ct) seen (th_flex t) (ct_flex (th_ct t)) (ru_rib (ct_up (th_ct t))) ns"
    and "before_flag (th_flex t) \<or> seen = fs_central_scheduling (ct_flex ct) \<or> (seen = after \<and> pc \<noteq> Call_start call)"
    and "if pc = Call_start call then cs = [] \<and> fs_central_scheduling (ct_flex (th_ct t)) = fs_central_scheduling (ct_flex ct)
         else \<not> (\<exists>c. pc = Call_start c) \<and> fs_central_scheduling (ct_flex (th_ct t)) = after \<and>
           call_alone X contents H D call (get_available_agents (ru_rib (ct_up ct))) (fs_central_scheduling (ct_flex ct)) after pc cs"
    and "ws \<in> shuffles ms ns" and "zs \<in> shuffles ws cs" and "pushes X contents zs (ct_up ct) (ct_up (th_ct t))"
  shows "calls_inv srt jk X contents H D call ct l u1 after (t, pc)"
  unfolding calls_inv_def Let_def prod.case using assms by blast

lemma calls_invE:
  assumes "calls_inv srt jk X contents H D call ct l u1 after (t, pc)"
  obtains seen u ms ns cs ws zs where
    "sm_inv (rb_eNB_configs (ru_rib (ct_up (th_ct t))))"
    "get_available_agents (ru_rib (ct_up (th_ct t))) = get_available_agents (ru_rib (ct_up ct))"
    "stats_rest X (th_stats t) (ct_stats (th_ct t), u) = Some (l, u1)" "ru_rib u = ru_rib (ct_up ct)"
    "pushes X contents ms (ct_up ct) u"
    "flex_alone srt jk X contents H (ru_rib (ct_up ct)) (ct_flex ct) seen (th_flex t) (ct_flex (th_ct t)) (ru_rib (ct_up (th_ct t))) ns"
    "before_flag (th_flex t) \<or> seen = fs_central_scheduling (ct_flex ct) \<or> (seen = after \<and> pc \<noteq> Call_start call)"
    "if pc = Call_start call then cs = [] \<and> fs_central_scheduling (ct_flex (th_ct t)) = fs_central_scheduling (ct_flex ct)
     else \<not> (\<exists>c. pc = Call_start c) \<and> fs_central_scheduling (ct_flex (th_ct t)) = after \<and>
       call_alone X contents H D call (get_available_agents (ru_rib (ct_up ct))) (fs_central_scheduling (ct_flex ct)) after pc cs"
    "ws \<in> shuffles ms ns" "zs \<in> shuffles ws cs" "pushes X contents zs (ct_up ct) (ct_up (th_ct t))"
  using assms unfolding calls_inv_def Let_def prod.case by blast

lemma stats_turn_inv:
  fixes t :: "'q threads"
  assumes env: "ext_ok X contents" "\<And>m. sendable X m" and inv: "calls_inv srt jk X contents H D call ct l u1 after (t, pc)"
  shows "\<exists>t' pc'. take_turn srt jk X H (t, pc) (App_turn Stats_app) = Some (t', pc') \<and> calls_inv srt jk X contents H D call ct l u1 after (t', pc')"
proof -
  let ?c = "th_ct t"
  obtain seen u ms ns cs ws zs where
    rib: "sm_inv (rb_eNB_configs (ru_rib (ct_up ?c)))" "get_available_agents (ru_rib (ct_up ?c)) = get_available_agents (ru_rib (ct_up ct))" and
    s: "stats_rest X (th_stats t) (ct_stats ?c, u) = Some (l, u1)" "ru_rib u = ru_rib (ct_up ct)" "pushes X contents ms (ct_up ct) u" and
    f: "flex_alone srt jk X contents H (ru_rib (ct_up ct)) (ct_flex ct) seen (th_flex t) (ct_flex ?c) (ru_rib (ct_up ?c)) ns"
      "before_flag (th_flex t) \<or> seen = fs_central_scheduling (ct_flex ct) \<or> (seen = after \<and> pc \<noteq> Call_start call)" and
    c: "if pc = Call_start call then cs = [] \<and> fs_central_scheduling (ct_flex ?c) = fs_central_scheduling (ct_flex ct)
         else \<not> (\<exists>c. pc = Call_start c) \<and> fs_central_scheduling (ct_flex ?c) = after \<and>
           call_alone X contents H D call (get_available_agents (ru_rib (ct_up ct))) (fs_central_scheduling (ct_flex ct)) after pc cs" and
    z: "ws \<in> shuffles ms ns" "zs \<in> shuffles ws cs" "pushes X contents zs (ct_up ct) (ct_up ?c)"
    using inv by (rule calls_invE)
  obtain spc l' w where w: "stats_step X (th_stats t) (ct_stats ?c, u) = Some (spc, l', w)" "stats_rest X spc (l', w) = Some (l, u1)"
    using s(1) by (subst (asm) stats_rest_step) (auto simp: Option.bind_eq_Some_conv)
  obtain ms' where step: "\<And>u'. get_available_agents (ru_rib u') = get_available_agents (ru_rib u) \<Longrightarrow>
      \<exists>v'. stats_step X (th_stats t) (ct_stats ?c, u') = Some (spc, l', v') \<and> ru_rib v' = ru_rib u' \<and> pushes X contents ms' u' v'"
    using stats_step_pushes [OF env w(1)] by blast
  have agents: "get_available_agents (ru_rib (ct_up ?c)) = get_available_agents (ru_rib u)" using rib(2) s(2) by simp
  obtain w' where w': "stats_step X (th_stats t) (ct_stats ?c, ct_up ?c) = Some (spc, l', w')" "ru_rib w' = ru_rib (ct_up ?c)"
    "pushes X contents ms' (ct_up ?c) w'" and w2: "ru_rib w = ru_rib u" "pushes X contents ms' u w"
    using step [OF agents] step [OF refl] w(1) by auto
  let ?t = "t\<lparr>th_ct := ?c\<lparr>ct_up := w', ct_stats := l'\<rparr>, th_stats := spc\<rparr>"
  have "calls_inv srt jk X contents H D call ct l u1 after (?t, pc)"
    by (rule calls_invI [where u = w and ms = "ms @ ms'" and ns = ns and cs = cs and ws = "ws @ ms'" and zs = "zs @ ms'" and seen = seen])
      (use rib s f c w(2) w'(2) w2(1) pushes_append [OF s(3) w2(2)] pushes_append [OF z(3) w'(3)]
        shuffles_append_left [OF z(1)] shuffles_append_left [OF z(2)] in \<open>simp_all del: append_assoc\<close>)
  moreover have "take_turn srt jk X H (t, pc) (App_turn Stats_app) = Some (?t, pc)"
    using w'(1) by (simp add: thread_step_def)
  ultimately show ?thesis by blast
qed

lemma flex_turn_inv:
  fixes t :: "'q threads"
  assumes env: "ext_ok X contents" "\<And>m. sendable X m" and inv: "calls_inv srt jk X contents H D call ct l u1 after (t, pc)"
    and total: "\<And>b (w :: 'q updater). ru_rib w = ru_rib (ct_up ct) \<Longrightarrow> flex_run_periodic_task srt jk X H (set_mode b (ct_flex ct), w) \<noteq> None"
  shows "\<exists>t' pc'. take_turn srt jk X H (t, pc) (App_turn Flex_app) = Some (t', pc') \<and> calls_inv srt jk X contents H D call ct l u1 after (t', pc')"
proof -
  let ?c = "th_ct t"
  obtain seen u ms ns cs ws zs where
    rib: "sm_inv (rb_eNB_configs (ru_rib (ct_up ?c)))" "get_available_agents (ru_rib (ct_up ?c)) = get_available_agents (ru_rib (ct_up ct))" and
    s: "stats_rest X (th_stats t) (ct_stats ?c, u) = Some (l, u1)" "ru_rib u = ru_rib (ct_up ct)" "pushes X contents ms (ct_up ct) u" and
    f: "flex_alone srt jk X contents H (ru_rib (ct_up ct)) (ct_flex ct) seen (th_flex t) (ct_flex ?c) (ru_rib (ct_up ?c)) ns"
      "before_flag (th_flex t) \<or> seen = fs_central_scheduling (ct_flex ct) \<or> (seen = after \<and> pc \<noteq> Call_start call)" and
    c: "if pc = Call_start call then cs = [] \<and> fs_central_scheduling (ct_flex ?c) = fs_central_scheduling (ct_flex ct)
         else \<not> (\<exists>c. pc = Call_start c) \<and> fs_central_scheduling (ct_flex ?c) = after \<and>
           call_alone X contents H D call (get_available_agents (ru_rib (ct_up ct))) (fs_central_scheduling (ct_flex ct)) after pc cs" and
    z: "ws \<in> shuffles ms ns" "zs \<in> shuffles ws cs" "pushes X contents zs (ct_up ct) (ct_up ?c)"
    using inv by (rule calls_invE)
  define seen' where "seen' = (if th_flex t = Flex_push [] then fs_central_scheduling (ct_flex ?c) else seen)"
  obtain fpc p' w' ns' where w': "flex_step srt jk X H (th_flex t) (ct_flex ?c, ct_up ?c) = Some (fpc, p', w')"
    "pushes X contents ns' (ct_up ?c) w'"
    "flex_alone srt jk X contents H (ru_rib (ct_up ct)) (ct_flex ct) seen' fpc p' (ru_rib w') (ns @ ns')"
    using flex_alone_step [OF env f(1) total seen'_def] by blast
  let ?t = "t\<lparr>th_ct := ?c\<lparr>ct_up := w', ct_flex := p'\<rparr>, th_flex := fpc\<rparr>"
  have "before_flag fpc \<or> seen' = fs_central_scheduling (ct_flex ct) \<or> (seen' = after \<and> pc \<noteq> Call_start call)"
    using f(2) c before_flag_step [OF w'(1)] by (auto simp: seen'_def split: if_splits)
  then have "calls_inv srt jk X contents H D call ct l u1 after (?t, pc)"
    using rib s c w'(3) flex_step_keeps_mode [OF w'(1)] flex_step_rib [OF env w'(1) rib(1)]
      pushes_append [OF z(3) w'(2)] shuffles_append_right [OF z(1)] shuffles_append_left [OF z(2)]
    by (intro calls_invI [where u = u and ms = ms and ns = "ns @ ns'" and cs = cs and ws = "ws @ ns'" and zs = "zs @ ns'" and seen = seen'])
       simp_all
  moreover have "take_turn srt jk X H (t, pc) (App_turn Flex_app) = Some (?t, pc)"
    using w'(1) by (simp add: thread_step_def)
  ultimately show ?thesis by blast
qed

lemma call_turn_inv:
  fixes t :: "'q threads"
  assumes env: "ext_ok X contents" "\<And>m. sendable X m" and inv: "calls_inv srt jk X contents H D call ct l u1 after (t, pc)"
    and begins: "call_begin H call (fs_central_scheduling (ct_flex ct)) = Some (pc0, after)"
  shows "\<exists>t' pc'. take_turn srt jk X H (t, pc) Call_turn = Some (t', pc') \<and> calls_inv srt jk X contents H D call ct l u1 after (t', pc')"
proof -
  let ?c = "th_ct t"
  obtain seen u ms ns cs ws zs where
    rib: "sm_inv (rb_eNB_configs (ru_rib (ct_up ?c)))" "get_available_agents (ru_rib (ct_up ?c)) = get_available_agents (ru_rib (ct_up ct))" and
    s: "stats_rest X (th_stats t) (ct_stats ?c, u) = Some (l, u1)" "ru_rib u = ru_rib (ct_up ct)" "pushes X contents ms (ct_up ct) u" and
    f: "flex_alone srt jk X contents H (ru_rib (ct_up ct)) (ct_flex ct) seen (th_flex t) (ct_flex ?c) (ru_rib (ct_up ?c)) ns"
      "before_flag (th_flex t) \<or> seen = fs_central_scheduling (ct_flex ct) \<or> (seen = after \<and> pc \<noteq> Call_start call)" and
    c: "if pc = Call_start call then cs = [] \<and> fs_central_scheduling (ct_flex ?c) = fs_central_scheduling (ct_flex ct)
         else \<not> (\<exists>c. pc = Call_start c) \<and> fs_central_scheduling (ct_flex ?c) = after \<and>
           call_alone X contents H D call (get_available_agents (ru_rib (ct_up ct))) (fs_central_scheduling (ct_flex ct)) after pc cs" and
    z: "ws \<in> shuffles ms ns" "zs \<in> shuffles ws cs" "pushes X contents zs (ct_up ct) (ct_up ?c)"
    using inv by (rule calls_invE)
  show ?thesis
  proof (cases "pc = Call_start call")
    case True
    let ?t = "t\<lparr>th_ct := ?c\<lparr>ct_flex := set_mode after (ct_flex ?c)\<rparr>\<rparr>"
    have "before_flag (th_flex t) \<or> seen = fs_central_scheduling (ct_flex ct) \<or> (seen = after \<and> pc0 \<noteq> Call_start call)"
      using f(2) call_begins(2) [OF begins] by blast
    then have "calls_inv srt jk X contents H D call ct l u1 after (?t, pc0)"
      using rib s f(1) c z True call_begins(2) [OF begins] call_alone_begin [OF begins]
      by (intro calls_invI [where u = u and ms = ms and ns = ns and cs = "[]" and ws = ws and zs = zs and seen = seen])
         (simp_all add: flex_alone_mode)
    moreover have "take_turn srt jk X H (t, pc) Call_turn = Some (?t, pc0)" using c True begins by simp
    ultimately show ?thesis by blast
  next
    case False
    then have pc: "\<not> (\<exists>c. pc = Call_start c)" "fs_central_scheduling (ct_flex ?c) = after"
      "call_alone X contents H D call (get_available_agents (ru_rib (ct_up ct))) (fs_central_scheduling (ct_flex ct)) after pc cs"
      using c by simp_all
    obtain pc' w' cs' where w': "call_step X H pc (ct_flex ?c, ct_up ?c) = Some (pc', ct_flex ?c, w')" "ru_rib w' = ru_rib (ct_up ?c)"
      "pushes X contents cs' (ct_up ?c) w'" "\<not> (\<exists>c. pc' = Call_start c)"
      "call_alone X contents H D call (get_available_agents (ru_rib (ct_up ct))) (fs_central_scheduling (ct_flex ct)) after pc' (cs @ cs')"
      using call_alone_step [OF env pc(3,1) rib(2)] by blast
    let ?t = "t\<lparr>th_ct := ?c\<lparr>ct_up := w', ct_flex := ct_flex ?c\<rparr>\<rparr>"
    have "calls_inv srt jk X contents H D call ct l u1 after (?t, pc')"
      using rib s f False pc(2) w'(2,4,5) z(1) pushes_append [OF z(3) w'(3)] shuffles_append_right [OF z(2)]
      by (intro calls_invI [where u = u and ms = ms and ns = ns and cs = "cs @ cs'" and ws = ws and zs = "zs @ cs'" and seen = seen])
         auto
    moreover have "take_turn srt jk X H (t, pc) Call_turn = Some (?t, pc')" using w'(1) by simp
    ultimately show ?thesis by blast
  qed
qed

lemma take_turn_inv:
  fixes t :: "'q threads"
  assumes env: "ext_ok X contents" "\<And>m. sendable X m" and inv: "calls_inv srt jk X contents H D call ct l u1 after (t, pc)"
    and total: "\<And>b (w :: 'q updater). ru_rib w = ru_rib (ct_up ct) \<Longrightarrow> flex_run_periodic_task srt jk X H (set_mode b (ct_flex ct), w) \<noteq> None"
    and begins: "call_begin H call (fs_central_scheduling (ct_flex ct)) = Some (pc0, after)"
  shows "\<exists>t' pc'. take_turn srt jk X H (t, pc) a = Some (t', pc') \<and> calls_inv srt jk X contents H D call ct l u1 after (t', pc')"
proof (cases a)
  case (App_turn app)
  then show ?thesis using stats_turn_inv [OF env inv] flex_turn_inv [OF env inv total] by (cases app) auto
next
  case Call_turn
  then show ?thesis using call_turn_inv [OF env inv begins] by simp
qed

section \<open>All schedules\<close>

lemma take_turn_left:
  assumes "take_turn srt jk X H (t, pc) a = Some (t', pc')" and "n = length (get_available_agents (ru_rib (ct_up (th_ct t))))"
  shows "stats_left n (th_stats t') \<le> stats_left n (th_stats t) - count_list [a] (App_turn Stats_app)"
    and "flex_left n (th_flex t') \<le> flex_left n (th_flex t) - count_list [a] (App_turn Flex_app)"
    and "call_left n pc' \<le> call_left n pc - count_list [a] Call_turn"
proof -
  show "stats_left n (th_stats t') \<le> stats_left n (th_stats t) - count_list [a] (App_turn Stats_app)"
    using assms by (cases a; cases "a = App_turn Stats_app")
      (auto simp: thread_step_def Let_def Option.bind_eq_Some_conv split: app.splits dest!: stats_left_step [OF _ refl])
  show "flex_left n (th_flex t') \<le> flex_left n (th_flex t) - count_list [a] (App_turn Flex_app)"
    using assms by (cases a; cases "a = App_turn Flex_app")
      (auto simp: thread_step_def Let_def Option.bind_eq_Some_conv split: app.splits dest!: flex_left_step [OF _ refl])
  show "call_left n pc' \<le> call_left n pc - count_list [a] Call_turn"
    using assms by (cases a) (auto simp: Option.bind_eq_Some_conv dest!: call_left_step [OF _ refl])
qed

lemma turns_inv:
  fixes t :: "'q threads"
  assumes env: "ext_ok X contents" "\<And>m. sendable X m"
    and total: "\<And>b (w :: 'q updater). ru_rib w = ru_rib (ct_up ct) \<Longrightarrow> flex_run_periodic_task srt jk X H (set_mode b (ct_flex ct), w) \<noteq> None"
    and begins: "call_begin H call (fs_central_scheduling (ct_flex ct)) = Some (pc0, after)"
    and n: "n = length (get_available_agents (ru_rib (ct_up ct)))"
  shows "calls_inv srt jk X contents H D call ct l u1 after (t, pc) \<Longrightarrow>
     \<exists>t' pc'. foldo (take_turn srt jk X H) (t, pc) sched = Some (t', pc') \<and>
       calls_inv srt jk X contents H D call ct l u1 after (t', pc') \<and>
       stats_left n (th_stats t') \<le> stats_left n (th_stats t) - count_list sched (App_turn Stats_app) \<and>
       flex_left n (th_flex t') \<le> flex_left n (th_flex t) - count_list sched (App_turn Flex_app) \<and>
       call_left n pc' \<le> call_left n pc - count_list sched Call_turn"
proof (induction sched arbitrary: t pc)
  case (Cons a sched)
  obtain t1 pc1 where 1: "take_turn srt jk X H (t, pc) a = Some (t1, pc1)" "calls_inv srt jk X contents H D call ct l u1 after (t1, pc1)"
    using take_turn_inv [OF env Cons.prems total begins] by blast
  have "n = length (get_available_agents (ru_rib (ct_up (th_ct t))))"
    using Cons.prems n unfolding calls_inv_def Let_def prod.case by simp
  note left = take_turn_left [OF 1(1) this]
  obtain t2 pc2 where 2: "foldo (take_turn srt jk X H) (t1, pc1) sched = Some (t2, pc2)"
    "calls_inv srt jk X contents H D call ct l u1 after (t2, pc2)"
    "stats_left n (th_stats t2) \<le> stats_left n (th_stats t1) - count_list sched (App_turn Stats_app)"
    "flex_left n (th_flex t2) \<le> flex_left n (th_flex t1) - count_list sched (App_turn Flex_app)"
    "call_left n pc2 \<le> call_left n pc1 - count_list sched Call_turn"
    using Cons.IH [OF 1(2)] by blast
  show ?case
    by (rule exI [of _ t2], rule exI [of _ pc2]) (use 1(1) 2 left in \<open>auto split: if_splits\<close>)
qed simp

lemma call_left_0: "call_left n pc = 0 \<longleftrightarrow> (\<exists>resp. pc = Call_done resp)"
  by (cases pc) auto

text \<open>The scheduler and the call one after the other, in one of the two orders, pushing \<open>ns\<close> and \<open>cs\<close>.\<close>

definition flex_and_call :: "(ue_stats list \<Rightarrow> ue_stats list) \<Rightarrow> junk \<Rightarrow> 'q ext \<Rightarrow> ('q \<Rightarrow> tagged_message list) \<Rightarrow> host \<Rightarrow> debug \<Rightarrow>
    north_call \<Rightarrow> response \<Rightarrow> (int \<times> flexran_message) list \<Rightarrow> (int \<times> flexran_message) list \<Rightarrow> 'q controller \<Rightarrow> 'q controller \<Rightarrow> bool" where
  "flex_and_call srt jk X contents H D call resp ns cs mid seq \<longleftrightarrow>
     (\<exists>c. run_app srt jk X H mid Flex_app = Some c \<and> pushes X contents ns (ct_up mid) (ct_up c) \<and>
        north_call X H D call c = Some (resp, seq) \<and> pushes X contents cs (ct_up c) (ct_up seq)) \<or>
     (\<exists>c. north_call X H D call mid = Some (resp, c) \<and> pushes X contents cs (ct_up mid) (ct_up c) \<and>
        run_app srt jk X H c Flex_app = Some seq \<and> pushes X contents ns (ct_up c) (ct_up seq))"

lemma flex_then_call:
  assumes "flex_run_periodic_task srt jk X H (ct_flex mid, ct_up mid) = Some (app, v)" and "pushes X contents ns (ct_up mid) v"
    and "handle_call X H D call (app, v) = Some (resp, app', w)" and "pushes X contents cs v w"
  shows "flex_and_call srt jk X contents H D call resp ns cs mid (mid\<lparr>ct_up := w, ct_flex := app'\<rparr>)"
  unfolding flex_and_call_def
  by (rule disjI1, rule exI [of _ "mid\<lparr>ct_up := v, ct_flex := app\<rparr>"]) (simp add: assms run_app_def north_call_def)

lemma call_then_flex:
  assumes "handle_call X H D call (ct_flex mid, ct_up mid) = Some (resp, app, v)" and "pushes X contents cs (ct_up mid) v"
    and "flex_run_periodic_task srt jk X H (app, v) = Some (app', w)" and "pushes X contents ns v w"
  shows "flex_and_call srt jk X contents H D call resp ns cs mid (mid\<lparr>ct_up := w, ct_flex := app'\<rparr>)"
  unfolding flex_and_call_def
  by (rule disjI2, rule exI [of _ "mid\<lparr>ct_up := v, ct_flex := app\<rparr>"]) (simp add: assms run_app_def north_call_def)

text \<open>What the invariant says at the end: the flag decides the order.\<close>

lemma calls_inv_end:
  fixes t :: "'q threads"
  assumes "calls_inv srt jk X contents H D call ct l u1 after (t, Call_done resp)" and "finished t"
  obtains w ms ns cs ws zs where
    "ct_stats (th_ct t) = l" "pushes X contents ms (ct_up ct) u1" "ws \<in> shuffles ms ns" "zs \<in> shuffles ws cs"
    "pushes X contents zs (ct_up ct) (ct_up (th_ct t))"
    "flex_and_call srt jk X contents H D call resp ns cs (ct\<lparr>ct_up := u1, ct_stats := l\<rparr>)
       (ct\<lparr>ct_up := u1, ct_stats := l\<rparr>\<lparr>ct_up := w, ct_flex := ct_flex (th_ct t)\<rparr>)"
    "ru_rib w = ru_rib (ct_up (th_ct t))"
proof -
  let ?app = "ct_flex (th_ct t)" and ?central = "fs_central_scheduling (ct_flex ct)"
  from assms(1) obtain seen u ms ns cs ws zs where
    agents: "get_available_agents (ru_rib (ct_up (th_ct t))) = get_available_agents (ru_rib (ct_up ct))" and
    s: "ct_stats (th_ct t) = l" "u = u1" "ru_rib u1 = ru_rib (ct_up ct)" "pushes X contents ms (ct_up ct) u1" and
    f: "flex_alone srt jk X contents H (ru_rib (ct_up ct)) (ct_flex ct) seen Flex_done ?app (ru_rib (ct_up (th_ct t))) ns"
      "seen = ?central \<or> seen = after" and
    c: "fs_central_scheduling ?app = after"
      "call_alone X contents H D call (get_available_agents (ru_rib (ct_up ct))) ?central after (Call_done resp) cs" and
    z: "ws \<in> shuffles ms ns" "zs \<in> shuffles ws cs" "pushes X contents zs (ct_up ct) (ct_up (th_ct t))"
    by (rule calls_invE) (use assms(2) in \<open>auto simp: finished_def\<close>)
  have flex: "\<exists>v. pushes X contents ns w v \<and> ru_rib v = ru_rib (ct_up (th_ct t)) \<and>
      flex_run_periodic_task srt jk X H (set_mode seen (ct_flex ct), w) = Some (set_mode seen ?app, v)"
    if "ru_rib w = ru_rib (ct_up ct)" for w using f(1) that by (simp add: flex_alone_def)
  have call: "\<exists>v. pushes X contents cs w v \<and> ru_rib v = ru_rib w \<and> handle_call X H D call (app, w) = Some (resp, set_mode after app, v)"
    if "get_available_agents (ru_rib w) = get_available_agents (ru_rib (ct_up ct))" "fs_central_scheduling app = ?central" for w app
    using c(2) that by (simp add: call_alone_def)
  have app: "set_mode after ?app = ?app" using c(1) by (auto simp flip: c(1))
  let ?mid = "ct\<lparr>ct_up := u1, ct_stats := l\<rparr>"
  have "\<exists>w. flex_and_call srt jk X contents H D call resp ns cs ?mid (?mid\<lparr>ct_up := w, ct_flex := ?app\<rparr>) \<and>
      ru_rib w = ru_rib (ct_up (th_ct t))"
  proof (cases "seen = ?central")
    case True
    obtain v where v: "pushes X contents ns u1 v" "ru_rib v = ru_rib (ct_up (th_ct t))"
      "flex_run_periodic_task srt jk X H (ct_flex ct, u1) = Some (set_mode ?central ?app, v)"
      using flex [OF s(3)] True by auto
    obtain w where w: "pushes X contents cs v w" "ru_rib w = ru_rib v"
      "handle_call X H D call (set_mode ?central ?app, v) = Some (resp, ?app, w)"
      using call [of v "set_mode ?central ?app"] v(2) agents app by auto
    have "flex_and_call srt jk X contents H D call resp ns cs ?mid (?mid\<lparr>ct_up := w, ct_flex := ?app\<rparr>)"
      by (rule flex_then_call [where app = "set_mode ?central ?app" and v = v]) (use v w in simp_all)
    moreover have "ru_rib w = ru_rib (ct_up (th_ct t))" using v(2) w(2) by simp
    ultimately show ?thesis by blast
  next
    case False
    obtain v where v: "pushes X contents cs u1 v" "ru_rib v = ru_rib u1"
      "handle_call X H D call (ct_flex ct, u1) = Some (resp, set_mode after (ct_flex ct), v)"
      using call [of u1 "ct_flex ct"] s(3) by auto
    have "ru_rib v = ru_rib (ct_up ct)" "seen = after" using v(2) s(3) False f(2) by auto
    then obtain w where w: "pushes X contents ns v w" "ru_rib w = ru_rib (ct_up (th_ct t))"
      "flex_run_periodic_task srt jk X H (set_mode after (ct_flex ct), v) = Some (?app, w)"
      using flex [of v] app by auto
    have "flex_and_call srt jk X contents H D call resp ns cs ?mid (?mid\<lparr>ct_up := w, ct_flex := ?app\<rparr>)"
      by (rule call_then_flex [where app = "set_mode after (ct_flex ct)" and v = v]) (use v w in simp_all)
    then show ?thesis using w(2) by blast
  qed
  then obtain w where "flex_and_call srt jk X contents H D call resp ns cs ?mid (?mid\<lparr>ct_up := w, ct_flex := ?app\<rparr>)"
    "ru_rib w = ru_rib (ct_up (th_ct t))" by blast
  then show thesis by (rule that [OF s(1,4) z])
qed

lemma call_begins_unless_stats:
  "(\<nexists>stats_type. call = ObtainStats stats_type) \<Longrightarrow> \<exists>pc after. call_begin H call central = Some (pc, after)"
  by (cases call) auto

lemma calls_inv_start:
  assumes "stats_run_periodic_task X (ct_stats ct, ct_up ct) = Some (l, u1)" and "sm_inv (rb_eNB_configs (ru_rib (ct_up ct)))"
  shows "calls_inv srt jk X contents H D call ct l u1 after (start_threads ct, Call_start call)"
  by (rule calls_invI [where u = "ct_up ct" and ms = "[]" and ns = "[]" and cs = "[]" and ws = "[]" and zs = "[]"])
     (use assms flex_alone_start in \<open>auto simp: start_threads_def\<close>)

text \<open>
  C11: a call that changes the scheduler and overlaps the application phase of a cycle (the updater is done, and no UEs
  tie among the agents that are due) takes effect at one point: in whatever order the two application threads and
  the handler take their steps, once each had its turn often enough, nothing faulted, all three
  have returned, and the answer, the states of both applications and the RIB are those of the statistics manager
  followed by the scheduler and the call, one after the other, in one of the two orders. The output queue gets the
  messages of the three, shuffled, up to its capacity.
\<close>

theorem calls_take_effect_at_once:
  fixes ct :: "'q controller"
  assumes "app_env srt X contents" and "ctl_sound ct" and "\<nexists>stats_type. call = ObtainStats stats_type"
    and "n = length (get_available_agents (ru_rib (ct_up ct)))" and "n + 1 \<le> count_list sched (App_turn Stats_app)"
    and "3 * n + 3 \<le> count_list sched (App_turn Flex_app)" and "n + 3 \<le> count_list sched Call_turn"
    and "due_untied jk (fs_scheduling_info (ct_flex ct)) (ru_rib (ct_up ct))"
  shows "\<exists>t resp mid seq ms ns cs ws zs.
     foldo (take_turn srt jk X H) (start_threads ct, Call_start call) sched = Some (t, Call_done resp) \<and> finished t \<and>
     run_app srt jk X H ct Stats_app = Some mid \<and> pushes X contents ms (ct_up ct) (ct_up mid) \<and>
     flex_and_call srt jk X contents H D call resp ns cs mid seq \<and>
     ct_stats (th_ct t) = ct_stats seq \<and> ct_flex (th_ct t) = ct_flex seq \<and> ru_rib (ct_up (th_ct t)) = ru_rib (ct_up seq) \<and>
     ws \<in> shuffles ms ns \<and> zs \<in> shuffles ws cs \<and> pushes X contents zs (ct_up ct) (ct_up (th_ct t))"
proof -
  have env: "std_sort srt" "ext_ok X contents" "\<And>m. sendable X m" using assms(1) by (auto simp: app_env_def)
  have sound: "rib_sound (ru_rib (ct_up ct))" "infos_ok (fs_scheduling_info (ct_flex ct))" using assms(2) by (simp_all add: ctl_sound_def)
  have wf: "rib_wf (ru_rib (ct_up ct))" using sound(1) rib_soundD(1) by simp
  obtain l u1 where l: "stats_run_periodic_task X (ct_stats ct, ct_up ct) = Some (l, u1)"
    using stats_run_sends [OF env(2,3) wf] by blast
  obtain pc0 after where begins: "call_begin H call (fs_central_scheduling (ct_flex ct)) = Some (pc0, after)"
    using call_begins_unless_stats [OF assms(3)] by blast
  have total: "flex_run_periodic_task srt jk X H (set_mode b (ct_flex ct), w) \<noteq> None" if "ru_rib w = ru_rib (ct_up ct)" for b and w :: "'q updater"
    using flex_task_sound(1) [OF env, of w "set_mode b (ct_flex ct)" jk H] sound that assms(8) by (simp add: set_mode_def)
  have "calls_inv srt jk X contents H D call ct l u1 after (start_threads ct, Call_start call)"
    using calls_inv_start [OF l] wf by (simp add: rib_wf_def)
  from turns_inv [OF env(2,3) total begins assms(4) this, of sched] obtain t pc where
    t: "foldo (take_turn srt jk X H) (start_threads ct, Call_start call) sched = Some (t, pc)"
      "calls_inv srt jk X contents H D call ct l u1 after (t, pc)"
      "stats_left n (th_stats t) \<le> n + 1 - count_list sched (App_turn Stats_app)"
      "flex_left n (th_flex t) \<le> 3 * n + 3 - count_list sched (App_turn Flex_app)"
      "call_left n pc \<le> n + 3 - count_list sched Call_turn"
    by (auto simp: start_threads_def)
  have fin: "finished t" using t(3,4) assms(5,6) stats_left_0 [of n "th_stats t"] flex_left_0 [of n "th_flex t"] by (simp add: finished_def)
  obtain resp where resp: "pc = Call_done resp" using t(5) assms(7) call_left_0 [of n pc] by auto
  let ?mid = "ct\<lparr>ct_up := u1, ct_stats := l\<rparr>"
  have mid: "run_app srt jk X H ct Stats_app = Some ?mid" using l by (simp add: run_app_def)
  obtain w ms ns cs ws zs where
    z: "ct_stats (th_ct t) = l" "pushes X contents ms (ct_up ct) u1" "ws \<in> shuffles ms ns" "zs \<in> shuffles ws cs"
      "pushes X contents zs (ct_up ct) (ct_up (th_ct t))"
      "flex_and_call srt jk X contents H D call resp ns cs ?mid (ct\<lparr>ct_up := u1, ct_stats := l\<rparr>\<lparr>ct_up := w, ct_flex := ct_flex (th_ct t)\<rparr>)"
      "ru_rib w = ru_rib (ct_up (th_ct t))"
    by (rule calls_inv_end [OF t(2) [unfolded resp] fin])
  show ?thesis
  proof (intro exI conjI)
    show "foldo (take_turn srt jk X H) (start_threads ct, Call_start call) sched = Some (t, Call_done resp)" using t(1) resp by simp
    show "run_app srt jk X H ct Stats_app = Some ?mid" by (rule mid)
    show "flex_and_call srt jk X contents H D call resp ns cs ?mid (?mid\<lparr>ct_up := w, ct_flex := ct_flex (th_ct t)\<rparr>)" by (rule z(6))
    show "ws \<in> shuffles ms ns" "zs \<in> shuffles ws cs" "pushes X contents zs (ct_up ct) (ct_up (th_ct t))" by (fact z)+
  qed (use fin z in simp_all)
qed

text \<open>Two agents; the scheduler is switched to the agents while the threads of a cycle are under way.\<close>

definition overlap_call :: "turn list" where
  "overlap_call = [Call_turn, App_turn Flex_app, App_turn Stats_app, Call_turn, App_turn Flex_app, App_turn Flex_app, Call_turn,
     App_turn Stats_app, App_turn Flex_app, App_turn Flex_app, App_turn Stats_app, Call_turn, App_turn Flex_app,
     App_turn Flex_app, App_turn Flex_app, App_turn Flex_app, Call_turn]"

lemma calls_take_effect_witness:
  "\<exists>t resp mid seq ms ns cs.
     foldo (take_turn insertion_sort zero_junk list_ext code_host) (start_threads busy, Call_start (ChangeScheduler 0)) overlap_call =
       Some (t, Call_done resp) \<and> finished t \<and>
     run_app insertion_sort zero_junk list_ext code_host busy Stats_app = Some mid \<and>
     flex_and_call insertion_sort zero_junk list_ext (\<lambda>q. q) code_host no_debug (ChangeScheduler 0) resp ns cs mid seq \<and>
     pushes list_ext (\<lambda>q. q) ms (ct_up busy) (ct_up mid) \<and>
     ct_flex (th_ct t) = ct_flex seq \<and> ru_rib (ct_up (th_ct t)) = ru_rib (ct_up seq)"
proof -
  have env: "app_env insertion_sort list_ext (\<lambda>q. q)"
    using ext_ok_list two_agents_facts(3) by (simp add: app_env_def ins.std_sort_axioms)
  have n: "2 = length (get_available_agents (ru_rib (ct_up busy)))"
    by (simp add: busy_def get_available_agents_def sm_keys_def)
  have call: "\<nexists>stats_type. ChangeScheduler 0 = ObtainStats stats_type" by simp
  have turns: "2 + 1 \<le> count_list overlap_call (App_turn Stats_app)" "3 * 2 + 3 \<le> count_list overlap_call (App_turn Flex_app)"
    "2 + 3 \<le> count_list overlap_call Call_turn"
    by (simp_all add: overlap_call_def)
  from calls_take_effect_at_once [OF env busy_sound call n turns busy_untied, of code_host no_debug] show ?thesis by blast
qed

end
