(* ===== verification/Startup.thy ===== *)
theory Startup
  imports ControllerRuns
begin

text \<open>
  \<open>main\<close> in \<open>src/core/rt_controller.cc\<close>: from the command line and the environment to the objects the controller
  starts with, or to an exit code. What \<open>boost::program_options\<close> makes of the command line is a parameter; of a
  numerical option it promises some \<open>int\<close>.
\<close>

section \<open>Options\<close>

record variables_map =
  po_help :: bool
  po_debug :: bool
  po_port :: "int option"
  po_nport :: "int option"

definition default_port :: int where
  "default_port = 2210"

definition default_nport :: int where
  "default_nport = 9999"

text \<open>
  \<open>parsed\<close> is the result of parsing and storing (nothing when that throws), \<open>notified\<close> whether \<open>notify\<close> returns. An
  option that is not given has its default.
\<close>

datatype options_result = Exit int | Options bool int int

definition read_options :: "variables_map option \<Rightarrow> bool \<Rightarrow> options_result" where
  "read_options parsed notified =
     (case parsed of
        None \<Rightarrow> Exit 2
      | Some opts \<Rightarrow>
          if po_help opts then Exit 0
          else let debug = po_debug opts
               in if \<not> notified then Exit 1
                  else Options debug (case po_port opts of None \<Rightarrow> default_port | Some p \<Rightarrow> p)
                         (case po_nport opts of None \<Rightarrow> default_nport | Some p \<Rightarrow> p))"

section \<open>Start\<close>

text \<open>The port of an endpoint is an \<open>unsigned short\<close>; both interfaces convert the \<open>int\<close> of the option.\<close>

record 'q started =
  sd_controller :: "'q controller"
  sd_log_config :: string
  sd_port :: u16
  sd_north_port :: u16

definition log_config :: "string option \<Rightarrow> bool \<Rightarrow> string" where
  "log_config home debug =
     (case home of Some env_p \<Rightarrow> env_p | None \<Rightarrow> ''../'') @ (if debug then ''/log_config/debug_log'' else ''/log_config/basic_log'')"

definition main :: "'q network \<Rightarrow> string option \<Rightarrow> variables_map option \<Rightarrow> bool \<Rightarrow> int + 'q started" where
  "main net_xface home parsed notified =
     (case read_options parsed notified of
        Exit code \<Rightarrow> Inl code
      | Options debug cport north_port \<Rightarrow>
          Inr \<lparr>sd_controller = new_controller net_xface, sd_log_config = log_config home debug,
               sd_port = word_of_int cport, sd_north_port = word_of_int north_port\<rparr>)"

section \<open>Outcomes\<close>

lemma main_exit:
  "main n home parsed notified = Inl code \<longleftrightarrow>
     (case parsed of None \<Rightarrow> code = 2 | Some opts \<Rightarrow> if po_help opts then code = 0 else \<not> notified \<and> code = 1)"
  by (auto simp: main_def read_options_def Let_def split: option.splits if_splits)

text \<open>What the program starts with is a state the runs of the controller start from.\<close>

lemma main_started:
  assumes "main n home parsed notified = Inr s"
  shows "ctl_reach srt jk X H D (sd_controller s)"
    and "parsed = Some opts \<Longrightarrow> po_port opts = Some p \<Longrightarrow> uint (sd_port s) = p mod 65536"
proof -
  have s: "sd_controller s = new_controller n" "parsed = Some opts \<Longrightarrow> po_port opts = Some p \<Longrightarrow> sd_port s = word_of_int p"
    using assms by (auto simp: main_def read_options_def Let_def split: option.splits if_splits)
  show "ctl_reach srt jk X H D (sd_controller s)" unfolding s(1) by (rule ctl_reach.started)
  show "parsed = Some opts \<Longrightarrow> po_port opts = Some p \<Longrightarrow> uint (sd_port s) = p mod 65536"
    using s(2) by (simp add: uint_word_of_int)
qed

text \<open>A port beyond 65535 is not refused: the controller says it listens on 70000 and listens on 4464.\<close>

lemma port_wraps:
  "\<exists>s. main n None (Some \<lparr>po_help = False, po_debug = False, po_port = Some 70000, po_nport = None\<rparr>) True = Inr s \<and>
     sd_port s = 4464 \<and> sd_north_port s = 9999 \<and> sd_log_config s = ''..//log_config/basic_log''"
  by (simp add: main_def read_options_def log_config_def default_nport_def)

end
