(* ===== verification/HttpServer.thy ===== *)
theory HttpServer
  imports Startup
begin

text \<open>
  The HTTP server of the north-bound interface: \<open>src/north_api/call_manager\<close>, the routes that the two sets of calls
  register, the part of \<open>main\<close> that sets it up, and what becomes of a request. The library Pistache is a parameter: how
  it finds the route of a request, and its conversion of a parameter of the path to \<open>int\<close>.
\<close>

section \<open>Routes\<close>

datatype http_method = Http_Get | Http_Post

datatype api_handler = Change_scheduler | Apply_policy | Apply_policy_string | Obtain_stats

record route =
  rt_method :: http_method
  rt_resource :: string
  rt_handler :: api_handler

text \<open>The two implementations of \<open>app_calls::register_calls\<close>.\<close>

datatype app_calls = Flexible_sched_calls | Stats_manager_calls

fun app_register_calls :: "app_calls \<Rightarrow> route list \<Rightarrow> route list" where
  "app_register_calls Flexible_sched_calls router =
     router @ [\<lparr>rt_method = Http_Post, rt_resource = ''/dl_sched/:sched_type'', rt_handler = Change_scheduler\<rparr>,
               \<lparr>rt_method = Http_Post, rt_resource = ''/rrm/:policyname'', rt_handler = Apply_policy\<rparr>,
               \<lparr>rt_method = Http_Post, rt_resource = ''/rrm_config/'', rt_handler = Apply_policy_string\<rparr>]"
| "app_register_calls Stats_manager_calls router =
     router @ [\<lparr>rt_method = Http_Get, rt_resource = ''/stats_manager/:stats_type'', rt_handler = Obtain_stats\<rparr>]"

section \<open>The call manager\<close>

text \<open>\<open>cm_handler\<close> is the router handed to the endpoint, \<open>cm_threads\<close> its options.\<close>

record call_manager =
  cm_port :: u16
  cm_router :: "route list"
  cm_threads :: "nat option"
  cm_handler :: "route list option"
  cm_serving :: bool

definition new_call_manager :: "u16 \<Rightarrow> call_manager" where
  "new_call_manager port = \<lparr>cm_port = port, cm_router = [], cm_threads = None, cm_handler = None, cm_serving = False\<rparr>"

definition cm_init :: "nat \<Rightarrow> call_manager \<Rightarrow> call_manager" where
  "cm_init thr cm = cm\<lparr>cm_threads := Some thr\<rparr>"

definition cm_start :: "call_manager \<Rightarrow> call_manager" where
  "cm_start cm = cm\<lparr>cm_handler := Some (cm_router cm), cm_serving := True\<rparr>"

definition cm_shutdown :: "call_manager \<Rightarrow> call_manager" where
  "cm_shutdown cm = cm\<lparr>cm_serving := False\<rparr>"

definition cm_register_calls :: "app_calls \<Rightarrow> call_manager \<Rightarrow> call_manager" where
  "cm_register_calls calls cm = cm\<lparr>cm_router := app_register_calls calls (cm_router cm)\<rparr>"

text \<open>\<open>main\<close> up to the call of \<open>start\<close>, which returns when the server ends.\<close>

definition main_north_api :: "'q started \<Rightarrow> call_manager" where
  "main_north_api s =
     (let cm = new_call_manager (sd_north_port s);
          cm = cm_register_calls Flexible_sched_calls cm;
          cm = cm_register_calls Stats_manager_calls cm;
          cm = cm_init 1 cm
      in cm_start cm)"

lemma main_north_api_simps:
  "cm_serving (main_north_api s)" "cm_threads (main_north_api s) = Some 1" "cm_port (main_north_api s) = sd_north_port s"
  "cm_handler (main_north_api s) = Some (app_register_calls Stats_manager_calls (app_register_calls Flexible_sched_calls []))"
  by (simp_all add: main_north_api_def cm_start_def cm_init_def cm_register_calls_def new_call_manager_def Let_def)

section \<open>Requests\<close>

record http_request =
  rq_method :: http_method
  rq_path :: string
  rq_body :: "u8 list"

record pistache =
  ps_route :: "route list \<Rightarrow> http_method \<Rightarrow> string \<Rightarrow> (route \<times> (string \<Rightarrow> string option)) option"
  ps_as_int :: "string \<Rightarrow> int option"

text \<open>
  What the code relies on: the route found is a registered one of the request's method, and each parameter its
  resource names has a value.
\<close>

definition router_ok :: "pistache \<Rightarrow> bool" where
  "router_ok P \<longleftrightarrow> (\<forall>routes method path r ps. ps_route P routes method path = Some (r, ps) \<longrightarrow>
     r \<in> set routes \<and> rt_method r = method \<and>
     (\<forall>before name. CHR '':'' \<notin> set before \<and> rt_resource r = before @ ''/:'' @ name \<longrightarrow> ps ('':'' @ name) \<noteq> None))"

text \<open>The start of each handler, up to the call of the application; \<open>None\<close> is the exception of a failed conversion.\<close>

fun handler_call :: "pistache \<Rightarrow> api_handler \<Rightarrow> (string \<Rightarrow> string option) \<Rightarrow> u8 list \<Rightarrow> north_call option" where
  "handler_call P Change_scheduler ps body = do { s \<leftarrow> ps '':sched_type''; t \<leftarrow> ps_as_int P s; Some (ChangeScheduler t) }"
| "handler_call P Apply_policy ps body = do { s \<leftarrow> ps '':policyname''; Some (ApplyPolicy s) }"
| "handler_call P Apply_policy_string ps body = Some (ApplyPolicyString body)"
| "handler_call P Obtain_stats ps body = do { s \<leftarrow> ps '':stats_type''; Some (ObtainStats s) }"

text \<open>Pistache answers a request without a route, and one whose handler threw, itself.\<close>

datatype answer = Answered response | Not_routed | Handler_threw

definition on_request :: "'q ext \<Rightarrow> host \<Rightarrow> debug \<Rightarrow> pistache \<Rightarrow> route list \<Rightarrow> http_request \<Rightarrow> 'q controller \<Rightarrow>
    (answer \<times> 'q controller) option" where
  "on_request X H D P routes rq ct =
     (case ps_route P routes (rq_method rq) (rq_path rq) of
        None \<Rightarrow> Some (Not_routed, ct)
      | Some (r, ps) \<Rightarrow>
          (case handler_call P (rt_handler r) ps (rq_body rq) of
             None \<Rightarrow> Some (Handler_threw, ct)
           | Some call \<Rightarrow> do { (resp, ct) \<leftarrow> north_call X H D call ct; Some (Answered resp, ct) }))"

text \<open>A handler throws only when the type of the scheduler is not a number.\<close>

lemma handler_throws:
  assumes "router_ok P" and "ps_route P (the (cm_handler (main_north_api s))) method path = Some (r, ps)"
    and "handler_call P (rt_handler r) ps body = None"
  shows "rt_handler r = Change_scheduler \<and> (\<exists>t. ps '':sched_type'' = Some t \<and> ps_as_int P t = None)"
proof -
  have r: "r \<in> set (the (cm_handler (main_north_api s)))"
    and ps: "\<And>before name. CHR '':'' \<notin> set before \<Longrightarrow> rt_resource r = before @ ''/:'' @ name \<Longrightarrow> \<exists>v. ps ('':'' @ name) = Some v"
    using assms(1,2) unfolding router_ok_def by blast+
  consider (dl) "rt_handler r = Change_scheduler" "rt_resource r = ''/dl_sched'' @ ''/:'' @ ''sched_type''"
    | (rrm) "rt_handler r = Apply_policy" "rt_resource r = ''/rrm'' @ ''/:'' @ ''policyname''"
    | (config) "rt_handler r = Apply_policy_string"
    | (stats) "rt_handler r = Obtain_stats" "rt_resource r = ''/stats_manager'' @ ''/:'' @ ''stats_type''"
    using r by (auto simp: main_north_api_simps)
  then show ?thesis
  proof cases
    case dl
    then show ?thesis using ps [OF _ dl(2)] assms(3) by (auto simp: Option.bind_eq_None_conv)
  next
    case rrm
    then show ?thesis using ps [OF _ rrm(2)] assms(3) by auto
  next
    case config
    then show ?thesis using assms(3) by simp
  next
    case stats
    then show ?thesis using ps [OF _ stats(2)] assms(3) by auto
  qed
qed

text \<open>Whatever requests arrive between the cycles: each is served without a fault and leads to a reachable state.\<close>

lemma requests_safe:
  assumes "std_sort srt" and "ext_ok X contents" and "\<And>m. sendable X m" and "ctl_reach srt jk X H D ct"
  shows "\<exists>ans ct'. on_request X H D P routes rq ct = Some (ans, ct') \<and> ctl_reach srt jk X H D ct'"
proof (cases "ps_route P routes (rq_method rq) (rq_path rq)")
  case None
  then show ?thesis using assms(4) by (simp add: on_request_def)
next
  case (Some p)
  obtain r ps where p: "p = (r, ps)" by (cases p)
  show ?thesis
  proof (cases "handler_call P (rt_handler r) ps (rq_body rq)")
    case None
    then show ?thesis using Some p assms(4) by (simp add: on_request_def)
  next
    case call: (Some call)
    obtain resp ct' where "north_call X H D call ct = Some (resp, ct')"
      using north_call_sound [OF assms(2,3) ctl_reach_sound [OF assms(4,1-3)], of H D call] by blast
    then show ?thesis using Some p call ctl_reach.call [OF assms(4)] by (simp add: on_request_def)
  qed
qed

section \<open>A router\<close>

text \<open>An instance that compares the resource and the path character by character, with one parameter at the end.\<close>

fun match_resource :: "string \<Rightarrow> string \<Rightarrow> (string \<times> string) option" where
  "match_resource [] [] = Some ([], [])"
| "match_resource (c # cs) path =
     (if c = CHR '':'' then (if CHR ''/'' \<in> set path \<or> path = [] then None else Some (c # cs, path))
      else case path of [] \<Rightarrow> None | d # ds \<Rightarrow> if c = d then match_resource cs ds else None)"
| "match_resource [] (d # ds) = None"

definition plain_router :: pistache where
  "plain_router =
     \<lparr>ps_route = (\<lambda>routes method path. do {
        r \<leftarrow> List.find (\<lambda>r. rt_method r = method \<and> match_resource (rt_resource r) path \<noteq> None) routes;
        (name, v) \<leftarrow> match_resource (rt_resource r) path;
        Some (r, \<lambda>s. if s = name then Some v else None) }),
      ps_as_int = (\<lambda>s. if s = ''0'' then Some 0 else if s = ''1'' then Some 1 else None)\<rparr>"

lemma match_parameter:
  "match_resource (before @ ''/:'' @ name) path = Some (n, v) \<Longrightarrow> CHR '':'' \<notin> set before \<Longrightarrow> n = '':'' @ name"
  by (induction before arbitrary: path) (auto split: if_splits list.splits)

lemma plain_router_ok: "router_ok plain_router"
  using match_parameter by (fastforce simp: router_ok_def plain_router_def find_Some_iff Option.bind_eq_Some_conv)

text \<open>Through it the routes that \<open>main\<close> registers lead to the handlers.\<close>

lemma routes_lead_to_handlers:
  fixes s :: "'q started"
  defines "call \<equiv> \<lambda>method path body. do {
     (r, ps) \<leftarrow> ps_route plain_router (the (cm_handler (main_north_api s))) method path;
     handler_call plain_router (rt_handler r) ps body }"
  shows "call Http_Post ''/dl_sched/1'' [] = Some (ChangeScheduler 1)"
    and "call Http_Post ''/rrm/fair.yaml'' [] = Some (ApplyPolicy ''fair.yaml'')"
    and "call Http_Post ''/rrm_config/'' [109] = Some (ApplyPolicyString [109])"
    and "call Http_Get ''/stats_manager/all'' [] = Some (ObtainStats ''all'')"
    and "call Http_Get ''/dl_sched/1'' [] = None"
  by (simp_all add: call_def main_north_api_simps plain_router_def)

end
