(* ===== verification/HarqMemory.thy ===== *)
theory HarqMemory
  imports FlexRound
begin

text \<open>
  What the central scheduler remembers of a HARQ process from round to round: the coding scheme, the new-data
  indicator and the number of blocks of its last transmission, kept in the UE's scheduling record. Preparing a round
  leaves them alone, and makes a UE whose last block was not received ask for as many blocks as it was sent in.
\<close>

section \<open>The memory of a process\<close>

definition harq_memory :: "ue_scheduling_info \<Rightarrow> u16 \<Rightarrow> u8 \<Rightarrow> u16 option \<times> u8 option \<times> u16 option" where
  "harq_memory s k p = (aget2 (si_mcs s) (unat k) (unat p), get_ndi s k p, get_nb_scheduled_rbs s k p)"

text \<open>The process a UE is served on next in a cell, with its status: 0 if its last block was received.\<close>

definition next_process :: "ue_mac_rib_info \<Rightarrow> u16 \<Rightarrow> (u8 \<times> u8) option" where
  "next_process u k = do {
     avail \<leftarrow> has_available_harq u k;
     pid \<leftarrow> (if avail then get_next_available_harq u k else None);
     status \<leftarrow> get_harq_stats u k (nat pid);
     Some (word_of_int pid, status) }"

text \<open>The process is next and its last block was received: it is free for new data.\<close>

definition free_for_new_data :: "enb_rib_info \<Rightarrow> rnti_t \<Rightarrow> u16 \<Rightarrow> u8 \<Rightarrow> bool" where
  "free_for_new_data e r k p \<longleftrightarrow>
     (case get_ue_mac_info e r of None \<Rightarrow> False | Some u \<Rightarrow> next_process u k = Some (p, 0))"

lemma next_process_wf:
  assumes "ue_mac_wf u" and "unat k < MAX_NUM_CC" and "has_available_harq u k = Some True"
  obtains n st where "get_next_available_harq u k = Some (int n)" and "n < MAX_NUM_HARQ"
    and "get_harq_stats u k n = Some st" and "next_process u k = Some (of_nat n, st)"
proof -
  obtain n where n: "get_next_available_harq u k = Some (int n)" "n < MAX_NUM_HARQ"
    using next_available_harq_active [OF assms] by metis
  moreover obtain st where "get_harq_stats u k n = Some st"
    using assms(1,2) n(2) by (simp add: get_harq_stats_def arr_simps)
  ultimately show thesis using assms(3) by (intro that [of n st]) (simp_all add: next_process_def)
qed

section \<open>Which operations change it\<close>

definition coding_fields :: "ue_scheduling_info \<Rightarrow> u16 list list \<times> u8 list list \<times> u16 list list" where
  "coding_fields s = (si_mcs s, si_ndi s, si_nb_scheduled_rbs s)"

lemma memory_of_fields: "coding_fields s' = coding_fields s \<Longrightarrow> harq_memory s' = harq_memory s"
  by (simp add: fun_eq_iff coding_fields_def harq_memory_def get_ndi_def get_nb_scheduled_rbs_def)

text \<open>Most operations leave both the memory and the number of required blocks alone.\<close>

lemma keeps_demand:
  "set_harq_round k h r s = Some s' \<Longrightarrow> coding_fields s' = coding_fields s \<and> si_nb_rbs_required s' = si_nb_rbs_required s"
  "set_nb_rbs_required_remaining k n s = Some s' \<Longrightarrow>
     coding_fields s' = coding_fields s \<and> si_nb_rbs_required s' = si_nb_rbs_required s"
  "set_nb_rbs_required_remaining1 k n s = Some s' \<Longrightarrow>
     coding_fields s' = coding_fields s \<and> si_nb_rbs_required s' = si_nb_rbs_required s"
  "set_rballoc_sub k i v s = Some s' \<Longrightarrow> coding_fields s' = coding_fields s \<and> si_nb_rbs_required s' = si_nb_rbs_required s"
  "set_pre_nb_rbs_available k n s = Some s' \<Longrightarrow>
     coding_fields s' = coding_fields s \<and> si_nb_rbs_required s' = si_nb_rbs_required s"
  by (auto simp: ue_setter_defs coding_fields_def Option.bind_eq_Some_conv)

lemma keeps_fields:
  "set_nb_rbs_required k n s = Some s' \<Longrightarrow> coding_fields s' = coding_fields s"
  "set_rballoc_sub_scheduled k p i w s = Some s' \<Longrightarrow> coding_fields s' = coding_fields s"
  "set_tpc k p t s = Some s' \<Longrightarrow> coding_fields s' = coding_fields s"
  "coding_fields (decr_ta_timer s) = coding_fields s"
  "coding_fields (set_ta_timer v s) = coding_fields s"
  "coding_fields (set_pucch_tpc_tx f sf s) = coding_fields s"
  "coding_fields (is_high_priority_set b s) = coding_fields s"
  "coding_fields (ue_start_new_scheduling_round s) = coding_fields s"
  by (auto simp: ue_setter_defs coding_fields_def Option.bind_eq_Some_conv decr_ta_timer_def set_ta_timer_def
      set_pucch_tpc_tx_def is_high_priority_set_def ue_start_new_scheduling_round_def)

lemma memory_setters:
  "set_mcs k p m s = Some s' \<Longrightarrow> harq_memory s' j q =
     (if j = k \<and> q = p then (Some (word_of_int m), snd (harq_memory s k p)) else harq_memory s j q)"
  "set_nb_scheduled_rbs k p n s = Some s' \<Longrightarrow> harq_memory s' j q =
     (if j = k \<and> q = p then (fst (harq_memory s k p), get_ndi s k p, Some n) else harq_memory s j q)"
  "toggle_ndi k p s = Some s' \<Longrightarrow> \<not> (j = k \<and> q = p) \<Longrightarrow> harq_memory s' j q = harq_memory s j q"
  "toggle_ndi k p s = Some s' \<Longrightarrow> fst (harq_memory s' k p) = fst (harq_memory s k p) \<and>
     snd (snd (harq_memory s' k p)) = snd (snd (harq_memory s k p))"
  by (auto simp: set_mcs_def set_nb_scheduled_rbs_def toggle_ndi_def Option.bind_eq_Some_conv harq_memory_def
      get_ndi_def get_nb_scheduled_rbs_def aget2_aset2 word_unat_eq_iff [of j] word_unat_eq_iff [of q])

lemma rbs_loop_keeps:
  assumes "rbs_loop c mcs wanted TBS s = Some s'"
  shows "coding_fields s' = coding_fields s"
  using assms
proof (induction rule: rbs_loop.raw_induct [rotated, consumes 1])
  case (1 loop c mcs wanted TBS s s')
  then show ?case
    by (auto simp: Option.bind_eq_Some_conv split: if_splits dest!: keeps_fields(1))
qed

lemma assign_rbs_required_keeps:
  assumes "assign_rbs_required c lc u s = Some s'"
  shows "coding_fields s' = coding_fields s"
  using assms
  by (auto simp: assign_rbs_required_def Let_def Option.bind_eq_Some_conv update_priority_def keeps_fields(7)
      split: if_splits dest!: rbs_loop_keeps keeps_fields(1))

section \<open>The record of one UE in the passes over a cell\<close>

definition rec_holds :: "(ue_scheduling_info \<Rightarrow> bool) \<Rightarrow> rnti_t \<Rightarrow> enb_scheduling_info \<Rightarrow> bool" where
  "rec_holds Q r e \<longleftrightarrow> sm_inv (es_scheduling_info e) \<and> (\<exists>s. get_ue_scheduling_info e r = Some s \<and> Q s)"

lemma rec_put:
  assumes "rec_holds Q r e" and "q = r \<Longrightarrow> Q s"
  shows "rec_holds Q r (put_ue_sched q s e)"
  using assms by (auto simp: rec_holds_def put_ue_sched_def get_ue_scheduling_info_def sm.inv_put sm.find_put)

lemma rec_with_sched:
  assumes "with_sched q f e = Some e'" and "rec_holds Q r e" and "\<And>s s'. q = r \<Longrightarrow> Q s \<Longrightarrow> f s = Some s' \<Longrightarrow> Q s'"
  shows "rec_holds Q r e'"
proof -
  obtain s s' where s: "get_ue_scheduling_info e q = Some s" "f s = Some s'" "e' = put_ue_sched q s' e"
    using assms(1) by (auto simp: with_sched_def Option.bind_eq_Some_conv)
  have "Q s'" if "q = r" using assms(2,3) s(1,2) that by (auto simp: rec_holds_def)
  then show ?thesis unfolding s(3) by (rule rec_put [OF assms(2)])
qed

lemma rec_fresh:
  assumes "rec_holds Q r e" and "\<And>s. Q s \<Longrightarrow> Q (ue_start_new_scheduling_round s)"
  shows "rec_holds Q r (fresh_sched q e)"
proof (cases "get_ue_scheduling_info e q")
  case None
  then have "q \<noteq> r" using assms(1) by (auto simp: rec_holds_def)
  then show ?thesis using None rec_put [OF assms(1)] by (simp add: fresh_sched_def create_is_put)
next
  case (Some s)
  then have "Q (ue_start_new_scheduling_round s)" if "q = r" using assms that by (auto simp: rec_holds_def)
  then show ?thesis using Some rec_put [OF assms(1)] by (simp add: fresh_sched_def)
qed

lemma rec_confined: "rec_holds Q r e \<Longrightarrow> confined k R e e' \<Longrightarrow> r \<notin> R \<Longrightarrow> rec_holds Q r e'"
  by (simp add: rec_holds_def confined_def)

lemma rec_same: "rec_holds Q r e \<Longrightarrow> es_scheduling_info e' = es_scheduling_info e \<Longrightarrow> rec_holds Q r e'"
  by (simp add: rec_holds_def get_ue_scheduling_info_def)

text \<open>The passes after the counting keep what depends on the memory and the required blocks only.\<close>

definition demand_based :: "(ue_scheduling_info \<Rightarrow> bool) \<Rightarrow> bool" where
  "demand_based Q \<longleftrightarrow> (\<forall>s s'. coding_fields s' = coding_fields s \<longrightarrow> si_nb_rbs_required s' = si_nb_rbs_required s \<longrightarrow>
     Q s \<longrightarrow> Q s')"

lemma rec_with_sched_keeps:
  assumes "with_sched q f e = Some e'" and "rec_holds Q r e" and "demand_based Q"
    and "\<And>s s'. f s = Some s' \<Longrightarrow> coding_fields s' = coding_fields s \<and> si_nb_rbs_required s' = si_nb_rbs_required s"
  shows "rec_holds Q r e'"
  by (rule rec_with_sched [OF assms(1,2)]) (use assms(3,4) in \<open>simp add: demand_based_def\<close>)

lemma demand_ue_holds:
  assumes "demand_ue c n ue e = Some e'" and "rec_holds Q r e" and "demand_based Q"
  shows "rec_holds Q r e'"
  by (rule rec_with_sched_keeps [OF assms(1) [unfolded demand_ue_def] assms(2,3)])
     (auto simp: Option.bind_eq_Some_conv split: if_splits dest!: keeps_demand(3))

lemma remaining_ue_holds:
  assumes "remaining_ue c r1 ue e = Some e'" and "rec_holds Q r e" and "demand_based Q"
  shows "rec_holds Q r e'"
  by (rule rec_with_sched_keeps [OF assms(1) [unfolded remaining_ue_def] assms(2,3)])
     (auto simp: Let_def Option.bind_eq_Some_conv split: if_splits dest!: keeps_demand(2))

lemma alloc_step_keeps:
  assumes "alloc_step c es i = Some es'"
  shows "coding_fields (snd es') = coding_fields (snd es) \<and> si_nb_rbs_required (snd es') = si_nb_rbs_required (snd es) \<and>
     es_scheduling_info (fst es') = es_scheduling_info (fst es)"
  using assms
  by (cases es; cases es')
     (auto simp: alloc_step_def take_group_def Let_def Option.bind_eq_Some_conv toggle_vrb_map_def
       dest!: keeps_demand(2,4,5) split: if_splits)

lemma allocate_ue_holds:
  assumes "allocate_ue c high ue e = Some e'" and "rec_holds Q r e" and "demand_based Q"
  shows "rec_holds Q r e'"
proof (cases "e' = e")
  case False
  then obtain s e1 s1 where s: "get_ue_scheduling_info e (uc_rnti ue) = Some s"
    and run: "perform_pre_processor_allocation c (e, s) = Some (e1, s1)" and e': "e' = put_ue_sched (uc_rnti ue) s1 e1"
    using assms(1) by (auto simp: allocate_ue_def Option.bind_eq_Some_conv split: if_splits)
  have "coding_fields (snd (e1, s1)) = coding_fields s \<and> si_nb_rbs_required (snd (e1, s1)) = si_nb_rbs_required s \<and>
      es_scheduling_info (fst (e1, s1)) = es_scheduling_info e"
    by (rule foldo_invariant [OF run [unfolded perform_pre_processor_allocation_def]]) (use alloc_step_keeps in auto)
  then have keeps: "coding_fields s1 = coding_fields s" "si_nb_rbs_required s1 = si_nb_rbs_required s"
    "es_scheduling_info e1 = es_scheduling_info e" by simp_all
  have "uc_rnti ue = r \<Longrightarrow> Q s1"
    using assms(2,3) s keeps(1,2) unfolding rec_holds_def demand_based_def by auto
  then show ?thesis unfolding e' by (rule rec_put [OF rec_same [OF assms(2) keeps(3)]])
qed (use assms in simp)

lemma pass_holds:
  assumes "for_cell_ues c e f order a = Some b" and "rec_holds Q r (g a)"
    and "\<And>ue a b. ue \<in> set (cell_ues c e) \<Longrightarrow> f ue a = Some b \<Longrightarrow> rec_holds Q r (g a) \<Longrightarrow> rec_holds Q r (g b)"
  shows "rec_holds Q r (g b)"
  by (rule for_cell_ues_invariant [where I = "\<lambda>x. rec_holds Q r (g x)", OF assms(1,2)]) (use assms(3) in blast)

lemma allocation_round_holds:
  assumes "allocation_round c e order n a r1 = Some b" and "rec_holds Q r a" and "demand_based Q"
  shows "rec_holds Q r b"
proof -
  have remaining: "rec_holds Q r y" if "for_cell_ues c e (remaining_ue c r1) order x = Some y" "rec_holds Q r x" for x y
    using pass_holds [where g = "\<lambda>x. x", OF that] remaining_ue_holds [OF _ _ assms(3)] by blast
  have allocate: "rec_holds Q r y" if "for_cell_ues c e (allocate_ue c h) order x = Some y" "rec_holds Q r x" for h x y
    using pass_holds [where g = "\<lambda>x. x", OF that] allocate_ue_holds [OF _ _ assms(3)] by blast
  show ?thesis
    using assms(1,2) unfolding allocation_round_def Option.bind_eq_Some_conv
    by (cases "n > 0") (auto simp: Option.bind_eq_Some_conv dest: remaining allocate)
qed

section \<open>Preparing a round\<close>

text \<open>A UE whose last block was not received asks for as many blocks as it was sent in.\<close>

definition demands_repeat :: "enb_rib_info \<Rightarrow> rnti_t \<Rightarrow> u16 \<Rightarrow> ue_scheduling_info \<Rightarrow> bool" where
  "demands_repeat e r k s \<longleftrightarrow>
     (\<forall>u p st. get_ue_mac_info e r = Some u \<longrightarrow> next_process u k = Some (p, st) \<longrightarrow> 0 < st \<longrightarrow>
        get_nb_rbs_required s k = get_nb_scheduled_rbs s k p)"

lemma demand_based_repeat: "demand_based (demands_repeat e r k)"
  by (simp add: demand_based_def demands_repeat_def coding_fields_def get_nb_rbs_required_def get_nb_scheduled_rbs_def)

text \<open>The update \<open>count_ue\<close> makes.\<close>

definition note_harq :: "u16 \<Rightarrow> int \<Rightarrow> u8 \<Rightarrow> ue_scheduling_info \<Rightarrow> ue_scheduling_info option" where
  "note_harq k pid st s = do {
     s \<leftarrow> set_harq_round k (nat pid) st s;
     if st > 0
     then do { n \<leftarrow> get_nb_scheduled_rbs s k (word_of_int pid); set_nb_rbs_required k n s }
     else set_nb_scheduled_rbs k (word_of_int pid) 0 s }"

lemma count_ue_cases:
  assumes "count_ue c e ue (a, n) = Some (b, m)"
  obtains (none) u where "get_ue_mac_info e (uc_rnti ue) = Some u" and "next_process u (cell_id16 c) = None" and "b = a"
  | (some) u pid st where "get_ue_mac_info e (uc_rnti ue) = Some u"
      and "next_process u (cell_id16 c) = Some (word_of_int pid, st)"
      and "with_sched (uc_rnti ue) (note_harq (cell_id16 c) pid st) a = Some b"
proof -
  obtain u avail where u: "get_ue_mac_info e (uc_rnti ue) = Some u" "has_available_harq u (cell_id16 c) = Some avail"
    using assms by (auto simp: count_ue_def Let_def Option.bind_eq_Some_conv)
  show thesis
  proof (cases avail)
    case False
    then show thesis using assms u by (intro none [OF u(1)]) (auto simp: count_ue_def Let_def next_process_def)
  next
    case True
    then obtain pid st where pid: "get_next_available_harq u (cell_id16 c) = Some pid"
      "get_harq_stats u (cell_id16 c) (nat pid) = Some st"
      "with_sched (uc_rnti ue) (note_harq (cell_id16 c) pid st) a = Some b"
      using assms u by (auto simp: count_ue_def Let_def Option.bind_eq_Some_conv note_harq_def [abs_def])
    then show thesis using True u(2) by (intro some [OF u(1) _ pid(3)]) (simp add: next_process_def)
  qed
qed

lemma note_harq_memory:
  assumes "note_harq j pid st s = Some s'" and "\<not> (j = k \<and> word_of_int pid = p \<and> st = 0)"
  shows "harq_memory s' k p = harq_memory s k p"
proof -
  obtain s1 where s1: "set_harq_round j (nat pid) st s = Some s1"
    and rest: "(if st > 0 then do { n \<leftarrow> get_nb_scheduled_rbs s1 j (word_of_int pid); set_nb_rbs_required j n s1 }
       else set_nb_scheduled_rbs j (word_of_int pid) 0 s1) = Some s'"
    using assms(1) by (auto simp: note_harq_def Option.bind_eq_Some_conv)
  have "harq_memory s1 = harq_memory s" by (rule memory_of_fields) (use keeps_demand(1) [OF s1] in simp)
  moreover have "harq_memory s' k p = harq_memory s1 k p"
  proof (cases "st > 0")
    case True
    then obtain n where "set_nb_rbs_required j n s1 = Some s'" using rest by (auto simp: Option.bind_eq_Some_conv)
    then show ?thesis using memory_of_fields [OF keeps_fields(1)] by simp
  next
    case False
    then have "st = 0" by (simp add: word_gt_0)
    then show ?thesis using rest assms(2) memory_setters(2) [of j "word_of_int pid" 0 s1 s' k p] by auto
  qed
  ultimately show ?thesis by simp
qed

lemma note_harq_demand:
  assumes "note_harq k pid st s = Some s'" and "0 < st"
  shows "get_nb_rbs_required s' k = get_nb_scheduled_rbs s' k (word_of_int pid)"
  using assms
  by (auto simp: note_harq_def Option.bind_eq_Some_conv set_nb_rbs_required_def get_nb_rbs_required_def
      get_nb_scheduled_rbs_def aget_aset)

text \<open>What the counting keeps: whatever \<open>note_harq\<close> keeps for the next process of the UE.\<close>

definition kept_by_count :: "enb_rib_info \<Rightarrow> rnti_t \<Rightarrow> (ue_scheduling_info \<Rightarrow> bool) \<Rightarrow> bool" where
  "kept_by_count e r Q \<longleftrightarrow>
     (\<forall>u j pid st s s'. get_ue_mac_info e r = Some u \<longrightarrow> next_process u j = Some (word_of_int pid, st) \<longrightarrow>
        note_harq j pid st s = Some s' \<longrightarrow> Q s \<longrightarrow> Q s')"

lemma count_ue_keeps:
  assumes "count_ue c e ue (a, n) = Some (b, m)" and "rec_holds Q r a" and "kept_by_count e r Q"
  shows "rec_holds Q r b"
  using assms(1)
proof (cases rule: count_ue_cases)
  case (some u pid st)
  show ?thesis
    by (rule rec_with_sched [OF some(3) assms(2)]) (use some(1,2) assms(3) in \<open>auto simp: kept_by_count_def\<close>)
qed (use assms(2) in simp)

lemma memory_kept_by_count:
  assumes "\<not> free_for_new_data e r k p"
  shows "kept_by_count e r (\<lambda>s. harq_memory s k p = M)"
  unfolding kept_by_count_def
proof (intro allI impI)
  fix u j pid st s s'
  assume "get_ue_mac_info e r = Some u" "next_process u j = Some (word_of_int pid, st)"
    and run: "note_harq j pid st s = Some s'" and M: "harq_memory s k p = M"
  then have "\<not> (j = k \<and> word_of_int pid = p \<and> st = 0)" using assms by (auto simp: free_for_new_data_def)
  from note_harq_memory [OF run this] M show "harq_memory s' k p = M" by simp
qed

lemma ndi_kept_by_count: "kept_by_count e r (\<lambda>s. get_ndi s k p = N)"
  by (auto simp: kept_by_count_def note_harq_def Option.bind_eq_Some_conv set_harq_round_def set_nb_rbs_required_def
      set_nb_scheduled_rbs_def get_ndi_def split: if_splits)

lemma count_ue_demand:
  assumes "count_ue c e ue (a, n) = Some (b, m)" and "rec_holds (\<lambda>_. True) (uc_rnti ue) a"
  shows "rec_holds (demands_repeat e (uc_rnti ue) (cell_id16 c)) (uc_rnti ue) b"
  using assms(1)
proof (cases rule: count_ue_cases)
  case (none u)
  then show ?thesis using assms(2) by (auto simp: rec_holds_def demands_repeat_def)
next
  case (some u pid st)
  obtain s s' where s: "get_ue_scheduling_info a (uc_rnti ue) = Some s" "note_harq (cell_id16 c) pid st s = Some s'"
    "b = put_ue_sched (uc_rnti ue) s' a"
    using some(3) by (auto simp: with_sched_def Option.bind_eq_Some_conv)
  have "demands_repeat e (uc_rnti ue) (cell_id16 c) s'"
    using some(1,2) note_harq_demand [OF s(2)] by (auto simp: demands_repeat_def)
  then show ?thesis
    using assms(2) by (auto simp: s(3) rec_holds_def put_ue_sched_def get_ue_scheduling_info_def sm.inv_put sm.find_put)
qed

lemma count_ue_other:
  assumes "count_ue c e ue (a, n) = Some (b, m)" and "rec_holds Q r a" and "uc_rnti ue = r \<Longrightarrow> (\<forall>s. Q s)"
  shows "rec_holds Q r b"
  using assms(1)
proof (cases rule: count_ue_cases)
  case (some u pid st)
  show ?thesis by (rule rec_with_sched [OF some(3) assms(2)]) (use assms(3) in simp)
qed (use assms(2) in simp)

text \<open>What depends on the memory only survives the first pass.\<close>

definition coding_based :: "(ue_scheduling_info \<Rightarrow> bool) \<Rightarrow> bool" where
  "coding_based Q \<longleftrightarrow> (\<forall>s s'. coding_fields s' = coding_fields s \<longrightarrow> Q s \<longrightarrow> Q s')"

lemma coding_based_both: "coding_based (\<lambda>s. harq_memory s k p = M)" "coding_based (\<lambda>s. get_ndi s k p = N)"
  unfolding coding_based_def using memory_of_fields by (metis, simp add: coding_fields_def get_ndi_def)

lemma coding_based_demand: "coding_based Q \<Longrightarrow> demand_based Q"
  by (simp add: coding_based_def demand_based_def)

lemma prepare_ue_keeps:
  assumes "prepare_ue c e ue a = Some b" and "rec_holds Q r a" and "coding_based Q"
  shows "rec_holds Q r b"
proof -
  have fresh: "rec_holds Q r (fresh_sched (uc_rnti ue) a)"
    by (rule rec_fresh [OF assms(2)]) (use assms(3) keeps_fields(8) in \<open>auto simp: coding_based_def\<close>)
  show ?thesis
  proof (cases "List.find (\<lambda>lc. lu_rnti lc = uc_rnti ue) (lc_configs e)")
    case None
    then show ?thesis using assms(1) fresh by (simp add: prepare_ue_def Let_def)
  next
    case (Some lc)
    then have "with_sched (uc_rnti ue) (\<lambda>s. do { u \<leftarrow> get_ue_mac_info e (uc_rnti ue); assign_rbs_required c lc u s })
        (fresh_sched (uc_rnti ue) a) = Some b"
      using assms(1) by (simp add: prepare_ue_def Let_def)
    then show ?thesis
      using fresh
      by (rule rec_with_sched)
         (use assms(3) assign_rbs_required_keeps in \<open>auto simp: coding_based_def Option.bind_eq_Some_conv\<close>)
  qed
qed

text \<open>A step of a loop that establishes what the other steps keep.\<close>

lemma foldo_visits:
  assumes "foldo f s xs = Some s'" and "x \<in> set xs" and "I s"
    and "\<And>s y s'. y \<in> set xs \<Longrightarrow> I s \<Longrightarrow> f s y = Some s' \<Longrightarrow> I s'"
    and "\<And>s s'. I s \<Longrightarrow> f s x = Some s' \<Longrightarrow> Q s'"
    and "\<And>s y s'. y \<in> set xs \<Longrightarrow> Q s \<Longrightarrow> f s y = Some s' \<Longrightarrow> Q s'"
  shows "Q s'"
proof -
  obtain ys zs where xs: "xs = ys @ x # zs" using assms(2) by (auto simp: in_set_conv_decomp)
  then obtain a b where run: "foldo f s ys = Some a" "f a x = Some b" "foldo f b zs = Some s'"
    using assms(1) by (auto simp: foldo_append Option.bind_eq_Some_conv)
  have "I a" by (rule foldo_invariant [where I = I, OF run(1) assms(3)]) (use assms(4) xs in auto)
  then have "Q b" using assms(5) run(2) by blast
  then show ?thesis by (rule foldo_invariant [where I = Q, OF run(3)]) (use assms(6) xs in auto)
qed

lemma rec_exists: "rec_holds Q r e \<Longrightarrow> rec_holds (\<lambda>_. True) r e"
  by (auto simp: rec_holds_def)

text \<open>The counting pass visits every UE of the cell.\<close>

lemma count_pass_demand:
  assumes "for_cell_ues c e (count_ue c e) order (a, n) = Some (b, m)" and "rec_holds (\<lambda>_. True) r a"
    and "r \<in> cell_rntis c e" and "mset order = mset (map int [0..<length (ue_configs e)])"
  shows "rec_holds (demands_repeat e r (cell_id16 c)) r b"
proof -
  obtain i where i: "i < length (ue_configs e)" "uc_pcell_carrier_index (ue_configs e ! i) = ucast (cell_id16 c)"
    "uc_rnti (ue_configs e ! i) = r"
    using assms(3) by (auto simp: cell_rntis_def cell_ues_def in_set_conv_nth)
  let ?f = "\<lambda>st i. do {
       ue \<leftarrow> aget (ue_configs e) (nat i);
       if uc_pcell_carrier_index ue = ucast (cell_id16 c) then count_ue c e ue st else Some st }"
  let ?I = "\<lambda>st. rec_holds (\<lambda>_. True) r (fst st)" and ?Q = "\<lambda>st. rec_holds (demands_repeat e r (cell_id16 c)) r (fst st)"
  have i_in: "int i \<in> set order"
    using i(1) mset_eq_setD [OF assms(4)] by simp
  have step: "rec_holds (demands_repeat e r (cell_id16 c)) r (fst st')"
    if "count_ue c e ue st = Some st'" "?Q st \<or> ?I st \<and> uc_rnti ue = r" for ue st st'
  proof (cases "uc_rnti ue = r")
    case True
    then show ?thesis using that count_ue_demand [of c e ue "fst st" "snd st" "fst st'" "snd st'"] rec_exists by auto
  next
    case False
    then show ?thesis using that count_ue_other [of c e ue "fst st" "snd st" "fst st'" "snd st'"] by auto
  qed
  have keep: "?I st'" if "count_ue c e ue st = Some st'" "?I st" for ue st st'
    using count_ue_other [of c e ue "fst st" "snd st" "fst st'" "snd st'"] that by simp
  have "?Q (b, m)"
  proof (rule foldo_visits [where I = ?I, OF assms(1) [unfolded for_cell_ues_def] i_in])
    show "?I (a, n)" using assms(2) by simp
    show "?I st'" if "?I st" "?f st y = Some st'" for st y st'
      using that by (auto simp: Option.bind_eq_Some_conv split: if_splits intro: keep)
    show "?Q st'" if "?I st" "?f st (int i) = Some st'" for st st'
      using that i step by (auto simp: aget_def)
    show "?Q st'" if "?Q st" "?f st y = Some st'" for st y st'
      using that by (auto simp: Option.bind_eq_Some_conv split: if_splits intro: step)
  qed
  then show ?thesis by simp
qed

text \<open>The record of every UE of the cell exists after the first pass.\<close>

lemma prepare_pass_exists:
  assumes "for_cell_ues c e (prepare_ue c e) (map int [0..<length (ue_configs e)]) a = Some b"
    and "sm_inv (es_scheduling_info a)" and "r \<in> cell_rntis c e"
  shows "rec_holds (\<lambda>_. True) r b"
proof -
  let ?P = "\<lambda>R e. sm_inv (es_scheduling_info e) \<and> (\<forall>q \<in> R. get_ue_scheduling_info e q \<noteq> None)"
  have put: "?P (insert q R) (put_ue_sched q s e)" if "?P R e" for q R s e
    using that by (auto simp: put_ue_sched_def get_ue_scheduling_info_def sm.inv_put sm.find_put)
  have fresh: "?P (insert q R) (fresh_sched q e)" if "?P R e" for q R e
    using put [OF that] by (auto simp: fresh_sched_def create_is_put split: option.split)
  have "?P (cell_rntis c e) b"
  proof (rule for_cell_ues_grow [where P = ?P, OF assms(1)])
    fix R ue x y assume "?P R x" and run: "prepare_ue c e ue x = Some y"
    note F = fresh [OF this(1), of "uc_rnti ue"]
    show "?P (insert (uc_rnti ue) R) y"
    proof (cases "List.find (\<lambda>lc. lu_rnti lc = uc_rnti ue) (lc_configs e)")
      case None
      then show ?thesis using run F by (simp add: prepare_ue_def Let_def)
    next
      case (Some lc)
      then obtain s where "y = put_ue_sched (uc_rnti ue) s (fresh_sched (uc_rnti ue) x)"
        using run by (auto simp: prepare_ue_def Let_def with_sched_def Option.bind_eq_Some_conv)
      then show ?thesis using put [OF F, of "uc_rnti ue" s] by simp
    qed
  qed (use assms(2) in simp)
  then show ?thesis using assms(3) by (auto simp: rec_holds_def)
qed

lemma preprocessor_passes:
  assumes "run_dlsch_scheduler_preprocessor srt c e f sf a = Some b"
  obtains x order y n z where "for_cell_ues c e (prepare_ue c e) (map int [0..<length (ue_configs e)]) a = Some x"
    and "sort_UEs srt c e = Some order" and "for_cell_ues c e (count_ue c e) order (x, 0) = Some (y, n)"
    and "for_cell_ues c e (demand_ue c (average_rbs_per_user c sf n)) order y = Some z"
    and "foldo (allocation_round c e order n) z [0, 1] = Some b"
  using assms
  by (auto simp: run_dlsch_scheduler_preprocessor_def Option.bind_eq_Some_conv Let_def simp del: foldo.simps)

lemma demand_passes_hold:
  assumes "for_cell_ues c e (demand_ue c av) order y = Some z" and "foldo (allocation_round c e order n) z [0, 1] = Some b"
    and "rec_holds Q r y" and "demand_based Q"
  shows "rec_holds Q r b"
proof -
  have "rec_holds Q r z"
    using pass_holds [where g = "\<lambda>x. x", OF assms(1,3)] demand_ue_holds [OF _ _ assms(4)] by blast
  then show ?thesis
    by (rule foldo_invariant [where I = "rec_holds Q r", OF assms(2)])
       (use allocation_round_holds [OF _ _ assms(4)] in blast)
qed

lemma preprocessor_keeps:
  assumes "run_dlsch_scheduler_preprocessor srt c e f sf a = Some b" and "rec_holds Q r a"
    and "coding_based Q" and "kept_by_count e r Q"
  shows "rec_holds Q r b"
proof -
  obtain x order y n z where P: "for_cell_ues c e (prepare_ue c e) (map int [0..<length (ue_configs e)]) a = Some x"
    "for_cell_ues c e (count_ue c e) order (x, 0) = Some (y, n)"
    "for_cell_ues c e (demand_ue c (average_rbs_per_user c sf n)) order y = Some z"
    "foldo (allocation_round c e order n) z [0, 1] = Some b"
    using preprocessor_passes [OF assms(1)] by metis
  have "rec_holds Q r x"
    using pass_holds [where g = "\<lambda>x. x", OF P(1) assms(2)] prepare_ue_keeps [OF _ _ assms(3)] by blast
  then have "rec_holds Q r (fst (y, n))"
    using pass_holds [where g = fst and Q = Q and r = r, OF P(2)] count_ue_keeps [OF _ _ assms(4)] by fastforce
  then show ?thesis using demand_passes_hold [OF P(3,4) _ coding_based_demand [OF assms(3)]] by simp
qed

lemma preprocessor_demand:
  assumes "run_dlsch_scheduler_preprocessor srt c e f sf a = Some b" and "std_sort srt"
    and "sm_inv (es_scheduling_info a)" and "r \<in> cell_rntis c e"
  shows "rec_holds (demands_repeat e r (cell_id16 c)) r b"
proof -
  obtain x order y n z where P: "for_cell_ues c e (prepare_ue c e) (map int [0..<length (ue_configs e)]) a = Some x"
    "sort_UEs srt c e = Some order" "for_cell_ues c e (count_ue c e) order (x, 0) = Some (y, n)"
    "for_cell_ues c e (demand_ue c (average_rbs_per_user c sf n)) order y = Some z"
    "foldo (allocation_round c e order n) z [0, 1] = Some b"
    using preprocessor_passes [OF assms(1)] by metis
  have "rec_holds (demands_repeat e r (cell_id16 c)) r y"
    by (rule count_pass_demand [OF P(3) prepare_pass_exists [OF P(1) assms(3,4)] assms(4) sort_UEs_perm [OF assms(2) P(2)]])
  then show ?thesis using demand_passes_hold [OF P(4,5) _ demand_based_repeat] by simp
qed

lemma prepare_cell_steps:
  assumes "prepare_cell srt e f sf a c = Some b"
  obtains x where "confined (unat (cc_cell_id c)) {} a x" and "run_dlsch_scheduler_preprocessor srt c e f sf x = Some b"
proof -
  obtain x where x: "enb_start_new_scheduling_round sf c a = Some x" "run_dlsch_scheduler_preprocessor srt c e f sf x = Some b"
    using assms by (auto simp: prepare_cell_def Option.bind_eq_Some_conv)
  show thesis by (rule that [OF confined_start [OF x(1)] x(2)])
qed

lemma prepare_cells_keep:
  assumes "foldo (prepare_cell srt e f sf) a cs = Some b" and "rec_holds Q r a"
    and "coding_based Q" and "kept_by_count e r Q"
  shows "rec_holds Q r b"
proof (rule foldo_invariant [where I = "rec_holds Q r", OF assms(1,2)])
  fix x c y assume x: "rec_holds Q r x" and "prepare_cell srt e f sf x c = Some y"
  from prepare_cell_steps [OF this(2)] obtain z where z: "confined (unat (cc_cell_id c)) {} x z"
    "run_dlsch_scheduler_preprocessor srt c e f sf z = Some y" .
  show "rec_holds Q r y"
    by (rule preprocessor_keeps [OF z(2) rec_confined [OF x z(1)] assms(3,4)]) simp
qed

lemma prepare_cells_demand:
  assumes "foldo (prepare_cell srt e f sf) a (cell_configs e) = Some b" and "std_sort srt" and "cells_ready e"
    and "sm_inv (es_scheduling_info a)" and "c \<in> set (cell_configs e)" and "r \<in> cell_rntis c e"
  shows "rec_holds (demands_repeat e r (cell_id16 c)) r b"
proof -
  let ?I = "\<lambda>x. sm_inv (es_scheduling_info x)" and ?Q = "rec_holds (demands_repeat e r (cell_id16 c)) r"
  have conf: "confined (unat (cell_id16 d)) (cell_rntis d e) x y" if "prepare_cell srt e f sf x d = Some y"
    and "d \<in> set (cell_configs e)" for d x y
  proof -
    from prepare_cell_steps [OF that(1)] obtain z where z: "confined (unat (cc_cell_id d)) {} x z"
      "run_dlsch_scheduler_preprocessor srt d e f sf z = Some y" .
    have "unat (cell_id16 d) = unat (cc_cell_id d)"
      using assms(3) that(2) cell_index [of d] by (simp add: cells_ready_def cell_ready_def)
    moreover have "confined (unat (cc_cell_id d)) (cell_rntis d e) x z" using z(1) by (auto simp: confined_def)
    ultimately show ?thesis using confined_trans [OF _ confined_preprocessor [OF z(2)]] by simp
  qed
  have here: "?Q y" if "?I x" "prepare_cell srt e f sf x c = Some y" for x y
  proof -
    from prepare_cell_steps [OF that(2)] obtain z where z: "confined (unat (cc_cell_id c)) {} x z"
      "run_dlsch_scheduler_preprocessor srt c e f sf z = Some y" .
    have "?I z" using z(1) that(1) by (simp add: confined_def)
    then show ?thesis by (rule preprocessor_demand [OF z(2) assms(2) _ assms(6)])
  qed
  show ?thesis
  proof (rule foldo_visits [where I = ?I and Q = ?Q, OF assms(1,5,4)])
    show "?I y" if "d \<in> set (cell_configs e)" "?I x" "prepare_cell srt e f sf x d = Some y" for x d y
      using conf [OF that(3,1)] that(2) by (simp add: confined_def)
    show "?Q y" if "?I x" "prepare_cell srt e f sf x c = Some y" for x y using here that by blast
    show "?Q y" if d: "d \<in> set (cell_configs e)" "?Q x" "prepare_cell srt e f sf x d = Some y" for x d y
    proof (cases "d = c")
      case True
      then show ?thesis using here d by (auto simp: rec_holds_def)
    next
      case False
      then have "cc_cell_id c \<noteq> cc_cell_id d"
        using assms(3,5) d(1) by (auto simp: cells_ready_def distinct_map dest: inj_onD)
      then have "r \<notin> cell_rntis d e"
        using cell_rntis_disjoint(1) [of c e d] assms(3,5,6) d(1) by (auto simp: cells_ready_def)
      then show ?thesis using rec_confined [OF d(2) conf [OF d(3,1)]] by blast
    qed
  qed
qed

end
