(* ===== verification/HarqRounds.thy ===== *)
theory HarqRounds
  imports HarqMemory
begin

text \<open>
  Rounds of the central scheduler seen from one HARQ process: what is sent on it is coded as its memory says, and the
  memory changes only when the process is free for new data, its new-data indicator only when new data is sent. So a retransmission repeats the block that was not received.
\<close>

section \<open>Coding from the memory\<close>

text \<open>The coding of a transmission is what the memory of its process says; the coding scheme is kept in 16 bits.\<close>

definition tx_codes :: "u16 option \<times> u8 option \<times> u16 option \<Rightarrow> transmission \<Rightarrow> bool" where
  "tx_codes M t \<longleftrightarrow> M = (Some (word_of_int (tx_mcs t)), Some (tx_ndi t), Some (tx_nb_rb t)) \<and>
     get_TBS_DL (word_of_int (tx_mcs t)) (tx_nb_rb t) = Some (tx_tbs t)"

lemma keeps_groups_fields:
  assumes "give_groups c p nb av s = Some s'"
  shows "coding_fields s' = coding_fields s"
proof -
  define I where "I x \<longleftrightarrow> coding_fields x = coding_fields s" for x
  have set: "I y" if "set_rballoc_sub_scheduled k p i v x = Some y" "I x" for k p i v x y
    using that keeps_fields(2) by (simp add: I_def)
  have take: "I y" if "take_rballoc c p n j x = Some y" "I x" for c p n j x y
    using that
  proof (induction c p n j x rule: take_rballoc.induct)
    case (1 c p n j x)
    show ?case
    proof (cases "n > 0 \<and> j < unat (get_nb_rbg c)")
      case False
      then show ?thesis using "1.prems" by (subst (asm) take_rballoc.simps) auto
    next
      case True
      then obtain v where v: "get_rballoc_sub x (cell_id16 c) j = Some v"
        and rest: "(if v = 1
          then do { x \<leftarrow> set_rballoc_sub_scheduled (cell_id16 c) p j v x;
                    take_rballoc c p (n - group_blocks c j) (Suc j) x }
          else take_rballoc c p n (Suc j) x) = Some y"
        using "1.prems"(1) by (subst (asm) take_rballoc.simps) (auto simp: Option.bind_eq_Some_conv)
      show ?thesis
      proof (cases "v = 1")
        case v1: True
        then obtain z where z: "set_rballoc_sub_scheduled (cell_id16 c) p j v x = Some z"
          "take_rballoc c p (n - group_blocks c j) (Suc j) z = Some y"
          using rest by (auto simp: Option.bind_eq_Some_conv)
        show ?thesis by (rule "1.IH"(1) [OF True v v1 z set [OF z(1) "1.prems"(2)]])
      next
        case v0: False
        then have "take_rballoc c p n (Suc j) x = Some y" using rest by simp
        then show ?thesis by (rule "1.IH"(2) [OF True v v0 _ "1.prems"(2)])
      qed
    qed
  qed
  have start: "I s" by (simp add: I_def)
  have "I s'"
  proof (cases "nb = av")
    case True
    then have run: "foldo (copy_group (cell_id16 c) p) s [0..<unat (get_nb_rbg c)] = Some s'"
      using assms by (simp add: give_groups_def copy_rballoc_def)
    show ?thesis
      by (rule foldo_invariant [where I = I, OF run start]) (auto simp: copy_group_def Option.bind_eq_Some_conv intro: set)
  next
    case False
    then show ?thesis using assms take start by (simp add: give_groups_def)
  qed
  then show ?thesis by (simp add: I_def)
qed

lemma retransmit_codes:
  assumes "retransmit c p av co = Some co'"
    and "get_nb_rbs_required (co_sched co) (cell_id16 c) = get_nb_scheduled_rbs (co_sched co) (cell_id16 c) p"
  shows "coding_fields (co_sched co') = coding_fields (co_sched co)"
    and "co_tx co' = Some t \<Longrightarrow> tx_codes (harq_memory (co_sched co') (cell_id16 c) p) t"
proof -
  let ?s = "co_sched co" and ?k = "cell_id16 c"
  obtain mcs nb x where m: "get_mcs ?s ?k p = Some mcs" "get_nb_rbs_required ?s ?k = Some nb"
    "get_TBS_DL (word_of_int mcs) nb = Some x"
    using assms(1) by (auto simp: retransmit_def Let_def Option.bind_eq_Some_conv)
  then obtain w where w: "aget2 (si_mcs ?s) (unat ?k) (unat p) = Some w" "mcs = uint w" by (auto simp: get_mcs_def)
  show "coding_fields (co_sched co') = coding_fields ?s"
    using assms(1) keeps_groups_fields by (auto simp: retransmit_def Let_def Option.bind_eq_Some_conv split: if_splits)
  assume t: "co_tx co' = Some t"
  then obtain s1 ndi where s1: "give_groups c p nb av ?s = Some s1" "co_sched co' = s1" "get_ndi s1 ?k p = Some ndi"
    "tx_nb_rb t = nb" "tx_mcs t = mcs" "tx_tbs t = x" "tx_ndi t = ndi"
    using assms(1) m by (auto simp: retransmit_def Let_def Option.bind_eq_Some_conv split: if_splits)
  have mem: "harq_memory s1 ?k p = harq_memory ?s ?k p"
    by (simp only: memory_of_fields [OF keeps_groups_fields [OF s1(1)]])
  then have "get_ndi ?s ?k p = Some ndi" using s1(3) by (simp add: harq_memory_def)
  then have "harq_memory ?s ?k p = (Some w, Some ndi, Some nb)"
    using m(2) w(1) assms(2) by (simp add: harq_memory_def)
  then show "tx_codes (harq_memory (co_sched co') ?k p) t"
    using mem s1(2,4-7) m(3) w(2) by (simp add: tx_codes_def)
qed

text \<open>The size that goes with the chosen blocks and scheme.\<close>

definition tbs_at :: "int \<Rightarrow> u16 \<Rightarrow> u16 \<Rightarrow> bool" where
  "tbs_at mcs n t \<longleftrightarrow> (\<exists>x. get_TBS_DL (word_of_int mcs) n = Some x \<and> t = ucast x)"

lemma fit_blocks_tbs:
  assumes "fit_blocks c mcs av wanted nb t = Some res" and "tbs_at mcs nb t"
  shows "tbs_at mcs (fst res) (snd res)"
  using assms
proof (induction rule: fit_blocks.raw_induct [rotated, consumes 1])
  case (1 loop c mcs av wanted nb t res)
  have next_step: "tbs_at mcs (fst res) (snd res)"
    if "loop c mcs av wanted n (ucast x) = Some res" "get_TBS_DL (word_of_int mcs) n = Some x" for n x
    using 1(1) [OF that(1)] that(2) by (auto simp: tbs_at_def)
  show ?case
    using 1(2,3) next_step by (auto simp: Let_def Option.bind_eq_Some_conv tbs_at_def split: if_splits)
qed

lemma lower_mcs_tbs: "lower_mcs n wanted m t = Some (m', t') \<Longrightarrow> tbs_at m n t \<Longrightarrow> tbs_at m' n t'"
proof (induction n wanted m t rule: lower_mcs.induct)
  case (1 n wanted m t)
  show ?case
    using 1 by (subst (asm) (2) lower_mcs.simps) (auto simp: Option.bind_eq_Some_conv tbs_at_def split: if_splits)
qed

lemma raise_mcs_tbs: "raise_mcs n wanted m t = Some (m', t') \<Longrightarrow> tbs_at m n t \<Longrightarrow> tbs_at m' n t'"
proof (induction n wanted m t rule: raise_mcs.induct)
  case (1 n wanted m t)
  show ?case
    using 1 by (subst (asm) (2) raise_mcs.simps) (auto simp: Option.bind_eq_Some_conv tbs_at_def split: if_splits)
qed

lemma payload_tbs:
  assumes "choose_blocks c m av wanted = Some (nb, T)" and "choose_mcs nb wanted m T = Some (m', T')"
  shows "get_TBS_DL (word_of_int m') nb = Some (ucast T')"
proof -
  have "tbs_at m nb T"
    using assms(1) fit_blocks_tbs by (fastforce simp: choose_blocks_def Let_def Option.bind_eq_Some_conv tbs_at_def)
  then have "tbs_at m' nb T'"
    using assms(2) lower_mcs_tbs raise_mcs_tbs by (fastforce simp: choose_mcs_def Option.bind_eq_Some_conv)
  then obtain x where x: "get_TBS_DL (word_of_int m') nb = Some x" "T' = ucast x" by (auto simp: tbs_at_def)
  have "unat x < 2 ^ 16" using get_TBS_DL_bounds(1) [OF x(1)] by simp
  then have "ucast (ucast x :: u16) = x"
    by (intro word_unat_eq_iff [THEN iffD2]) (simp add: unsigned_ucast_eq unsigned_take_bit_eq take_bit_nat_eq_self)
  then show ?thesis using x by simp
qed

lemma code_payload_codes:
  assumes "code_payload c f sf p av wanted e co = Some co'"
  shows "\<not> (k = cell_id16 c \<and> q = p) \<Longrightarrow> harq_memory (co_sched co') k q = harq_memory (co_sched co) k q"
    and "co_tx co' = Some t \<Longrightarrow> tx_codes (harq_memory (co_sched co') (cell_id16 c) p) t"
    and "co_tx co' = Some t \<Longrightarrow> get_ndi (co_sched co) (cell_id16 c) p = Some v \<Longrightarrow> tx_ndi t = 1 - v"
proof -
  let ?k = "cell_id16 c" and ?s = "co_sched co"
  let ?power = "\<lambda>cell. power_control ?k f sf (cm_cell_stats_report cell) (um_mac_stats_report (co_ue co))"
  obtain nb T s1 mcs T' s2 s3 cell where
    blocks: "choose_blocks c (lv_mcs (co_vars co)) av wanted = Some (nb, T)" "choose_mcs nb wanted (lv_mcs (co_vars co)) T = Some (mcs, T')"
    and s1: "give_groups c p nb av ?s = Some s1" and s2: "set_mcs ?k p mcs s1 = Some s2"
    and s3: "set_nb_scheduled_rbs ?k p nb s2 = Some s3" and cell: "get_cell_mac_rib_info e ?k = Some cell"
    using assms by (auto simp: code_payload_def Let_def Option.bind_eq_Some_conv case_prod_beta)
  obtain tpc s4 acc where s4: "?power cell s3 (lv_tpc_accumulated (co_vars co)) = (tpc, s4, acc)" by (metis prod_cases3)
  obtain s5 ndi s6 where s5: "toggle_ndi ?k p s4 = Some s5" "get_ndi s5 ?k p = Some ndi"
    and s6: "set_tpc ?k p (word_of_int tpc) s5 = Some s6"
    and co': "co' = co\<lparr>co_tx := Some \<lparr>tx_nb_rb = nb, tx_mcs = mcs, tx_tbs = ucast T', tx_ndi = ndi, tx_tpc = tpc\<rparr>,
      co_sched := s6, co_vars := (co_vars co)\<lparr>lv_mcs := mcs, lv_tpc_accumulated := acc\<rparr>\<rparr>"
    using assms by (auto simp: code_payload_def Let_def Option.bind_eq_Some_conv blocks s1 s2 s3 cell s4)
  have m1: "harq_memory s1 = harq_memory ?s" by (rule memory_of_fields [OF keeps_groups_fields [OF s1]])
  have "s4 = s3 \<or> s4 = set_pucch_tpc_tx f sf s3" using s4 power_control_ok by (metis prod.inject)
  then have m4: "harq_memory s4 = harq_memory s3" using memory_of_fields [OF keeps_fields(6)] by auto
  have m6: "harq_memory s6 = harq_memory s5" by (rule memory_of_fields [OF keeps_fields(3) [OF s6]])
  show "harq_memory (co_sched co') k q = harq_memory ?s k q" if other: "\<not> (k = ?k \<and> q = p)"
    using memory_setters(1) [OF s2, of k q] memory_setters(2) [OF s3, of k q] memory_setters(3) [OF s5(1) other] other m1 m4 m6
    by (simp add: co')
  have "harq_memory s6 ?k p = (Some (word_of_int mcs), Some ndi, Some nb)"
    using memory_setters(1) [OF s2, of ?k p] memory_setters(2) [OF s3, of ?k p] memory_setters(4) [OF s5(1)] s5(2) m4 m6
    by (simp add: prod_eq_iff) (simp add: harq_memory_def)
  then show "tx_codes (harq_memory (co_sched co') ?k p) t" if "co_tx co' = Some t"
    using that payload_tbs [OF blocks] by (auto simp: co' tx_codes_def)
  show "tx_ndi t = 1 - v" if "co_tx co' = Some t" "get_ndi ?s ?k p = Some v"
  proof -
    have "get_ndi s4 ?k p = Some v"
      using that(2) fun_cong [OF fun_cong [OF m1, of ?k], of p] memory_setters(1) [OF s2, of ?k p]
        memory_setters(2) [OF s3, of ?k p] fun_cong [OF fun_cong [OF m4, of ?k], of p]
      by (simp add: harq_memory_def)
    then have "ndi = 1 - v" using get_ndi_toggle [OF s5(1), of v ?k p] s5(2) by simp
    then show ?thesis using that(1) by (auto simp: co')
  qed
qed

lemma new_transmission_codes:
  assumes "new_transmission c f sf p av e co = Some co'"
  shows "\<not> (k = cell_id16 c \<and> q = p) \<Longrightarrow> harq_memory (co_sched co') k q = harq_memory (co_sched co) k q"
    and "co_tx co' = Some t \<Longrightarrow> tx_codes (harq_memory (co_sched co') (cell_id16 c) p) t"
    and "co_tx co' = Some t \<Longrightarrow> get_ndi (co_sched co) (cell_id16 c) p = Some v \<Longrightarrow> tx_ndi t = 1 - v"
    and "co_tx co' = None \<Longrightarrow> harq_memory (co_sched co') = harq_memory (co_sched co)"
proof -
  let ?r = "um_mac_stats_report (co_ue co)"
  obtain n s1 where ta: "ta_update ?r (co_sched co) = (n, s1)" by fastforce
  have "s1 = co_sched co \<or> s1 = set_ta_timer 20 (co_sched co) \<or> s1 = decr_ta_timer (co_sched co)"
    using ta ta_update_ok by (metis prod.inject)
  then have m1: "harq_memory s1 = harq_memory (co_sched co)"
    using memory_of_fields [OF keeps_fields(4)] memory_of_fields [OF keeps_fields(5)] by auto
  obtain x where x: "get_TBS_DL (word_of_int (lv_mcs (co_vars co))) av = Some x"
    using assms by (auto simp: new_transmission_def Let_def Option.bind_eq_Some_conv)
  obtain qs bs where q: "request_channels (ucast (ucast x :: u16)) n no_request (us_rlc_report ?r) = (qs, bs)" by fastforce
  define co1 where "co1 = co\<lparr>co_tx := None, co_ue := (co_ue co)\<lparr>um_mac_stats_report := ?r\<lparr>us_rlc_report := bs\<rparr>\<rparr>, co_sched := s1,
    co_vars := (if n > 0 then (co_vars co)\<lparr>lv_ce_flags := lv_ce_flags (co_vars co) OR FLPCET_TA\<rparr> else co_vars co),
    co_pdus := rq_pdus qs\<rparr>"
  have co1: "co_tx co1 = None" "co_sched co1 = s1" by (simp_all add: co1_def)
  consider (idle) "co' = co1"
    | (sent) w where "code_payload c f sf p av w e co1 = Some co'"
    using assms by (cases "rq_pdus qs = []") (auto simp: new_transmission_def Let_def x ta q co1_def)
  note cases = this
  show "harq_memory (co_sched co') k q = harq_memory (co_sched co) k q" if "\<not> (k = cell_id16 c \<and> q = p)"
    by (cases rule: cases) (use code_payload_codes(1) [OF _ that] m1 co1 in auto)
  show "tx_codes (harq_memory (co_sched co') (cell_id16 c) p) t" if "co_tx co' = Some t"
    by (cases rule: cases) (use code_payload_codes(2) [OF _ that] that co1 in auto)
  show "tx_ndi t = 1 - v" if "co_tx co' = Some t" "get_ndi (co_sched co) (cell_id16 c) p = Some v"
  proof -
    have "get_ndi s1 (cell_id16 c) p = Some v"
      using that(2) fun_cong [OF fun_cong [OF m1, of "cell_id16 c"], of p] by (simp add: harq_memory_def)
    then show ?thesis by (cases rule: cases) (use code_payload_codes(3) [OF _ that(1)] that(1) co1 in auto)
  qed
  have "co_tx co' \<noteq> None" if "code_payload c f sf p av w e co1 = Some co'" for w
    using that by (auto simp: code_payload_def Let_def case_prod_beta Option.bind_eq_Some_conv)
  then show "harq_memory (co_sched co') = harq_memory (co_sched co)" if "co_tx co' = None"
    by (cases rule: cases) (use that m1 co1 in auto)
qed

section \<open>Serving a UE\<close>

text \<open>The data element is for the process, and its DCI carries the coding the memory says.\<close>

definition for_process :: "flex_dl_data \<Rightarrow> rnti_t \<Rightarrow> u16 \<Rightarrow> u8 \<Rightarrow> bool" where
  "for_process d r k p \<longleftrightarrow> dd_rnti d = r \<and> dd_serv_cell_index d = ucast k \<and>
     map_option dci_harq_process (dd_dl_dci d) = Some (ucast p)"

definition data_codes :: "u16 option \<times> u8 option \<times> u16 option \<Rightarrow> flex_dl_data \<Rightarrow> bool" where
  "data_codes M d \<longleftrightarrow> (\<exists>t dci. tx_codes M t \<and> dd_dl_dci d = Some dci \<and> dci_tbs_size dci = [tx_tbs t] \<and>
     dci_mcs dci = [word_of_int (tx_mcs t)] \<and> dci_ndi dci = [ucast (tx_ndi t)])"

text \<open>The two elements carry blocks of the same size, coded the same way, with the same new-data indicator.\<close>

definition same_coding :: "flex_dl_data \<Rightarrow> flex_dl_data \<Rightarrow> bool" where
  "same_coding d d' \<longleftrightarrow>
     (case (dd_dl_dci d, dd_dl_dci d') of
        (Some a, Some b) \<Rightarrow> dci_tbs_size a = dci_tbs_size b \<and> dci_ndi a = dci_ndi b \<and>
          map (\<lambda>m. ucast m :: u16) (dci_mcs a) = map ucast (dci_mcs b)
      | _ \<Rightarrow> False)"

lemma ucast_of_int:
  "ucast (word_of_int m :: u16) = (word_of_int m :: u8)" "ucast (word_of_int m :: u32) = (word_of_int m :: u16)"
  by (rule bit_word_eqI; simp add: bit_simps)+

lemma ucast_back:
  "ucast (ucast k :: u32) = (k :: u16)" "ucast (ucast p :: u32) = (p :: u8)"
  by (rule bit_word_eqI; simp add: bit_simps)+

lemma data_codes_same:
  assumes "data_codes M d" and "data_codes M d'"
  shows "same_coding d d'"
proof -
  obtain t dci t' dci' where t: "tx_codes M t" "dd_dl_dci d = Some dci" "dci_tbs_size dci = [tx_tbs t]"
    "dci_mcs dci = [word_of_int (tx_mcs t)]" "dci_ndi dci = [ucast (tx_ndi t)]"
    and t': "tx_codes M t'" "dd_dl_dci d' = Some dci'" "dci_tbs_size dci' = [tx_tbs t']"
    "dci_mcs dci' = [word_of_int (tx_mcs t')]" "dci_ndi dci' = [ucast (tx_ndi t')]"
    using assms unfolding data_codes_def by blast
  have m: "word_of_int (tx_mcs t) = (word_of_int (tx_mcs t') :: u16)" and rest: "tx_ndi t = tx_ndi t'" "tx_nb_rb t = tx_nb_rb t'"
    using t(1) t'(1) by (auto simp: tx_codes_def)
  have "word_of_int (tx_mcs t) = (word_of_int (tx_mcs t') :: u8)"
    unfolding ucast_of_int(1) [symmetric] m ..
  then have "tx_tbs t = tx_tbs t'" using t(1) t'(1) rest(2) by (simp add: tx_codes_def)
  then show ?thesis using t t' rest(1) m by (simp add: same_coding_def ucast_of_int)
qed

lemma finish_ue_result:
  assumes "finish_ue c ue p status co st = Some st'"
  obtains u where "fl_enb st' = put_ue_mac (uc_rnti ue) u (fl_enb st)"
    and "es_scheduling_info (fl_sched st') = es_scheduling_info (put_ue_sched (uc_rnti ue) (co_sched co) (fl_sched st))"
    and "co_tx co = None \<and> fl_data st' = fl_data st \<or>
      (\<exists>t d dci. co_tx co = Some t \<and> fl_data st' = fl_data st @ [d] \<and> dd_rnti d = uc_rnti ue \<and>
         dd_serv_cell_index d = ucast (cell_id16 c) \<and> dd_dl_dci d = Some dci \<and> dci_harq_process dci = ucast p \<and>
         dci_tbs_size dci = [tx_tbs t] \<and> dci_mcs dci = [word_of_int (tx_mcs t)] \<and> dci_ndi dci = [ucast (tx_ndi t)])"
proof (cases "co_tx co")
  case None
  then show thesis using assms by (intro that [of "co_ue co"]) (auto simp: finish_ue_def Let_def)
next
  case (Some t)
  obtain u sched row w where
    u: "harq_scheduled (co_ue co) (cell_id16 c) p = Some u"
    and sched: "assign_CCE (cell_id16 c) (2 ^ unat (lv_aggregation (co_vars co)))
       (put_ue_sched (uc_rnti ue) (co_sched co) (fl_sched st)) = Some sched"
    and st': "st' = st\<lparr>fl_enb := put_ue_mac (uc_rnti ue) u (fl_enb st), fl_sched := sched, fl_vars := co_vars co,
      fl_data := fl_data st @ [\<lparr>dd_rnti = uc_rnti ue,
        dd_dl_dci = Some (dci_of ue p status (lv_aggregation (co_vars co)) t w),
        dd_ce_bitmap = [lv_ce_flags (co_vars co), lv_ce_flags (co_vars co)], dd_rlc_pdu = co_pdus co,
        dd_serv_cell_index = ucast (cell_id16 c)\<rparr>]\<rparr>"
    using assms Some by (auto simp: finish_ue_def Let_def Option.bind_eq_Some_conv)
  have "es_scheduling_info sched = es_scheduling_info (put_ue_sched (uc_rnti ue) (co_sched co) (fl_sched st))"
    using sched by (auto simp: assign_CCE_def Option.bind_eq_Some_conv)
  then show thesis by (intro that [of u]) (auto simp: st' dci_of_def Some)
qed

lemma schedule_ue_cases:
  assumes "schedule_ue c f sf st ue = Some st'"
  obtains (idle) k where "confined k {} (fl_sched st) (fl_sched st')" and "fl_enb st' = fl_enb st" and "fl_data st' = fl_data st"
  | (sent) k u s pid status co co' st1 av where "uc_pcell_carrier_index ue = ucast (cell_id16 c)"
      and "get_ue_mac_info (fl_enb st) (uc_rnti ue) = Some u"
      and "get_ue_scheduling_info (fl_sched st1) (uc_rnti ue) = Some s"
      and "has_available_harq u (cell_id16 c) = Some True" and "get_next_available_harq u (cell_id16 c) = Some pid"
      and "get_harq_stats u (cell_id16 c) (unat (word_of_int pid :: u8)) = Some status" and "co_sched co = s"
      and "(if status > 0 then retransmit c (word_of_int pid) av co
            else new_transmission c f sf (word_of_int pid) av (fl_enb st) co) = Some co'"
      and "finish_ue c ue (word_of_int pid) status co' st1 = Some st'" and "fl_enb st1 = fl_enb st"
      and "fl_data st1 = fl_data st" and "confined k {} (fl_sched st) (fl_sched st1)"
proof (cases "uc_pcell_carrier_index ue = ucast (cell_id16 c)")
  case False
  then show thesis using assms idle [of 0] by (simp add: schedule_ue_def)
next
  case here: True
  show thesis
  proof (cases "get_ue_mac_info (fl_enb st) (uc_rnti ue)")
    case None
    then show thesis using assms here idle [of 0] by (simp add: schedule_ue_def)
  next
    case (Some u)
    obtain agg b sched where cce: "CCE_allocation_infeasible c ue agg sf (fl_sched st) = Some (b, sched)"
      and rest: "(let st = st\<lparr>fl_sched := sched, fl_vars := (fl_vars st)\<lparr>lv_aggregation := agg\<rparr>\<rparr> in
          if b then Some st
          else do {
            avail \<leftarrow> has_available_harq u (cell_id16 c);
            if \<not> avail then Some st
            else do {
              s \<leftarrow> get_ue_scheduling_info sched (uc_rnti ue);
              nb_available_rb \<leftarrow> get_pre_nb_rbs_available s (cell_id16 c);
              if nb_available_rb = 0 then Some st
              else transmit_ue c f sf ue u s nb_available_rb st } }) = Some st'"
      using assms here Some by (auto simp: schedule_ue_def Option.bind_eq_Some_conv Let_def)
    define st2 where "st2 = st\<lparr>fl_sched := sched, fl_vars := (fl_vars st)\<lparr>lv_aggregation := agg\<rparr>\<rparr>"
    have st2: "fl_sched st2 = sched" "fl_enb st2 = fl_enb st" "fl_data st2 = fl_data st" by (simp_all add: st2_def)
    have conf: "confined (unat (cc_cell_id c)) {} (fl_sched st) (fl_sched st2)" using confined_CCE [OF cce] by (simp add: st2)
    have rest2: "(if b then Some st2
          else do {
            avail \<leftarrow> has_available_harq u (cell_id16 c);
            if \<not> avail then Some st2
            else do {
              s \<leftarrow> get_ue_scheduling_info sched (uc_rnti ue);
              nb_available_rb \<leftarrow> get_pre_nb_rbs_available s (cell_id16 c);
              if nb_available_rb = 0 then Some st2
              else transmit_ue c f sf ue u s nb_available_rb st2 } }) = Some st'"
      using rest unfolding Let_def st2_def .
    consider "st' = st2"
      | s av where "has_available_harq u (cell_id16 c) = Some True" "get_ue_scheduling_info sched (uc_rnti ue) = Some s"
          "transmit_ue c f sf ue u s av st2 = Some st'"
      using rest2 by (auto simp: Option.bind_eq_Some_conv split: if_splits)
    then show thesis
    proof cases
      case 1
      then show thesis using conf by (intro idle [of "unat (cc_cell_id c)"]) (simp_all add: st2)
    next
      case (2 s av)
      let ?co = "\<lambda>mcs. \<lparr>co_tx = None, co_ue = u, co_sched = s, co_vars = (fl_vars st2)\<lparr>lv_mcs := mcs\<rparr>, co_pdus = []\<rparr>"
      obtain pid status mcs co' where T: "get_next_available_harq u (cell_id16 c) = Some pid"
        "get_harq_stats u (cell_id16 c) (unat (word_of_int pid :: u8)) = Some status"
        and run: "(if status > 0 then retransmit c (word_of_int pid) av (?co mcs)
          else new_transmission c f sf (word_of_int pid) av (fl_enb st2) (?co mcs)) = Some co'"
        "finish_ue c ue (word_of_int pid) status co' st2 = Some st'"
        using 2(3) by (auto simp: transmit_ue_def Let_def Option.bind_eq_Some_conv)
      show thesis
        by (rule sent [OF here Some _ 2(1) T _ run(1) [unfolded st2(2)] run(2) _ _ conf]) (use 2(2) in \<open>simp_all add: st2\<close>)
    qed
  qed
qed

section \<open>A round\<close>

text \<open>
  The loop over the UEs seen from one process of one UE. While the UE is not served, its records are as at the start;
  a data element for the process carries what the memory says; the memory only changes when the process is free for
  new data, and the indicator in it only when new data is sent. \<open>sched0\<close> are the records at the start of the loop.
\<close>

definition sent_on :: "flex_state \<Rightarrow> rnti_t \<Rightarrow> u16 \<Rightarrow> u8 \<Rightarrow> bool" where
  "sent_on st r k p \<longleftrightarrow> list_ex (\<lambda>d. for_process d r k p) (fl_data st)"

definition mem_inv :: "enb_rib_info \<Rightarrow> enb_scheduling_info \<Rightarrow> rnti_t \<Rightarrow> u16 \<Rightarrow> u8 \<Rightarrow> rnti_t set \<Rightarrow> flex_state \<Rightarrow> bool" where
  "mem_inv e sched0 r k p T st \<longleftrightarrow>
     (r \<in> T \<longrightarrow> get_ue_mac_info (fl_enb st) r = get_ue_mac_info e r \<and>
        (\<forall>c \<in> set (cell_configs e). r \<in> cell_rntis c e \<longrightarrow> rec_holds (demands_repeat e r (cell_id16 c)) r (fl_sched st)) \<and>
        (\<forall>v. rec_holds (\<lambda>s. get_ndi s k p = v) r sched0 \<longrightarrow> rec_holds (\<lambda>s. get_ndi s k p = v) r (fl_sched st))) \<and>
     (\<forall>d \<in> set (fl_data st). for_process d r k p \<longrightarrow>
        r \<notin> T \<and> rec_holds (\<lambda>s. data_codes (harq_memory s k p) d) r (fl_sched st) \<and>
        (\<forall>v. free_for_new_data e r k p \<longrightarrow> rec_holds (\<lambda>s. get_ndi s k p = Some v) r sched0 \<longrightarrow>
           map_option dci_ndi (dd_dl_dci d) = Some [ucast (1 - v)])) \<and>
     (\<forall>M. \<not> free_for_new_data e r k p \<longrightarrow> rec_holds (\<lambda>s. harq_memory s k p = M) r sched0 \<longrightarrow>
        rec_holds (\<lambda>s. harq_memory s k p = M) r (fl_sched st)) \<and>
     (\<forall>v. \<not> (free_for_new_data e r k p \<and> sent_on st r k p) \<longrightarrow> rec_holds (\<lambda>s. get_ndi s k p = v) r sched0 \<longrightarrow>
        rec_holds (\<lambda>s. get_ndi s k p = v) r (fl_sched st))"

lemma mem_inv_fewer: "mem_inv e s0 r k p T st \<Longrightarrow> T' \<subseteq> T \<Longrightarrow> mem_inv e s0 r k p T' st"
  unfolding mem_inv_def by blast

text \<open>A step that leaves the UE alone.\<close>

lemma mem_inv_other:
  assumes "mem_inv e s0 r k p T st" and "T' \<subseteq> T"
    and "get_ue_mac_info (fl_enb st') r = get_ue_mac_info (fl_enb st) r"
    and "\<And>Q. rec_holds Q r (fl_sched st) \<Longrightarrow> rec_holds Q r (fl_sched st')"
    and "\<And>d. d \<in> set (fl_data st') \<Longrightarrow> d \<in> set (fl_data st) \<or> dd_rnti d \<noteq> r"
    and "set (fl_data st) \<subseteq> set (fl_data st')"
  shows "mem_inv e s0 r k p T' st'"
  unfolding mem_inv_def
proof (intro conjI impI ballI allI)
  note I = assms(1) [unfolded mem_inv_def]
  show "get_ue_mac_info (fl_enb st') r = get_ue_mac_info e r" if "r \<in> T'"
    using I assms(2,3) that by auto
  show "rec_holds (demands_repeat e r (cell_id16 c)) r (fl_sched st')" if "r \<in> T'" "c \<in> set (cell_configs e)" "r \<in> cell_rntis c e" for c
    by (rule assms(4)) (use I assms(2) that in blast)
  show "rec_holds (\<lambda>s. get_ndi s k p = v) r (fl_sched st')" if "r \<in> T'" "rec_holds (\<lambda>s. get_ndi s k p = v) r s0" for v
    by (rule assms(4)) (use I assms(2) that in blast)
  show "map_option dci_ndi (dd_dl_dci d) = Some [ucast (1 - v)]"
    if "d \<in> set (fl_data st')" "for_process d r k p" "free_for_new_data e r k p" "rec_holds (\<lambda>s. get_ndi s k p = Some v) r s0" for d v
    using I assms(5) [OF that(1)] that(2-) by (auto simp: for_process_def)
  show "r \<notin> T'" if "d \<in> set (fl_data st')" "for_process d r k p" for d
    using I assms(2) assms(5) [OF that(1)] that(2) by (auto simp: for_process_def)
  show "rec_holds (\<lambda>s. data_codes (harq_memory s k p) d) r (fl_sched st')" if "d \<in> set (fl_data st')" "for_process d r k p" for d
    by (rule assms(4)) (use I assms(5) [OF that(1)] that(2) in \<open>auto simp: for_process_def\<close>)
  show "rec_holds (\<lambda>s. harq_memory s k p = M) r (fl_sched st')"
    if "\<not> free_for_new_data e r k p" "rec_holds (\<lambda>s. harq_memory s k p = M) r s0" for M
    by (rule assms(4)) (use I that in blast)
  show "rec_holds (\<lambda>s. get_ndi s k p = v) r (fl_sched st')"
    if "\<not> (free_for_new_data e r k p \<and> sent_on st' r k p)" "rec_holds (\<lambda>s. get_ndi s k p = v) r s0" for v
  proof (rule assms(4))
    have "sent_on st r k p \<Longrightarrow> sent_on st' r k p" using assms(6) by (auto simp: sent_on_def list_ex_iff)
    then show "rec_holds (\<lambda>s. get_ndi s k p = v) r (fl_sched st)" using I that by blast
  qed
qed

text \<open>The step that serves the UE.\<close>

lemma coding_memory:
  assumes "(if status > 0 then retransmit c pid av co else new_transmission c f sf pid av e co) = Some co'"
    and "status > 0 \<Longrightarrow>
       get_nb_rbs_required (co_sched co) (cell_id16 c) = get_nb_scheduled_rbs (co_sched co) (cell_id16 c) pid"
  shows "status > 0 \<or> \<not> (k = cell_id16 c \<and> p = pid) \<Longrightarrow> harq_memory (co_sched co') k p = harq_memory (co_sched co) k p"
    and "co_tx co' = Some t \<Longrightarrow> tx_codes (harq_memory (co_sched co') (cell_id16 c) pid) t"
proof -
  show "harq_memory (co_sched co') k p = harq_memory (co_sched co) k p" if "status > 0 \<or> \<not> (k = cell_id16 c \<and> p = pid)"
  proof (cases "status > 0")
    case True
    then have "retransmit c pid av co = Some co'" using assms(1) by simp
    from memory_of_fields [OF retransmit_codes(1) [OF this assms(2) [OF True]]] show ?thesis by simp
  next
    case False
    then have "new_transmission c f sf pid av e co = Some co'" using assms(1) by simp
    then show ?thesis using new_transmission_codes(1) that False by blast
  qed
  show "tx_codes (harq_memory (co_sched co') (cell_id16 c) pid) t" if "co_tx co' = Some t"
    using assms retransmit_codes(2) new_transmission_codes(2) that by (cases "status > 0") auto
qed

lemma mem_inv_step:
  assumes "mem_inv e s0 r k p T st" and "flex_inv e sf' T st" and "cells_ready e" and "c \<in> set (cell_configs e)"
    and "ue \<in> set (ue_configs e)" and "served c ue \<subseteq> T" and "schedule_ue c f sf st ue = Some st'"
  shows "mem_inv e s0 r k p (T - served c ue) st'"
proof -
  have ready: "cell_ready c (fl_enb st)"
    using assms(2,4) flex_inv_cells(3) [OF assms(2)] by (simp add: flex_inv_def cells_ready_def)
  have inv: "sm_inv (en_ue_mac_info (fl_enb st))" using enb_wfD(1) ready by (simp add: cell_ready_def)
  have none: "rec_holds Q r x \<Longrightarrow> confined j {} x y \<Longrightarrow> rec_holds Q r y" for Q j x y
    by (rule rec_confined [where R = "{}"]) simp_all
  show ?thesis
    using assms(7)
  proof (cases rule: schedule_ue_cases)
    case (idle j)
    show ?thesis by (rule mem_inv_other [OF assms(1)]) (use idle none in auto)
  next
    case (sent j u s pid status co co' st1 av)
    let ?q = "uc_rnti ue" and ?k = "cell_id16 c" and ?p = "word_of_int pid :: u8"
    obtain u' where fin: "fl_enb st' = put_ue_mac ?q u' (fl_enb st1)"
      "es_scheduling_info (fl_sched st') = es_scheduling_info (put_ue_sched ?q (co_sched co') (fl_sched st1))"
      "co_tx co' = None \<and> fl_data st' = fl_data st1 \<or>
      (\<exists>t d dci. co_tx co' = Some t \<and> fl_data st' = fl_data st1 @ [d] \<and> dd_rnti d = ?q \<and>
         dd_serv_cell_index d = ucast ?k \<and> dd_dl_dci d = Some dci \<and> dci_harq_process dci = ucast ?p \<and>
         dci_tbs_size dci = [tx_tbs t] \<and> dci_mcs dci = [word_of_int (tx_mcs t)] \<and> dci_ndi dci = [ucast (tx_ndi t)])"
      using finish_ue_result [OF sent(9)] by metis
    have q: "served c ue = {?q}" using sent(1) by (simp add: served_def)
    have here: "rec_holds Q r (fl_sched st')" if "rec_holds Q r (fl_sched st)" "?q = r \<Longrightarrow> Q (co_sched co')" for Q
      using rec_same [OF rec_put [OF none [OF that(1) sent(12)] that(2)] fin(2)] .
    show ?thesis
    proof (cases "?q = r")
      case False
      have mac: "get_ue_mac_info (fl_enb st') r = get_ue_mac_info (fl_enb st) r"
        using inv False by (simp add: fin(1) sent(10) put_ue_mac_def get_ue_mac_info_def sm.find_put)
      show ?thesis
        by (rule mem_inv_other [OF assms(1) _ mac]) (use False here fin(3) sent(11) in auto)
    next
      case r: True
      have rT: "r \<in> T" and rc: "r \<in> cell_rntis c e"
        using assms(5,6) sent(1) r q by (auto simp: cell_rntis_def cell_ues_def)
      note I = assms(1) [unfolded mem_inv_def]
      have ue: "get_ue_mac_info e r = Some u" using I rT sent(2) r by simp
      have cr: "cell_ready c e" using assms(3,4) by (simp add: cells_ready_def)
      note cc = cell_readyD(1) [OF cr]
      have wf: "ue_mac_wf u" using cell_ready_ue [OF cr assms(5)] ue r by (metis option.inject)
      obtain n where n: "pid = int n" "n < MAX_NUM_HARQ" "next_process u ?k = Some (of_nat n, status)"
      proof -
        obtain n st where N: "get_next_available_harq u ?k = Some (int n)" "n < MAX_NUM_HARQ"
          "get_harq_stats u ?k n = Some st" "next_process u ?k = Some (of_nat n, st)"
          using next_process_wf [OF wf cc sent(4)] by metis
        have "unat (of_nat n :: u8) = n" using N(2) by (simp add: unsigned_of_nat take_bit_nat_eq_self)
        moreover have pid: "pid = int n" using sent(5) N(1) by simp
        ultimately have "st = status" using sent(6) N(3) by (simp add: pid)
        then show thesis using N sent(5) by (intro that [of n]) simp_all
      qed
      have demand: "rec_holds (demands_repeat e r ?k) r (fl_sched st)" using I rT rc assms(4) by blast
      then have "rec_holds (demands_repeat e r ?k) r (fl_sched st1)" by (rule none [OF _ sent(12)])
      then have "demands_repeat e r ?k s" using sent(3) r by (auto simp: rec_holds_def)
      then have dem: "status > 0 \<Longrightarrow> get_nb_rbs_required (co_sched co) ?k = get_nb_scheduled_rbs (co_sched co) ?k ?p"
        using ue n(1,3) sent(7) by (simp add: demands_repeat_def)
      note cm = coding_memory [OF sent(8) dem]
      have old: "\<not> for_process d r k p" if "d \<in> set (fl_data st)" for d using I rT that by blast
      have mem: "harq_memory (co_sched co') k p = M" if "rec_holds (\<lambda>s. harq_memory s k p = M) r (fl_sched st)"
        "\<not> free_for_new_data e r k p" for M
      proof -
        have "rec_holds (\<lambda>s. harq_memory s k p = M) r (fl_sched st1)" by (rule none [OF that(1) sent(12)])
        then have M: "harq_memory (co_sched co) k p = M" using sent(3,7) r by (auto simp: rec_holds_def)
        have "status > 0 \<or> \<not> (k = ?k \<and> p = ?p)"
          using that(2) ue n(1,3) by (auto simp: free_for_new_data_def word_gt_0)
        from cm(1) [OF _ this] M show ?thesis by simp
      qed
      have new: "rec_holds (\<lambda>s. data_codes (harq_memory s k p) d) r (fl_sched st') \<and>
          (free_for_new_data e r k p \<longrightarrow> rec_holds (\<lambda>s. get_ndi s k p = Some v) r s0 \<longrightarrow>
             map_option dci_ndi (dd_dl_dci d) = Some [ucast (1 - v)])"
        if d: "d \<in> set (fl_data st')" "for_process d r k p" for d v
      proof -
        obtain t dci where t: "co_tx co' = Some t" "dd_serv_cell_index d = ucast ?k" "dd_dl_dci d = Some dci"
          "dci_harq_process dci = ucast ?p" "dci_tbs_size dci = [tx_tbs t]" "dci_mcs dci = [word_of_int (tx_mcs t)]"
          "dci_ndi dci = [ucast (tx_ndi t)]"
          using fin(3) sent(11) d old by auto
        have "(ucast k :: u32) = ucast ?k" and "(ucast p :: u32) = ucast ?p" using d(2) t(2-4) by (auto simp: for_process_def)
        then have kp: "k = ?k" "p = ?p" by (metis ucast_back(1), metis ucast_back(2))
        have "data_codes (harq_memory (co_sched co') k p) d"
          using cm(2) [OF _ t(1)] t(3,5-7) kp by (auto simp: data_codes_def)
        then have "rec_holds (\<lambda>s. data_codes (harq_memory s k p) d) r (fl_sched st')"
          using demand sent(12) r
          by (auto simp: rec_holds_def fin(2) put_ue_sched_def get_ue_scheduling_info_def sm.inv_put sm.find_put confined_def)
        moreover have "tx_ndi t = 1 - v" if "free_for_new_data e r k p" "rec_holds (\<lambda>s. get_ndi s k p = Some v) r s0"
        proof -
          have "rec_holds (\<lambda>s. get_ndi s k p = Some v) r (fl_sched st)" using I rT that(2) by blast
          then have "rec_holds (\<lambda>s. get_ndi s k p = Some v) r (fl_sched st1)" by (rule none [OF _ sent(12)])
          then have ndi: "get_ndi (co_sched co) ?k ?p = Some v" using sent(3,7) r kp by (auto simp: rec_holds_def)
          have "status = 0" using that(1) ue n(1,3) kp by (auto simp: free_for_new_data_def)
          then have "new_transmission c f sf ?p av (fl_enb st) co = Some co'" using sent(8) by simp
          then show ?thesis using new_transmission_codes(3) t(1) ndi by blast
        qed
        ultimately show ?thesis using t(3,7) by simp
      qed
      have keep: "rec_holds (\<lambda>s. harq_memory s k p = M) r (fl_sched st')"
        if "\<not> free_for_new_data e r k p" "rec_holds (\<lambda>s. harq_memory s k p = M) r s0" for M
      proof -
        have M: "rec_holds (\<lambda>s. harq_memory s k p = M) r (fl_sched st)" using I that by blast
        show ?thesis by (rule here [OF M mem [OF M that(1)]])
      qed
      have ndi: "rec_holds (\<lambda>s. get_ndi s k p = v) r (fl_sched st')"
        if idle: "\<not> (free_for_new_data e r k p \<and> sent_on st' r k p)" "rec_holds (\<lambda>s. get_ndi s k p = v) r s0" for v
      proof -
        have N: "rec_holds (\<lambda>s. get_ndi s k p = v) r (fl_sched st)" using I rT that(2) by blast
        then have "rec_holds (\<lambda>s. get_ndi s k p = v) r (fl_sched st1)" by (rule none [OF _ sent(12)])
        then have v: "get_ndi (co_sched co) k p = v" using sent(3,7) r by (auto simp: rec_holds_def)
        have "harq_memory (co_sched co') k p = harq_memory (co_sched co) k p"
        proof (cases "status > 0 \<or> \<not> (k = ?k \<and> p = ?p)")
          case True
          from cm(1) [OF _ this] show ?thesis by simp
        next
          case False
          then have kp: "k = ?k" "p = ?p" "status = 0" by (simp_all add: word_gt_0)
          then have "free_for_new_data e r k p" using ue n(1,3) by (simp add: free_for_new_data_def)
          then have "\<not> sent_on st' r k p" using idle(1) by simp
          then have "co_tx co' = None" using fin(3) kp r by (auto simp: sent_on_def for_process_def)
          moreover have "new_transmission c f sf ?p av (fl_enb st) co = Some co'" using sent(8) kp(3) by simp
          ultimately show ?thesis using new_transmission_codes(4) by metis
        qed
        then have "get_ndi (co_sched co') k p = v" using v by (simp add: harq_memory_def)
        then show ?thesis by (rule here [OF N])
      qed
      show ?thesis
        unfolding mem_inv_def q r by (simp add: new keep ndi)
    qed
  qed
qed

type_synonym round_input = "frame_t \<times> subframe_t \<times> enb_rib_info \<times> sched_vars"

text \<open>What \<open>run_central_scheduler\<close> runs a round on: parameters in range, and neither subframe 0 nor 5.\<close>

definition round_ok :: "round_input \<Rightarrow> bool" where
  "round_ok = (\<lambda>(f, sf, e, vars). cells_ready e \<and> sf \<noteq> 0 \<and> sf \<noteq> 5 \<and> lv_aggregation vars \<le> 3)"

lemma round_memory:
  assumes "std_sort srt" and "sched_ok sched" and "round_ok (f, sf, e, vars)"
    and "schedule_agent srt f sf e sched vars = Some st"
  shows "sched_ok (fl_sched st)"
    and "d \<in> set (fl_data st) \<Longrightarrow> for_process d r k p \<Longrightarrow>
       rec_holds (\<lambda>s. data_codes (harq_memory s k p) d) r (fl_sched st)"
    and "\<not> free_for_new_data e r k p \<Longrightarrow> rec_holds (\<lambda>s. harq_memory s k p = M) r sched \<Longrightarrow>
       rec_holds (\<lambda>s. harq_memory s k p = M) r (fl_sched st)"
    and "d \<in> set (fl_data st) \<Longrightarrow> for_process d r k p \<Longrightarrow> free_for_new_data e r k p \<Longrightarrow>
       rec_holds (\<lambda>s. get_ndi s k p = Some v) r sched \<Longrightarrow> map_option dci_ndi (dd_dl_dci d) = Some [ucast (1 - v)]"
    and "\<not> (free_for_new_data e r k p \<and> sent_on st r k p) \<Longrightarrow> rec_holds (\<lambda>s. get_ndi s k p = N) r sched \<Longrightarrow>
       rec_holds (\<lambda>s. get_ndi s k p = N) r (fl_sched st)"
proof -
  have ok: "cells_ready e" "sf \<noteq> 0" "sf \<noteq> 5" "lv_aggregation vars \<le> 3" using assms(3) by (simp_all add: round_ok_def)
  obtain s1 where s1: "foldo (prepare_cell srt e f sf) sched (cell_configs e) = Some s1"
    "cells_scheduled e sf 0 (set (cell_configs e)) s1"
    using prepare_cells_ok [OF assms(1) ok(1) assms(2) ok(2,3) schedule_agent_untied [OF assms(4)]] by blast
  let ?st = "\<lparr>fl_enb = e, fl_sched = s1, fl_vars = vars, fl_data = []\<rparr>"
  let ?I = "\<lambda>T st. flex_inv e sf T st \<and> mem_inv e s1 r k p T st"
  have inv: "sm_inv (es_scheduling_info sched)" using assms(2) by (simp add: sched_ok_def enb_sched_wf_def)
  have demand: "rec_holds (demands_repeat e r (cell_id16 c)) r s1" if "c \<in> set (cell_configs e)" "r \<in> cell_rntis c e" for c
    using prepare_cells_demand [OF s1(1) assms(1) ok(1) inv that] .
  have start: "?I UNIV ?st"
    using ok s1(2) demand by (simp add: flex_inv_def mem_inv_def)
  have cell: "schedule_cell f sf st c = foldo (schedule_ue c f sf) st (ue_configs e)" if "?I T st" for c T st
    using flex_inv_cells(4) [of e sf T st] that by (simp add: schedule_cell_def)
  have step: "\<exists>st'. schedule_ue c f sf st ue = Some st' \<and> ?I (T - served c ue) st'"
    if "c \<in> set (cell_configs e)" "?I T st" "ue \<in> set (ue_configs e)" "served c ue \<subseteq> T" for c T st ue
    using schedule_ue_inv [of e sf T st c ue f] mem_inv_step [of e s1 r k p T st sf c ue f sf] that ok(1) by blast
  have "\<exists>st'. foldo (schedule_cell f sf) ?st (cell_configs e) = Some st' \<and> ?I {} st'"
    by (rule serve_cells [where I = ?I and step = "\<lambda>c. schedule_ue c f sf", OF _ step cell ok(1) start])
       (blast intro: flex_inv_fewer mem_inv_fewer)
  then have final: "?I {} st" using assms(4) s1(1) by (auto simp: schedule_agent_def)
  then show "sched_ok (fl_sched st)" using flex_inv_exclusive(1) ok(1) by blast
  show "rec_holds (\<lambda>s. data_codes (harq_memory s k p) d) r (fl_sched st)"
    if "d \<in> set (fl_data st)" "for_process d r k p"
    using final that by (auto simp: mem_inv_def)
  show "rec_holds (\<lambda>s. harq_memory s k p = M) r (fl_sched st)"
    if "\<not> free_for_new_data e r k p" "rec_holds (\<lambda>s. harq_memory s k p = M) r sched"
    using conjunct2 [OF final, unfolded mem_inv_def] that(1)
      prepare_cells_keep [OF s1(1) that(2) coding_based_both(1) memory_kept_by_count [OF that(1)]] by blast
  show "map_option dci_ndi (dd_dl_dci d) = Some [ucast (1 - v)]"
    if "d \<in> set (fl_data st)" "for_process d r k p" "free_for_new_data e r k p" "rec_holds (\<lambda>s. get_ndi s k p = Some v) r sched"
    using conjunct2 [OF final, unfolded mem_inv_def] that(1-3)
      prepare_cells_keep [OF s1(1) that(4) coding_based_both(2) ndi_kept_by_count] by blast
  show "rec_holds (\<lambda>s. get_ndi s k p = N) r (fl_sched st)"
    if "\<not> (free_for_new_data e r k p \<and> sent_on st r k p)" "rec_holds (\<lambda>s. get_ndi s k p = N) r sched"
    using conjunct2 [OF final, unfolded mem_inv_def] that(1)
      prepare_cells_keep [OF s1(1) that(2) coding_based_both(2) ndi_kept_by_count] by blast
qed

text \<open>The scheduling records after a round, as \<open>run_central_scheduler\<close> keeps them for the next.\<close>

definition record_round :: "(ue_stats list \<Rightarrow> ue_stats list) \<Rightarrow> enb_scheduling_info \<Rightarrow> round_input \<Rightarrow>
    enb_scheduling_info option" where
  "record_round srt sched = (\<lambda>(f, sf, e, vars). do {
     st \<leftarrow> schedule_agent srt f sf e sched vars;
     Some (set_last_checked (en_current_frame e) (en_current_subframe e) (fl_sched st)) })"

lemma set_last_checked_same: "es_scheduling_info (set_last_checked f sf s) = es_scheduling_info s"
  by (simp add: set_last_checked_def)

lemma sched_ok_last_checked: "sched_ok s \<Longrightarrow> sched_ok (set_last_checked f sf s)"
  by (simp add: sched_ok_def enb_sched_wf_def get_ue_scheduling_info_def set_last_checked_def)

lemma rounds_memory:
  assumes "std_sort srt" and "foldo (record_round srt) sched later = Some sched'" and "sched_ok sched"
    and "list_all round_ok later" and "list_all (\<lambda>(f, sf, e, vars). \<not> free_for_new_data e r k p) later"
    and "rec_holds (\<lambda>s. harq_memory s k p = M) r sched"
  shows "sched_ok sched' \<and> rec_holds (\<lambda>s. harq_memory s k p = M) r sched'"
proof (rule foldo_invariant [where I = "\<lambda>x. sched_ok x \<and> rec_holds (\<lambda>s. harq_memory s k p = M) r x", OF assms(2)])
  fix x i y
  assume i: "i \<in> set later" and x: "sched_ok x \<and> rec_holds (\<lambda>s. harq_memory s k p = M) r x"
    and run: "record_round srt x i = Some y"
  obtain f sf e vars where ie: "i = (f, sf, e, vars)" by (cases i)
  obtain st where st: "schedule_agent srt f sf e x vars = Some st"
    "y = set_last_checked (en_current_frame e) (en_current_subframe e) (fl_sched st)"
    using run by (auto simp: record_round_def ie Option.bind_eq_Some_conv)
  have ok: "round_ok (f, sf, e, vars)" "\<not> free_for_new_data e r k p"
    using assms(4,5) i by (auto simp: list_all_iff ie)
  note R = round_memory [OF assms(1) conjunct1 [OF x] ok(1) st(1)]
  show "sched_ok y \<and> rec_holds (\<lambda>s. harq_memory s k p = M) r y"
    unfolding st(2)
    using sched_ok_last_checked [OF R(1)] rec_same [OF R(3) [OF ok(2) conjunct2 [OF x]] set_last_checked_same] by blast
qed (use assms(3,6) in simp)

text \<open>The memory of a transmission lasts until the process is free for new data.\<close>

lemma memory_lasts:
  assumes "std_sort srt" and "sched_ok sched"
    and "round_ok (f, sf, e, vars)" and "schedule_agent srt f sf e sched vars = Some st"
    and "d \<in> set (fl_data st)" and "for_process d r k p"
    and "list_all round_ok later" and "list_all (\<lambda>(f, sf, e, vars). \<not> free_for_new_data e r k p) later"
    and "foldo (record_round srt) (set_last_checked lf lsf (fl_sched st)) later = Some sched'"
  obtains M where "data_codes M d" and "sched_ok sched'" and "rec_holds (\<lambda>s. harq_memory s k p = M) r sched'"
proof -
  note R = round_memory [OF assms(1-4)]
  obtain s where s: "sm_inv (es_scheduling_info (fl_sched st))" "get_ue_scheduling_info (fl_sched st) r = Some s"
    "data_codes (harq_memory s k p) d"
    using R(2) [OF assms(5,6)] by (auto simp: rec_holds_def)
  define M where "M = harq_memory s k p"
  have M: "rec_holds (\<lambda>s. harq_memory s k p = M) r (fl_sched st)" using s by (simp add: rec_holds_def M_def)
  have "sched_ok sched' \<and> rec_holds (\<lambda>s. harq_memory s k p = M) r sched'"
    by (rule rounds_memory [OF assms(1,9) sched_ok_last_checked [OF R(1)] assms(7,8) rec_same [OF M set_last_checked_same]])
  then show thesis using s(3) that unfolding M_def by blast
qed

text \<open>
  C7: a retransmission repeats the transmission. Let a round of the central scheduler send data element \<open>d\<close> to a UE
  on HARQ process \<open>p\<close> of a cell. In any number of later rounds, in which anything may have been reported, in which any
  other UEs and processes are served, in which the process is busy or asked to repeat but not free for new data,
  and in a round after them, which sends \<open>d'\<close> to the same UE on the same process of the cell: \<open>d'\<close> has the same
  transport block size, the same coding scheme and the same new-data indicator as \<open>d\<close>, so that the UE can
  combine what it receives. The scheme is compared in the 16 bits the record keeps of it.
\<close>

theorem retransmission_repeats:
  assumes "std_sort srt" and "sched_ok sched"
    and "round_ok (f, sf, e, vars)" and "schedule_agent srt f sf e sched vars = Some st"
    and "d \<in> set (fl_data st)" and "for_process d r k p"
    and "list_all round_ok later" and "list_all (\<lambda>(f, sf, e, vars). \<not> free_for_new_data e r k p) later"
    and "foldo (record_round srt) (set_last_checked lf lsf (fl_sched st)) later = Some sched'"
    and "round_ok (f', sf', e', vars')" and "\<not> free_for_new_data e' r k p"
    and "schedule_agent srt f' sf' e' sched' vars' = Some st'"
    and "d' \<in> set (fl_data st')" and "for_process d' r k p"
  shows "same_coding d d'"
proof -
  from memory_lasts [OF assms(1-9)] obtain M where M: "data_codes M d" "sched_ok sched'"
    "rec_holds (\<lambda>s. harq_memory s k p = M) r sched'" .
  note R = round_memory [OF assms(1) M(2) assms(10,12)]
  have "data_codes M d'" using R(2) [OF assms(13,14)] R(3) [OF assms(11) M(3)] by (auto simp: rec_holds_def)
  with M(1) show ?thesis by (rule data_codes_same)
qed

text \<open>
  A round sends new data on the process: the last block was received, and there is a data element for the
  process. A round with nothing queued for the UE does not, however often the process is free.
\<close>

definition sends_new_data :: "(ue_stats list \<Rightarrow> ue_stats list) \<Rightarrow> rnti_t \<Rightarrow> u16 \<Rightarrow> u8 \<Rightarrow> enb_scheduling_info \<Rightarrow>
    round_input \<Rightarrow> bool" where
  "sends_new_data srt r k p sched = (\<lambda>(f, sf, e, vars). free_for_new_data e r k p \<and>
     (case schedule_agent srt f sf e sched vars of None \<Rightarrow> False | Some st \<Rightarrow> sent_on st r k p))"

lemma rounds_ndi:
  assumes "std_sort srt" and "foldo (record_round srt) sched later = Some sched'"
    and "along (\<lambda>s i. \<not> sends_new_data srt r k p s i) (record_round srt) sched later"
    and "sched_ok sched" and "list_all round_ok later" and "rec_holds (\<lambda>s. get_ndi s k p = N) r sched"
  shows "sched_ok sched' \<and> rec_holds (\<lambda>s. get_ndi s k p = N) r sched'"
proof (rule foldo_invariant_along [where I = "\<lambda>x. sched_ok x \<and> rec_holds (\<lambda>s. get_ndi s k p = N) r x", OF assms(2,3)])
  fix x i y
  assume i: "i \<in> set later" and x: "sched_ok x \<and> rec_holds (\<lambda>s. get_ndi s k p = N) r x"
    and quiet: "\<not> sends_new_data srt r k p x i" and run: "record_round srt x i = Some y"
  obtain f sf e vars where ie: "i = (f, sf, e, vars)" by (cases i)
  obtain st where st: "schedule_agent srt f sf e x vars = Some st"
    "y = set_last_checked (en_current_frame e) (en_current_subframe e) (fl_sched st)"
    using run by (auto simp: record_round_def ie Option.bind_eq_Some_conv)
  have ok: "round_ok (f, sf, e, vars)" using assms(5) i by (auto simp: list_all_iff ie)
  have no: "\<not> (free_for_new_data e r k p \<and> sent_on st r k p)" using quiet st(1) by (simp add: sends_new_data_def ie)
  note R = round_memory [OF assms(1) conjunct1 [OF x] ok st(1)]
  show "sched_ok y \<and> rec_holds (\<lambda>s. get_ndi s k p = N) r y"
    unfolding st(2)
    using sched_ok_last_checked [OF R(1)] rec_same [OF R(5) [OF no conjunct2 [OF x]] set_last_checked_same] by blast
qed (use assms(4,6) in simp)

text \<open>
  C8: new data on a process is announced. Let a round send \<open>d\<close> on a HARQ process. In any number of later rounds the
  process may be busy, repeat its block, or be free with nothing to send, as long as none of them sends new data on
  it; let the round after them find the last block received and send \<open>d'\<close> on the process. The new-data indicator
  of \<open>d'\<close> is one minus that of \<open>d\<close>, and differs from it whatever the indicators started from, so the UE
  empties its buffer.
\<close>

theorem new_data_is_announced:
  assumes "std_sort srt" and "sched_ok sched"
    and "round_ok (f, sf, e, vars)" and "schedule_agent srt f sf e sched vars = Some st"
    and "d \<in> set (fl_data st)" and "for_process d r k p" and "list_all round_ok later"
    and "along (\<lambda>s i. \<not> sends_new_data srt r k p s i) (record_round srt) (set_last_checked lf lsf (fl_sched st)) later"
    and "foldo (record_round srt) (set_last_checked lf lsf (fl_sched st)) later = Some sched'"
    and "round_ok (f', sf', e', vars')" and "free_for_new_data e' r k p"
    and "schedule_agent srt f' sf' e' sched' vars' = Some st'"
    and "d' \<in> set (fl_data st')" and "for_process d' r k p"
  shows "\<exists>v :: u8. map_option dci_ndi (dd_dl_dci d) = Some [ucast v] \<and>
     map_option dci_ndi (dd_dl_dci d') = Some [ucast (1 - v)] \<and> v \<noteq> 1 - v"
proof -
  note R = round_memory [OF assms(1-4)]
  obtain s where s: "sm_inv (es_scheduling_info (fl_sched st))" "get_ue_scheduling_info (fl_sched st) r = Some s"
    "data_codes (harq_memory s k p) d"
    using R(2) [OF assms(5,6)] by (auto simp: rec_holds_def)
  define M where "M = harq_memory s k p"
  have M: "data_codes M d" "rec_holds (\<lambda>s. harq_memory s k p = M) r (fl_sched st)"
    using s by (simp_all add: rec_holds_def M_def)
  obtain v where v: "fst (snd M) = Some v" "map_option dci_ndi (dd_dl_dci d) = Some [ucast v]"
    using M(1) by (auto simp: data_codes_def tx_codes_def)
  have "rec_holds (\<lambda>s. get_ndi s k p = Some v) r (fl_sched st)"
    using M(2) v(1) by (auto simp: rec_holds_def harq_memory_def)
  from rounds_ndi [OF assms(1,9,8) sched_ok_last_checked [OF R(1)] assms(7) rec_same [OF this set_last_checked_same]]
  have ok: "sched_ok sched'" and N: "rec_holds (\<lambda>s. get_ndi s k p = Some v) r sched'" by blast+
  have "map_option dci_ndi (dd_dl_dci d') = Some [ucast (1 - v)]"
    by (rule round_memory(4) [OF assms(1) ok assms(10,12,13,14,11) N])
  moreover have "v \<noteq> 1 - v"
  proof
    assume "v = 1 - v"
    then have "bit (v + v) 0 = bit (1 :: u8) 0" by (metis diff_add_cancel)
    then show False by (simp add: bit_0)
  qed
  ultimately show ?thesis using v(2) by blast
qed

text \<open>
  A UE with 5 bytes queued is served on process 0, then, while process 0 is busy, on process 1, and then
  process 0 asks to repeat. The size of four blocks at scheme 0 is looked up once, so that the rounds can be evaluated.
\<close>

lemma TBS_four_blocks [code]:
  "get_TBS_DL mcs nb_rb =
     (if mcs = 0 \<and> nb_rb = 4 then Some 11
      else if nb_rb > 0 \<and> mcs < 29
      then do { TBS \<leftarrow> aget2 TBStable (unat (get_I_TBS mcs)) (unat (nb_rb - 1)); Some (drop_bit 3 (of_nat TBS)) }
      else Some 0)"
proof -
  have "TBStable ! 0 ! 3 = 88" by (simp add: TBStable_def)
  then have "get_TBS_DL 0 4 = Some 11" using get_TBS_DL_value [of 4 0] by (simp add: tbs_bytes_def get_I_TBS_def)
  then show ?thesis by (auto simp: get_TBS_DL_def)
qed

definition queued_mac :: ue_mac_rib_info where
  "queued_mac = (new_ue_mac_rib_info 0 7)
     \<lparr>um_mac_stats_report := empty_ue_stats_report
        \<lparr>us_rlc_report := [\<lparr>rb_lc_id = 3, rb_tx_queue_size = Some 5, rb_tx_queue_hol_delay = None\<rparr>]\<rparr>\<rparr>"

text \<open>Process 0 of the first carrier busy, and with a status that asks to repeat.\<close>

definition busy_mac :: ue_mac_rib_info where
  "busy_mac = queued_mac\<lparr>um_active_harq := (um_active_harq queued_mac)[0 := (um_active_harq queued_mac ! 0)[0 := [False, False]]]\<rparr>"

definition nack_mac :: ue_mac_rib_info where
  "nack_mac = queued_mac\<lparr>um_harq_stats := (um_harq_stats queued_mac)[0 := (um_harq_stats queued_mac ! 0)[0 := [1, 0]]]\<rparr>"

text \<open>Process 0 free, and nothing queued.\<close>

definition idle_mac :: ue_mac_rib_info where
  "idle_mac = (new_ue_mac_rib_info 0 7)\<lparr>um_mac_stats_report := empty_ue_stats_report\<rparr>"

definition one_ue_enb :: "ue_mac_rib_info \<Rightarrow> enb_rib_info" where
  "one_ue_enb u = (new_enb_rib_info zero_junk 0 1)
     \<lparr>en_ue_mac_info := [(7, u)], en_ue_config := \<lparr>ur_header = no_header, ur_ue_config = [sample_ue_config 7]\<rparr>,
      en_lc_config := \<lparr>lr_header = no_header, lr_lc_ue_config = [\<lparr>lu_rnti = 7, lu_lc_config = []\<rparr>]\<rparr>,
      en_eNB_config := \<lparr>er_header = no_header, er_eNB_id = 1, er_cell_config = [sample_cell]\<rparr>\<rparr>"

lemma one_ue_ready:
  assumes "ue_mac_wf u" and "find_csi sample_cell (um_mac_stats_report u) = None"
  shows "cells_ready (one_ue_enb u)"
proof -
  have find: "sm_find (en_ue_mac_info (one_ue_enb u)) = [7 \<mapsto> u]"
    by (simp add: one_ue_enb_def sm_find_def fun_eq_iff)
  have new: "enb_wf (new_enb_rib_info zero_junk 0 1)" by (rule enb_wf_new)
  have "enb_wf (one_ue_enb u)"
    using enb_wfD [OF new] assms(1)
    by (intro enb_wfI) (auto simp: find split: if_splits, simp_all add: one_ue_enb_def sm_inv_def)
  moreover have "ue_view_consistent (one_ue_enb u)"
    unfolding ue_view_consistent_def find by (simp add: one_ue_enb_def sample_ue_config_def)
  ultimately show ?thesis
    using assms(2) find
    by (simp add: cells_ready_def cell_ready_def cell_ues_def get_ue_mac_info_def csi_mcs_def)
       (simp add: one_ue_enb_def sample_cell_def sample_ue_config_def csi_mcs_def get_ue_mac_info_def sm_find_def)
qed

lemma sample_macs_ready:
  "cells_ready (one_ue_enb queued_mac)" "cells_ready (one_ue_enb busy_mac)" "cells_ready (one_ue_enb nack_mac)"
  "cells_ready (one_ue_enb idle_mac)"
proof -
  have csi: "find_csi sample_cell (um_mac_stats_report queued_mac) = None"
    by (simp add: find_csi_def queued_mac_def empty_ue_stats_report_def)
  have "ue_mac_wf queued_mac" by code_simp
  then show "cells_ready (one_ue_enb queued_mac)" using csi by (rule one_ue_ready)
  have "ue_mac_wf busy_mac" by code_simp
  then show "cells_ready (one_ue_enb busy_mac)" using csi by (intro one_ue_ready) (simp_all add: busy_mac_def)
  have "ue_mac_wf nack_mac" by code_simp
  then show "cells_ready (one_ue_enb nack_mac)" using csi by (intro one_ue_ready) (simp_all add: nack_mac_def)
  have "ue_mac_wf idle_mac" by code_simp
  then show "cells_ready (one_ue_enb idle_mac)"
    by (rule one_ue_ready) (simp add: find_csi_def idle_mac_def empty_ue_stats_report_def)
qed

definition first_round :: "flex_state option" where
  "first_round = schedule_agent insertion_sort 3 1 (one_ue_enb queued_mac) (new_enb_scheduling_info zero_junk 1) (start_vars zero_junk 0)"

definition busy_rounds :: "round_input list" where
  "busy_rounds = [(3, 2, one_ue_enb busy_mac, start_vars zero_junk 0)]"

text \<open>A round with the process busy, and one in which it is free with nothing to send.\<close>

definition quiet_rounds :: "round_input list" where
  "quiet_rounds = [(3, 2, one_ue_enb busy_mac, start_vars zero_junk 0), (3, 7, one_ue_enb idle_mac, start_vars zero_junk 0)]"

definition quiet_records :: "flex_state \<Rightarrow> enb_scheduling_info option" where
  "quiet_records st = foldo (record_round insertion_sort) (set_last_checked 3 1 (fl_sched st)) quiet_rounds"

definition quiet :: "flex_state \<Rightarrow> bool" where
  "quiet st \<longleftrightarrow> along (\<lambda>s i. \<not> sends_new_data insertion_sort 7 0 0 s i) (record_round insertion_sort)
     (set_last_checked 3 1 (fl_sched st)) quiet_rounds"

definition later_records :: "flex_state \<Rightarrow> enb_scheduling_info option" where
  "later_records st = foldo (record_round insertion_sort) (set_last_checked 3 1 (fl_sched st)) busy_rounds"

definition nack_round :: "enb_scheduling_info \<Rightarrow> flex_state option" where
  "nack_round sched = schedule_agent insertion_sort 3 9 (one_ue_enb nack_mac) sched (start_vars zero_junk 0)"

definition ack_round :: "enb_scheduling_info \<Rightarrow> flex_state option" where
  "ack_round sched = schedule_agent insertion_sort 3 9 (one_ue_enb queued_mac) sched (start_vars zero_junk 0)"

lemma sample_rounds_run:
  "map_option (\<lambda>(st, st'). (list_ex (\<lambda>d. for_process d 7 0 0) (fl_data st), list_ex (\<lambda>d. for_process d 7 0 0) (fl_data st')))
     (do { st \<leftarrow> first_round; sched \<leftarrow> later_records st; st' \<leftarrow> nack_round sched; Some (st, st') }) = Some (True, True)"
  by code_simp

lemma sample_ack_run:
  "map_option (\<lambda>(st, st'). (quiet st, list_ex (\<lambda>d. for_process d 7 0 0) (fl_data st), list_ex (\<lambda>d. for_process d 7 0 0) (fl_data st')))
     (do { st \<leftarrow> first_round; sched \<leftarrow> quiet_records st; st' \<leftarrow> ack_round sched; Some (st, st') }) = Some (True, True, True)"
  by code_simp

lemma sample_rounds_keep:
  "\<not> free_for_new_data (one_ue_enb busy_mac) 7 0 0" "\<not> free_for_new_data (one_ue_enb nack_mac) 7 0 0"
  "free_for_new_data (one_ue_enb queued_mac) 7 0 0" "free_for_new_data (one_ue_enb idle_mac) 7 0 0"
  by code_simp+

lemma sample_rounds_ok:
  "round_ok (3, 1, one_ue_enb queued_mac, start_vars zero_junk 0)" "list_all round_ok busy_rounds"
  "round_ok (3, 9, one_ue_enb nack_mac, start_vars zero_junk 0)"
  "round_ok (3, 9, one_ue_enb queued_mac, start_vars zero_junk 0)"
  "list_all (\<lambda>(f, sf, e, vars). \<not> free_for_new_data e 7 0 0) busy_rounds" "list_all round_ok quiet_rounds"
  using sample_macs_ready sample_rounds_keep(1)
  by (simp_all add: round_ok_def busy_rounds_def quiet_rounds_def start_vars_def)

lemma retransmission_witness:
  "\<exists>st d sched' st' d'. first_round = Some st \<and> d \<in> set (fl_data st) \<and> for_process d 7 0 0 \<and>
     later_records st = Some sched' \<and> nack_round sched' = Some st' \<and> d' \<in> set (fl_data st') \<and>
     for_process d' 7 0 0 \<and> same_coding d d'"
proof -
  obtain st sched' st' d d' where run: "first_round = Some st" "later_records st = Some sched'" "nack_round sched' = Some st'"
    and d: "d \<in> set (fl_data st)" "for_process d 7 0 0" and d': "d' \<in> set (fl_data st')" "for_process d' 7 0 0"
    using sample_rounds_run by (auto simp: Option.bind_eq_Some_conv list_ex_iff)
  have "same_coding d d'"
    by (rule retransmission_repeats [OF ins.std_sort_axioms sched_ok_new sample_rounds_ok(1) run(1) [unfolded first_round_def] d
          sample_rounds_ok(2,5) run(2) [unfolded later_records_def] sample_rounds_ok(3) sample_rounds_keep(2)
          run(3) [unfolded nack_round_def] d'])
  then show ?thesis using run d d' by blast
qed

lemma new_data_witness:
  "\<exists>st d sched' st' d'. first_round = Some st \<and> d \<in> set (fl_data st) \<and> for_process d 7 0 0 \<and>
     quiet_records st = Some sched' \<and> ack_round sched' = Some st' \<and> d' \<in> set (fl_data st') \<and>
     for_process d' 7 0 0 \<and> map_option dci_ndi (dd_dl_dci d') \<noteq> map_option dci_ndi (dd_dl_dci d)"
proof -
  obtain st sched' st' d d' where run: "first_round = Some st" "quiet_records st = Some sched'" "ack_round sched' = Some st'"
    and q: "quiet st"
    and d: "d \<in> set (fl_data st)" "for_process d 7 0 0" and d': "d' \<in> set (fl_data st')" "for_process d' 7 0 0"
    using sample_ack_run by (auto simp: Option.bind_eq_Some_conv list_ex_iff)
  obtain v :: u8 where v: "map_option dci_ndi (dd_dl_dci d) = Some [ucast v]"
    "map_option dci_ndi (dd_dl_dci d') = Some [ucast (1 - v)]" "v \<noteq> 1 - v"
    using new_data_is_announced [OF ins.std_sort_axioms sched_ok_new sample_rounds_ok(1) run(1) [unfolded first_round_def] d
          sample_rounds_ok(6) q [unfolded quiet_def] run(2) [unfolded quiet_records_def] sample_rounds_ok(4) sample_rounds_keep(3)
          run(3) [unfolded ack_round_def] d'] by blast
  then have "(ucast v :: u32) \<noteq> ucast (1 - v)" by (metis ucast_back(2))
  then have "map_option dci_ndi (dd_dl_dci d') \<noteq> map_option dci_ndi (dd_dl_dci d)" unfolding v(1,2) by simp
  then show ?thesis using run d d' by blast
qed

end
