(* ===== verification/RbgBudget.thy ===== *)
theory RbgBudget
  imports FlexCoding
begin

text \<open>
  The budget of a cell: what the preprocessor counts as available for the UEs of a cell never adds up to
  more than the resource blocks of the cell, and what a DCI names covers what was coded.
\<close>

section \<open>The blocks of a cell\<close>

lemma cell_blocks:
  assumes "cc_dl_bandwidth c \<in> {6, 25, 50, 100}"
  shows "(\<Sum>i < unat (get_nb_rbg c). unat (group_blocks c i)) = unat (cc_dl_bandwidth c)"
  using assms
  by (auto simp: group_blocks_value last_short_group_def get_nb_rbg_def get_min_rb_unit_def lessThan_nat_numeral lessThan_Suc)

definition available_blocks :: "flex_cell_config \<Rightarrow> enb_scheduling_info \<Rightarrow> rnti_t \<Rightarrow> nat" where
  "available_blocks c sched r =
     (case get_ue_scheduling_info sched r of
        None \<Rightarrow> 0
      | Some s \<Rightarrow> (case get_pre_nb_rbs_available s (cell_id16 c) of None \<Rightarrow> 0 | Some n \<Rightarrow> unat n))"

definition holds :: "flex_cell_config \<Rightarrow> enb_scheduling_info \<Rightarrow> rnti_t \<Rightarrow> nat \<Rightarrow> bool" where
  "holds c sched r i \<longleftrightarrow> (\<exists>s. get_ue_scheduling_info sched r = Some s \<and> owns c s i)"

lemma available_is_held:
  assumes "rbg_excl c R sched" and "sched_fits c q R sched" and "r \<in> R" and "unat (cell_id16 c) < MAX_NUM_CC"
  shows "available_blocks c sched r = (\<Sum>i < unat (get_nb_rbg c). if holds c sched r i then unat (group_blocks c i) else 0)"
proof -
  obtain s where s: "get_ue_scheduling_info sched r = Some s" using rbg_exclD(2) [OF assms(1,3)] by blast
  note fit = sched_fitsD(4) [OF assms(2) s assms(3)]
  have "available_blocks c sched r = blocks_held c (si_rballoc_sub s ! unat (cell_id16 c)) (unat (get_nb_rbg c))"
    using ue_read_total(4) [OF ue_fitsD(2) [OF fit] assms(4)] ue_fitsD(4) [OF fit]
    by (simp add: available_blocks_def s)
  also have "\<dots> = (\<Sum>i < unat (get_nb_rbg c). if holds c sched r i then unat (group_blocks c i) else 0)"
    unfolding blocks_held_def
    by (rule sum.cong) (use nb_rbg_le [of c] in \<open>auto simp: holds_def s owns_def\<close>)
  finally show ?thesis .
qed

lemma one_holder:
  assumes "rbg_excl c R sched" and "finite R"
  shows "(\<Sum>r \<in> R. if holds c sched r i then n else (0 :: nat)) \<le> n"
proof (cases "\<exists>r \<in> R. holds c sched r i")
  case True
  then obtain r where r: "r \<in> R" "holds c sched r i" by blast
  have "(if holds c sched q i then n else 0) = 0" if "q \<in> R - {r}" for q
    using that r rbg_exclD(4) [OF assms(1), of r q] by (auto simp: holds_def)
  then have "(\<Sum>q \<in> R - {r}. if holds c sched q i then n else 0) = 0" by simp
  then show ?thesis using sum.remove [OF assms(2) r(1), of "\<lambda>q. if holds c sched q i then n else 0"] r(2) by simp
qed (simp add: sum.neutral)

text \<open>
  C17: in a cell of 6, 25, 50 or 100 resource blocks the preprocessor, which returns when no two UEs tie in the sort,
  makes resource blocks available to the UEs of the cell that add up to at most the bandwidth of the cell. (With 15
  or 75 blocks the groups themselves add up to more: the short last group is only known for 25 and 50.)
\<close>

theorem blocks_within_bandwidth:
  assumes "std_sort srt" and "cell_ready c e" and "sched_fits c q {} sched"
    and "untied c e" and "cc_dl_bandwidth c \<in> {6, 25, 50, 100}"
  shows "\<exists>sched'. run_dlsch_scheduler_preprocessor srt c e frame subframe sched = Some sched' \<and>
     (\<Sum>r \<in> cell_rntis c e. available_blocks c sched' r) \<le> unat (cc_dl_bandwidth c)"
proof -
  let ?R = "cell_rntis c e" and ?N = "unat (get_nb_rbg c)"
  obtain sched' where run: "run_dlsch_scheduler_preprocessor srt c e frame subframe sched = Some sched'"
    and excl: "rbg_excl c ?R sched'" and fits: "sched_fits c q ?R sched'"
    using preprocessor_fits [OF assms(1-4)] by blast
  have fin: "finite ?R" by (simp add: cell_rntis_def)
  have "(\<Sum>r \<in> ?R. available_blocks c sched' r) =
      (\<Sum>r \<in> ?R. \<Sum>i < ?N. if holds c sched' r i then unat (group_blocks c i) else 0)"
    using available_is_held [OF excl fits _ cell_readyD(1) [OF assms(2)]] by simp
  also have "\<dots> = (\<Sum>i < ?N. \<Sum>r \<in> ?R. if holds c sched' r i then unat (group_blocks c i) else 0)"
    by (rule sum.swap)
  also have "\<dots> \<le> (\<Sum>i < ?N. unat (group_blocks c i))"
    by (intro sum_mono one_holder [OF excl fin])
  also have "\<dots> = unat (cc_dl_bandwidth c)" by (rule cell_blocks [OF assms(5)])
  finally show ?thesis using run by blast
qed

lemma new_info_fits: "sched_fits c (cce_fields (new_enb_scheduling_info jk a)) {} (new_enb_scheduling_info jk a)"
  by (simp add: sched_fits_def enb_sched_wf_new)
     (simp add: get_ue_scheduling_info_def new_enb_scheduling_info_def sm.find_empty)

lemma blocks_within_bandwidth_witness:
  "\<exists>sched'. run_dlsch_scheduler_preprocessor insertion_sort sample_cell loaded_enb 3 1
       (new_enb_scheduling_info zero_junk 1) = Some sched' \<and>
     available_blocks sample_cell sched' 7 + available_blocks sample_cell sched' 9 \<le> 25"
  using blocks_within_bandwidth [OF ins.std_sort_axioms loaded_enb_ready new_info_fits [of _ zero_junk 1] loaded_enb_untied, of 3 1]
  unfolding loaded_enb_rntis by (simp add: sample_cell_def)

section \<open>The groups of a transmission cover its blocks\<close>

text \<open>The row of the groups given to a process, and the blocks of its groups from \<open>j\<close> on.\<close>

definition given :: "flex_cell_config \<Rightarrow> u8 \<Rightarrow> ue_scheduling_info \<Rightarrow> u8 list" where
  "given c p s = si_rballoc_sub_scheduled s ! unat (cell_id16 c) ! unat p"

definition blocks_from :: "flex_cell_config \<Rightarrow> u8 list \<Rightarrow> nat \<Rightarrow> nat" where
  "blocks_from c row j = (\<Sum>i \<in> {j..<unat (get_nb_rbg c)}. if row ! i = 1 then unat (group_blocks c i) else 0)"

lemma blocks_from_end: "unat (get_nb_rbg c) \<le> j \<Longrightarrow> blocks_from c row j = 0"
  by (simp add: blocks_from_def)

lemma blocks_from_step:
  "j < unat (get_nb_rbg c) \<Longrightarrow>
   blocks_from c row j = (if row ! j = 1 then unat (group_blocks c j) else 0) + blocks_from c row (Suc j)"
  by (simp add: blocks_from_def sum.atLeast_Suc_lessThan)

lemma given_set:
  assumes "set_rballoc_sub_scheduled (cell_id16 c) p j v s = Some s'"
  shows "given c p s' ! i = (if i = j then v else given c p s ! i)"
  using assms
  by (auto simp: set_rballoc_sub_scheduled_def given_def Option.bind_eq_Some_conv access_iffs nth_list_update)

lemma rballoc_set:
  "set_rballoc_sub_scheduled (cell_id16 c) p j v s = Some s' \<Longrightarrow> si_rballoc_sub s' = si_rballoc_sub s"
  by (auto simp: set_rballoc_sub_scheduled_def Option.bind_eq_Some_conv)

abbreviation held_row :: "flex_cell_config \<Rightarrow> ue_scheduling_info \<Rightarrow> u8 list" where
  "held_row c s \<equiv> si_rballoc_sub s ! unat (cell_id16 c)"

lemma take_rballoc_keeps: "take_rballoc c p n j s = Some s' \<Longrightarrow> i < j \<Longrightarrow> given c p s' ! i = given c p s ! i"
proof (induction c p n j s rule: take_rballoc.induct)
  case (1 c p n j s)
  show ?case
    using 1 by (subst (asm) take_rballoc.simps [of c p n j s])
      (auto simp: Option.bind_eq_Some_conv given_set split: if_splits)
qed

lemma take_rballoc_covers:
  assumes "take_rballoc c p n j s = Some s'" and "unat n \<le> blocks_from c (held_row c s) j"
  shows "unat n \<le> blocks_from c (given c p s') j"
  using assms
proof (induction "unat (get_nb_rbg c) - j" arbitrary: n j s)
  case 0
  then show ?case by (simp add: blocks_from_end)
next
  case (Suc m)
  then have j: "j < unat (get_nb_rbg c)" and m: "m = unat (get_nb_rbg c) - Suc j" by linarith+
  let ?g = "unat (group_blocks c j)"
  show ?case
  proof (cases "n = 0")
    case False
    then have pos: "n > 0" by (simp add: word_gt_0)
    obtain v where v: "get_rballoc_sub s (cell_id16 c) j = Some v" "v = held_row c s ! j"
      using Suc.prems(1) pos j
      by (subst (asm) take_rballoc.simps) (auto simp: Option.bind_eq_Some_conv get_rballoc_sub_def access_iffs)
    show ?thesis
    proof (cases "v = 1")
      case True
      obtain s1 where s1: "set_rballoc_sub_scheduled (cell_id16 c) p j 1 s = Some s1"
        "take_rballoc c p (n - group_blocks c j) (Suc j) s1 = Some s'"
        using Suc.prems(1) pos j v True
        by (subst (asm) take_rballoc.simps) (auto simp: Option.bind_eq_Some_conv)
      have row: "held_row c s1 = held_row c s" by (simp add: rballoc_set [OF s1(1)])
      have taken: "given c p s' ! j = 1" by (simp add: take_rballoc_keeps [OF s1(2)] given_set [OF s1(1)])
      show ?thesis
      proof (cases "?g \<le> unat n")
        case le: True
        then have sub: "unat (n - group_blocks c j) = unat n - ?g" by (simp add: unat_sub word_le_nat_alt)
        have "unat (n - group_blocks c j) \<le> blocks_from c (held_row c s1) (Suc j)"
          using Suc.prems(2) v \<open>v = 1\<close> by (simp add: sub row blocks_from_step [OF j])
        from Suc.hyps(1) [OF m s1(2) this] show ?thesis by (simp add: sub blocks_from_step [OF j] taken)
      next
        case False
        then show ?thesis by (simp add: blocks_from_step [OF j] taken)
      qed
    next
      case False
      have "take_rballoc c p n (Suc j) s = Some s'"
        using Suc.prems(1) pos j v False by (subst (asm) take_rballoc.simps) simp
      moreover have "unat n \<le> blocks_from c (held_row c s) (Suc j)"
        using Suc.prems(2) v False by (simp add: blocks_from_step [OF j])
      ultimately show ?thesis using Suc.hyps(1) [OF m] by (simp add: blocks_from_step [OF j] trans_le_add2)
    qed
  qed simp
qed

lemma copy_groups_given:
  assumes "foldo (copy_group (cell_id16 c) p) s js = Some s'"
  shows "held_row c s' = held_row c s \<and> (\<forall>i. given c p s' ! i = (if i \<in> set js then held_row c s ! i else given c p s ! i))"
  using assms
proof (induction js arbitrary: s)
  case (Cons j js)
  obtain s1 where step: "copy_group (cell_id16 c) p s j = Some s1"
    and rest: "foldo (copy_group (cell_id16 c) p) s1 js = Some s'"
    using Cons.prems by (auto simp: Option.bind_eq_Some_conv)
  obtain v where v: "get_rballoc_sub s (cell_id16 c) j = Some v"
    and s1: "set_rballoc_sub_scheduled (cell_id16 c) p j v s = Some s1"
    using step by (auto simp: copy_group_def Option.bind_eq_Some_conv)
  have "v = held_row c s ! j" using v by (simp add: get_rballoc_sub_def access_iffs)
  then show ?case
    using Cons.IH [OF rest] given_set [OF s1] rballoc_set [OF s1] by auto
qed simp

lemma held_is_from:
  assumes "ue_fits c s"
  shows "unat (si_pre_nb_rbs_available s ! unat (cell_id16 c)) = blocks_from c (held_row c s) 0"
proof -
  have "held_row c s ! i \<noteq> 0 \<longleftrightarrow> held_row c s ! i = 1" if "i < unat (get_nb_rbg c)" for i
    using that nb_rbg_le [of c] ue_fitsD(3) [OF assms, of i] by auto
  then show ?thesis
    unfolding ue_fitsD(4) [OF assms] blocks_held_def blocks_from_def atLeast0LessThan by (intro sum.cong) auto
qed

lemma give_groups_covers:
  assumes "ue_fits c s" and "give_groups c p nb_rb (si_pre_nb_rbs_available s ! unat (cell_id16 c)) s = Some s'"
    and "nb_rb \<le> si_pre_nb_rbs_available s ! unat (cell_id16 c)"
  shows "unat nb_rb \<le> blocks_from c (given c p s') 0"
proof (cases "nb_rb = si_pre_nb_rbs_available s ! unat (cell_id16 c)")
  case True
  then have "foldo (copy_group (cell_id16 c) p) s [0..<unat (get_nb_rbg c)] = Some s'"
    using assms(2) by (simp add: give_groups_def copy_rballoc_def)
  from copy_groups_given [OF this] have "blocks_from c (given c p s') 0 = blocks_from c (held_row c s) 0"
    unfolding blocks_from_def by (intro sum.cong) auto
  then show ?thesis using True held_is_from [OF assms(1)] by simp
next
  case False
  then have "take_rballoc c p nb_rb 0 s = Some s'" using assms(2) by (simp add: give_groups_def)
  then show ?thesis
    using take_rballoc_covers held_is_from [OF assms(1)] assms(3) by (simp add: word_le_nat_alt)
qed

text \<open>The blocks a bitmap names.\<close>

definition bitmap_blocks :: "flex_cell_config \<Rightarrow> u32 \<Rightarrow> nat" where
  "bitmap_blocks c w = (\<Sum>i < unat (get_nb_rbg c). if bit w (unat (get_nb_rbg c) - 1 - i) then unat (group_blocks c i) else 0)"

lemma rbg_size_blocks:
  "cc_dl_bandwidth c \<in> {6, 25, 50, 100} \<Longrightarrow> rbg_size c i = int (unat (group_blocks c i))"
  by (auto simp: rbg_size_def group_blocks_value last_short_group_def get_min_rb_unit_def)

lemma covered_sum:
  assumes "cc_dl_bandwidth c \<in> {6, 25, 50, 100}"
  shows "covered c row k = int (\<Sum>i < k. if row ! i = 1 then unat (group_blocks c i) else 0)"
  by (induction k) (simp_all add: rbg_size_blocks [OF assms])

lemma bitmap_blocks_covered:
  assumes "cc_dl_bandwidth c \<in> {6, 25, 50, 100}" and "bitmap_of c row k w" and "k \<le> unat (get_nb_rbg c)"
  shows "int (bitmap_blocks c w) = covered c row k"
proof -
  let ?N = "unat (get_nb_rbg c)"
  have bit: "bit w (?N - Suc i) \<longleftrightarrow> i < k \<and> row ! i = 1" if "i < ?N" for i
    using assms(2) that by (auto simp: bitmap_of_def)
  have "bitmap_blocks c w = (\<Sum>i < ?N. if i < k \<and> row ! i = 1 then unat (group_blocks c i) else 0)"
    unfolding bitmap_blocks_def by (rule sum.cong) (simp_all add: bit)
  also have "\<dots> = (\<Sum>i < k. if row ! i = 1 then unat (group_blocks c i) else 0)"
    by (rule sum.mono_neutral_cong_right) (use assms(3) in auto)
  finally show ?thesis by (simp add: covered_sum [OF assms(1)])
qed

text \<open>
  C16: in a cell of 6, 25, 50 or 100 resource blocks, when the blocks of a transmission are not more than those counted
  as available for the UE, the groups chosen for it and encoded into the bitmap of its DCI hold at least that many
  blocks, and all of them are groups the UE holds, also where the 16-bit count of the blocks left runs below zero.
  (The search for blocks does not keep to the available ones at scheme 0, where it starts at four.)
\<close>

theorem dci_covers_blocks:
  assumes "ue_fits c s" and "unat (cell_id16 c) < MAX_NUM_CC" and "unat p < MAX_NUM_HARQ"
    and "cc_dl_bandwidth c \<in> {6, 25, 50, 100}"
    and "get_pre_nb_rbs_available s (cell_id16 c) = Some av" and "nb_rb \<le> av"
  shows "\<exists>s' row w. give_groups c p nb_rb av s = Some s' \<and> get_rballoc_sub_scheduled s' (cell_id16 c) p = Some row \<and>
     allocate_prbs_sub (uint nb_rb) row c = Some w \<and> unat nb_rb \<le> bitmap_blocks c w \<and>
     {b. bit w b} \<subseteq> {b. owns c s (unat (get_nb_rbg c) - 1 - b)}"
proof -
  let ?N = "unat (get_nb_rbg c)"
  obtain s' where s': "give_groups c p nb_rb av s = Some s'" "same_groups c s s'"
    using give_groups_ok [OF assms(1-3)] by blast
  have fit: "ue_fits c s'" and same: "si_rballoc_sub s' = si_rballoc_sub s"
    using s'(2) by (simp_all add: same_groups_def)
  have av: "av = si_pre_nb_rbs_available s ! unat (cell_id16 c)"
    using assms(5) by (simp add: get_pre_nb_rbs_available_def access_iffs)
  have row: "get_rballoc_sub_scheduled s' (cell_id16 c) p = Some (given c p s')" "length (given c p s') = 25"
    using ue_fitsD(2) [OF fit] assms(2,3) by (simp_all add: get_rballoc_sub_scheduled_def given_def arr_simps)
  obtain w k where w: "allocate_prbs_sub (uint nb_rb) (given c p s') c = Some w" "k \<le> ?N" "bitmap_of c (given c p s') k w"
    "k < ?N \<longrightarrow> uint nb_rb \<le> covered c (given c p s') k"
    using allocate_prbs_sub_spec [of c "given c p s'" "uint nb_rb"] nb_rbg_le [of c] row(2) by auto
  have "unat nb_rb \<le> blocks_from c (given c p s') 0"
    using give_groups_covers [OF assms(1)] s'(1) assms(6) by (simp add: av)
  moreover have "int (blocks_from c (given c p s') 0) = covered c (given c p s') ?N"
    by (simp only: covered_sum [OF assms(4)] blocks_from_def atLeast0LessThan)
  ultimately have all: "uint nb_rb \<le> covered c (given c p s') ?N" by (metis of_nat_le_iff uint_nat)
  have "uint nb_rb \<le> covered c (given c p s') k" using w(2,4) all by (cases "k < ?N") simp_all
  then have "unat nb_rb \<le> bitmap_blocks c w"
    unfolding bitmap_blocks_covered [OF assms(4) w(3,2), symmetric] by (metis of_nat_le_iff uint_nat)
  moreover have "owns c s (?N - 1 - b)" if "bit w b" for b
  proof -
    have b: "b < ?N" "given c p s' ! (?N - 1 - b) = 1" using w(3) that by (auto simp: bitmap_of_def)
    then have "?N - 1 - b < N_RBG_MAX" using nb_rbg_le [of c] by linarith
    then show ?thesis
      using ue_fitsD(6) [OF fit assms(3), of "?N - 1 - b"] b(2) same by (auto simp: given_def owns_def)
  qed
  ultimately show ?thesis using s'(1) row(1) w(1) by auto
qed

text \<open>A UE with three groups of two blocks that is sent three blocks: the count of the blocks left wraps around.\<close>

definition three_groups :: ue_scheduling_info where
  "three_groups = (new_ue_scheduling_info 7)
     \<lparr>si_rballoc_sub := [[1, 0, 1, 1] @ replicate 21 0, replicate 25 0], si_pre_nb_rbs_available := [6, 0]\<rparr>"

lemma three_groups_fits: "ue_fits sample_cell three_groups"
proof -
  have "ue_sched_wf three_groups"
    using ue_sched_wf_new [of 7] by (simp add: ue_sched_wf_def three_groups_def dim2_def)
  moreover have "\<forall>i < 25. (si_rballoc_sub three_groups ! 0) ! i = 0 \<or> (si_rballoc_sub three_groups ! 0) ! i = 1"
    by (simp add: three_groups_def nth_Cons' )
  moreover have "blocks_held sample_cell (si_rballoc_sub three_groups ! 0) 13 = 6"
    by (simp add: blocks_held_def three_groups_def lessThan_nat_numeral lessThan_Suc nth_Cons' group_blocks_value
        last_short_group_def sample_cell_def get_nb_rbg_def get_min_rb_unit_def)
  ultimately show ?thesis
    by (simp add: ue_fits_def blocks_ok_def sample_cell_def get_nb_rbg_def)
       (simp add: three_groups_def new_ue_scheduling_info_def nth_Cons')
qed

lemma dci_covers_blocks_witness:
  "\<exists>s' row w. give_groups sample_cell 2 3 6 three_groups = Some s' \<and> get_rballoc_sub_scheduled s' 0 2 = Some row \<and>
     allocate_prbs_sub 3 row sample_cell = Some w \<and> 3 \<le> bitmap_blocks sample_cell w"
  using dci_covers_blocks [OF three_groups_fits, of 2 6 3]
  by (auto simp: sample_cell_def get_pre_nb_rbs_available_def three_groups_def aget_def)

end
