(* ===== verification/LinkAdaptation.thy ===== *)
theory LinkAdaptation
  imports FlexCoding
begin

text \<open>
  The number of blocks and the coding scheme the central scheduler chooses for a payload, against their
  specification: the fewest blocks that hold it, then the smallest transport block that holds it.
\<close>

section \<open>The table of transport block sizes\<close>

text \<open>
  In every column but the first the sizes grow with the index. In the first column they do not: with one
  block the seventh row has 328 bits, the eighth 104, as in the table of the standard.
\<close>

lemma TBStable_grows: "list_all (\<lambda>(r, r'). list_all2 (\<le>) (tl r) (tl r')) (zip TBStable (tl TBStable))"
  by (simp add: TBStable_def)

lemma TBStable_step:
  assumes "Suc i < 27" and "0 < j" and "j < 110"
  shows "TBStable ! i ! j \<le> TBStable ! Suc i ! j"
proof -
  have len: "length TBStable = 27" "length (TBStable ! i) = 110" "length (TBStable ! Suc i) = 110"
    using dim2_TBStable assms(1) by (simp_all add: dim_lengths)
  then have "list_all2 (\<le>) (tl (TBStable ! i)) (tl (TBStable ! Suc i))"
    using TBStable_grows assms(1) by (auto simp: list_all_length nth_tl)
  then have "tl (TBStable ! i) ! (j - 1) \<le> tl (TBStable ! Suc i) ! (j - 1)"
    by (rule list_all2_nthD) (use len assms in simp)
  then show ?thesis using len assms by (simp add: nth_tl)
qed

lemma TBStable_mono:
  assumes "i \<le> k" and "k < 27" and "0 < j" and "j < 110"
  shows "TBStable ! i ! j \<le> TBStable ! k ! j"
  using assms(1,2)
proof (induction rule: dec_induct)
  case (step n)
  then show ?case using TBStable_step [of n j] assms(3,4) by simp
qed simp

lemma I_TBS_mono:
  assumes "m \<le> n" and "n < 29"
  shows "unat (get_I_TBS (of_nat m)) \<le> unat (get_I_TBS (of_nat n))"
proof -
  have small: "unat (of_nat k :: u8) = k" if "k < 29" for k
    using that by (simp add: unsigned_of_nat take_bit_nat_eq_self)
  have val: "unat (get_I_TBS (of_nat k)) =
      (if k < 10 then k else if k = 10 then 9 else if k < 17 then k - 1 else if k = 17 then 15 else k - 2)" if "k < 29" for k
    using small [OF that] that
    by (auto simp: get_I_TBS_def word_less_nat_alt word_unat_eq_iff unat_sub_if_size word_size)
  show ?thesis using val [of m] val [OF assms(2)] assms by auto
qed

text \<open>The sizes in bytes of the transport blocks of \<open>n\<close> resource blocks.\<close>

abbreviation tbs :: "nat \<Rightarrow> int \<Rightarrow> int" where
  "tbs n m \<equiv> int (tbs_bytes m n)"

lemma tbs_mono:
  assumes "0 \<le> m" and "m \<le> k" and "k \<le> 28" and "2 \<le> n" and "n \<le> 110"
  shows "tbs n m \<le> tbs n k"
proof -
  have n: "unat (of_nat n :: u16) = n" using assms(5) by (simp add: unsigned_of_nat take_bit_nat_eq_self)
  have val: "tbs_bytes (int j) n = TBStable ! unat (get_I_TBS (of_nat j)) ! (n - 1) div 8" if "j < 29" for j
  proof -
    have lt: "(of_nat j :: u8) < 29" using that by (simp add: word_less_nat_alt unsigned_of_nat take_bit_nat_eq_self)
    let ?t = "TBStable ! unat (get_I_TBS (of_nat j)) ! (n - 1)"
    have "?t \<le> 75376" using TBStable_bound I_TBS_range [OF lt] assms(4,5) by simp
    then have "?t div 8 \<le> 9422" by simp
    then show ?thesis
      using get_TBS_DL_value [of "of_nat n" "of_nat j"] lt n assms(4,5)
      by (simp add: tbs_bytes_def unsigned_of_nat take_bit_nat_eq_self)
  qed
  have lt: "(of_nat i :: u8) < 29" if "i < 29" for i
    using that by (simp add: word_less_nat_alt unsigned_of_nat take_bit_nat_eq_self)
  have k: "nat k < 29" using assms(1-3) by simp
  have "TBStable ! unat (get_I_TBS (of_nat (nat m))) ! (n - 1) \<le> TBStable ! unat (get_I_TBS (of_nat (nat k))) ! (n - 1)"
    by (rule TBStable_mono) (use I_TBS_mono [of "nat m" "nat k"] I_TBS_range [OF lt [OF k]] assms in auto)
  then show ?thesis using val [of "nat m"] val [of "nat k"] assms(1-3) by (simp add: div_le_mono)
qed

section \<open>The coding scheme\<close>

lemma tbs_read:
  assumes "unat n \<le> 110"
  shows "\<exists>t. get_TBS_DL (word_of_int m) n = Some t \<and> uint (ucast t :: u16) = tbs (unat n) m"
  using tbs_bytes_value [OF assms, of m] by simp

lemma lower_mcs_spec:
  assumes "unat nb \<le> 110" and "0 \<le> mcs" and "uint TBS = tbs (unat nb) mcs"
  shows "\<exists>m t. lower_mcs nb wanted mcs TBS = Some (m, t) \<and> 0 \<le> m \<and> m \<le> mcs \<and> uint t = tbs (unat nb) m \<and>
     (tbs (unat nb) m \<le> wanted \<or> m = 0)"
  using assms
proof (induction nb wanted mcs TBS rule: lower_mcs.induct)
  case (1 nb wanted mcs TBS)
  show ?case
  proof (cases "uint TBS > wanted \<and> mcs > 0")
    case True
    obtain t where t: "get_TBS_DL (word_of_int (mcs - 1)) nb = Some t" "uint (ucast t :: u16) = tbs (unat nb) (mcs - 1)"
      using tbs_read [OF 1(2)] by blast
    from 1(1) [OF True, of t] 1(2) t True obtain m t' where
      "lower_mcs nb wanted (mcs - 1) (ucast t) = Some (m, t')" "0 \<le> m" "m \<le> mcs - 1" "uint t' = tbs (unat nb) m"
      "tbs (unat nb) m \<le> wanted \<or> m = 0" by auto
    then show ?thesis using True t(1) by (subst lower_mcs.simps) auto
  next
    case False
    then show ?thesis using 1(3,4) by (subst lower_mcs.simps) auto
  qed
qed

lemma raise_mcs_spec:
  assumes "unat nb \<le> 110" and "mcs \<le> 28" and "uint TBS = tbs (unat nb) mcs"
  shows "\<exists>m t. raise_mcs nb wanted mcs TBS = Some (m, t) \<and> mcs \<le> m \<and> m \<le> 28 \<and> uint t = tbs (unat nb) m \<and>
     (wanted \<le> tbs (unat nb) m \<or> m = 28) \<and> (\<forall>k. mcs \<le> k \<longrightarrow> k < m \<longrightarrow> tbs (unat nb) k < wanted)"
  using assms
proof (induction nb wanted mcs TBS rule: raise_mcs.induct)
  case (1 nb wanted mcs TBS)
  show ?case
  proof (cases "uint TBS < wanted \<and> mcs < 28")
    case True
    obtain t where t: "get_TBS_DL (word_of_int (mcs + 1)) nb = Some t" "uint (ucast t :: u16) = tbs (unat nb) (mcs + 1)"
      using tbs_read [OF 1(2)] by blast
    from 1(1) [OF True, of t] 1(2) t True obtain m t' where
      m: "raise_mcs nb wanted (mcs + 1) (ucast t) = Some (m, t')" "mcs + 1 \<le> m" "m \<le> 28" "uint t' = tbs (unat nb) m"
      "wanted \<le> tbs (unat nb) m \<or> m = 28" "\<forall>k. mcs + 1 \<le> k \<longrightarrow> k < m \<longrightarrow> tbs (unat nb) k < wanted" by auto
    have "tbs (unat nb) k < wanted" if "mcs \<le> k" "k < m" for k
      using m(6) True 1(4) that by (cases "k = mcs") auto
    then show ?thesis using True t(1) m by (subst raise_mcs.simps) auto
  next
    case False
    then show ?thesis using 1(3,4) by (subst raise_mcs.simps) auto
  qed
qed

text \<open>The reference: the first coding scheme whose transport block holds the payload, or the last.\<close>

definition mcs_reference :: "nat \<Rightarrow> int \<Rightarrow> int" where
  "mcs_reference n wanted =
     (case List.find (\<lambda>m. wanted \<le> tbs n m) [0..28] of None \<Rightarrow> 28 | Some m \<Rightarrow> m)"

lemma mcs_reference_cases:
  obtains "0 \<le> mcs_reference n wanted" "mcs_reference n wanted \<le> 28" "wanted \<le> tbs n (mcs_reference n wanted)"
      "\<And>k. 0 \<le> k \<Longrightarrow> k < mcs_reference n wanted \<Longrightarrow> tbs n k < wanted"
    | "mcs_reference n wanted = 28" "\<And>k. 0 \<le> k \<Longrightarrow> k \<le> 28 \<Longrightarrow> tbs n k < wanted"
proof (cases "List.find (\<lambda>m. wanted \<le> tbs n m) [0..28]")
  case None
  then have "\<not> wanted \<le> tbs n k" if "0 \<le> k" "k \<le> 28" for k using that by (auto simp: find_None_iff)
  then show thesis using that(2) None by (simp add: mcs_reference_def not_le)
next
  case (Some m)
  then obtain i where i: "i < 29" "m = [0..28] ! i" "wanted \<le> tbs n m" "\<forall>j < i. \<not> wanted \<le> tbs n ([0..28] ! j)"
    by (auto simp: find_Some_iff)
  have nth: "[0..28 :: int] ! j = int j" if "j < 29" for j using nth_upto [of 0 j 28] that by simp
  have "tbs n k < wanted" if "0 \<le> k" "k < m" for k
  proof -
    have "nat k < i" using that i(1,2) nth by auto
    then show ?thesis using i(1,4) nth [of "nat k"] that(1) by auto
  qed
  then show thesis using that(1) Some i nth by (simp add: mcs_reference_def)
qed

text \<open>
  C15: the loops that lower and then raise the coding scheme, started at the scheme of the reported CQI, give the
  transport block of the reference search from the lowest scheme up, for any number of blocks from 2
  to 110: the smallest transport block that holds the payload, or the one of scheme 28. The scheme
  itself may differ where two schemes have the same transport block. (For a single block the table is not monotone:
  scheme 6 has 41 bytes, scheme 7 has 13, and the loops may end at either.)
\<close>

theorem choose_mcs_reference:
  assumes "2 \<le> unat nb_rb" and "unat nb_rb \<le> 110" and "0 \<le> mcs" and "mcs \<le> 28"
    and "uint TBS = tbs (unat nb_rb) mcs"
  shows "\<exists>m t. choose_mcs nb_rb wanted mcs TBS = Some (m, t) \<and> 0 \<le> m \<and> m \<le> 28 \<and>
     uint t = tbs (unat nb_rb) m \<and> tbs (unat nb_rb) m = tbs (unat nb_rb) (mcs_reference (unat nb_rb) wanted)"
proof -
  let ?f = "tbs (unat nb_rb)" and ?r = "mcs_reference (unat nb_rb) wanted"
  obtain m1 t1 where 1: "lower_mcs nb_rb wanted mcs TBS = Some (m1, t1)" "0 \<le> m1" "m1 \<le> mcs" "uint t1 = ?f m1"
    "?f m1 \<le> wanted \<or> m1 = 0"
    using lower_mcs_spec [OF assms(2,3,5)] by blast
  obtain m t where 2: "raise_mcs nb_rb wanted m1 t1 = Some (m, t)" "m1 \<le> m" "m \<le> 28" "uint t = ?f m"
    "wanted \<le> ?f m \<or> m = 28" "\<And>k. m1 \<le> k \<Longrightarrow> k < m \<Longrightarrow> ?f k < wanted"
    using raise_mcs_spec [OF assms(2) _ 1(4), of wanted] 1(3) assms(4) by auto
  note mono = tbs_mono [OF _ _ _ assms(1,2)]
  have "?f m = ?f ?r"
  proof (cases rule: mcs_reference_cases [of "unat nb_rb" wanted])
    case first: 1
    have "wanted \<le> ?f m" using 2(5) mono [of ?r 28] first(1-3) by auto
    then have "?r \<le> m" using first(4) [of m] 1(2) 2(2) by force
    moreover have "?f m \<le> ?f ?r"
    proof (cases "?r < m1")
      case True
      then have "?f m1 \<le> wanted" using 1(5) first(1) by auto
      moreover have "\<not> m1 < m" using 2(6) [of m1] mono [of ?r m1] True first(1,3) 2(2,3) by fastforce
      ultimately show ?thesis using first(3) 2(2) by auto
    next
      case False
      then show ?thesis using 2(6) [of ?r] first(3) \<open>?r \<le> m\<close> by force
    qed
    ultimately show ?thesis using mono [OF first(1) _ 2(3)] by force
  next
    case none: 2
    have "?f m < wanted" by (rule none(2)) (use 1(2) 2(2,3) in simp_all)
    then have "m = 28" using 2(5) by simp
    then show ?thesis using none(1) by simp
  qed
  then show ?thesis using 1(1,2) 2(1-4) by (simp add: choose_mcs_def)
qed

lemma tbs_6_11: "tbs 6 11 = 129"
proof -
  have "TBStable ! 10 ! 5 = 1032" by (simp add: TBStable_def)
  then show ?thesis
    using get_TBS_DL_value [of 6 11] by (simp add: tbs_bytes_def get_I_TBS_def)
qed

lemma choose_mcs_witness:
  "\<exists>m t. choose_mcs 6 101 11 129 = Some (m, t) \<and> uint t = tbs 6 m \<and> tbs 6 m = tbs 6 (mcs_reference 6 101)"
  using choose_mcs_reference [of 6 11 129 101] tbs_6_11 by auto

section \<open>The blocks\<close>

lemma fit_blocks_spec:
  assumes "unat av \<le> 110" and "unat nb \<le> 110" and "uint TBS = tbs (unat nb) mcs"
  shows "\<exists>n t. fit_blocks c mcs av wanted nb TBS = Some (n, t) \<and> uint t = tbs (unat n) mcs \<and>
     least_in_steps (unat (get_min_rb_unit c)) (unat av) mcs wanted (unat nb) (unat n)"
  using assms(2,3)
proof (induction "114 - unat nb" arbitrary: nb TBS rule: less_induct)
  case less
  let ?n = "nb + get_min_rb_unit c" and ?u = "unat (get_min_rb_unit c)"
  have n: "unat ?n = unat nb + ?u" using less.prems(1) min_rb_unit_pos [of c] by (simp add: unat_word_ariths)
  show ?case
  proof (cases "uint TBS < wanted")
    case False
    then show ?thesis
      using less.prems(2) least_in_steps_found [of wanted mcs "unat nb"] by (subst fit_blocks.simps) simp
  next
    case True
    then have short: "tbs (unat nb) mcs < wanted" using less.prems(2) by simp
    show ?thesis
    proof (cases "?n > av")
      case big: True
      obtain t where t: "get_TBS_DL (word_of_int mcs) av = Some t" "uint (ucast t :: u16) = tbs (unat av) mcs"
        using tbs_read [OF assms(1)] by blast
      have "least_in_steps ?u (unat av) mcs wanted (unat nb) (unat av)"
        by (rule least_in_steps_limit [OF short]) (use big n in \<open>simp add: word_less_nat_alt\<close>)
      then show ?thesis using True big t by (subst fit_blocks.simps) (simp add: Let_def)
    next
      case False
      then have le: "unat ?n \<le> unat av" by (simp add: word_less_nat_alt)
      then have le110: "unat ?n \<le> 110" using assms(1) by simp
      obtain t where t: "get_TBS_DL (word_of_int mcs) ?n = Some t" "uint (ucast t :: u16) = tbs (unat ?n) mcs"
        using tbs_read [OF le110] by blast
      have "114 - unat ?n < 114 - unat nb" using n le110 less.prems(1) min_rb_unit_pos [of c] by linarith
      from less.hyps [OF this le110 t(2)] obtain k tt where
        "fit_blocks c mcs av wanted ?n (ucast t) = Some (k, tt)" "uint tt = tbs (unat k) mcs"
        "least_in_steps ?u (unat av) mcs wanted (unat nb + ?u) (unat k)" unfolding n by blast
      then show ?thesis
        using True False t(1) least_in_steps_step [OF _ le [unfolded n] short]
        by (subst fit_blocks.simps) (simp add: Let_def)
    qed
  qed
qed

text \<open>
  C20: the number of blocks chosen for a payload is the first, in steps of the minimum unit, whose transport
  block holds the payload at the coding scheme of the reported CQI, and all available blocks when no
  such number exists; the size passed on to the choice of the coding scheme is the one of that block.
  Only the first candidate is not compared with the available blocks.
\<close>

theorem choose_blocks_least:
  assumes "unat av \<le> 110"
  shows "\<exists>n t. choose_blocks c mcs av wanted = Some (n, t) \<and> uint t = tbs (unat n) mcs \<and>
     least_in_steps (unat (get_min_rb_unit c)) (unat av) mcs wanted
       (if mcs = 0 then 4 else unat (get_min_rb_unit c)) (unat n)"
proof -
  define nb where "nb = (if mcs = 0 then 4 else get_min_rb_unit c)"
  have nb: "unat nb \<le> 110" "unat nb = (if mcs = 0 then 4 else unat (get_min_rb_unit c))"
    using min_rb_unit_pos [of c] by (simp_all add: nb_def)
  obtain t where t: "get_TBS_DL (word_of_int mcs) nb = Some t" "uint (ucast t :: u16) = tbs (unat nb) mcs"
    using tbs_read [OF nb(1)] by blast
  from fit_blocks_spec [OF assms nb(1) t(2), of c wanted] show ?thesis
    unfolding nb(2) by (simp add: choose_blocks_def t(1) flip: nb_def)
qed

lemma choose_blocks_witness:
  "\<exists>n t. choose_blocks sample_cell 11 10 101 = Some (n, t) \<and> uint t = tbs (unat n) 11 \<and>
     least_in_steps 2 10 11 101 2 (unat n)"
  using choose_blocks_least [of 10 sample_cell 11 101] by (auto simp: get_min_rb_unit_def sample_cell_def)

text \<open>
  With coding scheme 0 the first candidate is four blocks whatever is available: a payload of at most 11
  bytes is coded for four blocks although the UE has only two, and the size put into the DCI is one
  that the two blocks of its bitmap cannot carry.
\<close>

lemma mcs0_exceeds_available:
  assumes "wanted \<le> 11"
  shows "\<exists>t. choose_blocks c 0 2 wanted = Some (4, t) \<and> uint t = tbs 4 0 \<and> tbs 2 0 < uint t"
proof -
  have "TBStable ! 0 ! 3 = 88" "TBStable ! 0 ! 1 = 32" by (simp_all add: TBStable_def)
  then have t: "get_TBS_DL 0 4 = Some 11" "tbs 4 0 = 11" "tbs 2 0 = 4"
    using get_TBS_DL_value [of 4 0] get_TBS_DL_value [of 2 0] by (simp_all add: tbs_bytes_def get_I_TBS_def)
  have "fit_blocks c 0 2 wanted 4 11 = Some (4, 11)" using assms by (subst fit_blocks.simps) simp
  then show ?thesis by (simp add: choose_blocks_def t)
qed

lemma mcs0_exceeds_witness: "\<exists>t. choose_blocks sample_cell 0 2 7 = Some (4, t) \<and> tbs 2 0 < uint t"
  using mcs0_exceeds_available [of 7 sample_cell] by auto

end
