(* ===== verification/DelegationManager.thy ===== *)
theory DelegationManager
  imports NorthApi
begin

text \<open>
  \<open>src/app/delegation_manager.{h,cc}\<close>: the example application that pushes two schedulers to the agents and
  switches between them at fixed times. Unlike the scheduling application it does not test that a file
  could be opened: the length of a stream that is not good is -1, and the request for that much memory throws.
\<close>

section \<open>The application\<close>

text \<open>\<open>delegation_steps_\<close>, six flags for all agents together.\<close>

type_synonym delegation_steps = "bool list"

definition new_delegation_steps :: delegation_steps where
  "new_delegation_steps = replicate 6 False"

definition dm_reconfigure_agent :: "'q ext \<Rightarrow> host \<Rightarrow> int \<Rightarrow> string \<Rightarrow> 'q updater \<Rightarrow> 'q updater option" where
  "dm_reconfigure_agent X H agent_id policy_name u =
     (case ho_file H policy_name of
        None \<Rightarrow> None
      | Some policy \<Rightarrow> send_to X (reconfiguration_out policy) agent_id u)"

definition dm_push_code :: "'q ext \<Rightarrow> host \<Rightarrow> int \<Rightarrow> string \<Rightarrow> string \<Rightarrow> 'q updater \<Rightarrow> 'q updater option" where
  "dm_push_code X H agent_id function_name lib_name u =
     (case ho_file H lib_name of
        None \<Rightarrow> None
      | Some payload \<Rightarrow> send_to X (delegation_out function_name payload) agent_id u)"

definition delegation_time :: "enb_rib_info \<Rightarrow> int" where
  "delegation_time e = uint (en_current_frame e) * 10 + uint (en_current_subframe e)"

text \<open>The chain of tests on the time: the flag that is tested, and what is done when it is not set.\<close>

definition step_at :: "int \<Rightarrow> nat option" where
  "step_at time =
     (if time = 2000 then Some 0 else if time = 2500 then Some 1 else if time = 4000 then Some 2
      else if time = 6000 then Some 3 else if time = 8000 then Some 4 else if time = 10000 then Some 5 else None)"

definition do_step :: "'q ext \<Rightarrow> host \<Rightarrow> nat \<Rightarrow> int \<Rightarrow> 'q updater \<Rightarrow> 'q updater option" where
  "do_step X H i agent_id =
     (if i = 0 then dm_push_code X H agent_id ''schedule_ue_spec_remote'' ''../tests/delegation_control/libremote_sched.so''
      else if i = 1 then dm_push_code X H agent_id ''schedule_ue_spec_default'' ''../tests/delegation_control/libdefault_sched.so''
      else if i = 2 then dm_reconfigure_agent X H agent_id ''../tests/delegation_control/remote_policy.yaml''
      else if i = 3 then dm_reconfigure_agent X H agent_id ''../tests/delegation_control/remote_policy2.yaml''
      else if i = 4 then dm_reconfigure_agent X H agent_id ''../tests/delegation_control/local_policy.yaml''
      else dm_reconfigure_agent X H agent_id ''../tests/delegation_control/local_policy2.yaml'')"

definition delegate_agent :: "'q ext \<Rightarrow> host \<Rightarrow> delegation_steps \<times> 'q updater \<Rightarrow> int \<Rightarrow>
    (delegation_steps \<times> 'q updater) option" where
  "delegate_agent X H = (\<lambda>(steps, u) agent_id. do {
     e \<leftarrow> get_agent (ru_rib u) agent_id;
     case step_at (delegation_time e) of
       None \<Rightarrow> Some (steps, u)
     | Some i \<Rightarrow> do {
         d \<leftarrow> aget steps i;
         if d then Some (steps, u)
         else do {
           u \<leftarrow> do_step X H i agent_id u;
           steps \<leftarrow> aset steps i True;
           Some (steps, u) } } })"

definition dm_run_periodic_task :: "'q ext \<Rightarrow> host \<Rightarrow> delegation_steps \<times> 'q updater \<Rightarrow>
    (delegation_steps \<times> 'q updater) option" where
  "dm_run_periodic_task X H st = foldo (delegate_agent X H) st (get_available_agents (ru_rib (snd st)))"

section \<open>Files\<close>

definition step_file :: "nat \<Rightarrow> string" where
  "step_file i = ''../tests/delegation_control/'' @
     [''libremote_sched.so'', ''libdefault_sched.so'', ''remote_policy.yaml'', ''remote_policy2.yaml'',
      ''local_policy.yaml'', ''local_policy2.yaml''] ! i"

definition step_message :: "host \<Rightarrow> nat \<Rightarrow> flexran_message" where
  "step_message H i =
     (let bytes = the (ho_file H (step_file i))
      in if i = 0 then delegation_out ''schedule_ue_spec_remote'' bytes
         else if i = 1 then delegation_out ''schedule_ue_spec_default'' bytes
         else reconfiguration_out bytes)"

lemma step_at_less: "step_at t = Some i \<Longrightarrow> i < 6"
  by (auto simp: step_at_def split: if_splits)

lemma do_step_file:
  assumes "i < 6"
  shows "do_step X H i a u =
     (case ho_file H (step_file i) of None \<Rightarrow> None | Some _ \<Rightarrow> send_to X (step_message H i) a u)"
proof -
  have "i \<in> {0, 1, 2, 3, 4, 5}" using assms by auto
  then show ?thesis
    by (elim insertE emptyE)
       (simp_all add: do_step_def dm_push_code_def dm_reconfigure_agent_def step_message_def step_file_def
          split: option.split)
qed

section \<open>Each step is taken once\<close>

text \<open>The step of one agent: nothing, or the next step for this agent.\<close>

definition step_pending :: "delegation_steps \<Rightarrow> enb_rib_info \<Rightarrow> nat option" where
  "step_pending steps e =
     (case step_at (delegation_time e) of None \<Rightarrow> None | Some i \<Rightarrow> if steps ! i then None else Some i)"

lemma step_pending_less: "step_pending steps e = Some i \<Longrightarrow> i < 6"
  using step_at_less by (auto simp: step_pending_def split: option.splits if_splits)

lemma delegate_agent_cases:
  assumes "ext_ok X contents" and "\<And>m. sendable X m" and "get_agent (ru_rib u) a = Some e" and "length steps = 6"
  shows "delegate_agent X H (steps, u) a = None \<longleftrightarrow>
       (\<exists>i. step_pending steps e = Some i \<and> ho_file H (step_file i) = None)"
    and "delegate_agent X H (steps, u) a = Some (steps', u') \<Longrightarrow>
       (case step_pending steps e of
          None \<Rightarrow> steps' = steps \<and> u' = u
        | Some i \<Rightarrow> i < 6 \<and> \<not> steps ! i \<and> steps' = steps[i := True] \<and> sends X contents [(a, step_message H i)] u u')"
proof -
  have "\<forall>i. \<exists>w. send_to X (step_message H i) a u = Some w \<and> sends X contents [(a, step_message H i)] u w"
    using send_to_sends [OF assms(1,2)] by blast
  then obtain v where v: "\<And>i. send_to X (step_message H i) a u = Some (v i)"
    "\<And>i. sends X contents [(a, step_message H i)] u (v i)" by metis
  show "delegate_agent X H (steps, u) a = None \<longleftrightarrow>
       (\<exists>i. step_pending steps e = Some i \<and> ho_file H (step_file i) = None)"
    using assms(3,4) v(1) step_at_less
    by (auto simp: delegate_agent_def step_pending_def do_step_file aget_def aset_def split: option.splits)
  show "delegate_agent X H (steps, u) a = Some (steps', u') \<Longrightarrow>
       (case step_pending steps e of
          None \<Rightarrow> steps' = steps \<and> u' = u
        | Some i \<Rightarrow> i < 6 \<and> \<not> steps ! i \<and> steps' = steps[i := True] \<and> sends X contents [(a, step_message H i)] u u')"
    using assms(3,4) v step_at_less
    by (auto simp: delegate_agent_def step_pending_def do_step_file aget_def aset_def Option.bind_eq_Some_conv
        split: option.splits if_splits)
qed

definition step_sends :: "host \<Rightarrow> (int \<times> nat) list \<Rightarrow> (int \<times> flexran_message) list" where
  "step_sends H ks = map (\<lambda>(a, i). (a, step_message H i)) ks"

lemma delegate_loop:
  assumes "ext_ok X contents" and "\<And>m. sendable X m" and "\<And>i. i < 6 \<Longrightarrow> ho_file H (step_file i) \<noteq> None"
  shows "length steps = 6 \<Longrightarrow> (\<And>a. a \<in> set agents \<Longrightarrow> get_agent (ru_rib u) a \<noteq> None) \<Longrightarrow>
     \<exists>steps' u' ks. foldo (delegate_agent X H) (steps, u) agents = Some (steps', u') \<and> length steps' = 6 \<and>
       sends X contents (step_sends H ks) u u' \<and> distinct (map snd ks) \<and>
       (\<forall>i. i < 6 \<longrightarrow> steps' ! i = (steps ! i \<or> i \<in> snd ` set ks)) \<and> (\<forall>i \<in> snd ` set ks. i < 6 \<and> \<not> steps ! i)"
proof (induction agents arbitrary: steps u)
  case Nil
  have "sends X contents (step_sends H []) u u" by (simp add: step_sends_def sends_none)
  then show ?case using Nil.prems(1)
    by (intro exI [of _ steps] exI [of _ u] exI [of _ "[]"]) simp
next
  case (Cons a agents)
  obtain e where e: "get_agent (ru_rib u) a = Some e" using Cons.prems(2) [of a] by auto
  have some: "delegate_agent X H (steps, u) a \<noteq> None"
    using delegate_agent_cases(1) [OF assms(1,2) e Cons.prems(1), of H] assms(3) step_pending_less by blast
  then obtain s1 u1 where 1: "delegate_agent X H (steps, u) a = Some (s1, u1)" by auto
  note cs = delegate_agent_cases(2) [OF assms(1,2) e Cons.prems(1) 1]
  have rib: "ru_rib u1 = ru_rib u" using cs by (auto simp: sends_def split: option.splits)
  have len: "length s1 = 6" using cs Cons.prems(1) by (auto split: option.splits)
  have agents: "get_agent (ru_rib u1) b \<noteq> None" if "b \<in> set agents" for b
    using that Cons.prems(2) [of b] rib by simp
  obtain s2 u2 ks where 2: "foldo (delegate_agent X H) (s1, u1) agents = Some (s2, u2)" "length s2 = 6"
    "sends X contents (step_sends H ks) u1 u2" "distinct (map snd ks)"
    "\<forall>i. i < 6 \<longrightarrow> s2 ! i = (s1 ! i \<or> i \<in> snd ` set ks)" "\<forall>i \<in> snd ` set ks. i < 6 \<and> \<not> s1 ! i"
    using Cons.IH [OF len agents] by blast
  have run: "foldo (delegate_agent X H) (steps, u) (a # agents) = Some (s2, u2)" using 1 2(1) by simp
  show ?case
  proof (cases "step_pending steps e")
    case None
    then show ?thesis using cs 2 run by auto
  next
    case (Some i)
    then have i: "i < 6" "\<not> steps ! i" "s1 = steps[i := True]" "sends X contents (step_sends H [(a, i)]) u u1"
      using cs by (simp_all add: step_sends_def)
    have s: "sends X contents (step_sends H ((a, i) # ks)) u u2"
      using sends_append [OF i(4) 2(3)] by (simp add: step_sends_def)
    have s1: "s1 ! j = (steps ! j \<or> j = i)" if "j < 6" for j
      using that i(1,3) Cons.prems(1) by (cases "j = i") simp_all
    have "i \<notin> snd ` set ks" using 2(6) s1 [OF i(1)] by auto
    then have "distinct (map snd ((a, i) # ks))" using 2(4) by simp
    moreover have "\<forall>j. j < 6 \<longrightarrow> s2 ! j = (steps ! j \<or> j \<in> snd ` set ((a, i) # ks))" using 2(5) s1 by auto
    moreover have "\<forall>j \<in> snd ` set ((a, i) # ks). j < 6 \<and> \<not> steps ! j" using 2(6) s1 i(1,2) by auto
    ultimately show ?thesis using run 2(2) s by blast
  qed
qed

text \<open>
  C32: each of the six steps of the delegation is taken at most once, for one agent: when the files can be read, a
  run over the agents never faults, the steps it takes are pairwise different and were not taken before, and
  afterwards exactly these are marked in addition. Agents that reach the same time together are not all served.
\<close>

theorem delegation_steps_once:
  assumes "ext_ok X contents" and "\<And>m. sendable X m" and "rib_wf (ru_rib u)" and "length steps = 6"
    and "\<And>i. i < 6 \<Longrightarrow> ho_file H (step_file i) \<noteq> None"
  shows "\<exists>steps' u' ks. dm_run_periodic_task X H (steps, u) = Some (steps', u') \<and> length steps' = 6 \<and>
     sends X contents (step_sends H ks) u u' \<and> distinct (map snd ks) \<and>
     (\<forall>i. i < 6 \<longrightarrow> steps' ! i = (steps ! i \<or> i \<in> snd ` set ks)) \<and> (\<forall>i \<in> snd ` set ks. i < 6 \<and> \<not> steps ! i)"
proof -
  have "get_agent (ru_rib u) a \<noteq> None" if "a \<in> set (get_available_agents (ru_rib u))" for a
    using that available_agents_iff [OF assms(3)] by (auto simp: has_eNB_config_entry_def get_agent_def)
  from delegate_loop [OF assms(1,2,5) assms(4) this] show ?thesis by (simp add: dm_run_periodic_task_def)
qed

text \<open>Two agents at the times of the first and of the second step.\<close>

definition agent_at :: "int \<Rightarrow> frame_t \<Rightarrow> enb_rib_info" where
  "agent_at a frame = (new_enb_rib_info zero_junk 0 a)\<lparr>en_current_frame := frame, en_current_subframe := 0\<rparr>"

definition due_agents :: "tagged_message list updater" where
  "due_agents = \<lparr>ru_rib = \<lparr>rb_eNB_configs = [(1, agent_at 1 200), (4, agent_at 4 250)], rb_pending_agents = {}\<rparr>,
     ru_net = new_network []\<rparr>"

definition step_host :: host where
  "step_host = \<lparr>ho_env = None, ho_file = \<lambda>_. Some [7]\<rparr>"

lemma due_agents_facts:
  "rib_wf (ru_rib due_agents)" "get_available_agents (ru_rib due_agents) = [1, 4]"
  "get_agent (ru_rib due_agents) 1 = Some (agent_at 1 200)" "get_agent (ru_rib due_agents) 4 = Some (agent_at 4 250)"
proof -
  have "enb_wf (agent_at a f)" for a f
    using enb_wf_new [of zero_junk 0 a] by (simp add: agent_at_def enb_wf_def get_ue_mac_info_def)
  then show "rib_wf (ru_rib due_agents)"
    by (auto simp: due_agents_def rib_wf_def sm_inv_def get_agent_def sm_find_def split: if_splits)
qed (simp_all add: due_agents_def get_available_agents_def sm_keys_def get_agent_def sm_find_def)

lemma due_agents_run:
  obtains u where "dm_run_periodic_task list_ext step_host (new_delegation_steps, due_agents) =
    Some ([True, True, False, False, False, False], u)"
proof -
  note cases = delegate_agent_cases [OF ext_ok_list two_agents_facts(3), of _ _ _ _ step_host]
  have pending: "step_pending new_delegation_steps (agent_at 1 200) = Some 0"
    "step_pending [True, False, False, False, False, False] (agent_at 4 250) = Some 1"
    by (simp_all add: step_pending_def delegation_time_def agent_at_def step_at_def new_delegation_steps_def)
  have "length new_delegation_steps = 6" by (simp add: new_delegation_steps_def)
  note one = cases [OF due_agents_facts(3) this]
  obtain s1 u1 where 1: "delegate_agent list_ext step_host (new_delegation_steps, due_agents) 1 = Some (s1, u1)"
    using one(1) pending(1)
    by (cases "delegate_agent list_ext step_host (new_delegation_steps, due_agents) 1") (auto simp: step_host_def)
  then have s1: "s1 = [True, False, False, False, False, False]" "sends list_ext (\<lambda>q. q) [(1, step_message step_host 0)] due_agents u1"
    using one(2) pending(1) by (simp_all add: new_delegation_steps_def numeral_eq_Suc)
  have e4: "get_agent (ru_rib u1) 4 = Some (agent_at 4 250)" using s1(2) due_agents_facts(4) by (simp add: sends_def)
  have "length s1 = 6" by (simp add: s1(1))
  note two = cases [OF e4 this]
  obtain s2 u2 where 2: "delegate_agent list_ext step_host (s1, u1) 4 = Some (s2, u2)"
    using two(1) pending(2) by (cases "delegate_agent list_ext step_host (s1, u1) 4") (auto simp: s1(1) step_host_def)
  then have "s2 = [True, True, False, False, False, False]" using two(2) pending(2) by (simp add: s1(1))
  then show thesis using 1 2 that by (simp add: dm_run_periodic_task_def due_agents_facts(2))
qed

lemma delegation_witness:
  "\<exists>u' ks. dm_run_periodic_task list_ext step_host (new_delegation_steps, due_agents) =
       Some ([True, True, False, False, False, False], u') \<and> distinct (map snd ks) \<and> snd ` set ks = {0, 1} \<and>
     sends list_ext (\<lambda>q. q) (step_sends step_host ks) due_agents u'"
proof -
  obtain u where run: "dm_run_periodic_task list_ext step_host (new_delegation_steps, due_agents) =
    Some ([True, True, False, False, False, False], u)" using due_agents_run .
  have steps: "length new_delegation_steps = 6" "\<And>i. ho_file step_host (step_file i) \<noteq> None"
    "i < 6 \<Longrightarrow> \<not> new_delegation_steps ! i" for i
    by (simp_all add: new_delegation_steps_def step_host_def)
  obtain ks where ks: "sends list_ext (\<lambda>q. q) (step_sends step_host ks) due_agents u" "distinct (map snd ks)"
    "\<And>i. i < 6 \<Longrightarrow> [True, True, False, False, False, False] ! i = (i \<in> snd ` set ks)" "\<And>i. i \<in> snd ` set ks \<Longrightarrow> i < 6"
    using delegation_steps_once [OF ext_ok_list two_agents_facts(3) due_agents_facts(1) steps(1,2)] run steps(3) by auto
  have "snd ` set ks = {i. i < 6 \<and> [True, True, False, False, False, False] ! i}" using ks(3,4) by blast
  also have "\<dots> = {0, 1}" by (auto simp: numeral_eq_Suc less_Suc_eq)
  finally show ?thesis using run ks(1,2) by blast
qed

text \<open>
  The delegation manager does not survive a missing file: at the time of a step that is not taken yet, when its
  file cannot be opened, the run of the task throws.
\<close>

lemma missing_file_is_fatal:
  assumes "ext_ok X contents" and "\<And>m. sendable X m" and "length steps = 6"
    and "get_available_agents (ru_rib u) = a # agents" and "get_agent (ru_rib u) a = Some e"
    and "step_at (delegation_time e) = Some i" and "\<not> steps ! i" and "ho_file H (step_file i) = None"
  shows "dm_run_periodic_task X H (steps, u) = None"
proof -
  have "delegate_agent X H (steps, u) a = None"
    using delegate_agent_cases(1) [OF assms(1,2,5,3)] assms(6-8) by (simp add: step_pending_def)
  then show ?thesis using assms(4) by (simp add: dm_run_periodic_task_def)
qed

definition frame_200 :: "tagged_message list updater" where
  "frame_200 = \<lparr>ru_rib = \<lparr>rb_eNB_configs = [(1, (new_enb_rib_info zero_junk 0 1)\<lparr>en_current_frame := 200\<rparr>)],
     rb_pending_agents = {}\<rparr>, ru_net = new_network []\<rparr>"

lemma missing_file_witness:
  "dm_run_periodic_task list_ext \<lparr>ho_env = None, ho_file = \<lambda>_. None\<rparr> (new_delegation_steps, frame_200) = None"
  by (rule missing_file_is_fatal [OF ext_ok_list two_agents_facts(3), where a = 1 and agents = "[]" and i = 0
        and e = "(new_enb_rib_info zero_junk 0 1)\<lparr>en_current_frame := 200\<rparr>"])
     (simp_all add: new_delegation_steps_def frame_200_def get_available_agents_def sm_keys_def get_agent_def sm_find_def
        step_at_def delegation_time_def new_enb_rib_info_def zero_junk_def)

end
