(* ===== verification/EicicScheduler.thy ===== *)
theory EicicScheduler
  imports FlexRound StatsManager
begin

text \<open>
  \<open>src/app/remote_scheduler_eicic.{h,cc}\<close>: the coordination of a macro cell with pico cells. In the almost blank
  subframes either the macro cell or the pico cells get the permission to schedule, an empty downlink command.
\<close>

section \<open>The application\<close>

type_synonym eicic_state = "(int \<times> enb_scheduling_info) list"

definition abs_subframes :: "int list" where
  "abs_subframes = [0, 1, 0, 1, 0, 0, 0, 1, 0, 1]"

definition macro_agent_id :: int where
  "macro_agent_id = 0"

definition schedule_ahead :: int where
  "schedule_ahead = 1"

text \<open>The target frame that is computed with the wrap of the subframe is overwritten from the current frame.\<close>

definition eicic_target :: "frame_t \<Rightarrow> subframe_t \<Rightarrow> frame_t \<times> subframe_t" where
  "eicic_target current_frame current_subframe =
     (word_of_int ((uint current_frame + schedule_ahead div 10) mod 1024),
      word_of_int ((uint current_subframe + schedule_ahead) mod 10))"

definition ue_has_queue :: "enb_rib_info \<Rightarrow> flex_cell_config \<Rightarrow> flex_ue_config \<Rightarrow> bool" where
  "ue_has_queue e c ue \<longleftrightarrow> uc_pcell_carrier_index ue = cc_cell_id c \<and>
     (case get_ue_mac_info e (uc_rnti ue) of
        None \<Rightarrow> False
      | Some u \<Rightarrow> list_ex (\<lambda>b. tx_queue_size b > 0) (us_rlc_report (um_mac_stats_report u)))"

definition has_queued_data :: "enb_rib_info \<Rightarrow> bool" where
  "has_queued_data e = list_ex (\<lambda>c. list_ex (ue_has_queue e c) (ue_configs e)) (cell_configs e)"

text \<open>The first loop: the records, \<open>schedule_macro\<close> and \<open>schedule_flag\<close>.\<close>

definition eicic_check :: "junk \<Rightarrow> rib \<Rightarrow> eicic_state \<times> bool \<times> bool \<Rightarrow> int \<Rightarrow> (eicic_state \<times> bool \<times> bool) option" where
  "eicic_check jk r = (\<lambda>(infos, schedule_macro, schedule_flag) agent_id. do {
     e \<leftarrow> get_agent r agent_id;
     let infos = ensure_scheduling_info jk agent_id infos;
     sched \<leftarrow> sm_find infos agent_id;
     let frame = en_current_frame e;
     let subframe = en_current_subframe e;
     if \<not> needs_scheduling sched frame subframe then Some (infos, schedule_macro, schedule_flag)
     else do {
       let infos = sm_put agent_id (set_last_checked frame subframe sched) infos;
       a \<leftarrow> aget abs_subframes (unat (snd (eicic_target frame subframe)));
       let schedule_flag = (schedule_flag \<or> a \<noteq> 0);
       if agent_id = macro_agent_id then Some (infos, schedule_macro, schedule_flag)
       else Some (infos, schedule_macro \<and> \<not> has_queued_data e, schedule_flag) } })"

text \<open>The second loop: the permission for the agents on the chosen side.\<close>

definition eicic_grant :: "junk \<Rightarrow> 'q ext \<Rightarrow> bool \<Rightarrow> eicic_state \<times> 'q updater \<Rightarrow> int \<Rightarrow> (eicic_state \<times> 'q updater) option" where
  "eicic_grant jk X schedule_macro = (\<lambda>(infos, u) agent_id.
     if agent_id = macro_agent_id \<and> \<not> schedule_macro \<or> agent_id \<noteq> macro_agent_id \<and> schedule_macro
     then Some (infos, u)
     else do {
       e \<leftarrow> get_agent (ru_rib u) agent_id;
       let infos = ensure_scheduling_info jk agent_id infos;
       let (target_frame, target_subframe) = eicic_target (en_current_frame e) (en_current_subframe e);
       u \<leftarrow> send_to X (dl_mac_config_out target_frame target_subframe []) agent_id u;
       Some (infos, u) })"

definition eicic_run_periodic_task :: "junk \<Rightarrow> 'q ext \<Rightarrow> eicic_state \<times> 'q updater \<Rightarrow> (eicic_state \<times> 'q updater) option" where
  "eicic_run_periodic_task jk X = (\<lambda>(infos, u). do {
     let agent_ids = get_available_agents (ru_rib u);
     (infos, schedule_macro, schedule_flag) \<leftarrow> foldo (eicic_check jk (ru_rib u)) (infos, True, False) agent_ids;
     if \<not> schedule_flag then Some (infos, u)
     else foldo (eicic_grant jk X schedule_macro) (infos, u) agent_ids })"

section \<open>The decision\<close>

text \<open>Which agents count in this run: those whose time has moved since their last check.\<close>

definition is_new_time :: "junk \<Rightarrow> rib \<Rightarrow> eicic_state \<Rightarrow> int \<Rightarrow> bool" where
  "is_new_time jk r infos a \<longleftrightarrow>
     (case (get_agent r a, sm_find (ensure_scheduling_info jk a infos) a) of
        (Some e, Some s) \<Rightarrow> needs_scheduling s (en_current_frame e) (en_current_subframe e)
      | _ \<Rightarrow> False)"

definition blank_next :: "rib \<Rightarrow> int \<Rightarrow> bool" where
  "blank_next r a \<longleftrightarrow>
     (case get_agent r a of
        None \<Rightarrow> False
      | Some e \<Rightarrow> (uint (en_current_subframe e) + 1) mod 10 \<in> {1, 3, 7, 9})"

definition pico_waits :: "rib \<Rightarrow> int \<Rightarrow> bool" where
  "pico_waits r a \<longleftrightarrow> a \<noteq> macro_agent_id \<and> (case get_agent r a of None \<Rightarrow> False | Some e \<Rightarrow> has_queued_data e)"

lemma abs_lookup:
  "aget abs_subframes (unat (word_of_int ((uint (s :: u16) + 1) mod 10) :: u16)) =
     Some (if (uint s + 1) mod 10 \<in> {1, 3, 7, 9} then 1 else 0)"
proof -
  let ?m = "(uint s + 1) mod 10"
  have m: "0 \<le> ?m" "?m < 10" by simp_all
  then have "?m \<in> {0, 1, 2, 3, 4, 5, 6, 7, 8, 9}" by (simp only: insert_iff empty_iff) presburger
  then show ?thesis by (elim insertE emptyE) (simp_all add: abs_subframes_def aget_def)
qed

lemma ensure_find:
  assumes "sm_inv infos"
  shows "sm_inv (ensure_scheduling_info jk a infos)"
    and "sm_find (ensure_scheduling_info jk a infos) b =
       (if b = a \<and> sm_find infos a = None then Some (new_enb_scheduling_info jk a) else sm_find infos b)"
  using assms by (auto simp: ensure_scheduling_info_def sm.inv_insert sm.find_insert split: option.split)

lemma eicic_check_step:
  assumes "sm_inv infos" and "get_agent r a = Some e"
  shows "\<exists>infos'. eicic_check jk r (infos, m, f) a =
       Some (infos', m \<and> \<not> (is_new_time jk r infos a \<and> pico_waits r a), f \<or> is_new_time jk r infos a \<and> blank_next r a) \<and>
     sm_inv infos' \<and> (\<forall>b. b \<noteq> a \<longrightarrow> sm_find infos' b = sm_find infos b)"
proof -
  let ?infos = "ensure_scheduling_info jk a infos"
  obtain s where s: "sm_find ?infos a = Some s" using ensure_find(2) [OF assms(1), of jk a a] by (cases "sm_find infos a") auto
  have look: "aget abs_subframes (unat (snd (eicic_target (en_current_frame e) (en_current_subframe e)))) =
      Some (if blank_next r a then 1 else 0)"
    using abs_lookup [of "en_current_subframe e"] assms(2) by (simp add: eicic_target_def schedule_ahead_def blank_next_def)
  have inv: "sm_inv ?infos" "\<And>b. b \<noteq> a \<Longrightarrow> sm_find ?infos b = sm_find infos b"
    using ensure_find [OF assms(1), of jk a] by simp_all
  show ?thesis
  proof (cases "needs_scheduling s (en_current_frame e) (en_current_subframe e)")
    case False
    then have "\<not> is_new_time jk r infos a" using assms(2) s by (simp add: is_new_time_def)
    then show ?thesis using False assms(2) s inv by (simp add: eicic_check_def Let_def)
  next
    case True
    then have new: "is_new_time jk r infos a" using assms(2) s by (simp add: is_new_time_def)
    have put: "sm_inv (sm_put a x ?infos)" "\<And>b. b \<noteq> a \<Longrightarrow> sm_find (sm_put a x ?infos) b = sm_find infos b" for x
      using inv by (simp_all add: sm.inv_put sm.find_put)
    show ?thesis
      using True new assms(2) s look put
      by (auto simp: eicic_check_def Let_def pico_waits_def split: if_splits)
  qed
qed

lemma is_new_time_cong:
  assumes "sm_inv infos" and "sm_inv infos'" and "sm_find infos' b = sm_find infos b"
  shows "is_new_time jk r infos' b = is_new_time jk r infos b"
proof -
  have "sm_find (ensure_scheduling_info jk b infos') b = sm_find (ensure_scheduling_info jk b infos) b"
    using ensure_find(2) [OF assms(1), of jk b b] ensure_find(2) [OF assms(2), of jk b b] assms(3) by simp
  then show ?thesis by (simp add: is_new_time_def)
qed

lemma eicic_checks:
  assumes "\<And>a. a \<in> set agents \<Longrightarrow> get_agent r a \<noteq> None" and "distinct agents" and "sm_inv infos"
  shows "\<exists>infos'. foldo (eicic_check jk r) (infos, m, f) agents =
     Some (infos', m \<and> \<not> list_ex (\<lambda>a. is_new_time jk r infos a \<and> pico_waits r a) agents,
       f \<or> list_ex (\<lambda>a. is_new_time jk r infos a \<and> blank_next r a) agents) \<and> sm_inv infos'"
  using assms
proof (induction agents arbitrary: infos m f)
  case Nil
  then show ?case by simp
next
  case (Cons a agents)
  obtain e where e: "get_agent r a = Some e" using Cons.prems(1) [of a] by auto
  let ?m = "m \<and> \<not> (is_new_time jk r infos a \<and> pico_waits r a)"
  let ?f = "f \<or> is_new_time jk r infos a \<and> blank_next r a"
  obtain i1 where i1: "eicic_check jk r (infos, m, f) a = Some (i1, ?m, ?f)" "sm_inv i1"
    "\<And>b. b \<noteq> a \<Longrightarrow> sm_find i1 b = sm_find infos b"
    using eicic_check_step [OF Cons.prems(3) e] by blast
  have same: "is_new_time jk r i1 b = is_new_time jk r infos b" if "b \<in> set agents" for b
  proof -
    have "b \<noteq> a" using that Cons.prems(2) by auto
    then show ?thesis by (intro is_new_time_cong [OF Cons.prems(3) i1(2)] i1(3))
  qed
  have ex: "list_ex (\<lambda>b. is_new_time jk r i1 b \<and> P b) agents = list_ex (\<lambda>b. is_new_time jk r infos b \<and> P b) agents" for P
    using same by (auto simp: list_ex_iff)
  obtain i2 where "foldo (eicic_check jk r) (i1, ?m, ?f) agents =
     Some (i2, ?m \<and> \<not> list_ex (\<lambda>b. is_new_time jk r i1 b \<and> pico_waits r b) agents,
       ?f \<or> list_ex (\<lambda>b. is_new_time jk r i1 b \<and> blank_next r b) agents)" "sm_inv i2"
    using Cons.IH [OF _ _ i1(2), of ?m ?f] Cons.prems(1,2) by auto
  then show ?case using i1(1) by (auto simp: ex)
qed

section \<open>The grants\<close>

definition grant_out :: "rib \<Rightarrow> int \<Rightarrow> int \<times> flexran_message" where
  "grant_out r a =
     (let e = the (get_agent r a); (tf, tsf) = eicic_target (en_current_frame e) (en_current_subframe e)
      in (a, dl_mac_config_out tf tsf []))"

lemma eicic_grants_loop:
  assumes "ext_ok X contents" and "\<And>m. sendable X m"
  shows "(\<And>a. a \<in> set agents \<Longrightarrow> get_agent (ru_rib u) a \<noteq> None) \<Longrightarrow>
     \<exists>infos' u'. foldo (eicic_grant jk X m) (infos, u) agents = Some (infos', u') \<and>
       sends X contents (map (grant_out (ru_rib u)) (filter (\<lambda>a. (a = macro_agent_id) = m) agents)) u u'"
proof (induction agents arbitrary: infos u)
  case Nil
  then show ?case by (simp add: sends_none)
next
  case (Cons a agents)
  show ?case
  proof (cases "(a = macro_agent_id) = m")
    case False
    then have "eicic_grant jk X m (infos, u) a = Some (infos, u)" by (auto simp: eicic_grant_def)
    then show ?thesis using False Cons.IH [of u infos] Cons.prems by simp
  next
    case True
    obtain e where e: "get_agent (ru_rib u) a = Some e" using Cons.prems [of a] by auto
    obtain v where v: "send_to X (snd (grant_out (ru_rib u) a)) a u = Some v"
      "sends X contents [(a, snd (grant_out (ru_rib u) a))] u v" using send_to_sends [OF assms] by blast
    have 1: "eicic_grant jk X m (infos, u) a = Some (ensure_scheduling_info jk a infos, v)"
      using True e v(1) by (auto simp: eicic_grant_def grant_out_def Let_def split: prod.splits)
    have fst: "(a, snd (grant_out r a)) = grant_out r a" for r
      by (simp add: grant_out_def Let_def split: prod.split)
    have rib: "ru_rib v = ru_rib u" using v(2) by (simp add: sends_def)
    obtain i2 w where w: "foldo (eicic_grant jk X m) (ensure_scheduling_info jk a infos, v) agents = Some (i2, w)"
      "sends X contents (map (grant_out (ru_rib v)) (filter (\<lambda>a. (a = macro_agent_id) = m) agents)) v w"
      using Cons.IH [of v "ensure_scheduling_info jk a infos"] Cons.prems rib by auto
    then show ?thesis using 1 True sends_append [OF v(2) w(2)] rib by (simp add: fst)
  qed
qed

text \<open>
  C23: the macro cell and the pico cells never get the permission for the same run. In a run in which the next
  subframe of some agent with new time is almost blank, the permission goes to all pico cells if one of
  them has new time and queued data, and to the macro cell alone otherwise; in all other runs nothing is sent.
\<close>

theorem eicic_exclusive:
  assumes "ext_ok X contents" and "\<And>m. sendable X m" and "rib_wf (ru_rib u)" and "sm_inv infos"
  shows "\<exists>infos' u'. eicic_run_periodic_task jk X (infos, u) = Some (infos', u') \<and>
     sends X contents
       (if list_ex (\<lambda>a. is_new_time jk (ru_rib u) infos a \<and> blank_next (ru_rib u) a) (get_available_agents (ru_rib u))
        then map (grant_out (ru_rib u))
          (filter (\<lambda>a. (a \<noteq> macro_agent_id) =
               list_ex (\<lambda>p. is_new_time jk (ru_rib u) infos p \<and> pico_waits (ru_rib u) p) (get_available_agents (ru_rib u)))
             (get_available_agents (ru_rib u)))
        else []) u u'"
proof -
  let ?r = "ru_rib u"
  let ?agents = "get_available_agents ?r"
  let ?pico = "list_ex (\<lambda>a. is_new_time jk ?r infos a \<and> pico_waits ?r a) ?agents"
  let ?blank = "list_ex (\<lambda>a. is_new_time jk ?r infos a \<and> blank_next ?r a) ?agents"
  have known: "get_agent ?r a \<noteq> None" if "a \<in> set ?agents" for a
    using that available_agents_iff [OF assms(3)] by (auto simp: has_eNB_config_entry_def get_agent_def)
  have dist: "distinct ?agents" using available_agents_sorted [OF assms(3)] by blast
  obtain i1 where i1: "foldo (eicic_check jk ?r) (infos, True, False) ?agents = Some (i1, \<not> ?pico, ?blank)"
    using eicic_checks [OF known dist assms(4), of jk True False] by auto
  show ?thesis
  proof (cases ?blank)
    case False
    then show ?thesis using i1 by (simp add: eicic_run_periodic_task_def Let_def sends_none)
  next
    case True
    obtain i2 v where 2: "foldo (eicic_grant jk X (\<not> ?pico)) (i1, u) ?agents = Some (i2, v)"
      "sends X contents (map (grant_out ?r) (filter (\<lambda>a. (a = macro_agent_id) = (\<not> ?pico)) ?agents)) u v"
      using eicic_grants_loop [OF assms(1,2), of ?agents u jk "\<not> ?pico" i1] known by blast
    have same: "filter (\<lambda>a. (a = macro_agent_id) = (\<not> ?pico)) ?agents = filter (\<lambda>a. (a \<noteq> macro_agent_id) = ?pico) ?agents"
      by (rule filter_cong) auto
    show ?thesis
      using True i1 2 by (simp add: eicic_run_periodic_task_def Let_def same)
  qed
qed

text \<open>A macro cell without news and a pico cell with queued data two subframes into frame 3.\<close>

definition macro_and_pico :: "tagged_message list updater" where
  "macro_and_pico = \<lparr>ru_rib = \<lparr>rb_eNB_configs = [(0, new_enb_rib_info zero_junk 0 0), (1, cell_enb\<lparr>en_current_subframe := 2\<rparr>)],
     rb_pending_agents = {}\<rparr>, ru_net = new_network []\<rparr>"

lemma macro_and_pico_facts:
  "get_available_agents (ru_rib macro_and_pico) = [0, 1]"
  "get_agent (ru_rib macro_and_pico) 0 = Some (new_enb_rib_info zero_junk 0 0)"
  "get_agent (ru_rib macro_and_pico) 1 = Some (cell_enb\<lparr>en_current_subframe := 2\<rparr>)"
  "rib_wf (ru_rib macro_and_pico)"
proof -
  have "enb_wf cell_enb" using cell_enb_ready by (simp add: cell_ready_def)
  then have "enb_wf (cell_enb\<lparr>en_current_subframe := 2\<rparr>)" by (simp add: enb_wf_def)
  then show "rib_wf (ru_rib macro_and_pico)"
    by (auto simp: macro_and_pico_def rib_wf_def sm_inv_def get_agent_def sm_find_def enb_wf_new split: if_splits)
qed (simp_all add: macro_and_pico_def get_available_agents_def sm_keys_def get_agent_def sm_find_def)

lemma eicic_witness:
  "\<exists>infos' u'. eicic_run_periodic_task zero_junk list_ext ([], macro_and_pico) = Some (infos', u') \<and>
     nx_out_queue (ru_net u') = [wire list_ext (1, dl_mac_config_out 3 3 [])]"
proof -
  have new: "\<not> is_new_time zero_junk (ru_rib macro_and_pico) [] 0" "is_new_time zero_junk (ru_rib macro_and_pico) [] 1"
    by (simp_all add: is_new_time_def macro_and_pico_facts ensure_scheduling_info_def sm.find_empty sm_find_def
        new_enb_scheduling_info_def needs_scheduling_def new_enb_rib_info_def zero_junk_def cell_enb_def)
  have data: "pico_waits (ru_rib macro_and_pico) 1"
    by (simp add: pico_waits_def macro_agent_id_def macro_and_pico_facts has_queued_data_def ue_has_queue_def cell_enb_def
        loaded_enb_def sample_cell_def sample_ue_config_def get_ue_mac_info_def sm_find_def sample_mac_def tx_queue_size_def get_u32_def)
  have blank: "blank_next (ru_rib macro_and_pico) 1" by (simp add: blank_next_def macro_and_pico_facts)
  have grant: "grant_out (ru_rib macro_and_pico) 1 = (1, dl_mac_config_out 3 3 [])"
    by (simp add: grant_out_def macro_and_pico_facts eicic_target_def schedule_ahead_def cell_enb_def)
  have "out_contents (\<lambda>q. q) macro_and_pico = []" "room (\<lambda>q. q) macro_and_pico = 10000"
    by (simp_all add: macro_and_pico_def new_network_def room_def queue_capacity_def)
  then show ?thesis
    using eicic_exclusive [OF ext_ok_list two_agents_facts(3) macro_and_pico_facts(4) sm.inv_empty, of zero_junk] new data blank grant
    by (auto simp: macro_and_pico_facts macro_agent_id_def sends_def)
qed

section \<open>The target of a grant\<close>

text \<open>
  The grant names the next subframe, as the other schedulers' targets do, except at the end of a frame: in
  subframe 9 the frame is not advanced, so the grant is for subframe 0 of the frame that is ending, in the past.
\<close>

theorem eicic_target_wrap:
  assumes "uint f < 1024" and "uint s < 10"
  shows "eicic_target f s = target_time 1 f s \<longleftrightarrow> s \<noteq> 9"
proof -
  have small: "uint (word_of_int k :: u16) = k" if "0 \<le> k" "k < 1024" for k
    using that by (simp add: unsigned_of_int take_bit_int_eq_self)
  have f: "word_of_int (uint f mod 1024) = f" using assms(1) by simp
  have digit: "x \<in> {0, 1, 2, 3, 4, 5, 6, 7, 8, 9}" if "0 \<le> x" "x < 10" for x :: int
    using that by (simp only: insert_iff empty_iff) presburger
  have "uint s \<in> {0, 1, 2, 3, 4, 5, 6, 7, 8, 9}" by (rule digit) (use assms(2) in simp_all)
  then have "s \<in> {0, 1, 2, 3, 4, 5, 6, 7, 8, 9}" by (auto simp: word_uint_eq_iff)
  then show ?thesis
  proof (elim insertE emptyE)
    assume s: "s = 9"
    let ?n = "(uint f + 1) mod 1024"
    have step: "(x + 1) mod 1024 \<noteq> x" if "0 \<le> x" "x < 1024" for x :: int
      by (cases "x = 1023") (use that in simp_all)
    have "?n \<noteq> uint f" by (rule step) (use assms(1) in simp_all)
    moreover have n: "uint (word_of_int ?n :: u16) = ?n" by (rule small) simp_all
    ultimately have "(word_of_int ?n :: u16) \<noteq> f" by metis
    then show ?thesis
      by (simp add: s eicic_target_def target_time_def schedule_ahead_def Let_def f n eq_commute [of f])
  qed (simp_all add: eicic_target_def target_time_def schedule_ahead_def Let_def f)
qed

lemma eicic_target_witness: "eicic_target 7 9 \<noteq> target_time 1 7 9 \<and> eicic_target 7 3 = target_time 1 7 3"
  using eicic_target_wrap [of 7 9] eicic_target_wrap [of 7 3] by simp

end
