(* ===== verification/RemoteScheduler.thy ===== *)
theory RemoteScheduler
  imports FlexScheduler RbgExclusive
begin

text \<open>
  \<open>src/app/remote_scheduler.{h,cc}\<close>: the older central scheduler. It uses the preprocessor, the tables and the
  block and coding searches of \<open>FlexUe\<close>, with a fixed aggregation level; unlike the flexible scheduler it takes the
  state of a HARQ process from the last report alone and never writes to the RIB.
\<close>

section \<open>State\<close>

text \<open>\<open>target_dl_mcs_\<close>; the flag is the preprocessor symbol \<open>ABSTRACT_SIMULATION\<close>.\<close>

definition target_dl_mcs :: "bool \<Rightarrow> int" where
  "target_dl_mcs abstract_simulation = (if abstract_simulation then 15 else 28)"

text \<open>
  The locals of \<open>run_periodic_task\<close> that keep their value from one UE to the next, and the static member
  \<open>tpc_accumulated\<close>. \<open>header_len\<close> is one of them: it is set to 0 once, before the loop over the agents.
\<close>

record remote_vars =
  rv_mcs :: int
  rv_ce_flags :: u32
  rv_header_len :: u8
  rv_tpc_accumulated :: int

record remote_state =
  rm_sched :: enb_scheduling_info
  rm_vars :: remote_vars
  rm_data :: "flex_dl_data list"

record remote_coding =
  rc_tx :: "transmission option"
  rc_sched :: ue_scheduling_info
  rc_vars :: remote_vars
  rc_pdus :: "flex_rlc_pdu list"

section \<open>Retransmission\<close>

definition remote_retransmit :: "flex_cell_config \<Rightarrow> u8 \<Rightarrow> u16 \<Rightarrow> remote_coding \<Rightarrow> remote_coding option" where
  "remote_retransmit c harq_pid nb_available_rb co = do {
     let cell_id = cell_id16 c;
     let s = rc_sched co;
     mcs \<leftarrow> get_mcs s cell_id harq_pid;
     nb_rb \<leftarrow> get_nb_rbs_required s cell_id;
     dci_tbs \<leftarrow> get_TBS_DL (word_of_int mcs) nb_rb;
     let vars = (rc_vars co)\<lparr>rv_mcs := mcs\<rparr>;
     if nb_rb \<le> nb_available_rb
     then do {
       s \<leftarrow> give_groups c harq_pid nb_rb nb_available_rb s;
       ndi \<leftarrow> get_ndi s cell_id harq_pid;
       Some (co\<lparr>rc_tx := Some \<lparr>tx_nb_rb = nb_rb, tx_mcs = mcs, tx_tbs = dci_tbs, tx_ndi = ndi, tx_tpc = 1\<rparr>,
                rc_sched := s, rc_vars := vars\<rparr>) }
     else Some (co\<lparr>rc_tx := None, rc_vars := vars\<rparr>) }"

section \<open>The bytes requested from the logical channels\<close>

text \<open>\<open>sdu_length_total\<close> is assigned, not added to: it ends as the request to the last channel.\<close>

record remote_request =
  rr_header_len :: u8
  rr_sdu_length :: u16
  rr_pdus :: "flex_rlc_pdu list"

definition remote_request_channel :: "u32 \<Rightarrow> u8 \<Rightarrow> remote_request \<Rightarrow> flex_rlc_bsr \<Rightarrow> remote_request" where
  "remote_request_channel dci_tbs ta_len q b =
     (let header_len = rr_header_len q + 3;
          room = rlc_room dci_tbs ta_len header_len 0;
          queued = tx_queue_size b
      in if room > 0
         then if queued > 0
              then let data_to_request = min room queued;
                       tb = \<lparr>tb_logical_channel_id = rb_lc_id b, tb_size = data_to_request\<rparr>
                   in q\<lparr>rr_header_len := (if data_to_request < 128 then header_len - 1 else header_len),
                        rr_sdu_length := ucast data_to_request,
                        rr_pdus := rr_pdus q @ [[tb, tb]]\<rparr>
              else q\<lparr>rr_header_len := header_len - 3\<rparr>
         else q\<lparr>rr_header_len := header_len\<rparr>)"

definition remote_final_header_len :: "u8 \<Rightarrow> u8" where
  "remote_final_header_len header_len = (if header_len = 2 \<or> header_len = 3 then 1 else header_len - 1)"

section \<open>New transmission\<close>

definition remote_ta_update :: "flex_ue_stats_report \<Rightarrow> ue_scheduling_info \<Rightarrow> u8 \<times> ue_scheduling_info" where
  "remote_ta_update r s =
     (if si_ta_timer s = 0
      then (if us_pending_mac_ces r AND FLPCET_TA \<noteq> 0 then 2 else 0, set_ta_timer 20 s)
      else (0, decr_ta_timer s))"

definition remote_power_control :: "u16 \<Rightarrow> frame_t \<Rightarrow> subframe_t \<Rightarrow> flex_cell_stats_report \<Rightarrow> flex_ue_stats_report \<Rightarrow>
    ue_scheduling_info \<Rightarrow> int \<Rightarrow> int \<times> ue_scheduling_info \<times> int" where
  "remote_power_control cell_id target_frame target_subframe cell_report r s acc =
     (let target_rx_power = to_i16 (ni_p0_nominal_pucch (ce_noise_inter_report cell_report) + 10);
          sent = x10 (si_pucch_tpc_tx_frame s) (si_pucch_tpc_tx_subframe s)
      in if tpc_due sent (x10 target_frame target_subframe)
         then case find_pucch cell_id r of
                None \<Rightarrow> (1, s, acc)
              | Some d \<Rightarrow>
                  let normalized_rx_power = to_i16 (the (pd_p0_pucch_dbm d));
                      s = set_pucch_tpc_tx target_frame target_subframe s
                  in if normalized_rx_power > target_rx_power + 1 then (0, s, to_i32 (acc - 1))
                     else if normalized_rx_power < target_rx_power - 1 then (2, s, to_i32 (acc + 1))
                     else (1, s, acc)
         else (1, s, acc))"

definition remote_payload :: "flex_cell_config \<Rightarrow> frame_t \<Rightarrow> subframe_t \<Rightarrow> u8 \<Rightarrow> u16 \<Rightarrow> int \<Rightarrow> enb_rib_info \<Rightarrow>
    ue_mac_rib_info \<Rightarrow> remote_coding \<Rightarrow> remote_coding option" where
  "remote_payload c target_frame target_subframe harq_pid nb_available_rb wanted e u co = do {
     let cell_id = cell_id16 c;
     let mcs = rv_mcs (rc_vars co);
     (nb_rb, TBS) \<leftarrow> choose_blocks c mcs nb_available_rb wanted;
     s \<leftarrow> give_groups c harq_pid nb_rb nb_available_rb (rc_sched co);
     (mcs, TBS) \<leftarrow> choose_mcs nb_rb wanted mcs TBS;
     s \<leftarrow> set_mcs cell_id harq_pid mcs s;
     s \<leftarrow> set_nb_scheduled_rbs cell_id harq_pid nb_rb s;
     cell \<leftarrow> get_cell_mac_rib_info e cell_id;
     let (tpc, s, acc) = remote_power_control cell_id target_frame target_subframe (cm_cell_stats_report cell)
           (um_mac_stats_report u) s (rv_tpc_accumulated (rc_vars co));
     s \<leftarrow> toggle_ndi cell_id harq_pid s;
     ndi \<leftarrow> get_ndi s cell_id harq_pid;
     Some (co\<lparr>rc_tx := Some \<lparr>tx_nb_rb = nb_rb, tx_mcs = mcs, tx_tbs = ucast TBS, tx_ndi = ndi, tx_tpc = tpc\<rparr>,
              rc_sched := s, rc_vars := (rc_vars co)\<lparr>rv_mcs := mcs, rv_tpc_accumulated := acc\<rparr>\<rparr>) }"

definition remote_new_transmission :: "flex_cell_config \<Rightarrow> frame_t \<Rightarrow> subframe_t \<Rightarrow> u8 \<Rightarrow> u16 \<Rightarrow> enb_rib_info \<Rightarrow>
    ue_mac_rib_info \<Rightarrow> remote_coding \<Rightarrow> remote_coding option" where
  "remote_new_transmission c target_frame target_subframe harq_pid nb_available_rb e u co = do {
     let r = um_mac_stats_report u;
     let vars = rc_vars co;
     t \<leftarrow> get_TBS_DL (word_of_int (rv_mcs vars)) nb_available_rb;
     let dci_tbs = (ucast (ucast t :: u16) :: u32);
     let (ta_len, s) = remote_ta_update r (rc_sched co);
     let ce_flags = (if ta_len > 0 then rv_ce_flags vars OR FLPCET_TA else rv_ce_flags vars);
     let q = foldl (remote_request_channel dci_tbs ta_len)
           \<lparr>rr_header_len = rv_header_len vars, rr_sdu_length = 0, rr_pdus = []\<rparr> (us_rlc_report r);
     let header_len = (if rr_pdus q \<noteq> [] then remote_final_header_len (rr_header_len q) else rr_header_len q);
     let co = co\<lparr>rc_tx := None, rc_sched := s, rc_pdus := rr_pdus q,
                 rc_vars := vars\<lparr>rv_ce_flags := ce_flags, rv_header_len := header_len\<rparr>\<rparr>;
     if rr_pdus q \<noteq> []
     then remote_payload c target_frame target_subframe harq_pid nb_available_rb
            (uint (rr_sdu_length q) + uint header_len + uint ta_len) e u co
     else Some co }"

section \<open>One UE\<close>

definition remote_finish_ue :: "flex_cell_config \<Rightarrow> flex_ue_config \<Rightarrow> u8 \<Rightarrow> int \<Rightarrow> remote_coding \<Rightarrow> remote_state \<Rightarrow>
    remote_state option" where
  "remote_finish_ue c ue harq_pid round co st =
     (let cell_id = cell_id16 c; rnti = uc_rnti ue; vars = rc_vars co;
          sched = put_ue_sched rnti (rc_sched co) (rm_sched st)
      in case rc_tx co of
           None \<Rightarrow> Some (st\<lparr>rm_sched := sched, rm_vars := vars\<rparr>)
         | Some t \<Rightarrow> do {
             sched \<leftarrow> assign_CCE cell_id (2 ^ 2) sched;
             rballoc \<leftarrow> get_rballoc_sub_scheduled (rc_sched co) cell_id harq_pid;
             bitmap \<leftarrow> allocate_prbs_sub (uint (tx_nb_rb t)) rballoc c;
             let dci = \<lparr>dci_rnti = rnti, dci_res_alloc = 0, dci_rb_bitmap = bitmap, dci_rb_shift = 0,
                        dci_tbs_size = [tx_tbs t], dci_mcs = [word_of_int (tx_mcs t)], dci_ndi = [ucast (tx_ndi t)],
                        dci_rv = [word_of_int round], dci_aggr_level = 2, dci_format = FLDCIF_1,
                        dci_tpc = word_of_int (tx_tpc t), dci_harq_process = ucast harq_pid,
                        dci_vrb_format = FLVRBF_LOCALIZED\<rparr>;
             let data = \<lparr>dd_rnti = rnti, dd_dl_dci = Some dci, dd_ce_bitmap = [rv_ce_flags vars, rv_ce_flags vars],
                         dd_rlc_pdu = rc_pdus co, dd_serv_cell_index = ucast cell_id\<rparr>;
             Some (st\<lparr>rm_sched := sched, rm_vars := vars, rm_data := rm_data st @ [data]\<rparr>) })"

definition remote_transmit_ue :: "int \<Rightarrow> flex_cell_config \<Rightarrow> frame_t \<Rightarrow> subframe_t \<Rightarrow> enb_rib_info \<Rightarrow> flex_ue_config \<Rightarrow>
    ue_mac_rib_info \<Rightarrow> ue_scheduling_info \<Rightarrow> u16 \<Rightarrow> remote_state \<Rightarrow> remote_state option" where
  "remote_transmit_ue target_mcs c target_frame target_subframe e ue u s nb_available_rb st = do {
     let cell_id = cell_id16 c;
     pid \<leftarrow> get_next_available_harq u cell_id;
     let harq_pid = (word_of_int pid :: u8);
     round \<leftarrow> get_harq_round s cell_id pid;
     mcs \<leftarrow> csi_mcs c (um_mac_stats_report u) (rv_mcs (rm_vars st));
     let mcs = min mcs target_mcs;
     let co = \<lparr>rc_tx = None, rc_sched = s, rc_vars = (rm_vars st)\<lparr>rv_mcs := mcs\<rparr>, rc_pdus = []\<rparr>;
     status \<leftarrow> get_harq_stats u cell_id (unat harq_pid);
     co \<leftarrow> (if status = FLHS_NACK then remote_retransmit c harq_pid nb_available_rb co
            else remote_new_transmission c target_frame target_subframe harq_pid nb_available_rb e u co);
     remote_finish_ue c ue harq_pid round co st }"

definition remote_schedule_ue :: "int \<Rightarrow> flex_cell_config \<Rightarrow> frame_t \<Rightarrow> subframe_t \<Rightarrow> enb_rib_info \<Rightarrow> remote_state \<Rightarrow>
    flex_ue_config \<Rightarrow> remote_state option" where
  "remote_schedule_ue target_mcs c target_frame target_subframe e st ue =
     (if uc_pcell_carrier_index ue \<noteq> ucast (cell_id16 c) then Some st
      else case get_ue_mac_info e (uc_rnti ue) of
        None \<Rightarrow> Some st
      | Some u \<Rightarrow> do {
          s \<leftarrow> get_ue_scheduling_info (rm_sched st) (uc_rnti ue);
          nb_available_rb \<leftarrow> get_pre_nb_rbs_available s (cell_id16 c);
          if nb_available_rb = 0 then Some st
          else do {
            (infeasible, sched) \<leftarrow> CCE_allocation_infeasible c ue 2 target_subframe (rm_sched st);
            let st = st\<lparr>rm_sched := sched\<rparr>;
            if infeasible then Some st
            else do {
              avail \<leftarrow> has_available_harq u (cell_id16 c);
              if \<not> avail then Some st
              else remote_transmit_ue target_mcs c target_frame target_subframe e ue u s nb_available_rb st } } })"

section \<open>The task\<close>

definition remote_schedule_cell :: "int \<Rightarrow> frame_t \<Rightarrow> subframe_t \<Rightarrow> enb_rib_info \<Rightarrow> remote_state \<Rightarrow> flex_cell_config \<Rightarrow>
    remote_state option" where
  "remote_schedule_cell target_mcs target_frame target_subframe e st c =
     foldo (remote_schedule_ue target_mcs c target_frame target_subframe e) st (ue_configs e)"

definition remote_schedule_agent :: "(ue_stats list \<Rightarrow> ue_stats list) \<Rightarrow> int \<Rightarrow> frame_t \<Rightarrow> subframe_t \<Rightarrow> enb_rib_info \<Rightarrow>
    enb_scheduling_info \<Rightarrow> remote_vars \<Rightarrow> remote_state option" where
  "remote_schedule_agent srt target_mcs target_frame target_subframe e sched vars = do {
     sched \<leftarrow> foldo (prepare_cell srt e target_frame target_subframe) sched (cell_configs e);
     foldo (remote_schedule_cell target_mcs target_frame target_subframe e)
       \<lparr>rm_sched = sched, rm_vars = vars, rm_data = []\<rparr> (cell_configs e) }"

record remote_scheduler =
  rs_scheduling_info :: "(int \<times> enb_scheduling_info) list"
  rs_tpc_accumulated :: int

definition remote_agent :: "(ue_stats list \<Rightarrow> ue_stats list) \<Rightarrow> junk \<Rightarrow> int \<Rightarrow> 'q ext \<Rightarrow>
    (int \<times> enb_scheduling_info) list \<times> remote_vars \<times> 'q updater \<Rightarrow> int \<Rightarrow>
    ((int \<times> enb_scheduling_info) list \<times> remote_vars \<times> 'q updater) option" where
  "remote_agent srt jk target_mcs X = (\<lambda>(infos, vars, u) agent_id. do {
     e \<leftarrow> get_agent (ru_rib u) agent_id;
     let infos = ensure_scheduling_info jk agent_id infos;
     sched \<leftarrow> sm_find infos agent_id;
     let current_frame = en_current_frame e;
     let current_subframe = en_current_subframe e;
     let (target_frame, target_subframe) = target_time 0 current_frame current_subframe;
     if \<not> needs_scheduling sched current_frame current_subframe \<or> target_subframe = 0 \<or> target_subframe = 5
     then Some (infos, vars, u)
     else do {
       st \<leftarrow> remote_schedule_agent srt target_mcs target_frame target_subframe e sched vars;
       let infos = sm_put agent_id (set_last_checked current_frame current_subframe (rm_sched st)) infos;
       u \<leftarrow> (if rm_data st \<noteq> []
            then send_to X (dl_mac_config_out target_frame target_subframe (rm_data st)) agent_id u
            else Some u);
       Some (infos, rm_vars st, u) } })"

definition remote_run_periodic_task :: "(ue_stats list \<Rightarrow> ue_stats list) \<Rightarrow> junk \<Rightarrow> bool \<Rightarrow> 'q ext \<Rightarrow>
    remote_scheduler \<times> 'q updater \<Rightarrow> (remote_scheduler \<times> 'q updater) option" where
  "remote_run_periodic_task srt jk abstract_simulation X = (\<lambda>(app, u). do {
     let vars = \<lparr>rv_mcs = jk_mcs jk, rv_ce_flags = 0, rv_header_len = 0, rv_tpc_accumulated = rs_tpc_accumulated app\<rparr>;
     (infos, vars, u) \<leftarrow> foldo (remote_agent srt jk (target_dl_mcs abstract_simulation) X)
       (rs_scheduling_info app, vars, u) (get_available_agents (ru_rib u));
     Some (app\<lparr>rs_scheduling_info := infos, rs_tpc_accumulated := rv_tpc_accumulated vars\<rparr>, u) })"

end
