(* ===== verification/RemoteRound.thy ===== *)
theory RemoteRound
  imports RemoteScheduler RlcRequests
begin

text \<open>
  The older central scheduler is safe in the same sense as the flexible one: a round returns exactly when no two UEs
  tie in the sort of a cell, and the blocks it grants belong to one UE each. Its state is read as one of the flexible scheduler, so that the invariant of
  \<open>FlexRound\<close> serves for both.
\<close>

section \<open>One UE\<close>

definition as_flex :: "enb_rib_info \<Rightarrow> remote_state \<Rightarrow> flex_state" where
  "as_flex e st = \<lparr>fl_enb = e, fl_sched = rm_sched st,
     fl_vars = \<lparr>lv_aggregation = 2, lv_mcs = 0, lv_ce_flags = 0, lv_tpc_accumulated = 0\<rparr>, fl_data = rm_data st\<rparr>"

lemma as_flex_sel [simp]:
  "fl_enb (as_flex e st) = e" "fl_sched (as_flex e st) = rm_sched st" "fl_data (as_flex e st) = rm_data st"
  "lv_aggregation (fl_vars (as_flex e st)) = 2"
  by (simp_all add: as_flex_def)

lemma remote_retransmit_ok:
  assumes "ue_fits c (rc_sched co)" and "unat (cell_id16 c) < MAX_NUM_CC" and "unat p < MAX_NUM_HARQ"
  shows "\<exists>co'. remote_retransmit c p av co = Some co' \<and> same_groups c (rc_sched co) (rc_sched co')"
proof -
  note wf = ue_fitsD(2) [OF assms(1)]
  obtain mcs where mcs: "get_mcs (rc_sched co) (cell_id16 c) p = Some mcs" using reads_ok [OF wf assms(2,3)] by blast
  define n where "n = si_nb_rbs_required (rc_sched co) ! unat (cell_id16 c)"
  have n: "get_nb_rbs_required (rc_sched co) (cell_id16 c) = Some n" "unat n \<le> 110"
    using ue_read_total(1) [OF wf assms(2)] ue_fitsD(5) [OF assms(1)] by (simp_all add: n_def)
  obtain t where t: "get_TBS_DL (word_of_int mcs) n = Some t" using TBS_total [OF n(2)] by blast
  obtain s1 where s1: "give_groups c p n av (rc_sched co) = Some s1" "same_groups c (rc_sched co) s1"
    using give_groups_ok [OF assms] by blast
  have "ue_sched_wf s1" using s1(2) ue_fitsD(2) unfolding same_groups_def by blast
  then obtain ndi where "get_ndi s1 (cell_id16 c) p = Some ndi" using reads_ok(2) assms(2,3) by blast
  then show ?thesis
    using mcs n(1) t s1 assms(1) by (simp add: remote_retransmit_def Let_def same_groups_def)
qed

lemma remote_power_ok:
  "\<exists>tpc s' acc'. remote_power_control k f sf cr r s acc = (tpc, s', acc') \<and> (s' = s \<or> s' = set_pucch_tpc_tx f sf s)"
  by (auto simp: remote_power_control_def Let_def split: option.split)

lemma remote_payload_ok:
  assumes "ue_fits c (rc_sched co)" and "unat (cell_id16 c) < MAX_NUM_CC" and "unat p < MAX_NUM_HARQ"
    and "unat av \<le> 100" and "enb_wf e"
  shows "\<exists>co'. remote_payload c f sf p av wanted e u co = Some co' \<and> same_groups c (rc_sched co) (rc_sched co')"
proof -
  let ?k = "cell_id16 c" and ?m = "rv_mcs (rc_vars co)"
  obtain nb TBS s1 mcs t s2 s3 where steps: "choose_blocks c ?m av wanted = Some (nb, TBS)"
    "give_groups c p nb av (rc_sched co) = Some s1" "choose_mcs nb wanted ?m TBS = Some (mcs, t)"
    "set_mcs ?k p mcs s1 = Some s2" "set_nb_scheduled_rbs ?k p nb s2 = Some s3" "same_groups c (rc_sched co) s3"
    using payload_steps_ok [OF assms(1-4)] by blast
  obtain cell where cell: "get_cell_mac_rib_info e ?k = Some cell"
    using enb_wfD(3) [OF assms(5)] assms(2) by (simp add: get_cell_mac_rib_info_def arr_simps)
  obtain tpc s4 acc where pc: "remote_power_control ?k f sf (cm_cell_stats_report cell) (um_mac_stats_report u) s3
      (rv_tpc_accumulated (rc_vars co)) = (tpc, s4, acc)" "s4 = s3 \<or> s4 = set_pucch_tpc_tx f sf s3"
    using remote_power_ok by blast
  obtain s5 ndi where "toggle_ndi ?k p s4 = Some s5" "get_ndi s5 ?k p = Some ndi" "same_groups c (rc_sched co) s5"
    using toggle_ndi_ok [OF steps(6) assms(2,3) pc(2)] by blast
  then show ?thesis by (simp add: remote_payload_def Let_def steps(1-5) cell pc(1))
qed

lemma remote_ta_ok:
  "\<exists>n s'. remote_ta_update r s = (n, s') \<and> (s' = set_ta_timer 20 s \<or> s' = decr_ta_timer s)"
  by (simp add: remote_ta_update_def)

lemma remote_new_transmission_ok:
  assumes "ue_fits c (rc_sched co)" and "unat (cell_id16 c) < MAX_NUM_CC" and "unat p < MAX_NUM_HARQ"
    and "unat av \<le> 100" and "enb_wf e"
  shows "\<exists>co'. remote_new_transmission c f sf p av e u co = Some co' \<and> same_groups c (rc_sched co) (rc_sched co')"
proof -
  obtain t where t: "get_TBS_DL (word_of_int (rv_mcs (rc_vars co))) av = Some t" using TBS_total [of av] assms(4) by auto
  obtain n s1 where ta: "remote_ta_update (um_mac_stats_report u) (rc_sched co) = (n, s1)"
    and s1: "s1 = set_ta_timer 20 (rc_sched co) \<or> s1 = decr_ta_timer (rc_sched co)"
    using remote_ta_ok by blast
  have same: "same_groups c (rc_sched co) s1"
    using s1 fits_simple [OF assms(1)] assms(1) by (auto simp: same_groups_def set_ta_timer_def decr_ta_timer_def)
  then have fit1: "ue_fits c s1" by (simp add: same_groups_def)
  have pay: "\<exists>co'. remote_payload c f sf p av w e u co1 = Some co' \<and> same_groups c (rc_sched co) (rc_sched co')"
    if "rc_sched co1 = s1" for w co1
  proof -
    have fit: "ue_fits c (rc_sched co1)" using fit1 that by simp
    obtain co' where "remote_payload c f sf p av w e u co1 = Some co'" "same_groups c (rc_sched co1) (rc_sched co')"
      using remote_payload_ok [OF fit assms(2-5)] by blast
    then show ?thesis using same_groups_trans [OF same] that by auto
  qed
  show ?thesis
    using t ta same pay by (auto simp: remote_new_transmission_def Let_def)
qed

lemma remote_transmit_ok:
  assumes "cell_ready c e" and "sched_ready c R (rm_sched st)" and "cce_used c sf (rm_sched st) used"
    and "used < 2 ^ 29" and "uc_rnti ue \<in> R" and "ue \<in> set (cell_ues c e)"
    and "get_ue_mac_info e (uc_rnti ue) = Some u" and "ue_mac_wf u"
    and "get_ue_scheduling_info (rm_sched st) (uc_rnti ue) = Some s"
    and "has_available_harq u (cell_id16 c) = Some True" and "unat av \<le> 100"
  shows "\<exists>st'. remote_transmit_ue tm c f sf' e ue u s av st = Some st' \<and>
     ue_step c sf R used (uc_rnti ue) (as_flex e st) (as_flex e st')"
proof -
  let ?k = "cell_id16 c" and ?r = "uc_rnti ue"
  note cc = cell_readyD(1) [OF assms(1)]
  have wf: "enb_wf e" using assms(1) by (simp add: cell_ready_def)
  have fit: "ue_fits c s" using assms(2,5,9) sched_fitsD(4) unfolding sched_ready_def by blast
  obtain n where n: "get_next_available_harq u ?k = Some (int n)" "n < MAX_NUM_HARQ"
    using next_available_harq_active [OF assms(8) cc assms(10)] by metis
  define p where "p = (of_nat n :: u8)"
  have p: "unat p = n" "unat p < MAX_NUM_HARQ" using n(2) by (simp_all add: p_def unsigned_of_nat take_bit_nat_eq_self)
  obtain round where round: "get_harq_round s ?k (int n) = Some round"
    using ue_sched_dims [OF ue_fitsD(2) [OF fit]] cc n(2) by (simp add: get_harq_round_def arr_simps)
  obtain status where status: "get_harq_stats u ?k (unat p) = Some status"
    using assms(8) cc p(2) by (simp add: get_harq_stats_def arr_simps)
  have "csi_mcs c (um_mac_stats_report u) 0 \<noteq> None" using assms(1,6,7) by (auto simp: cell_ready_def)
  then obtain mcs where mcs: "csi_mcs c (um_mac_stats_report u) (rv_mcs (rm_vars st)) = Some mcs"
    using csi_mcs_total by blast
  define co where "co = \<lparr>rc_tx = None, rc_sched = s, rc_vars = (rm_vars st)\<lparr>rv_mcs := min mcs tm\<rparr>, rc_pdus = []\<rparr>"
  have co: "rc_sched co = s" "ue_fits c (rc_sched co)" using fit by (simp_all add: co_def)
  obtain co' where co': "(if status = FLHS_NACK then remote_retransmit c p av co
      else remote_new_transmission c f sf' p av e u co) = Some co'" "same_groups c s (rc_sched co')"
    using remote_retransmit_ok [OF co(2) cc p(2), of av] remote_new_transmission_ok [OF co(2) cc p(2) assms(11) wf, of f sf' u] co(1)
    by (cases "status = FLHS_NACK") auto
  have run: "remote_transmit_ue tm c f sf' e ue u s av st = remote_finish_ue c ue p round co' st"
    using round mcs status co'(1)
    by (cases "status = FLHS_NACK") (simp_all add: remote_transmit_ue_def Let_def n(1) flip: p_def co_def)
  have id: "unat (cc_cell_id c) < MAX_NUM_CC" using assms(1) by (simp add: cell_ready_def)
  show ?thesis
  proof (cases "rc_tx co'")
    case None
    then show ?thesis
      using write_back_ok [OF assms(2,3,5,9) co'(2)] by (simp add: run remote_finish_ue_def Let_def ue_step_def)
  next
    case (Some t)
    have four: "0 \<le> (4 :: int)" "(4 :: int) \<le> 8" by simp_all
    obtain sched' row w where g: "assign_CCE ?k 4 (put_ue_sched ?r (rc_sched co') (rm_sched st)) = Some sched'"
      "get_rballoc_sub_scheduled (rc_sched co') ?k p = Some row" "allocate_prbs_sub (uint (tx_nb_rb t)) row c = Some w"
      "sched_step c sf R used 8 ?r (rm_sched st) sched'"
      "\<And>d dci. dd_rnti d = ?r \<and> dd_dl_dci d = Some dci \<and> dci_rnti dci = ?r \<and> dci_rb_bitmap dci = w \<and>
         dd_serv_cell_index d = cc_cell_id c \<Longrightarrow> data_fits c sched' d"
      using grant_ok [OF assms(2-4) cc assms(5) p(2) assms(9) co'(2) four id, of "uint (tx_nb_rb t)"] by blast
    have fits: "data_fits c sched' d" if "dd_rnti d = ?r" "map_option dci_rnti (dd_dl_dci d) = Some ?r"
      "map_option dci_rb_bitmap (dd_dl_dci d) = Some w" "dd_serv_cell_index d = cc_cell_id c" for d
      using g(5) that by (cases "dd_dl_dci d") auto
    show ?thesis
      using Some g(1-4) cell_id_back [OF id]
      by (simp add: run remote_finish_ue_def Let_def ue_step_def) (rule fits; simp)
  qed
qed

lemma remote_ue_inv:
  assumes "flex_inv e sf T (as_flex e st)" and "cells_ready e" and "c \<in> set (cell_configs e)" and "ue \<in> set (ue_configs e)"
    and "served c ue \<subseteq> T"
  shows "\<exists>st'. remote_schedule_ue tm c f sf e st ue = Some st' \<and> flex_inv e sf (T - served c ue) (as_flex e st')"
proof (cases "uc_pcell_carrier_index ue = ucast (cell_id16 c)")
  case False
  then show ?thesis using assms(1) by (simp add: remote_schedule_ue_def served_def)
next
  case True
  let ?R = "cell_rntis c e" and ?k = "cell_id16 c" and ?r = "uc_rnti ue" and ?n = "8 * int (length (rm_data st))"
  have ready: "cell_ready c e" using assms(2,3) by (simp add: cells_ready_def)
  have sched: "sched_ready c ?R (rm_sched st)" using assms(1,3) by (auto simp: flex_inv_def cells_scheduled_def)
  obtain used where used: "cce_used c sf (rm_sched st) used" "used \<le> ?n"
    using assms(1,3) by (auto simp: flex_inv_def cells_scheduled_def)
  have ue: "ue \<in> set (cell_ues c e)" using True assms(4) by (simp add: cell_ues_def)
  then have r: "?r \<in> ?R" "?r \<in> T" using assms(5) True by (auto simp: cell_rntis_def served_def)
  note cc = cell_readyD(1) [OF ready]
  obtain u where u: "get_ue_mac_info e ?r = Some u" "ue_mac_wf u"
    using cell_ready_ue [OF ready cell_ues_sub [OF ue]] by blast
  obtain s where s: "get_ue_scheduling_info (rm_sched st) ?r = Some s"
    using rbg_exclD(2) [OF _ r(1)] sched by (auto simp: sched_ready_def)
  then have fit: "ue_fits c s" using sched r(1) sched_fitsD(4) unfolding sched_ready_def by blast
  let ?av = "si_pre_nb_rbs_available s ! unat ?k"
  have av: "get_pre_nb_rbs_available s ?k = Some ?av" "unat ?av \<le> 100"
    using ue_read_total(4) [OF ue_fitsD(2) [OF fit] cc] ue_fitsD(7) [OF fit] by simp_all
  have agg: "(2 :: u8) \<le> 3" by simp
  obtain b sched' where cce: "CCE_allocation_infeasible c ue 2 sf (rm_sched st) = Some (b, sched')"
    and step: "sched_step c sf ?R used 0 ?r (rm_sched st) sched'" and used': "cce_used c sf sched' used"
    and get: "get_ue_scheduling_info sched' = get_ue_scheduling_info (rm_sched st)"
    using CCE_step [OF sched used(1) agg ready] by metis
  let ?st = "st\<lparr>rm_sched := sched'\<rparr>"
  have sv: "served c ue = {?r}" using True by (simp add: served_def)
  have view: "(as_flex e st)\<lparr>fl_sched := sched', fl_vars := fl_vars (as_flex e st)\<rparr> = as_flex e ?st"
    by (simp add: as_flex_def)
  have inv: "flex_inv e sf (T - {?r}) (as_flex e st')" if "ue_step c sf ?R used ?r (as_flex e ?st) (as_flex e st')" for st'
    using ue_step_inv [OF assms(1,3) r assms(2), where sched = sched' and v = "fl_vars (as_flex e st)" and used = used] step used(2) that
    by (simp add: view)
  consider (none) "?av = 0" | (no) "?av \<noteq> 0" "b \<or> has_available_harq u ?k \<noteq> Some True"
    | (yes) "?av \<noteq> 0" "\<not> b" "has_available_harq u ?k = Some True" by blast
  then show ?thesis
  proof cases
    case none
    have "flex_inv e sf (T - {?r}) (as_flex e st)" by (rule flex_inv_fewer [OF assms(1)]) blast
    then show ?thesis using none True u(1) s av(1) sv by (auto simp: remote_schedule_ue_def)
  next
    case no
    then have run: "remote_schedule_ue tm c f sf e st ue = Some ?st"
      using True u(1) s av(1) cce has_available_harq_iff [OF u(2) cc]
      by (auto simp: remote_schedule_ue_def Let_def split: if_splits)
    have "ue_step c sf ?R used ?r (as_flex e ?st) (as_flex e ?st)"
      using step used' by (auto simp: ue_step_def sched_step_def keeps_groups_def)
    with inv run sv show ?thesis by auto
  next
    case yes
    have bound: "used < 2 ^ 29" using used(2) flex_inv_data_length [OF assms(1,3)] by simp
    obtain st' where st': "remote_transmit_ue tm c f sf e ue u s ?av ?st = Some st'"
      "ue_step c sf ?R used ?r (as_flex e ?st) (as_flex e st')"
      using remote_transmit_ok [of c e ?R ?st sf used ue u s ?av tm f sf] ready step used' bound r ue u s get yes(3) av(2)
      by (auto simp: sched_step_def)
    have "remote_schedule_ue tm c f sf e st ue = Some st'"
      using True u(1) s av(1) cce yes st'(1) by (simp add: remote_schedule_ue_def Let_def)
    with inv [OF st'(2)] sv show ?thesis by auto
  qed
qed

section \<open>A round\<close>

lemma remote_agent_untied: "remote_schedule_agent srt tm f sf e sched vars = Some st \<Longrightarrow> cells_untied e"
  by (auto simp: remote_schedule_agent_def cells_untied_def Option.bind_eq_Some_conv dest: prepare_cells_untied)

lemma remote_agent_inv:
  assumes "std_sort srt" and "cells_ready e" and "sched_ok sched" and "sf \<noteq> 0" and "sf \<noteq> 5" and "cells_untied e"
  shows "\<exists>st. remote_schedule_agent srt tm f sf e sched vars = Some st \<and> flex_inv e sf {} (as_flex e st)"
proof -
  obtain s1 where s1: "foldo (prepare_cell srt e f sf) sched (cell_configs e) = Some s1"
    "cells_scheduled e sf 0 (set (cell_configs e)) s1"
    using prepare_cells_ok [OF assms] by blast
  let ?st = "\<lparr>rm_sched = s1, rm_vars = vars, rm_data = []\<rparr>"
  have start: "flex_inv e sf UNIV (as_flex e ?st)" using assms(2) s1(2) by (simp add: flex_inv_def)
  have "\<exists>st. foldo (remote_schedule_cell tm f sf e) ?st (cell_configs e) = Some st \<and> flex_inv e sf {} (as_flex e st)"
    by (rule serve_cells [where I = "\<lambda>T st. flex_inv e sf T (as_flex e st)" and step = "\<lambda>c. remote_schedule_ue tm c f sf e",
          OF flex_inv_fewer _ _ assms(2) start])
       (auto simp: remote_schedule_cell_def intro: remote_ue_inv assms(2))
  then show ?thesis using s1(1) by (simp add: remote_schedule_agent_def)
qed

text \<open>
  C24: a round of the older central scheduler outside subframes 0 and 5, for an eNB with its one or two cells with
  parameters in range, returns exactly when no two UEs of the eNB tie in the sort of one of its cells. When it
  returns, the data elements are for distinct UEs, each for the cell its UE is configured in, and the resource block
  bitmaps of two elements of one cell are disjoint.
\<close>

theorem remote_round_exclusive:
  assumes "std_sort srt" and "cells_ready e" and "sched_ok sched" and "sf \<noteq> 0" and "sf \<noteq> 5"
  shows "(remote_schedule_agent srt (target_dl_mcs b) f sf e sched vars = None \<longleftrightarrow> \<not> cells_untied e) \<and>
     (\<forall>st. remote_schedule_agent srt (target_dl_mcs b) f sf e sched vars = Some st \<longrightarrow>
        sched_ok (rm_sched st) \<and> exclusive_data e (rm_data st))"
proof (cases "cells_untied e")
  case True
  obtain st where run: "remote_schedule_agent srt (target_dl_mcs b) f sf e sched vars = Some st"
    and inv: "flex_inv e sf {} (as_flex e st)"
    using remote_agent_inv [OF assms True] by blast
  show ?thesis using True run flex_inv_exclusive [OF inv assms(2)] by simp
next
  case False
  then show ?thesis
    using remote_agent_untied [of srt "target_dl_mcs b" f sf e sched vars]
    by (cases "remote_schedule_agent srt (target_dl_mcs b) f sf e sched vars") auto
qed

lemma remote_round_witness:
  "\<exists>st. remote_schedule_agent insertion_sort (target_dl_mcs False) 3 1 two_cell_enb (new_enb_scheduling_info zero_junk 1)
          \<lparr>rv_mcs = 0, rv_ce_flags = 0, rv_header_len = 0, rv_tpc_accumulated = 0\<rparr> = Some st \<and>
     distinct (map dd_rnti (rm_data st)) \<and>
     (\<lambda>d. (dd_rnti d, dd_serv_cell_index d)) ` set (rm_data st) \<subseteq> {(7, 0), (9, 1)}"
proof -
  note claim = remote_round_exclusive [OF ins.std_sort_axioms two_cells_ready sched_ok_new [of zero_junk 1], of 1 False 3
      "\<lparr>rv_mcs = 0, rv_ce_flags = 0, rv_header_len = 0, rv_tpc_accumulated = 0\<rparr>"]
  obtain st where "remote_schedule_agent insertion_sort (target_dl_mcs False) 3 1 two_cell_enb (new_enb_scheduling_info zero_junk 1)
      \<lparr>rv_mcs = 0, rv_ce_flags = 0, rv_header_len = 0, rv_tpc_accumulated = 0\<rparr> = Some st"
    using claim two_cells_untied by auto
  then show ?thesis using claim two_cells_rntis by (auto simp: exclusive_data_def list_all_iff)
qed

section \<open>The bytes of the last channel only\<close>

lemma remote_channel_fits:
  assumes "unat ta + unat (rr_header_len q) + 3 + unat (tx_queue_size b) < unat tbs" and "unat (rr_header_len q) \<le> 3"
    and "0 < unat (tx_queue_size b)" and "unat tbs < 2 ^ 16"
  shows "rr_sdu_length (remote_request_channel tbs ta q b) = ucast (tx_queue_size b)"
    and "requested (rr_pdus (remote_request_channel tbs ta q b)) = requested (rr_pdus q) + unat (tx_queue_size b)"
    and "unat (rr_header_len (remote_request_channel tbs ta q b)) \<le> unat (rr_header_len q) + 3"
proof -
  have h: "unat (rr_header_len q + 3) = unat (rr_header_len q) + 3"
    using assms(2) by (simp add: unat_word_ariths)
  have h2: "unat (rr_header_len q + 3 - 1) \<le> unat (rr_header_len q) + 3"
    by (subst unat_sub) (use h in \<open>simp_all add: word_le_nat_alt\<close>)
  let ?room = "rlc_room tbs ta (rr_header_len q + 3) 0"
  have room: "unat ?room = unat tbs - unat ta - (unat (rr_header_len q) + 3)"
    using rlc_room_value [of ta "rr_header_len q + 3" 0 tbs] assms(1) h by simp
  then have "0 < ?room" "tx_queue_size b \<le> ?room" "0 < tx_queue_size b"
    using assms(1,3) by (simp_all add: word_less_nat_alt word_le_nat_alt)
  then have "0 < ?room" "min ?room (tx_queue_size b) = tx_queue_size b" "0 < tx_queue_size b"
    by (simp_all add: min_absorb2)
  then show "rr_sdu_length (remote_request_channel tbs ta q b) = ucast (tx_queue_size b)"
    and "requested (rr_pdus (remote_request_channel tbs ta q b)) = requested (rr_pdus q) + unat (tx_queue_size b)"
    and "unat (rr_header_len (remote_request_channel tbs ta q b)) \<le> unat (rr_header_len q) + 3"
    using h h2 by (simp_all add: remote_request_channel_def Let_def requested_def)
qed

text \<open>
  The older scheduler sizes the transport block for the last channel alone: with two channels that both have
  data and fit, both requests are sent, but the length that blocks and coding scheme are chosen for is the second's.
\<close>

lemma remote_sizes_last_channel:
  assumes "unat ta + 6 + unat (tx_queue_size b1) < unat tbs" and "unat ta + 6 + unat (tx_queue_size b2) < unat tbs"
    and "0 < unat (tx_queue_size b1)" and "0 < unat (tx_queue_size b2)" and "unat tbs < 2 ^ 16"
  shows "\<exists>q. foldl (remote_request_channel tbs ta) \<lparr>rr_header_len = 0, rr_sdu_length = 0, rr_pdus = []\<rparr> [b1, b2] = q \<and>
     unat (rr_sdu_length q) = unat (tx_queue_size b2) \<and>
     requested (rr_pdus q) = unat (tx_queue_size b1) + unat (tx_queue_size b2)"
proof -
  let ?q0 = "\<lparr>rr_header_len = 0, rr_sdu_length = 0, rr_pdus = []\<rparr>"
  let ?q1 = "remote_request_channel tbs ta ?q0 b1"
  have 1: "requested (rr_pdus ?q1) = unat (tx_queue_size b1)" "unat (rr_header_len ?q1) \<le> 3"
    using remote_channel_fits [of ta ?q0 b1 tbs] assms by (simp_all add: requested_def)
  have room: "unat ta + unat (rr_header_len ?q1) + 3 + unat (tx_queue_size b2) < unat tbs" using 1(2) assms(2) by linarith
  note 2 = remote_channel_fits [OF room 1(2) assms(4,5)]
  have "unat (tx_queue_size b2) < 2 ^ 16" using assms(2,5) by linarith
  then have "unat (ucast (tx_queue_size b2) :: u16) = unat (tx_queue_size b2)"
    by (simp add: unsigned_ucast_eq take_bit_nat_eq_self)
  then show ?thesis using 2 1(1) by simp
qed

lemma remote_sizes_witness:
  "\<exists>q. foldl (remote_request_channel 309 0) \<lparr>rr_header_len = 0, rr_sdu_length = 0, rr_pdus = []\<rparr>
       [\<lparr>rb_lc_id = 1, rb_tx_queue_size = Some 300, rb_tx_queue_hol_delay = None\<rparr>,
        \<lparr>rb_lc_id = 3, rb_tx_queue_size = Some 200, rb_tx_queue_hol_delay = None\<rparr>] = q \<and>
     unat (rr_sdu_length q) = 200 \<and> requested (rr_pdus q) = 500"
  using remote_sizes_last_channel [of 0 "\<lparr>rb_lc_id = 1, rb_tx_queue_size = Some 300, rb_tx_queue_hol_delay = None\<rparr>" 309
      "\<lparr>rb_lc_id = 3, rb_tx_queue_size = Some 200, rb_tx_queue_hol_delay = None\<rparr>"]
  by (simp add: tx_queue_size_def get_u32_def)

end
