(* ===== verification/RemoteDelegation.thy ===== *)
theory RemoteDelegation
  imports RemoteScheduler Sending FlexRound
begin

text \<open>
  \<open>src/app/remote_scheduler_delegation.{h,cc}\<close>: the remote scheduler that gives the control of the UEs away. It
  schedules four subframes ahead until the first UE reports its channel; then it sends the default scheduler to that
  UE's agent and never runs again. The file is not in the build: it calls \<open>run_dlsch_scheduler_preprocessor\<close> without
  its class, a name nothing declares, which is the parameter \<open>prep\<close> of the definitions.
\<close>

section \<open>Loops that may return early\<close>

text \<open>A loop whose body may \<open>return\<close> from the function: the flag says that it did.\<close>

fun fold_until :: "('s \<Rightarrow> 'a \<Rightarrow> ('s \<times> bool) option) \<Rightarrow> 's \<Rightarrow> 'a list \<Rightarrow> ('s \<times> bool) option" where
  "fold_until f s [] = Some (s, False)"
| "fold_until f s (x # xs) = do { (s, stop) \<leftarrow> f s x; if stop then Some (s, True) else fold_until f s xs }"

text \<open>The iterations before the one that returns keep \<open>I\<close>; the one that returns, if any, starts from \<open>I\<close>.\<close>

lemma fold_until_cases:
  assumes "fold_until f s xs = Some (t, stop)" and "I s"
    and "\<And>s x s'. I s \<Longrightarrow> x \<in> set xs \<Longrightarrow> f s x = Some (s', False) \<Longrightarrow> I s'"
  shows "(\<not> stop \<and> I t) \<or> (stop \<and> (\<exists>s' x. x \<in> set xs \<and> I s' \<and> f s' x = Some (t, True)))"
  using assms
proof (induction xs arbitrary: s)
  case Nil
  then show ?case by simp
next
  case (Cons x xs)
  obtain s1 b where 1: "f s x = Some (s1, b)"
    using Cons.prems(1) by (cases "f s x") (auto simp: Option.bind_eq_Some_conv)
  show ?case
  proof (cases b)
    case True
    then show ?thesis using Cons.prems(1,2) 1 by auto
  next
    case False
    have t: "fold_until f s1 xs = Some (t, stop)" using Cons.prems(1) 1 False by simp
    have "I s1" using Cons.prems(3) [of s x s1] Cons.prems(2) 1 False by simp
    have "(\<not> stop \<and> I t) \<or> (stop \<and> (\<exists>s' y. y \<in> set xs \<and> I s' \<and> f s' y = Some (t, True)))"
      by (rule Cons.IH [OF t \<open>I s1\<close>]) (meson Cons.prems(3) list.set_intros(2))
    then show ?thesis by (meson list.set_intros(2))
  qed
qed

text \<open>An element whose iteration always returns ends the loop, wherever it stands.\<close>

lemma fold_until_stops:
  assumes "fold_until f s xs = Some (t, stop)" and "I s" and "x \<in> set xs"
    and "\<And>s y s'. I s \<Longrightarrow> y \<in> set xs \<Longrightarrow> y \<noteq> x \<Longrightarrow> f s y = Some (s', False) \<Longrightarrow> I s'"
    and "\<And>s s' b. I s \<Longrightarrow> f s x = Some (s', b) \<Longrightarrow> b"
  shows stop
  using assms(1-4)
proof (induction xs arbitrary: s)
  case Nil
  then show ?case by simp
next
  case (Cons y xs)
  obtain s1 b where 1: "f s y = Some (s1, b)"
    using Cons.prems(1) by (cases "f s y") (auto simp: Option.bind_eq_Some_conv)
  show ?case
  proof (cases b)
    case True
    then show ?thesis using Cons.prems(1) 1 by simp
  next
    case False
    then have ne: "y \<noteq> x" using assms(5) [of s s1 b] Cons.prems(2) 1 by auto
    have t: "fold_until f s1 xs = Some (t, stop)" using Cons.prems(1) 1 False by simp
    have s1: "I s1" using Cons.prems(4) [of s y s1] Cons.prems(2) 1 False ne by simp
    have x: "x \<in> set xs" using Cons.prems(3) ne by simp
    show ?thesis by (rule Cons.IH [OF t s1 x]) (meson Cons.prems(4) list.set_intros(2))
  qed
qed

section \<open>Handing the control over\<close>

text \<open>The file is read without a test: the length of a stream that is not good is -1, and \<open>new\<close> throws.\<close>

definition delegate_control :: "'q ext \<Rightarrow> host \<Rightarrow> int \<Rightarrow> 'q updater \<Rightarrow> 'q updater option" where
  "delegate_control X H agent_id u =
     (case ho_file H ''./libdefault_sched.so'' of
        None \<Rightarrow> None
      | Some payload \<Rightarrow> send_to X (delegation_out ''schedule_ue_spec_default'' payload) agent_id u)"

definition reports_channel :: "flex_cell_config \<Rightarrow> flex_ue_stats_report \<Rightarrow> bool" where
  "reports_channel c r = (case find_csi c r of None \<Rightarrow> False | Some i \<Rightarrow> p10csi_wb_cqi i \<le> 15)"

section \<open>New transmission\<close>

text \<open>
  As in \<open>remote_scheduler\<close>, with two differences: one byte more is requested from the first channel, and without a
  power offset the coding scheme is raised to 16 only.
\<close>

definition deleg_request_channel :: "u32 \<Rightarrow> u8 \<Rightarrow> remote_request \<Rightarrow> nat \<times> flex_rlc_bsr \<Rightarrow> remote_request" where
  "deleg_request_channel dci_tbs ta_len q = (\<lambda>(j, b).
     (let header_len = rr_header_len q + 3;
          room = rlc_room dci_tbs ta_len header_len 0;
          queued = tx_queue_size b
      in if room > 0
         then if queued > 0
              then let data_to_request = min room queued;
                       header_len = (if data_to_request < 128 then header_len - 1 else header_len);
                       data_to_request = (if j = 1 then data_to_request + 1 else data_to_request);
                       tb = \<lparr>tb_logical_channel_id = rb_lc_id b, tb_size = data_to_request\<rparr>
                   in q\<lparr>rr_header_len := header_len, rr_sdu_length := ucast data_to_request,
                        rr_pdus := rr_pdus q @ [[tb, tb]]\<rparr>
              else q\<lparr>rr_header_len := header_len - 3\<rparr>
         else q\<lparr>rr_header_len := header_len\<rparr>))"

definition mcs_limit :: "u16 \<Rightarrow> int \<Rightarrow> bool" where
  "mcs_limit dl_power_offset mcs_tmp \<longleftrightarrow>
     dl_power_offset > 0 \<and> mcs_tmp < 28 \<or> dl_power_offset = 0 \<and> mcs_tmp \<le> 15"

function deleg_raise_mcs :: "u16 \<Rightarrow> u16 \<Rightarrow> int \<Rightarrow> int \<Rightarrow> u16 \<Rightarrow> (int \<times> u16) option" where
  "deleg_raise_mcs off nb_rb wanted mcs_tmp TBS =
     (if uint TBS < wanted \<and> mcs_limit off mcs_tmp
      then do { t \<leftarrow> get_TBS_DL (word_of_int (mcs_tmp + 1)) nb_rb;
                deleg_raise_mcs off nb_rb wanted (mcs_tmp + 1) (ucast t) }
      else Some (mcs_tmp, TBS))"
  by pat_completeness auto
termination
  by (relation "measure (\<lambda>(pow, n, w, mcs, t). nat (28 - mcs))") (auto simp: mcs_limit_def)

declare deleg_raise_mcs.simps [simp del]

definition deleg_pucch :: "flex_cell_config \<Rightarrow> flex_ue_stats_report \<Rightarrow> flex_pucch_dbm option" where
  "deleg_pucch c r =
     List.find (\<lambda>d. pd_serv_cell_index d = cc_cell_id c \<and> pd_p0_pucch_dbm d \<noteq> None)
       (uc_pucch_dbm (us_ul_cqi_report r))"

definition deleg_power_control :: "flex_cell_config \<Rightarrow> frame_t \<Rightarrow> subframe_t \<Rightarrow> flex_cell_stats_report \<Rightarrow>
    flex_ue_stats_report \<Rightarrow> ue_scheduling_info \<Rightarrow> int \<Rightarrow> int \<times> ue_scheduling_info \<times> int" where
  "deleg_power_control c target_frame target_subframe cell_report r s acc =
     (let target_rx_power = to_i16 (ni_p0_nominal_pucch (ce_noise_inter_report cell_report) + 10);
          sent = x10 (si_pucch_tpc_tx_frame s) (si_pucch_tpc_tx_subframe s)
      in if tpc_due sent (x10 target_frame target_subframe)
         then case deleg_pucch c r of
                None \<Rightarrow> (1, s, acc)
              | Some d \<Rightarrow>
                  let normalized_rx_power = to_i16 (the (pd_p0_pucch_dbm d));
                      s = set_pucch_tpc_tx target_frame target_subframe s
                  in if normalized_rx_power > target_rx_power + 1 then (0, s, to_i32 (acc - 1))
                     else if normalized_rx_power < target_rx_power - 1 then (2, s, to_i32 (acc + 1))
                     else (1, s, acc)
         else (1, s, acc))"

definition deleg_payload :: "flex_cell_config \<Rightarrow> frame_t \<Rightarrow> subframe_t \<Rightarrow> u8 \<Rightarrow> u16 \<Rightarrow> int \<Rightarrow> enb_rib_info \<Rightarrow>
    ue_mac_rib_info \<Rightarrow> remote_coding \<Rightarrow> remote_coding option" where
  "deleg_payload c target_frame target_subframe harq_pid nb_available_rb wanted e u co = do {
     let cell_id = cell_id16 c;
     let mcs = rv_mcs (rc_vars co);
     (nb_rb, TBS) \<leftarrow> choose_blocks c mcs nb_available_rb wanted;
     available \<leftarrow> get_pre_nb_rbs_available (rc_sched co) cell_id;
     s \<leftarrow> give_groups c harq_pid nb_rb available (rc_sched co);
     (mcs, TBS) \<leftarrow> lower_mcs nb_rb wanted mcs TBS;
     off \<leftarrow> get_dl_power_offset s cell_id;
     (mcs, TBS) \<leftarrow> deleg_raise_mcs off nb_rb wanted mcs TBS;
     s \<leftarrow> set_mcs cell_id harq_pid mcs s;
     s \<leftarrow> set_nb_scheduled_rbs cell_id harq_pid nb_rb s;
     cell \<leftarrow> get_cell_mac_rib_info e cell_id;
     let (tpc, s, acc) = deleg_power_control c target_frame target_subframe (cm_cell_stats_report cell)
           (um_mac_stats_report u) s (rv_tpc_accumulated (rc_vars co));
     s \<leftarrow> toggle_ndi cell_id harq_pid s;
     ndi \<leftarrow> get_ndi s cell_id harq_pid;
     Some (co\<lparr>rc_tx := Some \<lparr>tx_nb_rb = nb_rb, tx_mcs = mcs, tx_tbs = ucast TBS, tx_ndi = ndi, tx_tpc = tpc\<rparr>,
              rc_sched := s, rc_vars := (rc_vars co)\<lparr>rv_mcs := mcs, rv_tpc_accumulated := acc\<rparr>\<rparr>) }"

definition deleg_new_transmission :: "flex_cell_config \<Rightarrow> frame_t \<Rightarrow> subframe_t \<Rightarrow> u8 \<Rightarrow> u16 \<Rightarrow> enb_rib_info \<Rightarrow>
    ue_mac_rib_info \<Rightarrow> remote_coding \<Rightarrow> remote_coding option" where
  "deleg_new_transmission c target_frame target_subframe harq_pid nb_available_rb e u co = do {
     let r = um_mac_stats_report u;
     let vars = rc_vars co;
     t \<leftarrow> get_TBS_DL (word_of_int (rv_mcs vars)) nb_available_rb;
     let dci_tbs = (ucast (ucast t :: u16) :: u32);
     let (ta_len, s) = remote_ta_update r (rc_sched co);
     let ce_flags = (if ta_len > 0 then rv_ce_flags vars OR FLPCET_TA else rv_ce_flags vars);
     let q = foldl (deleg_request_channel dci_tbs ta_len)
           \<lparr>rr_header_len = rv_header_len vars, rr_sdu_length = 0, rr_pdus = []\<rparr> (List.enumerate 1 (us_rlc_report r));
     let header_len = (if rr_pdus q \<noteq> [] then remote_final_header_len (rr_header_len q) else rr_header_len q);
     let co = co\<lparr>rc_tx := None, rc_sched := s, rc_pdus := rr_pdus q,
                 rc_vars := vars\<lparr>rv_ce_flags := ce_flags, rv_header_len := header_len\<rparr>\<rparr>;
     if rr_pdus q \<noteq> []
     then deleg_payload c target_frame target_subframe harq_pid nb_available_rb
            (uint (rr_sdu_length q) + uint header_len + uint ta_len) e u co
     else Some co }"

section \<open>One UE\<close>

definition deleg_finish_ue :: "flex_cell_config \<Rightarrow> flex_ue_config \<Rightarrow> u8 \<Rightarrow> u8 \<Rightarrow> remote_coding \<Rightarrow> remote_state \<Rightarrow>
    remote_state option" where
  "deleg_finish_ue c ue harq_pid round co st =
     (let rnti = uc_rnti ue; vars = rc_vars co; sched = put_ue_sched rnti (rc_sched co) (rm_sched st)
      in case rc_tx co of
           None \<Rightarrow> Some (st\<lparr>rm_sched := sched, rm_vars := vars\<rparr>)
         | Some t \<Rightarrow> do {
             rballoc \<leftarrow> get_rballoc_sub_scheduled (rc_sched co) (cell_id16 c) harq_pid;
             bitmap \<leftarrow> allocate_prbs_sub (uint (tx_nb_rb t)) rballoc c;
             let dci = \<lparr>dci_rnti = rnti, dci_res_alloc = 0, dci_rb_bitmap = bitmap, dci_rb_shift = 0,
                        dci_tbs_size = [tx_tbs t], dci_mcs = [word_of_int (tx_mcs t)], dci_ndi = [ucast (tx_ndi t)],
                        dci_rv = [ucast round], dci_aggr_level = 1, dci_format = FLDCIF_1,
                        dci_tpc = word_of_int (tx_tpc t), dci_harq_process = ucast harq_pid,
                        dci_vrb_format = FLVRBF_LOCALIZED\<rparr>;
             let data = \<lparr>dd_rnti = rnti, dd_dl_dci = Some dci, dd_ce_bitmap = [rv_ce_flags vars, rv_ce_flags vars],
                         dd_rlc_pdu = rc_pdus co, dd_serv_cell_index = cc_cell_id c\<rparr>;
             Some (st\<lparr>rm_sched := sched, rm_vars := vars, rm_data := rm_data st @ [data]\<rparr>) })"

definition deleg_transmit_ue :: "int \<Rightarrow> flex_cell_config \<Rightarrow> frame_t \<Rightarrow> subframe_t \<Rightarrow> enb_rib_info \<Rightarrow> flex_ue_config \<Rightarrow>
    ue_mac_rib_info \<Rightarrow> ue_scheduling_info \<Rightarrow> u16 \<Rightarrow> remote_state \<Rightarrow> remote_state option" where
  "deleg_transmit_ue target_mcs c target_frame target_subframe e ue u s nb_available_rb st = do {
     let cell_id = cell_id16 c;
     pid \<leftarrow> get_next_available_harq u cell_id;
     let harq_pid = (word_of_int pid :: u8);
     round \<leftarrow> get_harq_round s cell_id (uint harq_pid);
     mcs \<leftarrow> csi_mcs c (um_mac_stats_report u) (rv_mcs (rm_vars st));
     let mcs = min mcs target_mcs;
     let co = \<lparr>rc_tx = None, rc_sched = s, rc_vars = (rm_vars st)\<lparr>rv_mcs := mcs\<rparr>, rc_pdus = []\<rparr>;
     status \<leftarrow> get_harq_stats u cell_id (unat harq_pid);
     co \<leftarrow> (if status = FLHS_NACK then remote_retransmit c harq_pid nb_available_rb co
            else deleg_new_transmission c target_frame target_subframe harq_pid nb_available_rb e u co);
     deleg_finish_ue c ue harq_pid (word_of_int round) co st }"

text \<open>The flag of the result is the \<open>return\<close> of the whole task after the control is given away.\<close>

definition deleg_schedule_ue :: "int \<Rightarrow> 'q ext \<Rightarrow> host \<Rightarrow> int \<Rightarrow> flex_cell_config \<Rightarrow> frame_t \<Rightarrow> subframe_t \<Rightarrow>
    enb_rib_info \<Rightarrow> remote_state \<times> 'q updater \<Rightarrow> flex_ue_config \<Rightarrow> ((remote_state \<times> 'q updater) \<times> bool) option" where
  "deleg_schedule_ue target_mcs X H agent_id c target_frame target_subframe e = (\<lambda>(st, w) ue.
     (if uc_pcell_carrier_index ue \<noteq> cc_cell_id c then Some ((st, w), False)
      else case get_ue_mac_info e (uc_rnti ue) of
        None \<Rightarrow> Some ((st, w), False)
      | Some u \<Rightarrow>
          if reports_channel c (um_mac_stats_report u)
          then do { w \<leftarrow> delegate_control X H agent_id w; Some ((st, w), True) }
          else do {
            s \<leftarrow> get_ue_scheduling_info (rm_sched st) (uc_rnti ue);
            nb_available_rb \<leftarrow> get_pre_nb_rbs_available s (cell_id16 c);
            if nb_available_rb = 0 then Some ((st, w), False)
            else do {
              (infeasible, sched) \<leftarrow> CCE_allocation_infeasible c ue 1 target_subframe (rm_sched st);
              let st = st\<lparr>rm_sched := sched\<rparr>;
              if infeasible then Some ((st, w), False)
              else do {
                avail \<leftarrow> has_available_harq u (cell_id16 c);
                if \<not> avail then Some ((st, w), False)
                else do {
                  st \<leftarrow> deleg_transmit_ue target_mcs c target_frame target_subframe e ue u s nb_available_rb st;
                  Some ((st, w), False) } } } }))"

section \<open>The task\<close>

type_synonym preprocessor =
  "flex_cell_config \<Rightarrow> enb_rib_info \<Rightarrow> frame_t \<Rightarrow> subframe_t \<Rightarrow> enb_scheduling_info \<Rightarrow> enb_scheduling_info option"

definition deleg_prepare_cell :: "preprocessor \<Rightarrow> enb_rib_info \<Rightarrow> frame_t \<Rightarrow> subframe_t \<Rightarrow> enb_scheduling_info \<Rightarrow>
    flex_cell_config \<Rightarrow> enb_scheduling_info option" where
  "deleg_prepare_cell prep e target_frame target_subframe sched c = do {
     sched \<leftarrow> enb_start_new_scheduling_round target_subframe c sched;
     prep c e target_frame target_subframe sched }"

definition deleg_schedule_agent :: "preprocessor \<Rightarrow> int \<Rightarrow> 'q ext \<Rightarrow> host \<Rightarrow> int \<Rightarrow> frame_t \<Rightarrow> subframe_t \<Rightarrow>
    enb_rib_info \<Rightarrow> enb_scheduling_info \<Rightarrow> remote_vars \<Rightarrow> 'q updater \<Rightarrow>
    ((remote_state \<times> 'q updater) \<times> bool) option" where
  "deleg_schedule_agent prep target_mcs X H agent_id target_frame target_subframe e sched vars w = do {
     sched \<leftarrow> foldo (deleg_prepare_cell prep e target_frame target_subframe) sched (cell_configs e);
     fold_until (\<lambda>st c. fold_until (deleg_schedule_ue target_mcs X H agent_id c target_frame target_subframe e) st
         (ue_configs e))
       (\<lparr>rm_sched = sched, rm_vars = vars, rm_data = []\<rparr>, w) (cell_configs e) }"

record remote_scheduler_delegation =
  rd_scheduling_info :: "(int \<times> enb_scheduling_info) list"
  rd_delegation_enabled :: bool
  rd_tpc_accumulated :: int

definition new_remote_scheduler_delegation :: remote_scheduler_delegation where
  "new_remote_scheduler_delegation =
     \<lparr>rd_scheduling_info = [], rd_delegation_enabled = False, rd_tpc_accumulated = 0\<rparr>"

text \<open>\<open>schedule_ahead\<close> is 4; unlike in the other schedulers no whole frames are added.\<close>

definition deleg_target_time :: "frame_t \<Rightarrow> subframe_t \<Rightarrow> frame_t \<times> subframe_t" where
  "deleg_target_time current_frame current_subframe =
     (let target_subframe = word_of_int ((uint current_subframe + 4) mod 10)
      in (if target_subframe < current_subframe then word_of_int ((uint current_frame + 1) mod 1024) else current_frame,
          target_subframe))"

type_synonym 'q deleg_loop = "(int \<times> enb_scheduling_info) list \<times> remote_vars \<times> 'q updater"

definition deleg_agent :: "preprocessor \<Rightarrow> junk \<Rightarrow> int \<Rightarrow> 'q ext \<Rightarrow> host \<Rightarrow> 'q deleg_loop \<Rightarrow> int \<Rightarrow>
    ('q deleg_loop \<times> bool) option" where
  "deleg_agent prep jk target_mcs X H = (\<lambda>(infos, vars, w) agent_id. do {
     e \<leftarrow> get_agent (ru_rib w) agent_id;
     let infos = ensure_scheduling_info jk agent_id infos;
     sched \<leftarrow> sm_find infos agent_id;
     let current_frame = en_current_frame e;
     let current_subframe = en_current_subframe e;
     if \<not> needs_scheduling sched current_frame current_subframe then Some ((infos, vars, w), False)
     else do {
       let (target_frame, target_subframe) = deleg_target_time current_frame current_subframe;
       ((st, w), stop) \<leftarrow> deleg_schedule_agent prep target_mcs X H agent_id target_frame target_subframe e sched vars w;
       if stop then Some ((sm_put agent_id (rm_sched st) infos, rm_vars st, w), True)
       else do {
         let infos = sm_put agent_id (set_last_checked current_frame current_subframe (rm_sched st)) infos;
         w \<leftarrow> (if rm_data st \<noteq> []
              then send_to X (dl_mac_config_out target_frame target_subframe (rm_data st)) agent_id w
              else Some w);
         Some ((infos, rm_vars st, w), False) } } })"

definition deleg_run_periodic_task :: "preprocessor \<Rightarrow> junk \<Rightarrow> bool \<Rightarrow> 'q ext \<Rightarrow> host \<Rightarrow>
    remote_scheduler_delegation \<times> 'q updater \<Rightarrow> (remote_scheduler_delegation \<times> 'q updater) option" where
  "deleg_run_periodic_task prep jk abstract_simulation X H = (\<lambda>(app, w).
     (if rd_delegation_enabled app then Some (app, w)
      else do {
        let vars = \<lparr>rv_mcs = jk_mcs jk, rv_ce_flags = 0, rv_header_len = 0, rv_tpc_accumulated = rd_tpc_accumulated app\<rparr>;
        ((infos, vars, w), stop) \<leftarrow> fold_until (deleg_agent prep jk (target_dl_mcs abstract_simulation) X H)
          (rd_scheduling_info app, vars, w) (get_available_agents (ru_rib w));
        Some (app\<lparr>rd_scheduling_info := infos, rd_tpc_accumulated := rv_tpc_accumulated vars,
                  rd_delegation_enabled := stop\<rparr>, w) }))"

section \<open>What one run sends\<close>

text \<open>An assignment made without knowledge of the channel: the UE has not reported on a cell of the eNB.\<close>

definition blind :: "enb_rib_info \<Rightarrow> flex_dl_data \<Rightarrow> bool" where
  "blind e d \<longleftrightarrow> (\<exists>ue m c. ue \<in> set (ue_configs e) \<and> c \<in> set (cell_configs e) \<and> dd_rnti d = uc_rnti ue \<and>
     uc_pcell_carrier_index ue = cc_cell_id c \<and> get_ue_mac_info e (uc_rnti ue) = Some m \<and>
     find_csi c (um_mac_stats_report m) = None)"

text \<open>A CQI that does not cause the control to be given away is outside the table of coding schemes.\<close>

lemma csi_mcs_unreported:
  assumes "csi_mcs c r dflt = Some mcs" and "\<not> reports_channel c r"
  shows "find_csi c r = None"
proof (rule ccontr)
  assume "find_csi c r \<noteq> None"
  then obtain i where i: "find_csi c r = Some i" by auto
  then have "15 < p10csi_wb_cqi i" using assms(2) by (simp add: reports_channel_def not_le)
  then have "15 < unat (p10csi_wb_cqi i)" by (simp add: word_less_nat_alt)
  moreover have "unat (p10csi_wb_cqi i) < length cqi_to_mcs"
    using assms(1) i by (simp add: csi_mcs_def aget_def split: if_splits)
  moreover have "length cqi_to_mcs = 16" by (simp add: cqi_to_mcs_def)
  ultimately show False by simp
qed

lemma deleg_finish_data:
  assumes "deleg_finish_ue c ue p round co st = Some st'"
  obtains "rm_data st' = rm_data st" | d where "rm_data st' = rm_data st @ [d]" and "dd_rnti d = uc_rnti ue"
  using assms by (auto simp: deleg_finish_ue_def Let_def Option.bind_eq_Some_conv split: option.splits)

lemma deleg_transmit_data:
  assumes "deleg_transmit_ue tm c f sf e ue u s av st = Some st'"
    and "ue \<in> set (ue_configs e)" and "c \<in> set (cell_configs e)" and "uc_pcell_carrier_index ue = cc_cell_id c"
    and "get_ue_mac_info e (uc_rnti ue) = Some u" and "\<not> reports_channel c (um_mac_stats_report u)"
    and "list_all (blind e) (rm_data st)"
  shows "list_all (blind e) (rm_data st')"
proof -
  obtain mcs pid round co where mcs: "csi_mcs c (um_mac_stats_report u) (rv_mcs (rm_vars st)) = Some mcs"
    and fin: "deleg_finish_ue c ue pid round co st = Some st'"
    using assms(1) by (auto simp: deleg_transmit_ue_def Let_def Option.bind_eq_Some_conv)
  have "find_csi c (um_mac_stats_report u) = None" by (rule csi_mcs_unreported [OF mcs assms(6)])
  then have blind: "blind e d" if "dd_rnti d = uc_rnti ue" for d
    using that assms(2-5) by (auto simp: blind_def)
  show ?thesis
    using fin by (rule deleg_finish_data) (use assms(7) blind in auto)
qed

lemma deleg_ue_cases:
  assumes "deleg_schedule_ue tm X H a c f sf e (st, w) ue = Some ((st', w'), stop)"
    and "ue \<in> set (ue_configs e)" and "c \<in> set (cell_configs e)" and "list_all (blind e) (rm_data st)"
  shows "if stop then delegate_control X H a w = Some w' \<and>
           (\<exists>m. get_ue_mac_info e (uc_rnti ue) = Some m \<and> reports_channel c (um_mac_stats_report m))
         else w' = w \<and> list_all (blind e) (rm_data st')"
proof -
  have data: "list_all (blind e) (rm_data st')"
    if "deleg_transmit_ue tm c f sf e ue u s av (st\<lparr>rm_sched := sched\<rparr>) = Some st'"
      "uc_pcell_carrier_index ue = cc_cell_id c" "get_ue_mac_info e (uc_rnti ue) = Some u"
      "\<not> reports_channel c (um_mac_stats_report u)" for u s av sched
    by (rule deleg_transmit_data [OF that(1) assms(2,3) that(2-4)]) (use assms(4) in simp)
  show ?thesis
    using assms(1,4) data
    by (auto simp: deleg_schedule_ue_def Let_def Option.bind_eq_Some_conv split: option.splits if_splits)
qed

text \<open>What the first report found leads to: the whole state of the loops is left as it is, but for the message.\<close>

definition hands_over :: "'q ext \<Rightarrow> host \<Rightarrow> int \<Rightarrow> enb_rib_info \<Rightarrow> 'q updater \<Rightarrow> 'q updater \<Rightarrow> bool" where
  "hands_over X H a e w w' \<longleftrightarrow> delegate_control X H a w = Some w' \<and>
     (\<exists>ue m c. ue \<in> set (ue_configs e) \<and> c \<in> set (cell_configs e) \<and> get_ue_mac_info e (uc_rnti ue) = Some m \<and>
        reports_channel c (um_mac_stats_report m))"

lemma deleg_schedule_agent_cases:
  assumes "deleg_schedule_agent prep tm X H a f sf e sched vars w = Some ((st', w'), stop)"
  shows "if stop then hands_over X H a e w w' else w' = w \<and> list_all (blind e) (rm_data st')"
proof -
  let ?I = "\<lambda>s. snd s = w \<and> list_all (blind e) (rm_data (fst s))"
  let ?ue = "\<lambda>c. deleg_schedule_ue tm X H a c f sf e"
  have cell: "(\<not> b \<and> ?I s2) \<or> (b \<and> hands_over X H a e w (snd s2))"
    if c: "c \<in> set (cell_configs e)" and s1: "?I s1" and run: "fold_until (?ue c) s1 (ue_configs e) = Some (s2, b)"
    for c s1 s2 b
  proof -
    have step: "?I t'" if "?I t" "ue \<in> set (ue_configs e)" "?ue c t ue = Some (t', False)" for t ue t'
      using deleg_ue_cases [of tm X H a c f sf e "fst t" "snd t" ue "fst t'" "snd t'" False] that c by (cases t) auto
    have last: "hands_over X H a e w (snd t')" if "?I t" "ue \<in> set (ue_configs e)" "?ue c t ue = Some (t', True)" for t ue t'
      using deleg_ue_cases [of tm X H a c f sf e "fst t" "snd t" ue "fst t'" "snd t'" True] that c
      by (cases t) (auto simp: hands_over_def)
    have "(\<not> b \<and> ?I s2) \<or> (b \<and> (\<exists>s' x. x \<in> set (ue_configs e) \<and> ?I s' \<and> ?ue c s' x = Some (s2, True)))"
      using run s1 by (rule fold_until_cases [where I = ?I]) (erule (2) step)
    then show ?thesis using last by blast
  qed
  let ?cell = "\<lambda>st c. fold_until (?ue c) st (ue_configs e)"
  obtain s where loop: "fold_until ?cell (\<lparr>rm_sched = s, rm_vars = vars, rm_data = []\<rparr>, w) (cell_configs e) = Some ((st', w'), stop)"
    using assms by (auto simp: deleg_schedule_agent_def Option.bind_eq_Some_conv)
  have init: "?I (\<lparr>rm_sched = s, rm_vars = vars, rm_data = []\<rparr>, w)" by simp
  have step: "?I t'" if "?I t" "c \<in> set (cell_configs e)" "?cell t c = Some (t', False)" for t c t'
    using cell [OF that(2,1,3)] by simp
  have last: "hands_over X H a e w (snd t')" if "?I t" "c \<in> set (cell_configs e)" "?cell t c = Some (t', True)" for t c t'
    using cell [OF that(2,1,3)] by simp
  have "(\<not> stop \<and> ?I (st', w')) \<or>
      (stop \<and> (\<exists>s' c. c \<in> set (cell_configs e) \<and> ?I s' \<and> ?cell s' c = Some ((st', w'), True)))"
    using loop init by (rule fold_until_cases [where I = ?I]) (erule (2) step)
  then show ?thesis using last by fastforce
qed

definition grant_of :: "rib \<Rightarrow> int \<times> flexran_message \<Rightarrow> bool" where
  "grant_of rib = (\<lambda>(a, m). \<exists>e f sf data. get_agent rib a = Some e \<and> m = dl_mac_config_out f sf data \<and> data \<noteq> [] \<and>
     list_all (blind e) data)"

definition default_scheduler :: "host \<Rightarrow> flexran_message" where
  "default_scheduler H = delegation_out ''schedule_ue_spec_default'' (the (ho_file H ''./libdefault_sched.so''))"

definition has_report :: "rib \<Rightarrow> int \<Rightarrow> bool" where
  "has_report rib a \<longleftrightarrow> (\<exists>e ue m c. get_agent rib a = Some e \<and> ue \<in> set (ue_configs e) \<and> c \<in> set (cell_configs e) \<and>
     get_ue_mac_info e (uc_rnti ue) = Some m \<and> reports_channel c (um_mac_stats_report m))"

lemma hands_over_sends:
  assumes "ext_ok X contents" and "\<And>m. sendable X m" and "hands_over X H a e w w'" and "get_agent (ru_rib w) a = Some e"
  shows "sends X contents [(a, default_scheduler H)] w w' \<and> has_report (ru_rib w) a"
proof -
  obtain payload where p: "ho_file H ''./libdefault_sched.so'' = Some payload"
    "send_to X (delegation_out ''schedule_ue_spec_default'' payload) a w = Some w'"
    using assms(3) by (auto simp: hands_over_def delegate_control_def split: option.splits)
  then have "send_to X (default_scheduler H) a w = Some w'" by (simp add: default_scheduler_def)
  then have "sends X contents [(a, default_scheduler H)] w w'"
    using send_to_sends [OF assms(1,2), of "default_scheduler H" a w] by auto
  then show ?thesis using assms(3,4) unfolding hands_over_def has_report_def by blast
qed

lemma deleg_agent_cases:
  assumes "ext_ok X contents" and "\<And>m. sendable X m"
    and "deleg_agent prep jk tm X H (infos, vars, w) a = Some ((infos', vars', w'), stop)"
  shows "if stop then sends X contents [(a, default_scheduler H)] w w' \<and> has_report (ru_rib w) a
         else \<exists>ms. sends X contents ms w w' \<and> list_all (grant_of (ru_rib w)) ms"
proof -
  obtain e where e: "get_agent (ru_rib w) a = Some e"
    using assms(3) by (auto simp: deleg_agent_def Let_def Option.bind_eq_Some_conv)
  have quiet: "\<exists>ms. sends X contents ms w w \<and> list_all (grant_of (ru_rib w)) ms"
    using sends_none [of X contents w] by (intro exI [of _ "[]"]) simp
  have grant: "\<exists>ms. sends X contents ms w w' \<and> list_all (grant_of (ru_rib w)) ms"
    if "send_to X (dl_mac_config_out f sf data) a w = Some w'" "data \<noteq> []" "list_all (blind e) data" for f sf data
  proof -
    have "sends X contents [(a, dl_mac_config_out f sf data)] w w'"
      using send_to_sends [OF assms(1,2), of "dl_mac_config_out f sf data" a w] that(1) by auto
    moreover have "grant_of (ru_rib w) (a, dl_mac_config_out f sf data)" using e that(2,3) by (auto simp: grant_of_def)
    ultimately show ?thesis by (intro exI [of _ "[(a, dl_mac_config_out f sf data)]"]) simp
  qed
  obtain sched where s: "sm_find (ensure_scheduling_info jk a infos) a = Some sched"
    using assms(3) e by (auto simp: deleg_agent_def Let_def Option.bind_eq_Some_conv)
  obtain tf tsf where t: "deleg_target_time (en_current_frame e) (en_current_subframe e) = (tf, tsf)" by fastforce
  show ?thesis
  proof (cases "needs_scheduling sched (en_current_frame e) (en_current_subframe e)")
    case False
    then show ?thesis using assms(3) e s quiet by (auto simp: deleg_agent_def Let_def)
  next
    case True
    then obtain st w1 b where 1: "deleg_schedule_agent prep tm X H a tf tsf e sched vars w = Some ((st, w1), b)"
      and out: "if b then stop \<and> w' = w1 else \<not> stop \<and>
        (if rm_data st \<noteq> [] then send_to X (dl_mac_config_out tf tsf (rm_data st)) a w1 = Some w' else w' = w1)"
      using assms(3) e s t by (auto simp: deleg_agent_def Let_def Option.bind_eq_Some_conv split: if_splits)
    show ?thesis
    proof (cases b)
      case True
      then show ?thesis
        using deleg_schedule_agent_cases [OF 1] out hands_over_sends [OF assms(1,2) _ e] by simp
    next
      case False
      then show ?thesis
        using deleg_schedule_agent_cases [OF 1] out grant [of tf tsf "rm_data st"] quiet by (auto split: if_splits)
    qed
  qed
qed

section \<open>The control is given away once\<close>

text \<open>
  What one run pushes: assignments, and then, when it gives the control away, the default scheduler for one agent
  with a report. A run after that pushes nothing.
\<close>

lemma deleg_run_sends:
  assumes "ext_ok X contents" and "\<And>m. sendable X m"
    and "deleg_run_periodic_task prep jk sim X H (app, w) = Some (app', w')"
  shows "\<exists>ms. (if rd_delegation_enabled app then app' = app \<and> w' = w
      else if rd_delegation_enabled app'
      then \<exists>a. sends X contents (ms @ [(a, default_scheduler H)]) w w' \<and> has_report (ru_rib w) a
      else sends X contents ms w w') \<and> list_all (grant_of (ru_rib w)) ms"
proof (cases "rd_delegation_enabled app")
  case True
  then show ?thesis using assms(3) by (auto simp: deleg_run_periodic_task_def intro!: exI [of _ "[]"])
next
  case False
  let ?f = "deleg_agent prep jk (target_dl_mcs sim) X H"
  let ?v = "\<lparr>rv_mcs = jk_mcs jk, rv_ce_flags = 0, rv_header_len = 0, rv_tpc_accumulated = rd_tpc_accumulated app\<rparr>"
  obtain infos vars stop where run: "fold_until ?f (rd_scheduling_info app, ?v, w) (get_available_agents (ru_rib w)) =
      Some ((infos, vars, w'), stop)" and app': "rd_delegation_enabled app' = stop"
    using assms(3) False by (auto simp: deleg_run_periodic_task_def Let_def Option.bind_eq_Some_conv)
  let ?I = "\<lambda>(i, v, w1). \<exists>ms. sends X contents ms w w1 \<and> list_all (grant_of (ru_rib w)) ms"
  have init: "?I (rd_scheduling_info app, ?v, w)" using sends_none [of X contents w] by (auto intro: exI [of _ "[]"])
  have step: "?I t'" if t: "?I t" and f: "?f t a = Some (t', False)" for t a t'
  proof -
    obtain i v w1 i' v' w2 where tt: "t = (i, v, w1)" "t' = (i', v', w2)" by (cases t, cases t') auto
    obtain ms where ms: "sends X contents ms w w1" "list_all (grant_of (ru_rib w)) ms" using t tt by auto
    obtain ns where ns: "sends X contents ns w1 w2" "list_all (grant_of (ru_rib w1)) ns"
      using deleg_agent_cases [OF assms(1,2) f [unfolded tt]] by auto
    have "ru_rib w1 = ru_rib w" using ms(1) by (simp add: sends_def)
    then show ?thesis
      using sends_append [OF ms(1) ns(1)] ms(2) ns(2) by (auto simp: tt intro!: exI [of _ "ms @ ns"])
  qed
  have last: "\<exists>ms a. sends X contents (ms @ [(a, default_scheduler H)]) w w' \<and> has_report (ru_rib w) a \<and>
      list_all (grant_of (ru_rib w)) ms" if t: "?I t" and f: "?f t a = Some ((infos, vars, w'), True)" for t a
  proof -
    obtain i v w1 where tt: "t = (i, v, w1)" by (cases t) auto
    obtain ms where ms: "sends X contents ms w w1" "list_all (grant_of (ru_rib w)) ms" using t tt by auto
    have rib: "ru_rib w1 = ru_rib w" using ms(1) by (simp add: sends_def)
    show ?thesis
      using sends_append [OF ms(1)] deleg_agent_cases [OF assms(1,2) f [unfolded tt]] ms(2) rib by auto
  qed
  have "(\<not> stop \<and> ?I (infos, vars, w')) \<or>
      (stop \<and> (\<exists>s' a. a \<in> set (get_available_agents (ru_rib w)) \<and> ?I s' \<and> ?f s' a = Some ((infos, vars, w'), True)))"
    using run init by (rule fold_until_cases [where I = ?I]) (use step in blast)
  then consider (go) "\<not> stop" "?I (infos, vars, w')" | (over) s' a where stop "?I s'" "?f s' a = Some ((infos, vars, w'), True)"
    by blast
  then show ?thesis
  proof cases
    case go
    then show ?thesis using False app' by auto
  next
    case (over s' a)
    then obtain ms b where "sends X contents (ms @ [(b, default_scheduler H)]) w w' \<and> has_report (ru_rib w) b"
      "list_all (grant_of (ru_rib w)) ms" using last by blast
    then show ?thesis using False app' over(1) by auto
  qed
qed

text \<open>Runs of the task, each on the RIB of its time.\<close>

definition deleg_runs :: "preprocessor \<Rightarrow> junk \<Rightarrow> bool \<Rightarrow> 'q ext \<Rightarrow> host \<Rightarrow>
    remote_scheduler_delegation \<times> 'q updater \<Rightarrow> rib list \<Rightarrow> (remote_scheduler_delegation \<times> 'q updater) option" where
  "deleg_runs prep jk sim X H =
     foldo (\<lambda>(app, w) r. deleg_run_periodic_task prep jk sim X H (app, w\<lparr>ru_rib := r\<rparr>))"

text \<open>The output queue grows by \<open>ms\<close>, as far as it has room.\<close>

definition pushed :: "'q ext \<Rightarrow> ('q \<Rightarrow> tagged_message list) \<Rightarrow> (int \<times> flexran_message) list \<Rightarrow>
    'q updater \<Rightarrow> 'q updater \<Rightarrow> bool" where
  "pushed X contents ms u u' \<longleftrightarrow>
     out_contents contents u' = out_contents contents u @ take (room contents u) (map (wire X) ms)"

lemma pushed_append:
  assumes "pushed X contents ms u v" and "pushed X contents ns v w"
  shows "pushed X contents (ms @ ns) u w"
  using assms by (auto simp: pushed_def room_def min_def not_le)

lemma sends_pushed: "sends X contents ms (u\<lparr>ru_rib := r\<rparr>) v \<Longrightarrow> pushed X contents ms u v"
  by (simp add: sends_def pushed_def room_def)

lemma rib_of_at: "ru_rib (w\<lparr>ru_rib := r\<rparr>) = r"
  by simp

text \<open>
  C33: however the RIB changes between the runs of the task, all they push together are assignments, each of them for
  a UE that has not reported the channel of its cell, and after them at most one delegation: exactly one, for an
  agent with a report, if the control was given away in these runs, and nothing at all if it was before.
\<close>

theorem control_given_away_once:
  assumes "ext_ok X contents" and "\<And>m. sendable X m"
    and "deleg_runs prep jk sim X H (app, w) ribs = Some (app', w')"
  shows "\<exists>ms tail. pushed X contents (ms @ tail) w w' \<and> list_all (\<lambda>m. list_ex (\<lambda>r. grant_of r m) ribs) ms \<and>
     (if rd_delegation_enabled app then rd_delegation_enabled app' \<and> ms = [] \<and> tail = []
      else if rd_delegation_enabled app'
      then \<exists>a. tail = [(a, default_scheduler H)] \<and> list_ex (\<lambda>r. has_report r a) ribs
      else tail = [])"
  using assms(3)
proof (induction ribs arbitrary: app w)
  case Nil
  then show ?case
    by (intro exI [of _ "[]"]) (auto simp: deleg_runs_def pushed_def)
next
  case (Cons r ribs)
  obtain app1 w1 where 1: "deleg_run_periodic_task prep jk sim X H (app, w\<lparr>ru_rib := r\<rparr>) = Some (app1, w1)"
    and 2: "deleg_runs prep jk sim X H (app1, w1) ribs = Some (app', w')"
    using Cons.prems by (auto simp: deleg_runs_def Option.bind_eq_Some_conv)
  obtain ms tail where IH: "pushed X contents (ms @ tail) w1 w'" "list_all (\<lambda>m. list_ex (\<lambda>r. grant_of r m) ribs) ms"
    "if rd_delegation_enabled app1 then rd_delegation_enabled app' \<and> ms = [] \<and> tail = []
      else if rd_delegation_enabled app'
      then \<exists>a. tail = [(a, default_scheduler H)] \<and> list_ex (\<lambda>r. has_report r a) ribs else tail = []"
    using Cons.IH [OF 2] by blast
  obtain ns where ns: "if rd_delegation_enabled app then app1 = app \<and> w1 = w\<lparr>ru_rib := r\<rparr>
      else if rd_delegation_enabled app1
      then \<exists>a. sends X contents (ns @ [(a, default_scheduler H)]) (w\<lparr>ru_rib := r\<rparr>) w1 \<and> has_report r a
      else sends X contents ns (w\<lparr>ru_rib := r\<rparr>) w1" "list_all (grant_of r) ns"
    using deleg_run_sends [OF assms(1,2) 1] unfolding rib_of_at by blast
  have ns': "list_all (\<lambda>m. list_ex (\<lambda>r. grant_of r m) (r # ribs)) ns"
    using ns(2) by (auto simp: list_all_iff)
  have ms': "list_all (\<lambda>m. list_ex (\<lambda>r. grant_of r m) (r # ribs)) ms"
    using IH(2) by (auto simp: list_all_iff)
  consider (old) "rd_delegation_enabled app" | (now) "\<not> rd_delegation_enabled app" "rd_delegation_enabled app1"
    | (none) "\<not> rd_delegation_enabled app" "\<not> rd_delegation_enabled app1" by blast
  then show ?case
  proof cases
    case old
    then have "pushed X contents (ms @ tail) w w'" using IH(1) ns(1) by (simp add: pushed_def room_def)
    then show ?thesis using old IH(3) ns(1) by (intro exI [of _ "[]"]) auto
  next
    case now
    then obtain a where "sends X contents (ns @ [(a, default_scheduler H)]) (w\<lparr>ru_rib := r\<rparr>) w1" and r: "has_report r a"
      using ns(1) by auto
    then have a: "pushed X contents (ns @ [(a, default_scheduler H)]) w w1" using sends_pushed by blast
    then have "pushed X contents (ns @ [(a, default_scheduler H)]) w w'"
      using now IH(1,3) pushed_append [OF a, of "[]" w'] by simp
    then show ?thesis using now IH(3) r ns' by (intro exI [of _ ns] exI [of _ "[(a, default_scheduler H)]"]) auto
  next
    case none
    then have "pushed X contents (ns @ ms @ tail) w w'"
      using ns(1) pushed_append [OF sends_pushed IH(1)] by simp
    then show ?thesis using none IH(3) ns' ms' by (intro exI [of _ "ns @ ms"] exI [of _ tail]) auto
  qed
qed

section \<open>A report is enough\<close>

lemma deleg_ue_report:
  assumes "deleg_schedule_ue tm X H a c f sf e s ue = Some (s', b)" and "uc_pcell_carrier_index ue = cc_cell_id c"
    and "get_ue_mac_info e (uc_rnti ue) = Some m" and "reports_channel c (um_mac_stats_report m)"
  shows b
  using assms by (cases s) (auto simp: deleg_schedule_ue_def Option.bind_eq_Some_conv)

definition reporting_ue :: "enb_rib_info \<Rightarrow> flex_cell_config \<Rightarrow> flex_ue_config \<Rightarrow> bool" where
  "reporting_ue e c ue \<longleftrightarrow> c \<in> set (cell_configs e) \<and> ue \<in> set (ue_configs e) \<and>
     uc_pcell_carrier_index ue = cc_cell_id c \<and>
     (case get_ue_mac_info e (uc_rnti ue) of None \<Rightarrow> False | Some m \<Rightarrow> reports_channel c (um_mac_stats_report m))"

lemma deleg_schedule_agent_report:
  assumes "deleg_schedule_agent prep tm X H a f sf e sched vars w = Some (s', b)" and "reporting_ue e c ue"
  shows b
proof -
  obtain m where m: "c \<in> set (cell_configs e)" "ue \<in> set (ue_configs e)" "uc_pcell_carrier_index ue = cc_cell_id c"
    "get_ue_mac_info e (uc_rnti ue) = Some m" "reports_channel c (um_mac_stats_report m)"
    using assms(2) by (auto simp: reporting_ue_def split: option.splits)
  let ?ue = "\<lambda>c. deleg_schedule_ue tm X H a c f sf e"
  obtain s where loop: "fold_until (\<lambda>st c. fold_until (?ue c) st (ue_configs e)) s (cell_configs e) = Some (s', b)"
    using assms(1) by (auto simp: deleg_schedule_agent_def Option.bind_eq_Some_conv)
  have inner: "b1" if "fold_until (?ue c) t (ue_configs e) = Some (t', b1)" for t t' b1
    by (rule fold_until_stops [where I = "\<lambda>_. True", OF that _ m(2)])
       (simp_all, erule deleg_ue_report [OF _ m(3-5)])
  show ?thesis
    by (rule fold_until_stops [where I = "\<lambda>_. True", OF loop _ m(1)]) (simp_all, erule inner)
qed

text \<open>The record the run finds for an agent: the one it has, or a new one with whatever the memory held.\<close>

definition agent_info :: "junk \<Rightarrow> (int \<times> enb_scheduling_info) list \<Rightarrow> int \<Rightarrow> enb_scheduling_info" where
  "agent_info jk infos a = (case sm_find infos a of Some s \<Rightarrow> s | None \<Rightarrow> new_enb_scheduling_info jk a)"

lemma deleg_ensure_find:
  assumes "sm_inv infos"
  shows "sm_inv (ensure_scheduling_info jk a infos)"
    and "sm_find (ensure_scheduling_info jk a infos) a = Some (agent_info jk infos a)"
    and "b \<noteq> a \<Longrightarrow> sm_find (ensure_scheduling_info jk a infos) b = sm_find infos b"
  using assms by (auto simp: ensure_scheduling_info_def agent_info_def sm.inv_insert sm.find_insert split: option.split)

lemma deleg_agent_others:
  assumes "deleg_agent prep jk tm X H (infos, vars, w) b = Some ((infos', vars', w'), False)"
    and "sm_inv infos" and "b \<noteq> a"
  shows "sm_inv infos' \<and> sm_find infos' a = sm_find infos a \<and> ru_rib w' = ru_rib w"
proof -
  let ?infos = "ensure_scheduling_info jk b infos"
  obtain e where e: "get_agent (ru_rib w) b = Some e"
    using assms(1) by (auto simp: deleg_agent_def Let_def Option.bind_eq_Some_conv)
  note s = deleg_ensure_find(2) [OF assms(2), of jk b]
  obtain tf tsf where t: "deleg_target_time (en_current_frame e) (en_current_subframe e) = (tf, tsf)" by fastforce
  show ?thesis
  proof (cases "needs_scheduling (agent_info jk infos b) (en_current_frame e) (en_current_subframe e)")
    case False
    then show ?thesis
      using assms(1,3) e s deleg_ensure_find(1,3) [OF assms(2)] by (auto simp: deleg_agent_def Let_def)
  next
    case True
    then obtain st w1 where 1: "deleg_schedule_agent prep tm X H b tf tsf e (agent_info jk infos b) vars w = Some ((st, w1), False)"
      and infos': "infos' = sm_put b (set_last_checked (en_current_frame e) (en_current_subframe e) (rm_sched st)) ?infos"
      and out: "if rm_data st \<noteq> [] then send_to X (dl_mac_config_out tf tsf (rm_data st)) b w1 = Some w' else w' = w1"
      using assms(1) e s t by (auto simp: deleg_agent_def Let_def Option.bind_eq_Some_conv split: if_splits)
    have "w1 = w" using deleg_schedule_agent_cases [OF 1] by simp
    then have "ru_rib w' = ru_rib w" using out send_to_frame(1) by (auto split: if_splits)
    then show ?thesis
      using infos' deleg_ensure_find(1,3) [OF assms(2)] assms(3) by (auto simp: sm.inv_put sm.find_put)
  qed
qed

text \<open>
  C34: as soon as there is a report the control is given away: a run of the task that returns, at a time when some
  agent has a cell and a UE of that cell whose last report tells its channel, and that agent was not served in this
  subframe yet, ends with the control given away, whatever agents, cells and UEs come before this one.
\<close>

theorem report_gives_control_away:
  assumes "deleg_run_periodic_task prep jk sim X H (app, w) = Some (app', w')"
    and "rib_wf (ru_rib w)" and "sm_inv (rd_scheduling_info app)" and "get_agent (ru_rib w) a = Some e"
    and "needs_scheduling (agent_info jk (rd_scheduling_info app) a) (en_current_frame e) (en_current_subframe e)"
    and "reporting_ue e c ue"
  shows "rd_delegation_enabled app'"
proof (cases "rd_delegation_enabled app")
  case True
  then show ?thesis using assms(1) by (simp add: deleg_run_periodic_task_def)
next
  case False
  let ?f = "deleg_agent prep jk (target_dl_mcs sim) X H"
  let ?I = "\<lambda>(i, v, u). sm_inv i \<and> sm_find i a = sm_find (rd_scheduling_info app) a \<and> ru_rib u = ru_rib w"
  obtain s r stop where run: "fold_until ?f s (get_available_agents (ru_rib w)) = Some (r, stop)" and init: "?I s"
    and app': "rd_delegation_enabled app' = stop"
    using assms(1,3) False by (auto simp: deleg_run_periodic_task_def Let_def Option.bind_eq_Some_conv)
  have mem: "a \<in> set (get_available_agents (ru_rib w))"
    using assms(4) available_agents_iff [OF assms(2)] by (auto simp: has_eNB_config_entry_def get_agent_def)
  have step: "?I t'" if "?I t" "b \<noteq> a" "?f t b = Some (t', False)" for t b t'
    using that deleg_agent_others by (cases t, cases t') fastforce
  have b if t: "?I t" and f: "?f t a = Some (t', b)" for t t' b
  proof -
    obtain i v u where tt: "t = (i, v, u)" by (cases t) auto
    have i: "sm_inv i" "agent_info jk i a = agent_info jk (rd_scheduling_info app) a" "get_agent (ru_rib u) a = Some e"
      using t assms(4) by (auto simp: tt agent_info_def)
    obtain tf tsf where tm: "deleg_target_time (en_current_frame e) (en_current_subframe e) = (tf, tsf)" by fastforce
    show b
      using f i assms(5) tm deleg_ensure_find(2) [OF i(1), of jk a] deleg_schedule_agent_report [OF _ assms(6)]
      by (fastforce simp: tt deleg_agent_def Let_def Option.bind_eq_Some_conv split: if_splits)
  qed
  note this_stops = this
  have stop
    by (rule fold_until_stops [where I = ?I, OF run init mem]) (use step this_stops in blast)+
  then show ?thesis using app' by simp
qed

section \<open>An instance\<close>

text \<open>Two UEs of one cell, both with a report, at subframe 2; the preprocessor is the one the other schedulers use.\<close>

definition reporting_enb :: enb_rib_info where
  "reporting_enb = cell_enb\<lparr>en_current_subframe := 2\<rparr>"

definition reporting_updater :: "tagged_message list updater" where
  "reporting_updater = \<lparr>ru_rib = \<lparr>rb_eNB_configs = [(1, reporting_enb)], rb_pending_agents = {}\<rparr>, ru_net = new_network []\<rparr>"

definition seven_host :: host where
  "seven_host = \<lparr>ho_env = None, ho_file = \<lambda>_. Some [7]\<rparr>"

definition helper_prep :: preprocessor where
  "helper_prep c e f sf = run_dlsch_scheduler_preprocessor insertion_sort c e f sf"

lemma list_ext_sends: "sendable list_ext m"
  by (simp add: sendable_def list_ext_def split: flexran_body.split)

lemma reporting_untied: "untied sample_cell reporting_enb"
proof -
  have "collect_stats sample_cell reporting_enb 0 (ue_configs cell_enb) = collect_stats sample_cell cell_enb 0 (ue_configs cell_enb)"
    by (rule collect_stats_cong) (simp add: fun_eq_iff get_ue_mac_info_def reporting_enb_def)
  moreover have "ue_configs reporting_enb = ue_configs cell_enb" by (simp add: reporting_enb_def)
  moreover have "untied sample_cell cell_enb" using cell_enb_untied by (simp add: cells_untied_def cell_enb_def)
  ultimately show ?thesis by (simp add: untied_def)
qed

lemma reporting_run:
  obtains app' w' where "deleg_run_periodic_task helper_prep zero_junk False list_ext seven_host
      (new_remote_scheduler_delegation, reporting_updater) = Some (app', w')"
    and "get_agent (ru_rib reporting_updater) 1 = Some reporting_enb" and "rib_wf (ru_rib reporting_updater)"
    and "reporting_ue reporting_enb sample_cell (sample_ue_config 7)"
    and "needs_scheduling (agent_info zero_junk [] 1) (en_current_frame reporting_enb) (en_current_subframe reporting_enb)"
proof -
  let ?s0 = "new_enb_scheduling_info zero_junk 1"
  have ready: "cell_ready sample_cell reporting_enb"
    using cell_enb_ready
    by (simp add: cell_ready_def enb_wf_def ue_view_consistent_def cell_ues_def get_ue_mac_info_def reporting_enb_def)
  have six: "(6 :: subframe_t) \<noteq> 0" "(6 :: subframe_t) \<noteq> 5" by simp_all
  have id: "unat (cc_cell_id sample_cell) < MAX_NUM_CC" by (simp add: sample_cell_def)
  obtain s1 where s1: "enb_start_new_scheduling_round 6 sample_cell ?s0 = Some s1"
    "sched_fits sample_cell (cce_fields s1) {} s1"
    using start_round_ok [OF sched_ok_new id six] by blast
  obtain s2 where s2: "run_dlsch_scheduler_preprocessor insertion_sort sample_cell reporting_enb 3 6 s1 = Some s2"
    using preprocessor_fits [OF ins.std_sort_axioms ready s1(2) reporting_untied] by blast
  have cells: "cell_configs reporting_enb = [sample_cell]" by (simp add: reporting_enb_def cell_enb_def)
  have ues: "ue_configs reporting_enb = [sample_ue_config 7, sample_ue_config 9]"
    by (simp add: reporting_enb_def cell_enb_def loaded_enb_def)
  have mac: "get_ue_mac_info reporting_enb 7 = Some (sample_mac 100)" "reports_channel sample_cell (um_mac_stats_report (sample_mac 100))"
    by (simp_all add: reporting_enb_def cell_enb_def loaded_enb_def get_ue_mac_info_def sm_find_def reports_channel_def
        find_csi_def sample_cell_def sample_mac_def)
  have ue: "uc_pcell_carrier_index (sample_ue_config 7) = cc_cell_id sample_cell" "uc_rnti (sample_ue_config 7) = 7"
    by (simp_all add: sample_ue_config_def sample_cell_def)
  obtain w where w: "delegate_control list_ext seven_host 1 reporting_updater = Some w"
    using send_to_sends [OF ext_ok_list list_ext_sends, of "delegation_out ''schedule_ue_spec_default'' [7]" 1 reporting_updater]
    by (auto simp: delegate_control_def seven_host_def)
  have sched: "deleg_schedule_agent helper_prep tm list_ext seven_host 1 3 6 reporting_enb ?s0 v reporting_updater =
      Some ((\<lparr>rm_sched = s2, rm_vars = v, rm_data = []\<rparr>, w), True)" for tm v
    using s1(1) s2 mac ue w
    by (simp add: deleg_schedule_agent_def cells ues deleg_prepare_cell_def helper_prep_def deleg_schedule_ue_def)
  have agent: "get_agent (ru_rib reporting_updater) 1 = Some reporting_enb"
    by (simp add: get_agent_def reporting_updater_def sm_find_def)
  have needs: "needs_scheduling ?s0 (en_current_frame reporting_enb) (en_current_subframe reporting_enb)"
    by (simp add: needs_scheduling_def new_enb_scheduling_info_def zero_junk_def reporting_enb_def cell_enb_def)
  have time: "en_current_frame reporting_enb = 3" "en_current_subframe reporting_enb = 2"
    by (simp_all add: reporting_enb_def cell_enb_def)
  have find: "sm_find (ensure_scheduling_info zero_junk 1 []) 1 = Some ?s0"
    by (simp add: ensure_scheduling_info_def sm_find_def)
  have target: "deleg_target_time 3 2 = (3, 6)" by (simp add: deleg_target_time_def)
  have one: "\<exists>r. deleg_agent helper_prep zero_junk tm list_ext seven_host ([], v, reporting_updater) 1 = Some (r, True)" for tm v
    using agent needs find sched by (simp add: deleg_agent_def time target)
  have agents: "get_available_agents (ru_rib reporting_updater) = [1]"
    by (simp add: get_available_agents_def sm_keys_def reporting_updater_def)
  have "\<exists>r. deleg_run_periodic_task helper_prep zero_junk False list_ext seven_host
      (new_remote_scheduler_delegation, reporting_updater) = Some r"
    using one [of "target_dl_mcs False" "\<lparr>rv_mcs = jk_mcs zero_junk, rv_ce_flags = 0, rv_header_len = 0, rv_tpc_accumulated = 0\<rparr>"]
    by (auto simp: deleg_run_periodic_task_def Let_def new_remote_scheduler_delegation_def agents split: prod.split)
  then obtain app' w' where "deleg_run_periodic_task helper_prep zero_junk False list_ext seven_host
      (new_remote_scheduler_delegation, reporting_updater) = Some (app', w')" by auto
  moreover have "rib_wf (ru_rib reporting_updater)"
    using ready agent by (auto simp: rib_wf_def reporting_updater_def sm_inv_def get_agent_def sm_find_def cell_ready_def
        split: if_splits)
  moreover have "reporting_ue reporting_enb sample_cell (sample_ue_config 7)"
    using mac ue by (simp add: reporting_ue_def cells ues)
  moreover have "agent_info zero_junk [] 1 = ?s0" by (simp add: agent_info_def sm_find_def)
  ultimately show thesis using that agent needs by simp
qed

lemma gives_control_away_witness:
  "\<exists>app' w'. deleg_run_periodic_task helper_prep zero_junk False list_ext seven_host
      (new_remote_scheduler_delegation, reporting_updater) = Some (app', w') \<and> rd_delegation_enabled app'"
proof (rule reporting_run)
  fix app' w'
  assume run: "deleg_run_periodic_task helper_prep zero_junk False list_ext seven_host
      (new_remote_scheduler_delegation, reporting_updater) = Some (app', w')"
    and "get_agent (ru_rib reporting_updater) 1 = Some reporting_enb" and "rib_wf (ru_rib reporting_updater)"
    and "reporting_ue reporting_enb sample_cell (sample_ue_config 7)"
    and "needs_scheduling (agent_info zero_junk [] 1) (en_current_frame reporting_enb) (en_current_subframe reporting_enb)"
  then have "rd_delegation_enabled app'"
    using report_gives_control_away [OF run, of 1 reporting_enb sample_cell "sample_ue_config 7"]
    by (simp add: new_remote_scheduler_delegation_def sm.inv_empty)
  then show ?thesis using run by blast
qed

lemma given_away_once_witness:
  "\<exists>app' w' ms tail. deleg_runs helper_prep zero_junk False list_ext seven_host
      (new_remote_scheduler_delegation, reporting_updater) [ru_rib reporting_updater] = Some (app', w') \<and>
     nx_out_queue (ru_net w') = take queue_capacity (map (wire list_ext) (ms @ tail)) \<and> length tail \<le> 1"
proof (rule reporting_run)
  fix app' w'
  assume "deleg_run_periodic_task helper_prep zero_junk False list_ext seven_host
      (new_remote_scheduler_delegation, reporting_updater) = Some (app', w')"
  then have runs: "deleg_runs helper_prep zero_junk False list_ext seven_host
      (new_remote_scheduler_delegation, reporting_updater) [ru_rib reporting_updater] = Some (app', w')"
    by (simp add: deleg_runs_def reporting_updater_def)
  obtain ms tail where "pushed list_ext (\<lambda>q. q) (ms @ tail) reporting_updater w'"
    "if rd_delegation_enabled new_remote_scheduler_delegation then rd_delegation_enabled app' \<and> ms = [] \<and> tail = []
      else if rd_delegation_enabled app'
      then \<exists>a. tail = [(a, default_scheduler seven_host)] \<and> list_ex (\<lambda>r. has_report r a) [ru_rib reporting_updater]
      else tail = []"
    using control_given_away_once [OF ext_ok_list list_ext_sends runs] by blast
  then have "nx_out_queue (ru_net w') = take queue_capacity (map (wire list_ext) (ms @ tail))" "length tail \<le> 1"
    by (auto simp: pushed_def room_def reporting_updater_def new_network_def new_remote_scheduler_delegation_def split: if_splits)
  then show ?thesis using runs by blast
qed

end
