(* ===== verification/RtTask.thy ===== *)
theory RtTask
  imports Prelude "HOL-Library.Signed_Division" "HOL-Library.Log_Nat"
begin

text \<open>
  \<open>src/core/rt_task.{h,cc}\<close> and \<open>rt_wrapper.{h,cc}\<close>: the scheduling attributes every task of the controller is
  created with (with \<open>LOWLATENCY\<close>, the default), the clock, the absolute time a sleep ends and the latency target;
  and from \<open>src/core/task_manager.cc\<close> the timer that paces the cycles. The kernel's \<open>sched_get_priority_max\<close> and
  the results of the other system calls are parameters. Times are in nanoseconds and unbounded.
\<close>

section \<open>Scheduling attributes\<close>

datatype sched_policy = RR | DEADLINE | FIFO

type_synonym sched_time = "64 word"

record sched_attr =
  sa_size :: "32 word"
  sa_policy :: sched_policy
  sa_flags :: "64 word"
  sa_nice :: int
  sa_priority :: "32 word"
  sa_runtime :: sched_time
  sa_deadline :: sched_time
  sa_period :: sched_time

text \<open>\<open>sizeof(attr_)\<close>: four fields of 32 bits and four of 64, without padding.\<close>

definition sizeof_sched_attr :: "32 word" where
  "sizeof_sched_attr = 48"

definition set_scheduling_policy :: "(sched_policy \<Rightarrow> 32 word) \<Rightarrow> sched_policy \<Rightarrow> sched_time \<Rightarrow> sched_time \<Rightarrow> sched_time \<Rightarrow>
    sched_attr" where
  "set_scheduling_policy priority_max pol runtime deadline period =
     \<lparr>sa_size = sizeof_sched_attr,
      sa_policy = (if pol = RR then RR else if pol = FIFO then FIFO else DEADLINE),
      sa_flags = 0, sa_nice = 0,
      sa_priority = (if pol = RR then priority_max RR else if pol = FIFO then priority_max FIFO else 0),
      sa_runtime = runtime, sa_deadline = deadline, sa_period = period\<rparr>"

text \<open>The constructors of the tasks: task manager, network, updater and the applications.\<close>

definition task_manager_attr :: "(sched_policy \<Rightarrow> 32 word) \<Rightarrow> sched_attr" where
  "task_manager_attr pm = set_scheduling_policy pm FIFO 0 0 0"

definition async_xface_attr :: "(sched_policy \<Rightarrow> 32 word) \<Rightarrow> sched_attr" where
  "async_xface_attr pm = set_scheduling_policy pm FIFO 0 0 0"

definition rib_updater_attr :: "(sched_policy \<Rightarrow> 32 word) \<Rightarrow> sched_attr" where
  "rib_updater_attr pm = set_scheduling_policy pm DEADLINE (2 * 100 * 1000) (2 * 100 * 1000) (1000 * 1000)"

definition component_attr :: "(sched_policy \<Rightarrow> 32 word) \<Rightarrow> sched_attr" where
  "component_attr pm = set_scheduling_policy pm DEADLINE (8 * 100 * 1000) (8 * 100 * 1000) (1000 * 1000)"

text \<open>The interval of the task manager's timer.\<close>

definition cycle_interval :: int where
  "cycle_interval = 1000 * 1000"

text \<open>
  What \<open>sched_setattr(2)\<close> documents: a deadline task has no priority, at least 1024 ns of runtime and
  runtime, deadline and period in this order; the others have a priority in the range of their policy.
\<close>

definition kernel_accepts :: "(sched_policy \<Rightarrow> 32 word) \<Rightarrow> sched_attr \<Rightarrow> bool" where
  "kernel_accepts pm a \<longleftrightarrow> sa_size a = sizeof_sched_attr \<and> sa_flags a = 0 \<and>
     (if sa_policy a = DEADLINE
      then sa_priority a = 0 \<and> 1024 \<le> sa_runtime a \<and> sa_runtime a \<le> sa_deadline a \<and> sa_deadline a \<le> sa_period a \<and>
        sa_period a < 2 ^ 63
      else 1 \<le> sa_priority a \<and> sa_priority a \<le> pm (sa_policy a))"

lemma tasks_accepted:
  assumes "1 \<le> pm FIFO" and "1 \<le> pm RR"
  shows "list_all (kernel_accepts pm) [task_manager_attr pm, async_xface_attr pm, rib_updater_attr pm, component_attr pm]"
  using assms
  by (simp add: kernel_accepts_def task_manager_attr_def async_xface_attr_def rib_updater_attr_def component_attr_def
      set_scheduling_policy_def)

text \<open>
  The parameters are not checked: a deadline task created with the default arguments is refused by the kernel,
  and then runs with the policy of the thread that created it.
\<close>

lemma default_deadline_refused: "\<not> kernel_accepts pm (set_scheduling_policy pm DEADLINE 0 0 0)"
  by (simp add: kernel_accepts_def set_scheduling_policy_def)

text \<open>
  The start of a task's thread: the attributes are requested of the kernel, \<open>setattr\<close> being its answer, and on a
  failure the task runs all the same, as the thread that created it did (\<open>None\<close>). The second component is what is
  printed.
\<close>

definition execute_task :: "bool \<Rightarrow> (sched_attr \<Rightarrow> int) \<Rightarrow> sched_attr \<Rightarrow> sched_attr option \<times> string list" where
  "execute_task lowlatency setattr attr =
     (if lowlatency
      then if setattr attr < 0 then (None, [''sched_setattr failed'']) else (Some attr, [])
      else (None, []))"

lemma tasks_run_as_requested:
  assumes "1 \<le> pm FIFO" and "1 \<le> pm RR" and "\<And>a. setattr a = (if kernel_accepts pm a then 0 else - 1)"
  shows "map (execute_task True setattr) [task_manager_attr pm, async_xface_attr pm, rib_updater_attr pm, component_attr pm] =
    map (\<lambda>a. (Some a, [])) [task_manager_attr pm, async_xface_attr pm, rib_updater_attr pm, component_attr pm]"
  using tasks_accepted [OF assms(1,2)] by (simp add: execute_task_def assms(3))

text \<open>The updater runs before the applications, which run side by side: the two budgets fill one cycle exactly.\<close>

lemma budgets_fill_cycle:
  "uint (sa_runtime (rib_updater_attr pm)) + uint (sa_runtime (component_attr pm)) = cycle_interval"
  by (simp add: rib_updater_attr_def component_attr_def set_scheduling_policy_def cycle_interval_def)

section \<open>Sleeping\<close>

record timespec =
  tv_sec :: int
  tv_nsec :: int

definition in_ns :: "timespec \<Rightarrow> int" where
  "in_ns t = tv_sec t * 1000000000 + tv_nsec t"

definition valid_timespec :: "timespec \<Rightarrow> bool" where
  "valid_timespec t \<longleftrightarrow> 0 \<le> tv_nsec t \<and> tv_nsec t < 1000000000"

text \<open>The \<open>next\<close> that is passed to \<open>clock_nanosleep\<close>; division and remainder truncate.\<close>

definition sleep_until :: "timespec \<Rightarrow> int \<Rightarrow> timespec" where
  "sleep_until now x =
     (let sec = tv_sec now + x sdiv 1000000000;
          nsec = tv_nsec now + x smod 1000000000
      in if nsec \<ge> 1000000000 then \<lparr>tv_sec = sec + 1, tv_nsec = nsec - 1000000000\<rparr>
         else \<lparr>tv_sec = sec, tv_nsec = nsec\<rparr>)"

lemma sleep_until_exact: "in_ns (sleep_until now x) = in_ns now + x"
proof -
  have "x sdiv 1000000000 * 1000000000 + x smod 1000000000 = x" by (rule sdiv_mult_smod_eq)
  then show ?thesis by (simp add: sleep_until_def in_ns_def Let_def algebra_simps)
qed

lemma smod_nonneg: "0 \<le> x \<Longrightarrow> x smod 1000000000 = x mod (1000000000 :: int)"
  by (cases "x = 0") (simp_all add: signed_modulo_int_def signed_divide_int_def minus_div_mult_eq_mod sgn_if)

lemma sleep_until_valid:
  assumes "valid_timespec now" and "0 \<le> x"
  shows "valid_timespec (sleep_until now x)"
proof -
  have "0 \<le> x mod 1000000000" "x mod 1000000000 < 1000000000" by simp_all
  then show ?thesis using assms by (auto simp: sleep_until_def valid_timespec_def Let_def smod_nonneg)
qed

text \<open>A negative argument may leave a negative number of nanoseconds, which \<open>clock_nanosleep\<close> refuses.\<close>

lemma sleep_negative: "\<not> valid_timespec (sleep_until \<lparr>tv_sec = 5, tv_nsec = 0\<rparr> (- 1))"
  by (simp add: sleep_until_def valid_timespec_def signed_modulo_int_def signed_divide_int_def)

section \<open>The clock\<close>

text \<open>
  \<open>now.tv_sec*1e9+now.tv_nsec\<close> is computed in \<open>double\<close>: a product and a sum, each rounded to 53 bits, to the
  nearest and between two equally near to the even one.
\<close>

definition dropped_bits :: "int \<Rightarrow> nat" where
  "dropped_bits x = nat (bitlen x - 53)"

definition to_double :: "int \<Rightarrow> int" where
  "to_double x =
     (let k = dropped_bits x; q = x div 2 ^ k; r = x mod 2 ^ k
      in (q + (if 2 * r > 2 ^ k \<or> 2 * r = 2 ^ k \<and> odd q then 1 else 0)) * 2 ^ k)"

definition rt_get_time_ns :: "timespec \<Rightarrow> int" where
  "rt_get_time_ns now = to_double (to_double (tv_sec now * 1000000000) + tv_nsec now)"

lemma nearest: "0 \<le> n \<Longrightarrow> n < m \<Longrightarrow> d = m - n \<and> m \<le> 2 * n \<or> d = - n \<and> 2 * n \<le> m \<Longrightarrow> 2 * \<bar>d\<bar> \<le> (m :: int)"
  by (auto simp: abs_if)

lemma to_double_near: "2 * \<bar>to_double x - x\<bar> \<le> 2 ^ dropped_bits x"
proof -
  let ?m = "2 ^ dropped_bits x :: int"
  have x: "x = x div ?m * ?m + x mod ?m" by (rule div_mult_mod_eq [symmetric])
  have r: "0 \<le> x mod ?m" "x mod ?m < ?m" by simp_all
  have "to_double x - x = (if 2 * (x mod ?m) > ?m \<or> 2 * (x mod ?m) = ?m \<and> odd (x div ?m) then ?m - x mod ?m else - (x mod ?m))"
    by (subst (2) x) (simp add: to_double_def Let_def algebra_simps)
  then have "to_double x - x = ?m - x mod ?m \<and> ?m \<le> 2 * (x mod ?m) \<or> to_double x - x = - (x mod ?m) \<and> 2 * (x mod ?m) \<le> ?m"
    by (auto split: if_splits)
  with r show ?thesis by (rule nearest)
qed

lemma dropped_bits_le:
  assumes "0 \<le> x" and "x < 2 ^ (53 + n)"
  shows "dropped_bits x \<le> n"
proof (cases "x = 0")
  case False
  then have "2 ^ nat (bitlen x - 1) \<le> x" using assms(1) bitlen_bounds [of x] by simp
  then have "(2 :: int) ^ nat (bitlen x - 1) < 2 ^ (53 + n)" using assms(2) by linarith
  then have "nat (bitlen x - 1) < 53 + n" by (rule power_less_imp_less_exp [rotated]) simp
  then show ?thesis unfolding dropped_bits_def by linarith
qed (simp add: dropped_bits_def)

lemma to_double_error:
  assumes "0 \<le> x" and "x < 2 ^ (53 + Suc n)"
  shows "\<bar>to_double x - x\<bar> \<le> 2 ^ n"
proof -
  have "(2 :: int) ^ dropped_bits x \<le> 2 ^ Suc n" by (rule power_increasing [OF dropped_bits_le [OF assms]]) simp
  then show ?thesis using to_double_near [of x] by simp
qed

lemma to_double_exact: "0 \<le> x \<Longrightarrow> x < 2 ^ 53 \<Longrightarrow> to_double x = x"
  using dropped_bits_le [of x 0] by (simp add: to_double_def)

text \<open>The clock is exact for 104 days after the system starts, and is off by about a microsecond at most after that.\<close>

lemma clock_exact:
  assumes "valid_timespec now" and "0 \<le> tv_sec now" and "in_ns now < 2 ^ 53"
  shows "rt_get_time_ns now = in_ns now"
  using assms to_double_exact [of "tv_sec now * 1000000000"] to_double_exact [of "in_ns now"]
  by (simp add: rt_get_time_ns_def in_ns_def valid_timespec_def)

lemma clock_error:
  assumes "valid_timespec now" and "0 \<le> tv_sec now" and "in_ns now < 2 ^ 62"
  shows "\<bar>rt_get_time_ns now - in_ns now\<bar> \<le> 2 ^ 10"
proof -
  let ?s = "tv_sec now * 1000000000"
  have s: "0 \<le> ?s" "?s < 2 ^ (53 + Suc 8)" "0 \<le> tv_nsec now" "tv_nsec now < 1000000000"
    using assms by (simp_all add: in_ns_def valid_timespec_def)
  note 1 = to_double_error [OF s(1,2)]
  let ?t = "to_double ?s + tv_nsec now"
  have t: "0 \<le> ?t" "?t < 2 ^ (53 + Suc 9)"
  proof -
    have "(0 :: int) \<le> x div m + b" if "0 \<le> x" "0 < m" "0 \<le> (b :: int)" for x m b
      using that by (simp add: pos_imp_zdiv_nonneg_iff)
    then have "0 \<le> to_double ?s" using s(1) by (simp add: to_double_def Let_def)
    then show "0 \<le> ?t" using s(3) by simp
    show "?t < 2 ^ (53 + Suc 9)" using 1 s by simp
  qed
  show ?thesis using 1 to_double_error [OF t] by (simp add: rt_get_time_ns_def in_ns_def)
qed

section \<open>The latency target\<close>

text \<open>
  The results of \<open>stat\<close>, \<open>open\<close> and \<open>write\<close> (-1 for an error) are parameters; \<open>li_fd\<close> is the global
  \<open>latency_target_fd\<close>, whose file must stay open for the target to hold.
\<close>

record latency =
  li_fd :: int
  li_closed :: bool

definition set_latency_target :: "int \<Rightarrow> int \<Rightarrow> int \<Rightarrow> latency" where
  "set_latency_target stat_result open_result write_result =
     (if stat_result = 0
      then if open_result = - 1 then \<lparr>li_fd = open_result, li_closed = False\<rparr>
           else if write_result = 0 then \<lparr>li_fd = open_result, li_closed = True\<rparr>
           else \<lparr>li_fd = open_result, li_closed = False\<rparr>
      else \<lparr>li_fd = - 1, li_closed = False\<rparr>)"

text \<open>
  The test of the last call is for 0, where a failed \<open>write\<close> returns -1: the file then stays open although nothing
  was set, exactly as after a success.
\<close>

lemma write_error_unnoticed: "set_latency_target 0 fd (- 1) = set_latency_target 0 fd 4"
  by (simp add: set_latency_target_def)

section \<open>The pace of the cycles\<close>

text \<open>
  The timer of the task manager is set to the absolute time of one interval after the start of the clock and fires
  at every multiple of it. A \<open>read\<close> of its descriptor, as \<open>timerfd_create(2)\<close> documents, returns when it has fired
  since the last \<open>read\<close>, at once if it has already; however often it fired, one \<open>read\<close> takes it all. \<open>seen\<close> is how
  often it had fired by the last \<open>read\<close>. Without a descriptor the task manager does not wait.
\<close>

definition expirations :: "int \<Rightarrow> int" where
  "expirations now = now div cycle_interval"

definition wait_for_cycle :: "int \<Rightarrow> int \<Rightarrow> int \<Rightarrow> int \<times> int" where
  "wait_for_cycle sfd seen now =
     (if sfd > 0
      then if expirations now > seen then (now, expirations now)
           else ((seen + 1) * cycle_interval, seen + 1)
      else (now, seen))"

text \<open>The times at which the cycles start, given how long each of them takes.\<close>

fun cycle_starts :: "int \<Rightarrow> int \<Rightarrow> int \<Rightarrow> int list \<Rightarrow> int list" where
  "cycle_starts sfd seen now [] = [now]"
| "cycle_starts sfd seen now (d # ds) =
     (let (t, seen) = wait_for_cycle sfd seen (now + d) in now # cycle_starts sfd seen t ds)"

lemma wait_spec:
  assumes "sfd > 0" and "wait_for_cycle sfd seen now = (t, seen')"
  shows "t = max now ((seen + 1) * cycle_interval)" and "seen' = expirations t" and "seen < expirations t"
proof -
  have iff: "expirations now > seen \<longleftrightarrow> (seen + 1) * cycle_interval \<le> now"
  proof -
    let ?q = "now div cycle_interval"
    have i: "0 < cycle_interval" by (simp add: cycle_interval_def)
    have q: "?q * cycle_interval \<le> now" "now < (?q + 1) * cycle_interval"
      using div_mult_mod_eq [of now cycle_interval] pos_mod_bound [OF i, of now] pos_mod_sign [OF i, of now]
      unfolding distrib_right by linarith+
    show ?thesis
    proof
      assume "expirations now > seen"
      then have "(seen + 1) * cycle_interval \<le> ?q * cycle_interval" using i by (simp add: expirations_def)
      then show "(seen + 1) * cycle_interval \<le> now" using q(1) by linarith
    next
      assume "(seen + 1) * cycle_interval \<le> now"
      then have "(seen + 1) * cycle_interval < (?q + 1) * cycle_interval" using q(2) by linarith
      then show "expirations now > seen" using i by (simp add: expirations_def)
    qed
  qed
  show "t = max now ((seen + 1) * cycle_interval)" "seen' = expirations t" "seen < expirations t"
    using assms iff by (auto simp: wait_for_cycle_def expirations_def cycle_interval_def split: if_splits)
qed

lemma starts_increase:
  assumes "sfd > 0"
  shows "seen = expirations now \<Longrightarrow>
    sorted_wrt (\<lambda>t u. expirations t < expirations u) (cycle_starts sfd seen now ds) \<and>
    (\<forall>t \<in> set (cycle_starts sfd seen now ds). expirations now \<le> expirations t)"
proof (induction ds arbitrary: seen now)
  case (Cons d ds)
  obtain t s where w: "wait_for_cycle sfd seen (now + d) = (t, s)" by fastforce
  note spec = wait_spec [OF assms w]
  have after: "sorted_wrt (\<lambda>t u. expirations t < expirations u) (cycle_starts sfd s t ds)"
    "\<And>u. u \<in> set (cycle_starts sfd s t ds) \<Longrightarrow> expirations t \<le> expirations u"
    using Cons.IH [OF spec(2)] by blast+
  have "expirations now < expirations u" if "u \<in> set (cycle_starts sfd s t ds)" for u
    using after(2) [OF that] spec(3) Cons.prems by simp
  then show ?case using after(1) by (auto simp: w less_imp_le)
qed simp

text \<open>
  C35: with a timer, no two of the cycles after the first one start in the same millisecond of the clock, whatever the
  cycles take: a late cycle is followed by the next one at once, but missed ticks are not made up for. (The first
  cycle starts before the timer is read, and may share its millisecond with the second.)
\<close>

theorem one_cycle_per_tick:
  assumes "sfd > 0"
  shows "sorted_wrt (\<lambda>t u. expirations t < expirations u) (tl (cycle_starts sfd seen now ds))"
proof (cases ds)
  case (Cons d ds')
  obtain t s where w: "wait_for_cycle sfd seen (now + d) = (t, s)" by fastforce
  show ?thesis using starts_increase [OF assms wait_spec(2) [OF assms w], of ds'] Cons w by simp
qed simp

lemma one_cycle_witness:
  "sorted_wrt (\<lambda>t u. expirations t < expirations u) (tl (cycle_starts 3 0 5000000 [10, 20, 3000000, 5]))"
  using one_cycle_per_tick [of 3 0 5000000 "[10, 20, 3000000, 5]"] by simp

text \<open>Cycles that take less than the interval start at every multiple of it: there is no drift.\<close>

lemma no_drift:
  assumes "sfd > 0"
  shows "list_all (\<lambda>d. 0 \<le> d \<and> d < cycle_interval) ds \<Longrightarrow>
    cycle_starts sfd k (k * cycle_interval) ds = map (\<lambda>i. (k + int i) * cycle_interval) [0..<Suc (length ds)]"
proof (induction ds arbitrary: k)
  case (Cons d ds)
  then have d: "0 \<le> d" "d < cycle_interval" and ds: "list_all (\<lambda>d. 0 \<le> d \<and> d < cycle_interval) ds" by simp_all
  have "expirations (k * cycle_interval + d) = k" using d by (simp add: expirations_def cycle_interval_def)
  then have w: "wait_for_cycle sfd k (k * cycle_interval + d) = ((k + 1) * cycle_interval, k + 1)"
    using assms by (simp add: wait_for_cycle_def)
  have "[0..<Suc (length (d # ds))] = 0 # map Suc [0..<Suc (length ds)]"
    by (simp add: upt_conv_Cons map_Suc_upt del: upt_Suc)
  then have "map (\<lambda>i. (k + int i) * cycle_interval) [0..<Suc (length (d # ds))] =
      k * cycle_interval # map (\<lambda>i. (k + 1 + int i) * cycle_interval) [0..<Suc (length ds)]"
    by (simp del: upt_Suc add: comp_def ac_simps)
  then show ?case using Cons.IH [OF ds, of "k + 1"] by (simp add: w del: upt_Suc)
qed simp

text \<open>The first \<open>read\<close> returns at once, so the first two cycles may start in the same millisecond.\<close>

lemma first_cycles_together: "cycle_starts 3 0 5000000 [10, 20] = [5000000, 5000010, 6000000]"
  by (simp add: wait_for_cycle_def expirations_def cycle_interval_def)

text \<open>When the timer cannot be created the cycles follow each other without a pause.\<close>

lemma no_timer_no_pause: "wait_for_cycle (- 1) seen now = (now, seen)"
  by (simp add: wait_for_cycle_def)

end
