(* ===== verification/Spec2Isabelle.thy ===== *)
theory Spec2Isabelle
  imports CallThreads HttpServer HarqRounds RbgBudget LinkAdaptation DelegationManager EicicScheduler RemoteRound RemoteDelegation RtTask
begin

text \<open>
  A verification development for FlexRAN-RTC, the real-time controller that manages a set of base stations
  (eNBs) through agents. The sources are under \<open>src/src/\<close>; paths below are relative to it.

  \<^bold>\<open>The program.\<close> Agents connect over TCP. The network thread (\<open>network/\<close>) cuts their streams into messages and
  puts them into a queue. Once per millisecond the task manager (\<open>core/task_manager.cc\<close>) runs the RIB updater
  (\<open>rib/rib_updater.cc\<close>), which moves up to 350 messages into the RAN information base (\<open>rib/\<close>), and then the
  applications (\<open>app/\<close>), which read the RIB and send commands through the request manager and the output queue.
  Two applications are registered: the statistics manager and the flexible scheduler. REST calls (\<open>north_api/\<close>)
  switch the scheduler, push policies and read statistics.

  \<^bold>\<open>Theories and sources.\<close>
  \<^item> \<open>Prelude\<close>, \<open>StdMap\<close>: option monad, loops over lists (\<open>foldo\<close>), bounds-checked arrays, \<open>std::map\<close> as a sorted
    association list behind the locale of a finite map.
  \<^item> \<open>Protocol\<close> (\<open>MESSAGES/V2/\<close>): the messages, with the fields the controller reads or writes.
  \<^item> \<open>RibCommon\<close>, \<open>TbsTable\<close>: \<open>rib/rib_common\<close>; \<open>MacRib\<close>: \<open>rib/ue_mac_rib_info\<close>, \<open>rib/cell_mac_rib_info\<close>;
    \<open>EnbRib\<close>: \<open>rib/enb_rib_info\<close>; \<open>Rib\<close>: \<open>rib/rib\<close>; \<open>RibDump\<close>: the text dumps of these three.
  \<^item> \<open>WireFormat\<close>: \<open>network/protocol_message\<close>, \<open>network/tagged_message\<close>; \<open>Network\<close>: sessions, connection manager,
    the asynchronous interface and \<open>core/requests_manager\<close> as a step relation; \<open>Sending\<close>: what pushing a batch
    of messages does to the output queue.
  \<^item> \<open>RibUpdater\<close>: \<open>rib/rib_updater\<close>.
  \<^item> \<open>SchedPrimitives\<close>, \<open>CceAlloc\<close>: \<open>app/remote_scheduler_primitives\<close>; \<open>SchedInfo\<close>: \<open>app/ue_scheduling_info\<close> and
    \<open>app/enb_scheduling_info\<close>; \<open>SchedHelper\<close>: \<open>app/remote_scheduler_helper\<close>.
  \<^item> \<open>FlexUe\<close>, \<open>FlexScheduler\<close>: \<open>app/flexible_scheduler\<close>, the body of the UE loop and everything around it.
  \<^item> \<open>StatsManager\<close>: \<open>app/stats_manager\<close>; \<open>NorthApi\<close>: the handlers of \<open>north_api/\<close>; \<open>Controller\<close>: one cycle of
    \<open>core/task_manager.cc\<close> over the objects \<open>core/rt_controller.cc\<close> creates; \<open>Threads\<close>: the threads of its two
    applications, with one push to the output queue per step, in any order; \<open>CallThreads\<close>: with them the thread
    of a REST call.
  \<^item> \<open>RemoteScheduler\<close>, \<open>RemoteDelegation\<close>, \<open>EicicScheduler\<close>, \<open>DelegationManager\<close>: the applications that are
    examples and not registered.
  \<^item> \<open>RtTask\<close>: \<open>core/rt_task\<close>, the clock, sleep and latency target of \<open>core/rt_wrapper\<close>, and the timer that paces
    the cycles in \<open>core/task_manager.cc\<close>.
  \<^item> \<open>HttpServer\<close>: \<open>north_api/call_manager\<close>, the routes and what becomes of a request.
  \<^item> \<open>Startup\<close>: \<open>main\<close> in \<open>core/rt_controller.cc\<close>; \<open>System\<close>: the controller and its network thread together.
  A C++ class is a record whose fields carry the prefix of the class, a method a function on it; \<open>None\<close> is
  undefined behaviour or an uncaught exception (an index out of bounds, a null pointer, a failed \<open>CHECK\<close> of
  protobuf), so that a proof of \<open>Some\<close> is a proof that the code does not fault. Fixed-width integers are words
  where the code computes with them; an \<open>int\<close> that cannot overflow is an \<open>int\<close>. Writes through a \<open>shared_ptr\<close>
  put the changed record back into the map it came from.

  \<^bold>\<open>What the lemmas show.\<close>
  \<^item> The network: \<open>Network\<close> (delivery in order, the exact faults), \<open>WireFormat\<close> (round trip of the framing).
  \<^item> The RIB: \<open>EnbRib\<close> (consistency of the eNB state machine in all states reached while no UE is named twice),
    \<open>RibUpdater\<close> (refinement of one such machine per agent, isolation of the agents), \<open>MacRib\<close> (HARQ processes).
  \<^item> The preprocessor: \<open>SchedHelper\<close> (order of the UEs when none tie, demand), \<open>RbgExclusive\<close> (it returns exactly
    when no two UEs tie, and no group has two owners), \<open>RbgBudget\<close> (for 6, 25, 50 and 100 resource blocks: the
    blocks fit the bandwidth, a DCI covers its blocks), \<open>CceAlloc\<close> (control channel elements).
  \<^item> The central scheduler: \<open>UeBlocks\<close> and \<open>FlexCoding\<close> (each step of a transmission returns and keeps the
    groups), \<open>LinkAdaptation\<close> (blocks and coding scheme against reference searches), \<open>RlcRequests\<close> (bytes of the
    logical channels), \<open>CellFrame\<close> (scheduling a cell leaves the others alone), \<open>FlexRound\<close> (a round over the
    cells of an eNB and a run over all agents return exactly when no UEs tie, and are exclusive), \<open>HarqMemory\<close>
    and \<open>HarqRounds\<close> (what is remembered of a HARQ process over any number of rounds, that a retransmission
    repeats it and new data is announced), \<open>RemoteRound\<close> (the same for the older scheduler).
  \<^item> The whole: \<open>AgentSound\<close> and \<open>Controller\<close> (an invariant that updater, applications and calls all keep; the
    task manager's view of an application is the locale \<open>application\<close>), \<open>ControllerRuns\<close> (reachable states, ties
    as the only fault, progress), \<open>MessageTypes\<close> (the type of everything sent; a cycle and a call are paths of
    typed steps of the network interface), \<open>Threads\<close> and \<open>CallThreads\<close> (applications that overlap, and calls
    that overlap them, end as if they ran one after the other), \<open>System\<close> (the whole refines the network
    interface, so that each agent reads exactly the messages decided for it, each up to the 240000 bytes of a
    frame), \<open>RemoteDelegation\<close> (control is given away once, and as soon as there is a report), \<open>RtTask\<close> (the
    pace of the cycles, the error of the clock).

  \<^bold>\<open>Parameters.\<close> The record \<open>ext\<close> holds the lock-free queues, protobuf's parser and serialiser and the sockets;
    \<open>ext_ok\<close> states that the queues are bounded queues of capacity 10000, \<open>sendable\<close> that a message serialises,
    in less than \<open>2 ^ 31\<close> bytes. \<open>srt\<close> is \<open>std::sort\<close> with the contract of the locale \<open>std_sort\<close>, which holds
    only for lists on which \<open>compare_stats\<close> is strict (\<open>strict_on\<close>): on ties the call is undefined and the model
    faults. \<open>untied\<close>, \<open>cells_untied\<close>, \<open>agent_untied\<close>, \<open>due_untied\<close>, \<open>app_untied\<close>, \<open>cycle_untied\<close> and
    \<open>cycles_untied\<close> say this of a cell, an eNB, an agent of a run, a run, an application, a cycle and a sequence
    of cycles, each read off the state before it; two UEs of another cell, or two idle ones with the same
    channel quality, tie (\<open>idle_ues_tie\<close>). \<open>junk\<close> is what uninitialised variables hold; \<open>host\<close> is the
    environment variable and the files; \<open>debug\<close> is protobuf's \<open>DebugString\<close>; \<open>clk\<close> is the clock. \<open>list_ext\<close>, \<open>insertion_sort\<close> and
    \<open>zero_junk\<close> are instances.

  \<^bold>\<open>Bounds.\<close> The updater's loop recurses on its budget of 350 messages. The loops of the schedulers terminate by
    a measure, except the search for blocks (\<open>fit_blocks\<close>), a partial function that is proved to return for 110
    blocks or fewer, the size of the table. The theorems on rounds hold for eNBs with one or two cells,
    configured once with the numbers 0 and 1 (\<open>cells_in_range\<close>, \<open>cells_ready\<close>; the records have room for
    \<open>MAX_NUM_CC = 2\<close>) and parameters in range, and for reports with CQI and HARQ indices in range
    (\<open>event_in_range\<close>): outside them the code reads or writes outside its arrays.

  \<^bold>\<open>Not modelled.\<close> The libraries: Pistache beyond what \<open>HttpServer\<close> takes as a parameter, boost's parsing of the
  command line, the logger and what is written to it; system calls beyond their results. Threads overlap in
  \<open>Threads\<close> and \<open>CallThreads\<close>, where each step is taken as atomic; elsewhere a run of the updater, of an
  application or of a call is one step. A call for the statistics that overlaps a cycle, and any call that
  overlaps the updater of one, is a data race in the code and has no meaning there.
  \<open>app/remote_scheduler_delegation\<close> is not in the build and does not compile, because it calls the preprocessor
  by a name that nothing declares; that call is a parameter of its model.
\<close>

end
